(* ===== verification/Catalog_Prelude.thy ===== *)
theory Catalog_Prelude
  imports Main "HOL-Library.AList" "HOL-Library.Product_Lexorder"
begin

text \<open>
  The prelude of the development: the collections of rewrite rules the component
  theories share, the result type of the fallible operations, and generic facts on
  lists, options and association lists (the model of Python's insertion-ordered
  dictionaries).
\<close>

section \<open>Collections\<close>

named_theorems py_simps \<open>evaluation of the Python built-ins used by the code\<close>
named_theorems row_simps \<open>rows, queries and updates of the relational store\<close>
named_theorems frame_simps \<open>what an operation leaves unchanged\<close>

section \<open>First element satisfying a predicate\<close>

text \<open>
  Python's \<^verbatim>\<open>next((x for x in xs if p(x)), None)\<close> and a \<^verbatim>\<open>LIMIT 1\<close> query both are
  \<open>List.find\<close>.
\<close>

lemma find_Some_D: "List.find P xs = Some x \<Longrightarrow> P x \<and> x \<in> set xs"
  by (induction xs) (auto split: if_splits)

lemma find_None_iff_ball: "List.find P xs = None \<longleftrightarrow> (\<forall>x \<in> set xs. \<not> P x)"
  by (induction xs) auto

lemma find_append: "List.find P (xs @ ys) =
    (case List.find P xs of None \<Rightarrow> List.find P ys | Some x \<Rightarrow> Some x)"
  by (induction xs) auto

lemma find_map_comp: "List.find P (map f xs) = map_option f (List.find (P \<circ> f) xs)"
  by (induction xs) auto

section \<open>Maximum by key, first winner\<close>

text \<open>Python's \<^verbatim>\<open>max(xs, key=f)\<close>: the first element whose key is maximal.\<close>

fun py_max_key :: "('a \<Rightarrow> 'k::linorder) \<Rightarrow> 'a \<Rightarrow> 'a list \<Rightarrow> 'a" where
  "py_max_key f best [] = best"
| "py_max_key f best (x # xs) =
     py_max_key f (if f best < f x then x else best) xs"

lemma py_max_key_in: "py_max_key f b xs \<in> set (b # xs)"
  by (induction xs arbitrary: b) (simp, fastforce)

lemma py_max_key_ge_best: "f b \<le> f (py_max_key f b xs)"
proof (induction xs arbitrary: b)
  case (Cons x xs)
  show ?case
    using Cons[of x] Cons[of b] by (auto intro: order.trans less_imp_le)
qed simp

lemma py_max_key_ge: "x \<in> set (b # xs) \<Longrightarrow> f x \<le> f (py_max_key f b xs)"
proof (induction xs arbitrary: b)
  case (Cons y ys)
  then show ?case
    using py_max_key_ge_best[of f b ys] py_max_key_ge_best[of f y ys]
    by (auto intro: order.trans less_imp_le)
qed simp

section \<open>Association lists as insertion-ordered dictionaries\<close>

text \<open>
  \<open>AList.update\<close> replaces the value of a key in place or appends a new pair, exactly
  as assigning to a Python dictionary does; \<open>map fst\<close> lists the keys in order.
\<close>

lemma map_fst_update_mem: "map fst (AList.update k v xs) =
    (if k \<in> set (map fst xs) then map fst xs else map fst xs @ [k])"
  by (induction xs) auto

lemma map_of_update_same [simp]: "map_of (AList.update k v xs) k = Some v"
  by (simp add: update_conv)

lemma map_of_update_other [simp]:
  "j \<noteq> k \<Longrightarrow> map_of (AList.update k v xs) j = map_of xs j"
  by (simp add: update_conv)

lemma distinct_keys_update:
  "distinct (map fst xs) \<Longrightarrow> distinct (map fst (AList.update k v xs))"
  by (simp add: map_fst_update_mem)

section \<open>Lists of rows\<close>

lemma filter_map_id:
  "(\<And>x. x \<in> set xs \<Longrightarrow> P (f x) \<longleftrightarrow> P x) \<Longrightarrow> filter P (map f xs) = map f (filter P xs)"
  by (induction xs) auto

lemma distinct_map_filter_keep: "distinct (map f xs) \<Longrightarrow> distinct (map f (filter P xs))"
  by (induction xs) auto

lemma distinct_map_inj_eq:
  "distinct (map f xs) \<Longrightarrow> x \<in> set xs \<Longrightarrow> y \<in> set xs \<Longrightarrow> f x = f y \<Longrightarrow> x = y"
  by (auto simp: distinct_map inj_on_def)

lemma filter_key_distinct:
  "distinct (map f xs) \<Longrightarrow> filter (\<lambda>x. f x = k) xs =
     (case List.find (\<lambda>x. f x = k) xs of None \<Rightarrow> [] | Some x \<Rightarrow> [x])"
proof (induction xs)
  case (Cons x xs)
  show ?case
  proof (cases "f x = k")
    case True
    with Cons.prems have "filter (\<lambda>x. f x = k) xs = []"
      by (auto simp: filter_empty_conv image_iff)
    with True show ?thesis by simp
  next
    case False
    with Cons show ?thesis by simp
  qed
qed simp

lemma take_map_append_same:
  "length xs = n \<Longrightarrow> take n (xs @ ys) = xs"
  by simp

section \<open>Results of fallible operations\<close>

text \<open>\<open>Inl\<close> carries the error, \<open>Inr\<close> the value.\<close>

definition is_ok :: "'e + 'a \<Rightarrow> bool" where
  "is_ok r = (case r of Inl _ \<Rightarrow> False | Inr _ \<Rightarrow> True)"

lemma is_ok_simps [simp]: "is_ok (Inr x)" "\<not> is_ok (Inl e)"
  by (simp_all add: is_ok_def)

end
