(* ===== verification/Py_Strings.thy ===== *)
theory Py_Strings
  imports Catalog_Prelude
begin

text \<open>
  The operations of Python's \<^verbatim>\<open>str\<close> the modelled code uses. A Python string is
  modelled as a list of characters; the names, patterns and statements the code
  handles are ASCII text, on which \<open>py_lower\<close> is Python's \<^verbatim>\<open>lower()\<close>. A character
  beyond ASCII in a message of the code (the dash U+2014) is written as its UTF-8 bytes.
\<close>

section \<open>Prefixes, suffixes, substrings\<close>

definition startswith :: "string \<Rightarrow> string \<Rightarrow> bool" where
  "startswith s p = (take (length p) s = p)"

definition endswith :: "string \<Rightarrow> string \<Rightarrow> bool" where
  "endswith s p = (length p \<le> length s \<and> drop (length s - length p) s = p)"

fun contains :: "string \<Rightarrow> string \<Rightarrow> bool" where
  "contains p [] = (p = [])"
| "contains p (c # cs) = (startswith (c # cs) p \<or> contains p cs)"

lemma startswith_iff: "startswith s p \<longleftrightarrow> (\<exists>v. s = p @ v)"
  unfolding startswith_def by (metis append_eq_conv_conj append_take_drop_id)

lemma endswith_iff: "endswith s p \<longleftrightarrow> (\<exists>u. s = u @ p)"
proof
  assume "endswith s p"
  then have "s = take (length s - length p) s @ p"
    unfolding endswith_def by (metis append_take_drop_id)
  then show "\<exists>u. s = u @ p" by blast
qed (auto simp: endswith_def)

lemma startswith_refl [simp]: "startswith s s"
  by (simp add: startswith_def)

lemma startswith_Nil [simp]: "startswith s []"
  by (simp add: startswith_def)

lemma contains_iff: "contains p s \<longleftrightarrow> (\<exists>u v. s = u @ p @ v)"
proof (induction s)
  case (Cons c cs)
  have "(\<exists>u v. c # cs = u @ p @ v) \<longleftrightarrow>
      (\<exists>v. c # cs = p @ v) \<or> (\<exists>u v. cs = u @ p @ v)"
    by (metis append_Cons append_Nil list.sel(3) neq_Nil_conv)
  with Cons show ?case by (simp add: startswith_iff)
qed auto

lemma contains_refl [simp]: "contains s s"
  unfolding contains_iff by (metis append_Nil append_Nil2)

lemma contains_append: "contains p (u @ p @ v)"
  by (auto simp: contains_iff)

lemma startswith_contains: "startswith s p \<Longrightarrow> contains p s"
  unfolding contains_iff startswith_iff by (metis append_Nil)

lemma contains_trans: "contains a b \<Longrightarrow> contains b c \<Longrightarrow> contains a c"
  unfolding contains_iff by (metis append_assoc)

section \<open>The word-boundary search\<close>

text \<open>
  \<^verbatim>\<open>re.search(r"(?<![a-z0-9])" + re.escape(pat) + r"(?![a-z0-9])", s)\<close>: the pattern
  occurs at a place whose neighbours are not in \<^verbatim>\<open>[a-z0-9]\<close> (the underscore is a
  boundary). The first argument says whether the character just before is in the class.
\<close>

definition ident_char :: "char \<Rightarrow> bool" where
  "ident_char c = (c \<in> set ''abcdefghijklmnopqrstuvwxyz0123456789'')"

definition starts_ident :: "string \<Rightarrow> bool" where
  "starts_ident s = (case s of [] \<Rightarrow> False | c # _ \<Rightarrow> ident_char c)"

fun word_search_from :: "bool \<Rightarrow> string \<Rightarrow> string \<Rightarrow> bool" where
  "word_search_from b p [] = (\<not> b \<and> p = [])"
| "word_search_from b p (c # cs) =
     ((\<not> b \<and> startswith (c # cs) p \<and> \<not> starts_ident (drop (length p) (c # cs)))
      \<or> word_search_from (ident_char c) p cs)"

definition word_search :: "string \<Rightarrow> string \<Rightarrow> bool" where
  "word_search p s = word_search_from False p s"

definition ends_ident :: "bool \<Rightarrow> string \<Rightarrow> bool" where
  "ends_ident b u = (if u = [] then b else ident_char (last u))"

lemma ends_ident_Cons: "ends_ident b (c # u) = ends_ident (ident_char c) u"
  by (simp add: ends_ident_def)

lemma ends_ident_Nil [simp]: "ends_ident b [] = b"
  by (simp add: ends_ident_def)

lemma word_search_from_iff:
  "word_search_from b p s \<longleftrightarrow>
     (\<exists>u v. s = u @ p @ v \<and> \<not> ends_ident b u \<and> \<not> starts_ident v)"
proof (induction s arbitrary: b)
  case Nil
  show ?case by (auto simp: starts_ident_def)
next
  case (Cons c cs)
  have head: "(\<not> b \<and> startswith (c # cs) p \<and> \<not> starts_ident (drop (length p) (c # cs))) \<longleftrightarrow>
      (\<exists>v. c # cs = p @ v \<and> \<not> b \<and> \<not> starts_ident v)"
    by (auto simp: startswith_iff)
  have split: "(\<exists>u v. c # cs = u @ p @ v \<and> \<not> ends_ident b u \<and> \<not> starts_ident v) \<longleftrightarrow>
      (\<exists>v. c # cs = p @ v \<and> \<not> b \<and> \<not> starts_ident v) \<or>
      (\<exists>u v. cs = u @ p @ v \<and> \<not> ends_ident (ident_char c) u \<and> \<not> starts_ident v)"
    (is "?L \<longleftrightarrow> ?H \<or> ?T")
  proof
    assume ?L
    then obtain u v where uv: "c # cs = u @ p @ v" "\<not> ends_ident b u" "\<not> starts_ident v"
      by blast
    show "?H \<or> ?T"
    proof (cases u)
      case Nil
      with uv show ?thesis by auto
    next
      case (Cons d u')
      with uv show ?thesis by (auto simp: ends_ident_Cons)
    qed
  next
    assume "?H \<or> ?T"
    then show ?L
    proof
      assume ?H
      then show ?L by (metis append_Nil ends_ident_Nil)
    next
      assume ?T
      then show ?L by (metis append_Cons ends_ident_Cons)
    qed
  qed
  show ?case by (simp only: word_search_from.simps head Cons.IH split)
qed

lemma word_search_contains: "word_search p s \<Longrightarrow> contains p s"
  by (auto simp: word_search_def word_search_from_iff contains_iff)

lemma word_search_self [simp]: "word_search s s"
  unfolding word_search_def word_search_from_iff
  by (rule exI[of _ "[]"], rule exI[of _ "[]"]) (simp add: starts_ident_def)

section \<open>Case, replacement, splitting\<close>

definition lower_char :: "char \<Rightarrow> char" where
  "lower_char c = (if 65 \<le> (of_char c :: nat) \<and> (of_char c :: nat) \<le> 90
     then char_of ((of_char c :: nat) + 32) else c)"

definition py_lower :: "string \<Rightarrow> string" where
  "py_lower s = map lower_char s"

definition replace_char :: "char \<Rightarrow> char \<Rightarrow> string \<Rightarrow> string" where
  "replace_char a b s = map (\<lambda>c. if c = a then b else c) s"

fun py_replace :: "string \<Rightarrow> string \<Rightarrow> string \<Rightarrow> string" where
  "py_replace old new [] = []"
| "py_replace old new (c # cs) =
     (if old \<noteq> [] \<and> startswith (c # cs) old
      then new @ py_replace old new (drop (length old - 1) cs)
      else c # py_replace old new cs)"

fun py_join :: "string \<Rightarrow> string list \<Rightarrow> string" where
  "py_join sep [] = []"
| "py_join sep [x] = x"
| "py_join sep (x # y # ys) = x @ sep @ py_join sep (y # ys)"

text \<open>\<^verbatim>\<open>s.strip(c)\<close> for one character, and \<^verbatim>\<open>s.split(sep)[0]\<close> for a non-empty separator.\<close>

definition py_strip_char :: "char \<Rightarrow> string \<Rightarrow> string" where
  "py_strip_char c s = rev (dropWhile (\<lambda>x. x = c) (rev (dropWhile (\<lambda>x. x = c) s)))"

fun split_first :: "string \<Rightarrow> string \<Rightarrow> string" where
  "split_first sep [] = []"
| "split_first sep (c # cs) =
     (if startswith (c # cs) sep then [] else c # split_first sep cs)"

lemma length_py_lower [simp]: "length (py_lower s) = length s"
  by (simp add: py_lower_def)

lemma lower_char_idem [simp]: "lower_char (lower_char c) = lower_char c"
  by (auto simp: lower_char_def)

lemma py_lower_idem [simp]: "py_lower (py_lower s) = py_lower s"
  by (simp add: py_lower_def)

lemma py_replace_absent:
  "\<not> contains old s \<Longrightarrow> py_replace old new s = s"
  by (induction s) auto

lemma split_first_prefix:
  assumes "\<not> contains sep (u @ butlast sep)" and "sep \<noteq> []"
  shows "split_first sep (u @ sep @ v) = u"
  using assms
proof (induction u)
  case Nil
  then show ?case by (cases sep) (auto simp: startswith_iff)
next
  case (Cons c u)
  have "\<not> startswith ((c # u) @ sep @ v) sep"
  proof
    assume "startswith ((c # u) @ sep @ v) sep"
    then obtain w where w: "(c # u) @ sep @ v = sep @ w" by (auto simp: startswith_iff)
    then have "take (length sep) ((c # u) @ sep) = sep"
      by (metis append.assoc append_eq_append_conv_if length_append le_add2 take_append
          append_eq_conv_conj diff_is_0_eq' take0 append_Nil2)
    moreover have "take (length sep) ((c # u) @ sep) = take (length sep) ((c # u) @ butlast sep)"
      using Cons.prems(2) by (cases sep rule: rev_cases) auto
    ultimately have "startswith ((c # u) @ butlast sep) sep"
      by (simp add: startswith_def)
    with Cons.prems(1) show False by (blast dest: startswith_contains)
  qed
  with Cons show ?case by simp
qed

section \<open>Decimal rendering of integers\<close>

fun str_of_nat :: "nat \<Rightarrow> string" where
  "str_of_nat n = (if n < 10 then [''0123456789'' ! n]
     else str_of_nat (n div 10) @ [''0123456789'' ! (n mod 10)])"

declare str_of_nat.simps [simp del]

definition str_of_int :: "int \<Rightarrow> string" where
  "str_of_int i = (if i < 0 then CHR ''-'' # str_of_nat (nat (- i)) else str_of_nat (nat i))"

definition em_dash :: string where
  "em_dash = [CHR 0xE2, CHR 0x80, CHR 0x94]"

definition newline :: string where
  "newline = [CHR 0x0A]"

lemmas string_eval = startswith_def endswith_def word_search_def ident_char_def
  starts_ident_def py_lower_def lower_char_def replace_char_def str_of_nat.simps

end
