(* ===== verification/Row_Store.thy ===== *)
theory Row_Store
  imports Py_Strings
begin

text \<open>
  Tables of the catalog's PostgreSQL store, as the SQLAlchemy session sees them: a list
  of rows, in the order the server returns them, and the next value of the table's id
  sequence. Queries filter the rows; \<open>scalar_one_or_none\<close> raises when a query meant to
  find one row finds several. An exception that no handler catches is answered by the
  global handler of \<^verbatim>\<open>main.py\<close>: status 500.
\<close>

section \<open>Errors of the handlers\<close>

datatype http_error = HTTPException (status_code: int) (error_detail: string)

type_synonym 'a res = "http_error + 'a"

definition internal_error :: http_error where
  "internal_error = HTTPException 500 ''Internal server error''"

section \<open>Tables\<close>

record 'r tbl =
  tbl_rows :: "'r list"
  tbl_next :: int

definition empty_tbl :: "'r tbl" where
  "empty_tbl = \<lparr>tbl_rows = [], tbl_next = 1\<rparr>"

definition scalar_one_or_none :: "('r \<Rightarrow> bool) \<Rightarrow> 'r tbl \<Rightarrow> 'r option res" where
  "scalar_one_or_none P t = (case filter P (tbl_rows t) of
     [] \<Rightarrow> Inr None
   | [r] \<Rightarrow> Inr (Some r)
   | _ \<Rightarrow> Inl internal_error)"

text \<open>\<^verbatim>\<open>session.get(Model, id)\<close>: lookup by primary key.\<close>

definition session_get :: "('r \<Rightarrow> int) \<Rightarrow> int \<Rightarrow> 'r tbl \<Rightarrow> 'r option" where
  "session_get ident i t = List.find (\<lambda>r. ident r = i) (tbl_rows t)"

text \<open>
  \<^verbatim>\<open>session.add\<close> of a new row: the row takes the next id. \<^verbatim>\<open>tbl_replace\<close> writes the
  attributes of a loaded object back to the row with its id; \<^verbatim>\<open>tbl_delete\<close> removes it.
\<close>

definition tbl_insert :: "(int \<Rightarrow> 'r) \<Rightarrow> 'r tbl \<Rightarrow> 'r \<times> 'r tbl" where
  "tbl_insert mk t = (let r = mk (tbl_next t) in
     (r, t\<lparr>tbl_rows := tbl_rows t @ [r], tbl_next := tbl_next t + 1\<rparr>))"

definition tbl_replace :: "('r \<Rightarrow> int) \<Rightarrow> 'r \<Rightarrow> 'r tbl \<Rightarrow> 'r tbl" where
  "tbl_replace ident r t =
     t\<lparr>tbl_rows := map (\<lambda>x. if ident x = ident r then r else x) (tbl_rows t)\<rparr>"

definition tbl_delete :: "('r \<Rightarrow> int) \<Rightarrow> int \<Rightarrow> 'r tbl \<Rightarrow> 'r tbl" where
  "tbl_delete ident i t = t\<lparr>tbl_rows := filter (\<lambda>x. ident x \<noteq> i) (tbl_rows t)\<rparr>"

text \<open>Primary key and one unique key: what the server enforces of every table.\<close>

definition tbl_ok :: "('r \<Rightarrow> int) \<Rightarrow> ('r \<Rightarrow> 'k) \<Rightarrow> 'r tbl \<Rightarrow> bool" where
  "tbl_ok ident key t \<longleftrightarrow> distinct (map ident (tbl_rows t)) \<and> distinct (map key (tbl_rows t))
     \<and> (\<forall>r \<in> set (tbl_rows t). ident r < tbl_next t)"

definition find_key :: "('r \<Rightarrow> 'k) \<Rightarrow> 'k \<Rightarrow> 'r tbl \<Rightarrow> 'r option" where
  "find_key key k t = List.find (\<lambda>r. key r = k) (tbl_rows t)"

section \<open>Queries on well-formed tables\<close>

lemma tbl_ok_empty [simp]: "tbl_ok ident key empty_tbl"
  by (simp add: tbl_ok_def empty_tbl_def)

lemma scalar_one_by_key:
  "tbl_ok ident key t \<Longrightarrow> scalar_one_or_none (\<lambda>r. key r = k) t = Inr (find_key key k t)"
  by (auto simp: scalar_one_or_none_def tbl_ok_def find_key_def filter_key_distinct
      split: option.splits)

lemma find_key_Some_D: "find_key key k t = Some r \<Longrightarrow> key r = k \<and> r \<in> set (tbl_rows t)"
  by (auto simp: find_key_def dest: find_Some_D)

lemma find_key_None_iff: "find_key key k t = None \<longleftrightarrow> k \<notin> key ` set (tbl_rows t)"
  by (auto simp: find_key_def find_None_iff_ball)

lemma find_key_member:
  "tbl_ok ident key t \<Longrightarrow> r \<in> set (tbl_rows t) \<Longrightarrow> find_key key (key r) t = Some r"
proof -
  assume ok: "tbl_ok ident key t" and r: "r \<in> set (tbl_rows t)"
  then have "find_key key (key r) t \<noteq> None" by (auto simp: find_key_None_iff)
  then obtain x where x: "find_key key (key r) t = Some x" by blast
  then have "key x = key r" "x \<in> set (tbl_rows t)" by (auto dest: find_key_Some_D)
  with ok r have "x = r" by (auto simp: tbl_ok_def intro: distinct_map_inj_eq)
  with x show ?thesis by simp
qed

lemma session_get_Some_D:
  "session_get ident i t = Some r \<Longrightarrow> ident r = i \<and> r \<in> set (tbl_rows t)"
  by (auto simp: session_get_def dest: find_Some_D)

lemma session_get_None_iff: "session_get ident i t = None \<longleftrightarrow> i \<notin> ident ` set (tbl_rows t)"
  by (auto simp: session_get_def find_None_iff_ball)

section \<open>Updates of well-formed tables\<close>

lemma tbl_insert_rows [row_simps]:
  "tbl_rows (snd (tbl_insert mk t)) = tbl_rows t @ [mk (tbl_next t)]"
  "tbl_next (snd (tbl_insert mk t)) = tbl_next t + 1"
  "fst (tbl_insert mk t) = mk (tbl_next t)"
  by (simp_all add: tbl_insert_def Let_def)

lemma tbl_replace_rows [row_simps]:
  "tbl_rows (tbl_replace ident r t) = map (\<lambda>x. if ident x = ident r then r else x) (tbl_rows t)"
  "tbl_next (tbl_replace ident r t) = tbl_next t"
  by (simp_all add: tbl_replace_def)

lemma tbl_delete_rows [row_simps]:
  "tbl_rows (tbl_delete ident i t) = filter (\<lambda>x. ident x \<noteq> i) (tbl_rows t)"
  "tbl_next (tbl_delete ident i t) = tbl_next t"
  by (simp_all add: tbl_delete_def)

lemma tbl_ok_insert:
  assumes "tbl_ok ident key t" and "ident (mk (tbl_next t)) = tbl_next t"
    and "find_key key (key (mk (tbl_next t))) t = None"
  shows "tbl_ok ident key (snd (tbl_insert mk t))"
  using assms
  by (force simp: tbl_ok_def row_simps find_key_None_iff)

lemma map_replace_key:
  assumes "distinct (map ident xs)" and "x \<in> set xs" and "ident r = ident x" and "f r = f x"
  shows "map f (map (\<lambda>y. if ident y = ident r then r else y) xs) = map f xs"
  using assms by (auto simp: distinct_map inj_on_def)

lemma tbl_ok_replace:
  assumes "tbl_ok ident key t" and "x \<in> set (tbl_rows t)"
    and "ident r = ident x" and "key r = key x"
  shows "tbl_ok ident key (tbl_replace ident r t)"
proof -
  have id: "map ident (tbl_rows (tbl_replace ident r t)) = map ident (tbl_rows t)"
    and key: "map key (tbl_rows (tbl_replace ident r t)) = map key (tbl_rows t)"
    using assms map_replace_key[of ident "tbl_rows t" x r ident]
      map_replace_key[of ident "tbl_rows t" x r key]
    by (simp_all add: tbl_ok_def row_simps)
  have "\<forall>y \<in> set (tbl_rows (tbl_replace ident r t)). ident y < tbl_next t"
    using assms by (auto simp: tbl_ok_def row_simps)
  then show ?thesis
    using assms(1) unfolding tbl_ok_def id key by (simp add: row_simps)
qed

lemma tbl_ok_delete: "tbl_ok ident key t \<Longrightarrow> tbl_ok ident key (tbl_delete ident i t)"
  by (simp add: tbl_ok_def row_simps distinct_map_filter_keep)

lemma find_key_insert:
  assumes "find_key key k t = None"
  shows "find_key key k (snd (tbl_insert mk t)) =
    (if key (mk (tbl_next t)) = k then Some (mk (tbl_next t)) else None)"
  using assms by (simp add: find_key_def row_simps find_append)

lemma find_key_insert_old:
  assumes "key (mk (tbl_next t)) \<noteq> k"
  shows "find_key key k (snd (tbl_insert mk t)) = find_key key k t"
  using assms by (simp add: find_key_def row_simps find_append split: option.splits)

lemma find_key_delete:
  assumes "tbl_ok ident key t" and "find_key key k t = Some r"
  shows "find_key key k (tbl_delete ident (ident r) t) = None"
proof -
  have "key r = k" "r \<in> set (tbl_rows t)" using find_key_Some_D[OF assms(2)] by auto
  with assms(1) show ?thesis
    by (auto simp: find_key_None_iff row_simps tbl_ok_def dest: distinct_map_inj_eq)
qed

lemma find_filter_irrelevant:
  "(\<And>x. x \<in> set xs \<Longrightarrow> P x \<Longrightarrow> Q x) \<Longrightarrow> List.find P (filter Q xs) = List.find P xs"
  by (induction xs) auto

lemma find_key_delete_other:
  assumes "tbl_ok ident key t" and "r \<in> set (tbl_rows t)" and "key r \<noteq> k"
  shows "find_key key k (tbl_delete ident (ident r) t) = find_key key k t"
  unfolding find_key_def row_simps
  by (rule find_filter_irrelevant)
    (use assms in \<open>auto simp: tbl_ok_def dest: distinct_map_inj_eq\<close>)

lemma find_key_replace:
  assumes "tbl_ok ident key t" and "x \<in> set (tbl_rows t)"
    and "ident r = ident x" and "key r = key x"
  shows "find_key key (key x) (tbl_replace ident r t) = Some r"
proof -
  have "tbl_ok ident key (tbl_replace ident r t)" using assms by (rule tbl_ok_replace)
  moreover have "r \<in> set (tbl_rows (tbl_replace ident r t))"
    using assms(2,3) by (auto simp: row_simps image_iff intro!: bexI[of _ x])
  ultimately show ?thesis using assms(4) find_key_member by metis
qed

lemma find_key_replace_other:
  assumes "x \<in> set (tbl_rows t)" and "tbl_ok ident key t"
    and "ident r = ident x" and "key r = key x" and "k \<noteq> key x"
  shows "find_key key k (tbl_replace ident r t) = find_key key k t"
proof -
  have aux: "List.find (\<lambda>y. key y = k) (map (\<lambda>y. if ident y = ident r then r else y) ys)
      = List.find (\<lambda>y. key y = k) ys" if "set ys \<subseteq> set (tbl_rows t)" for ys
    using that assms by (induction ys) (auto simp: tbl_ok_def dest: distinct_map_inj_eq)
  show ?thesis by (simp add: find_key_def row_simps aux)
qed

text \<open>The same three facts for the table as a partial map from keys to rows.\<close>

abbreviation key_map :: "('r \<Rightarrow> 'k) \<Rightarrow> 'r tbl \<Rightarrow> 'k \<Rightarrow> 'r option" where
  "key_map key t \<equiv> (\<lambda>k. find_key key k t)"

lemma key_map_insert:
  assumes "find_key key (key (mk (tbl_next t))) t = None"
  shows "key_map key (snd (tbl_insert mk t)) = (key_map key t)(key (mk (tbl_next t)) \<mapsto> mk (tbl_next t))"
  using find_key_insert[OF assms, of mk] find_key_insert_old[of key mk t] by (auto simp: fun_eq_iff)

lemma key_map_replace:
  assumes "tbl_ok ident key t" and "find_key key k t = Some x"
    and "ident r = ident x" and "key r = key x"
  shows "key_map key (tbl_replace ident r t) = (key_map key t)(k \<mapsto> r)"
proof -
  have x: "x \<in> set (tbl_rows t)" "key x = k" using find_key_Some_D[OF assms(2)] by auto
  show ?thesis
    using find_key_replace[OF assms(1) x(1) assms(3,4)] find_key_replace_other[OF x(1) assms(1,3,4)] x(2)
    by (auto simp: fun_eq_iff)
qed

lemma key_map_delete:
  assumes "tbl_ok ident key t" and "find_key key k t = Some x"
  shows "key_map key (tbl_delete ident (ident x) t) = (key_map key t)(k := None)"
proof -
  have x: "x \<in> set (tbl_rows t)" "key x = k" using find_key_Some_D[OF assms(2)] by auto
  show ?thesis
    using find_key_delete[OF assms] find_key_delete_other[OF assms(1) x(1)] x(2)
    by (auto simp: fun_eq_iff)
qed

end
