(* ===== verification/Py_Float.thy ===== *)
theory Py_Float
  imports Catalog_Prelude
begin

text \<open>
  Python's floats, for the scores of the classifier. A score is a non-negative double
  below 2; it is represented by the integer number of units of \<open>2 ^ (-56)\<close> it equals.
  Every double from \<open>2 ^ (-4)\<close> up is a whole number of such units, and every sum of two
  of them is computed exactly and then rounded to 53 significant bits, to nearest and
  ties to even, which is what IEEE 754 addition does. Comparisons are exact, so the
  thresholds below are decided on the doubles the code compares, not on the decimal
  numbers its comments mention.
\<close>

type_synonym py_float = nat

fun bit_len :: "nat \<Rightarrow> nat" where
  "bit_len n = (if n = 0 then 0 else Suc (bit_len (n div 2)))"

declare bit_len.simps [simp del]

text \<open>Division rounded to the nearest integer, ties to the even one.\<close>

definition div_half_even :: "nat \<Rightarrow> nat \<Rightarrow> nat" where
  "div_half_even n d =
     (let q = n div d; r = n mod d in
      if 2 * r < d then q
      else if d < 2 * r then q + 1
      else if even q then q else q + 1)"

text \<open>Rounding a number of units to 53 significant bits.\<close>

definition fl_round :: "nat \<Rightarrow> py_float" where
  "fl_round n = (let k = bit_len n in
     if k \<le> 53 then n else div_half_even n (2 ^ (k - 53)) * 2 ^ (k - 53))"

definition fl_add :: "py_float \<Rightarrow> py_float \<Rightarrow> py_float" where
  "fl_add x y = fl_round (x + y)"

text \<open>
  The double a decimal literal \<open>p / q\<close> denotes: the nearest number with 53 significant
  bits. \<open>k\<close> is the bit length of the integer part of the number of
  units, at least 53 for the literals of the code.
\<close>

definition fl_lit :: "nat \<Rightarrow> nat \<Rightarrow> py_float" where
  "fl_lit p q = (let k = bit_len (p * 2 ^ 56 div q) in
     div_half_even (p * 2 ^ 56) (q * 2 ^ (k - 53)) * 2 ^ (k - 53))"

definition f0_7 :: py_float where "f0_7 = fl_lit 7 10"
definition f0_9 :: py_float where "f0_9 = fl_lit 9 10"
definition f1_0 :: py_float where "f1_0 = fl_lit 1 1"
definition f0_10 :: py_float where "f0_10 = fl_lit 10 100"
definition f0_12 :: py_float where "f0_12 = fl_lit 12 100"
definition f0_15 :: py_float where "f0_15 = fl_lit 15 100"
definition f0_20 :: py_float where "f0_20 = fl_lit 20 100"
definition f0_85 :: py_float where "f0_85 = fl_lit 85 100"
definition f0_95 :: py_float where "f0_95 = fl_lit 95 100"

section \<open>The values of the literals\<close>

lemma bit_len_eq: "2 ^ k \<le> n \<Longrightarrow> n < 2 ^ Suc k \<Longrightarrow> bit_len n = Suc k"
proof (induction k arbitrary: n)
  case 0
  then have "n = 1" by simp
  then show ?case by (simp add: bit_len.simps)
next
  case (Suc k)
  then have "bit_len (n div 2) = Suc k" by simp
  moreover have "n \<noteq> 0" using Suc.prems by auto
  ultimately show ?case by (subst bit_len.simps) simp
qed

text \<open>
  On a numeral, \<open>bit_len.simps\<close> evaluates by rewriting; the literals and the sums of
  the classifier then are numerals too.
\<close>

text \<open>
  \<^verbatim>\<open>round(x, n)\<close>: the nearest decimal with \<open>n\<close> digits, read back as a double.
\<close>

definition py_round :: "py_float \<Rightarrow> nat \<Rightarrow> py_float" where
  "py_round x n = fl_lit (div_half_even (x * 10 ^ n) (2 ^ 56)) (10 ^ n)"

lemmas float_eval = fl_add_def fl_round_def fl_lit_def div_half_even_def Let_def bit_len.simps

lemma f0_7_val [py_simps]: "f0_7 = 50440315826549552"
  by (simp add: f0_7_def float_eval)

lemma f0_9_val [py_simps]: "f0_9 = 64851834634135144"
  by (simp add: f0_9_def float_eval)

lemma f1_0_val [py_simps]: "f1_0 = 72057594037927936"
  by (simp add: f1_0_def float_eval)

lemma f0_10_val [py_simps]: "f0_10 = 7205759403792794"
  by (simp add: f0_10_def float_eval)

lemma f0_12_val [py_simps]: "f0_12 = 8646911284551352"
  by (simp add: f0_12_def float_eval)

lemma f0_15_val [py_simps]: "f0_15 = 10808639105689190"
  by (simp add: f0_15_def float_eval)

lemma f0_20_val [py_simps]: "f0_20 = 14411518807585588"
  by (simp add: f0_20_def float_eval)

lemma f0_85_val [py_simps]: "f0_85 = 61248954932238744"
  by (simp add: f0_85_def float_eval)

lemma f0_95_val [py_simps]: "f0_95 = 68454714336031536"
  by (simp add: f0_95_def float_eval)

section \<open>Bounds of rounding\<close>

lemma div_half_even_error:
  assumes "0 < d"
  shows "2 * (div_half_even n d * d) \<le> 2 * n + d" and "2 * n \<le> 2 * (div_half_even n d * d) + d"
proof -
  have n: "n = n div d * d + n mod d" by simp
  have m: "n mod d < d" using assms by simp
  define q r where "q = n div d" and "r = n mod d"
  have nq: "n = q * d + r" and rd: "r < d"
    using n m by (simp_all add: q_def r_def)
  have "div_half_even n d = q \<and> 2 * r \<le> d \<or> div_half_even n d = q + 1 \<and> d \<le> 2 * r"
    by (auto simp: div_half_even_def Let_def q_def r_def)
  then show "2 * (div_half_even n d * d) \<le> 2 * n + d" and "2 * n \<le> 2 * (div_half_even n d * d) + d"
    using nq rd by (auto simp: algebra_simps)
qed

end
