(* ===== verification/Catalog_Schema.thy ===== *)
theory Catalog_Schema
  imports Row_Store Py_Float
begin

text \<open>
  The data model of the Star Knowledge Catalog: the rows of \<^verbatim>\<open>catalog/models.py\<close>, the
  request bodies of \<^verbatim>\<open>catalog/schemas.py\<close> with their validators, the settings of
  \<^verbatim>\<open>catalog/config.py\<close>, and the constraints the PostgreSQL schema enforces.
  Timestamps set by the server (\<^verbatim>\<open>created_at\<close>, \<^verbatim>\<open>updated_at\<close>, \<^verbatim>\<open>granted_at\<close>,
  \<^verbatim>\<open>last_applied_at\<close>) are not modelled: no operation reads them.
\<close>

section \<open>Rows\<close>

record classification =
  cls_id :: int
  cls_name :: string
  cls_display_name :: string
  cls_description :: "string option"
  cls_sensitivity :: string
  cls_color_hex :: "string option"

record glossary_term =
  gt_id :: int
  gt_name :: string
  gt_display_name :: string
  gt_description :: "string option"
  gt_classification_id :: "int option"
  gt_column_name_patterns :: "string list"
  gt_description_patterns :: "string list"
  gt_negative_patterns :: "string list"
  gt_table_name_negative_patterns :: "string list"
  gt_table_name_positive_patterns :: "string list"
  gt_steward :: "string option"

record masking_algorithm =
  ma_id :: int
  ma_name :: string
  ma_display_name :: string
  ma_description :: "string option"
  ma_algorithm_type :: string
  ma_stardata_expression :: string
  ma_applicable_types :: "string list"

record masking_policy =
  mp_id :: int
  mp_name :: string
  mp_description :: "string option"
  mp_classification_id :: "int option"
  mp_glossary_term_id :: "int option"
  mp_algorithm_id :: int
  mp_priority :: int
  mp_enabled :: bool

record column_tag =
  ct_id :: int
  ct_database :: string
  ct_table :: string
  ct_column :: string
  ct_glossary_term_id :: "int option"
  ct_classification_id :: "int option"
  ct_auto_detected :: bool
  ct_detection_score :: "py_float option"
  ct_override_reason :: "string option"

record role_masking_exception =
  re_id :: int
  re_role_name :: string
  re_classification_id :: int
  re_granted_by :: string

record governance_database =
  gd_id :: int
  gd_database :: string
  gd_governance_enabled :: bool
  gd_disabled_reason :: "string option"
  gd_disabled_by :: "string option"
  gd_disabled_at :: "int option"
  gd_enabled_at :: "int option"

record view_manifest =
  vm_id :: int
  vm_database :: string
  vm_base_table :: string
  vm_view_name :: string
  vm_view_ddl :: string
  vm_columns_masked :: "string list"
  vm_view_checksum :: "string option"

text \<open>Keys of the unique constraints that span several columns.\<close>

definition ct_key :: "column_tag \<Rightarrow> string \<times> string \<times> string" where
  "ct_key t = (ct_database t, ct_table t, ct_column t)"

definition re_key :: "role_masking_exception \<Rightarrow> string \<times> int" where
  "re_key e = (re_role_name e, re_classification_id e)"

definition vm_key :: "view_manifest \<Rightarrow> string \<times> string" where
  "vm_key m = (vm_database m, vm_base_table m)"

record catalog =
  classifications :: "classification tbl"
  glossary_terms :: "glossary_term tbl"
  masking_algorithms :: "masking_algorithm tbl"
  masking_policies :: "masking_policy tbl"
  column_tags :: "column_tag tbl"
  role_exceptions :: "role_masking_exception tbl"
  governance_databases :: "governance_database tbl"
  view_manifests :: "view_manifest tbl"

definition empty_catalog :: catalog where
  "empty_catalog = \<lparr>classifications = empty_tbl, glossary_terms = empty_tbl,
     masking_algorithms = empty_tbl, masking_policies = empty_tbl, column_tags = empty_tbl,
     role_exceptions = empty_tbl, governance_databases = empty_tbl, view_manifests = empty_tbl\<rparr>"

section \<open>Constraints the server enforces\<close>

text \<open>
  Unique and primary keys, the CHECK constraints, and the foreign keys of
  \<^verbatim>\<open>models.py\<close>. A statement that would break one of them raises an IntegrityError:
  \<open>db_flush\<close> accepts a new state of the tables only when all constraints hold.
\<close>

definition sensitivity_levels :: "string list" where
  "sensitivity_levels = [''low'', ''medium'', ''high'', ''critical'']"

definition algorithm_types :: "string list" where
  "algorithm_types = [''REDACT'', ''HASH'', ''PARTIAL_MASK'', ''TOKENIZE'',
     ''DATE_GENERALIZE'', ''NULL_OUT'', ''CUSTOM'']"

definition ck_policy_single_target :: "masking_policy \<Rightarrow> bool" where
  "ck_policy_single_target p \<longleftrightarrow>
     (mp_classification_id p \<noteq> None \<and> mp_glossary_term_id p = None) \<or>
     (mp_classification_id p = None \<and> mp_glossary_term_id p \<noteq> None)"

definition fk :: "('r \<Rightarrow> int) \<Rightarrow> 'r tbl \<Rightarrow> int \<Rightarrow> bool" where
  "fk ident t i = (i \<in> ident ` set (tbl_rows t))"

definition fk_opt :: "('r \<Rightarrow> int) \<Rightarrow> 'r tbl \<Rightarrow> int option \<Rightarrow> bool" where
  "fk_opt ident t i = (case i of None \<Rightarrow> True | Some j \<Rightarrow> fk ident t j)"

definition terms_ok :: "catalog \<Rightarrow> bool" where
  "terms_ok db = (tbl_ok gt_id gt_name (glossary_terms db) \<and>
     (\<forall>t \<in> set (tbl_rows (glossary_terms db)).
        fk_opt cls_id (classifications db) (gt_classification_id t)))"

definition policies_ok :: "catalog \<Rightarrow> bool" where
  "policies_ok db = (tbl_ok mp_id mp_name (masking_policies db) \<and>
     (\<forall>p \<in> set (tbl_rows (masking_policies db)). ck_policy_single_target p \<and>
        fk ma_id (masking_algorithms db) (mp_algorithm_id p) \<and>
        fk_opt cls_id (classifications db) (mp_classification_id p) \<and>
        fk_opt gt_id (glossary_terms db) (mp_glossary_term_id p)))"

definition tags_ok :: "catalog \<Rightarrow> bool" where
  "tags_ok db = (tbl_ok ct_id ct_key (column_tags db) \<and>
     (\<forall>t \<in> set (tbl_rows (column_tags db)).
        fk_opt gt_id (glossary_terms db) (ct_glossary_term_id t) \<and>
        fk_opt cls_id (classifications db) (ct_classification_id t)))"

definition exceptions_ok :: "catalog \<Rightarrow> bool" where
  "exceptions_ok db = (tbl_ok re_id re_key (role_exceptions db) \<and>
     (\<forall>e \<in> set (tbl_rows (role_exceptions db)).
        fk cls_id (classifications db) (re_classification_id e)))"

definition schema_ok :: "catalog \<Rightarrow> bool" where
  "schema_ok db = (
     tbl_ok cls_id cls_name (classifications db) \<and>
     (\<forall>c \<in> set (tbl_rows (classifications db)). cls_sensitivity c \<in> set sensitivity_levels) \<and>
     tbl_ok ma_id ma_name (masking_algorithms db) \<and>
     (\<forall>a \<in> set (tbl_rows (masking_algorithms db)). ma_algorithm_type a \<in> set algorithm_types) \<and>
     terms_ok db \<and> policies_ok db \<and> tags_ok db \<and> exceptions_ok db \<and>
     tbl_ok gd_id gd_database (governance_databases db) \<and>
     tbl_ok vm_id vm_key (view_manifests db))"

definition db_flush :: "catalog \<Rightarrow> catalog res" where
  "db_flush db = (if schema_ok db then Inr db else Inl internal_error)"

lemma schema_ok_empty [simp]: "schema_ok empty_catalog"
  by (simp add: schema_ok_def terms_ok_def policies_ok_def tags_ok_def exceptions_ok_def
      empty_catalog_def) (simp add: empty_tbl_def)

lemma db_flush_Inr_iff [simp]: "db_flush db = Inr db' \<longleftrightarrow> db' = db \<and> schema_ok db"
  by (auto simp: db_flush_def)

lemma db_flush_ok: "schema_ok db \<Longrightarrow> db_flush db = Inr db"
  by simp

lemma schema_okD:
  assumes "schema_ok db"
  shows "tbl_ok cls_id cls_name (classifications db)"
    and "tbl_ok gt_id gt_name (glossary_terms db)"
    and "tbl_ok ma_id ma_name (masking_algorithms db)"
    and "tbl_ok mp_id mp_name (masking_policies db)"
    and "tbl_ok ct_id ct_key (column_tags db)"
    and "tbl_ok re_id re_key (role_exceptions db)"
    and "tbl_ok gd_id gd_database (governance_databases db)"
    and "tbl_ok vm_id vm_key (view_manifests db)"
  using assms
  by (simp_all add: schema_ok_def terms_ok_def policies_ok_def tags_ok_def exceptions_ok_def)

lemmas schema_defs = schema_ok_def terms_ok_def policies_ok_def tags_ok_def exceptions_ok_def
  fk_opt_def fk_def

section \<open>Request bodies and their validators\<close>

text \<open>
  A body that fails its validator is answered 422 before the handler runs. The patterns
  are the regular expressions of \<^verbatim>\<open>schemas.py\<close>, all anchored at both ends.
\<close>

definition upper_chars :: string where
  "upper_chars = ''ABCDEFGHIJKLMNOPQRSTUVWXYZ''"

definition lower_chars :: string where
  "lower_chars = ''abcdefghijklmnopqrstuvwxyz''"

definition digit_chars :: string where
  "digit_chars = ''0123456789''"

text \<open>\<open>^[\<dots>]+$\<close> over a character class, with \<^verbatim>\<open>max_length\<close>.\<close>

definition class_plus :: "string \<Rightarrow> nat \<Rightarrow> string \<Rightarrow> bool" where
  "class_plus cls n s = (s \<noteq> [] \<and> list_all (\<lambda>c. c \<in> set cls) s \<and> length s \<le> n)"

definition color_hex_ok :: "string option \<Rightarrow> bool" where
  "color_hex_ok h = (case h of None \<Rightarrow> True | Some s \<Rightarrow>
     length s = 7 \<and> startswith s ''#'' \<and>
     list_all (\<lambda>c. c \<in> set (digit_chars @ ''ABCDEFabcdef'')) (tl s))"

record classification_create =
  cc_name :: string
  cc_display_name :: string
  cc_description :: "string option"
  cc_sensitivity :: string
  cc_color_hex :: "string option"

definition valid_classification_create :: "classification_create \<Rightarrow> bool" where
  "valid_classification_create b = (class_plus (upper_chars @ digit_chars @ ''_-'') 60 (cc_name b) \<and>
     cc_sensitivity b \<in> set sensitivity_levels \<and> color_hex_ok (cc_color_hex b))"

record classification_update =
  cu_display_name :: "string option"
  cu_description :: "string option"
  cu_sensitivity :: "string option"
  cu_color_hex :: "string option"

definition valid_classification_update :: "classification_update \<Rightarrow> bool" where
  "valid_classification_update b =
     ((case cu_sensitivity b of None \<Rightarrow> True | Some s \<Rightarrow> s \<in> set sensitivity_levels) \<and>
      color_hex_ok (cu_color_hex b))"

record glossary_create =
  gc_name :: string
  gc_display_name :: string
  gc_description :: "string option"
  gc_classification_id :: "int option"
  gc_column_name_patterns :: "string list"
  gc_description_patterns :: "string list"
  gc_negative_patterns :: "string list"
  gc_steward :: "string option"

definition valid_glossary_create :: "glossary_create \<Rightarrow> bool" where
  "valid_glossary_create b = class_plus (lower_chars @ digit_chars @ ''_'') 80 (gc_name b)"

record glossary_update =
  gu_display_name :: "string option"
  gu_description :: "string option"
  gu_classification_id :: "int option"
  gu_column_name_patterns :: "string list option"
  gu_description_patterns :: "string list option"
  gu_negative_patterns :: "string list option"
  gu_steward :: "string option"

record algorithm_create =
  ac_name :: string
  ac_display_name :: string
  ac_description :: "string option"
  ac_algorithm_type :: string
  ac_stardata_expression :: string
  ac_applicable_types :: "string list"

definition valid_algorithm_create :: "algorithm_create \<Rightarrow> bool" where
  "valid_algorithm_create b = (class_plus (upper_chars @ digit_chars @ ''_'') 60 (ac_name b) \<and>
     ac_algorithm_type b \<in> set algorithm_types)"

record algorithm_update =
  au_display_name :: "string option"
  au_description :: "string option"
  au_stardata_expression :: "string option"
  au_applicable_types :: "string list option"

text \<open>
  \<open>pc_glossary_term_id\<close> is \<open>None\<close> when the request leaves the field out. A pydantic
  field validator runs on the values of the request, not on a default, so
  \<open>exactly_one_target\<close> is consulted only when the field is present.
\<close>

record policy_create =
  pc_name :: string
  pc_description :: "string option"
  pc_classification_id :: "int option"
  pc_glossary_term_id :: "int option option"
  pc_algorithm_id :: int
  pc_priority :: int
  pc_enabled :: bool

definition exactly_one_target :: "int option \<Rightarrow> int option \<Rightarrow> bool" where
  "exactly_one_target cid v = (\<not> ((cid = None) = (v = None)))"

definition valid_policy_create :: "policy_create \<Rightarrow> bool" where
  "valid_policy_create b = (class_plus (lower_chars @ digit_chars @ ''_-'') 80 (pc_name b) \<and>
     (case pc_glossary_term_id b of None \<Rightarrow> True
      | Some v \<Rightarrow> exactly_one_target (pc_classification_id b) v))"

definition pc_term :: "policy_create \<Rightarrow> int option" where
  "pc_term b = (case pc_glossary_term_id b of None \<Rightarrow> None | Some v \<Rightarrow> v)"

record policy_update =
  pu_description :: "string option"
  pu_algorithm_id :: "int option"
  pu_priority :: "int option"
  pu_enabled :: "bool option"

record column_tag_create =
  tc_database :: string
  tc_table :: string
  tc_column :: string
  tc_glossary_term_id :: "int option"
  tc_classification_id :: "int option"
  tc_override_reason :: "string option"

record scan_request =
  sr_database :: string
  sr_table :: "string option"
  sr_dry_run :: bool
  sr_overwrite_existing :: bool

record apply_request =
  ap_database :: string
  ap_table :: "string option"
  ap_dry_run :: bool
  ap_force :: bool

record query_request =
  qr_username :: string
  qr_database :: string
  qr_table :: string
  qr_columns :: "string list option"
  qr_where :: "string option"
  qr_limit :: int

definition valid_query_request :: "query_request \<Rightarrow> bool" where
  "valid_query_request q = (1 \<le> qr_limit q \<and> qr_limit q \<le> 50000)"

record exception_create =
  ec_role_name :: string
  ec_classification_id :: int
  ec_granted_by :: string

section \<open>Settings\<close>

record settings =
  app_title :: string
  app_version :: string
  debug :: bool
  api_prefix :: string
  cors_origins :: string
  pg_host :: string
  pg_port :: nat
  pg_db :: string
  pg_user :: string
  pg_password :: string
  pg_pool_min :: nat
  pg_pool_max :: nat
  redis_url :: string
  cache_ttl :: nat
  local_cache_size :: nat
  jwt_secret :: string
  jwt_algorithm :: string
  jwt_expire_minutes :: int
  master_token :: string
  stardata_host :: string
  stardata_port :: nat
  stardata_admin_user :: string
  stardata_admin_password :: string
  stardata_demo_database :: string
  masked_view_suffix :: string
  rbac_plane_url :: string
  rbac_plane_token :: string
  auto_classify_threshold :: py_float

definition default_settings :: settings where
  "default_settings = \<lparr>app_title = ''Star Knowledge Catalog'', app_version = ''1.0.0'', debug = False,
     api_prefix = ''/api/v1'', cors_origins = ''*'',
     pg_host = ''postgresql.prod.svc.cluster.local'', pg_port = 5432, pg_db = ''star_catalog'',
     pg_user = ''star_catalog'', pg_password = ''changeme'', pg_pool_min = 2, pg_pool_max = 20,
     redis_url = ''redis://redis.prod.svc.cluster.local:6379/1'',
     cache_ttl = 60, local_cache_size = 5000,
     jwt_secret = ''changeme-catalog-jwt-secret-min-32-chars!'', jwt_algorithm = ''HS256'',
     jwt_expire_minutes = 1440, master_token = ''changeme-catalog-master-token'',
     stardata_host = ''stardata-fe.prod.svc.cluster.local'', stardata_port = 9030,
     stardata_admin_user = ''root'', stardata_admin_password = [],
     stardata_demo_database = ''governance_demo'', masked_view_suffix = ''_masked'',
     rbac_plane_url = ''http://rbac-plane.prod.svc.cluster.local:8080'',
     rbac_plane_token = ''changeme-rbac-master-token'', auto_classify_threshold = f0_7\<rparr>"

definition pg_dsn :: "settings \<Rightarrow> string" where
  "pg_dsn s = ''postgresql+asyncpg://'' @ pg_user s @ '':'' @ pg_password s @ ''@''
     @ pg_host s @ '':'' @ str_of_nat (pg_port s) @ ''/'' @ pg_db s"

end
