(* ===== verification/Ttl_Cache.thy ===== *)
theory Ttl_Cache
  imports Complex_Main Catalog_Schema
begin

text \<open>
  The cache layer of \<^verbatim>\<open>catalog/database.py\<close>: the in-process TTL-LRU cache \<^verbatim>\<open>_TTLCache\<close>
  and the two-level functions \<open>cache_get\<close>, \<open>cache_set\<close>, \<open>cache_invalidate\<close>,
  \<open>cache_invalidate_prefix\<close> over it and Redis. The ordered dictionary is an association
  list, oldest entry first; the clock \<^verbatim>\<open>time.monotonic()\<close> is a rational argument. Redis
  is a client given as a record of its operations, each of which may raise (\<open>None\<close>);
  \<open>loads\<close> and \<open>dumps\<close> stand for the JSON coding of the cached values.
\<close>

section \<open>The TTL-LRU cache\<close>

record 'v ttl_cache =
  tc_maxsize :: nat
  tc_ttl :: rat
  tc_store :: "(string \<times> (rat \<times> 'v)) list"

definition ttl_cache_init :: "nat \<Rightarrow> rat \<Rightarrow> 'v ttl_cache" where
  "ttl_cache_init maxsize ttl = \<lparr>tc_maxsize = maxsize, tc_ttl = ttl, tc_store = []\<rparr>"

definition move_to_end :: "string \<Rightarrow> (string \<times> 'b) list \<Rightarrow> (string \<times> 'b) list" where
  "move_to_end k xs = (case map_of xs k of None \<Rightarrow> xs
     | Some e \<Rightarrow> AList.delete k xs @ [(k, e)])"

definition tc_get :: "rat \<Rightarrow> string \<Rightarrow> 'v ttl_cache \<Rightarrow> 'v option \<times> 'v ttl_cache" where
  "tc_get now key c = (case map_of (tc_store c) key of
     None \<Rightarrow> (None, c)
   | Some (expires, value) \<Rightarrow>
       if expires < now then (None, c\<lparr>tc_store := AList.delete key (tc_store c)\<rparr>)
       else (Some value, c\<lparr>tc_store := move_to_end key (tc_store c)\<rparr>))"

definition tc_set :: "rat \<Rightarrow> string \<Rightarrow> 'v \<Rightarrow> 'v ttl_cache \<Rightarrow> 'v ttl_cache" where
  "tc_set now key value c =
     (let s1 = AList.update key (now + tc_ttl c, value) (tc_store c);
          s2 = move_to_end key s1
      in c\<lparr>tc_store := if tc_maxsize c < length s2 then tl s2 else s2\<rparr>)"

definition tc_delete :: "string \<Rightarrow> 'v ttl_cache \<Rightarrow> 'v ttl_cache" where
  "tc_delete key c = c\<lparr>tc_store := AList.delete key (tc_store c)\<rparr>"

definition tc_clear_prefix :: "string \<Rightarrow> 'v ttl_cache \<Rightarrow> 'v ttl_cache" where
  "tc_clear_prefix prefix c =
     c\<lparr>tc_store := fold AList.delete
        (filter (\<lambda>k. startswith k prefix) (map fst (tc_store c))) (tc_store c)\<rparr>"

definition local_cache_of :: "settings \<Rightarrow> 'v ttl_cache" where
  "local_cache_of s = ttl_cache_init (local_cache_size s) (of_nat (cache_ttl s) / 3)"

section \<open>The invariant and the view of the cache as a map\<close>

definition tc_ok :: "'v ttl_cache \<Rightarrow> bool" where
  "tc_ok c \<longleftrightarrow> distinct (map fst (tc_store c)) \<and> length (tc_store c) \<le> tc_maxsize c
     \<and> 0 < tc_maxsize c"

definition tc_view :: "'v ttl_cache \<Rightarrow> string \<Rightarrow> (rat \<times> 'v) option" where
  "tc_view c = map_of (tc_store c)"

lemma map_of_move_to_end [simp]:
  "map_of (move_to_end k xs) = map_of xs"
  by (auto simp: move_to_end_def map_add_def fun_eq_iff delete_conv split: option.splits)

lemma distinct_move_to_end:
  "distinct (map fst xs) \<Longrightarrow> distinct (map fst (move_to_end k xs))"
  by (auto simp: move_to_end_def delete_keys distinct_removeAll split: option.splits)

lemma length_delete_mem:
  "distinct (map fst xs) \<Longrightarrow> k \<in> fst ` set xs \<Longrightarrow> length (AList.delete k xs) = length xs - 1"
proof (induction xs)
  case (Cons x xs)
  show ?case
  proof (cases "fst x = k")
    case True
    with Cons.prems have "AList.delete k xs = xs" by (auto intro: delete_idem)
    with True show ?thesis by simp
  next
    case False
    with Cons.prems have "k \<in> fst ` set xs" by auto
    moreover from this have "0 < length xs" by (cases xs) auto
    ultimately show ?thesis using Cons False by simp
  qed
qed simp

lemma length_move_to_end:
  assumes "distinct (map fst xs)"
  shows "length (move_to_end k xs) = length xs"
proof (cases "map_of xs k")
  case (Some e)
  then have "k \<in> fst ` set xs" by (metis map_of_SomeD image_eqI fst_conv)
  moreover from this have "0 < length xs" by (cases xs) auto
  ultimately show ?thesis using Some assms by (simp add: move_to_end_def length_delete_mem)
qed (simp add: move_to_end_def)

lemma move_to_end_snoc:
  assumes "map_of xs k = Some e" and "distinct (map fst xs)"
  shows "move_to_end k xs = AList.delete k xs @ [(k, e)]"
  using assms by (simp add: move_to_end_def)

lemma map_of_fold_delete:
  "map_of (fold AList.delete ks xs) = (\<lambda>k. if k \<in> set ks then None else map_of xs k)"
  by (induction ks arbitrary: xs) (auto simp: delete_conv fun_eq_iff)

lemma fold_delete_length: "length (fold AList.delete ks xs) \<le> length xs"
proof (induction ks arbitrary: xs)
  case (Cons k ks)
  show ?case using Cons[of "AList.delete k xs"] length_delete_le[of k xs] by simp
qed simp

lemma fold_delete_distinct:
  "distinct (map fst xs) \<Longrightarrow> distinct (map fst (fold AList.delete ks xs))"
  by (induction ks arbitrary: xs) (simp_all add: distinct_delete)

text \<open>The store after the insertion and the move, before the eviction.\<close>

lemma tc_set_store:
  fixes c :: "'v ttl_cache" and key :: string and now :: rat and v :: 'v
  defines "s2 \<equiv> move_to_end key (AList.update key (now + tc_ttl c, v) (tc_store c))"
  assumes "tc_ok c"
  shows "distinct (map fst s2)" and "length s2 \<le> Suc (tc_maxsize c)"
    and "s2 \<noteq> []" and "last s2 = (key, now + tc_ttl c, v)"
    and "tc_store (tc_set now key v c) = (if tc_maxsize c < length s2 then tl s2 else s2)"
proof -
  let ?s1 = "AList.update key (now + tc_ttl c, v) (tc_store c)"
  have d1: "distinct (map fst ?s1)"
    using assms by (simp add: tc_ok_def distinct_keys_update)
  then show d2: "distinct (map fst s2)" unfolding s2_def by (rule distinct_move_to_end)
  have "length (map fst ?s1) \<le> Suc (length (tc_store c))"
    by (simp only: map_fst_update_mem) simp
  then show "length s2 \<le> Suc (tc_maxsize c)"
    using assms d1 by (simp add: s2_def length_move_to_end tc_ok_def)
  have "s2 = AList.delete key ?s1 @ [(key, now + tc_ttl c, v)]"
    using d1 by (simp add: s2_def move_to_end_snoc)
  then show "s2 \<noteq> []" and "last s2 = (key, now + tc_ttl c, v)" by simp_all
  show "tc_store (tc_set now key v c) = (if tc_maxsize c < length s2 then tl s2 else s2)"
    by (simp add: tc_set_def Let_def s2_def)
qed

lemma map_of_last:
  assumes "distinct (map fst xs)" and "xs \<noteq> []"
  shows "map_of xs (fst (last xs)) = Some (snd (last xs))"
  using assms by (metis last_in_set map_of_is_SomeI prod.collapse)

lemma tc_ok_set: "tc_ok c \<Longrightarrow> tc_ok (tc_set now key v c)"
proof -
  assume ok: "tc_ok c"
  let ?s2 = "move_to_end key (AList.update key (now + tc_ttl c, v) (tc_store c))"
  have "distinct (map fst (tl ?s2))"
    using tc_set_store(1)[OF ok] by (metis distinct_tl map_tl)
  with tc_set_store[OF ok, where key = key and now = now and v = v] ok show ?thesis
    by (auto simp: tc_ok_def tc_set_def Let_def)
qed

lemma tc_set_view_same: "tc_ok c \<Longrightarrow> tc_view (tc_set now key v c) key = Some (now + tc_ttl c, v)"
proof -
  assume ok: "tc_ok c"
  let ?s = "tc_store (tc_set now key v c)"
  let ?s2 = "move_to_end key (AList.update key (now + tc_ttl c, v) (tc_store c))"
  note st = tc_set_store[OF ok, where key = key and now = now and v = v]
  have "?s \<noteq> [] \<and> last ?s = last ?s2"
    using st(2,3,5) ok by (cases ?s2) (auto simp: tc_ok_def last_tl)
  moreover have "distinct (map fst ?s)"
    using tc_ok_set[OF ok] by (simp add: tc_ok_def)
  ultimately have "map_of ?s (fst (last ?s2)) = Some (snd (last ?s2))"
    using map_of_last by metis
  then show ?thesis by (simp add: tc_view_def st(4))
qed

lemma tc_set_view_other:
  assumes "tc_ok c" and "k \<noteq> key"
  shows "tc_view (tc_set now key v c) k \<in> {tc_view c k, None}"
proof -
  let ?s2 = "move_to_end key (AList.update key (now + tc_ttl c, v) (tc_store c))"
  note st = tc_set_store[OF assms(1), where key = key and now = now and v = v]
  have v2: "map_of ?s2 k = tc_view c k" using assms(2) by (simp add: tc_view_def)
  have "map_of (tl ?s2) k \<in> {map_of ?s2 k, None}"
  proof (cases ?s2)
    case (Cons x xs)
    show ?thesis
    proof (cases "fst x = k")
      case True
      with st(1) Cons have "map_of xs k = None" by (auto simp: map_of_eq_None_iff)
      with Cons show ?thesis by simp
    next
      case False
      with Cons show ?thesis by (cases x) simp
    qed
  qed simp
  with v2 st(5) show ?thesis by (auto simp: tc_view_def)
qed

lemma tc_ok_delete: "tc_ok c \<Longrightarrow> tc_ok (tc_delete key c)"
  using length_delete_le[of key "tc_store c"]
  by (auto simp: tc_ok_def tc_delete_def distinct_delete)

lemma tc_ok_clear: "tc_ok c \<Longrightarrow> tc_ok (tc_clear_prefix p c)"
  using fold_delete_length[of "filter (\<lambda>k. startswith k p) (map fst (tc_store c))" "tc_store c"]
  by (auto simp: tc_ok_def tc_clear_prefix_def fold_delete_distinct)

lemma tc_ok_get: "tc_ok c \<Longrightarrow> tc_ok (snd (tc_get now key c))"
  using length_delete_le[of key "tc_store c"]
  by (auto simp: tc_ok_def tc_get_def distinct_delete distinct_move_to_end
      length_move_to_end split: option.splits)

lemma tc_clear_view:
  "tc_view (tc_clear_prefix p c) k = (if startswith k p then None else tc_view c k)"
proof -
  have "map_of (tc_store c) k = None" if "k \<notin> fst ` set (tc_store c)"
    using that by (simp add: map_of_eq_None_iff)
  then show ?thesis by (auto simp: tc_view_def tc_clear_prefix_def map_of_fold_delete)
qed

lemma tc_delete_view: "tc_view (tc_delete key c) k = (if k = key then None else tc_view c k)"
  by (simp add: tc_view_def tc_delete_def delete_conv)

lemma tc_get_fst: "fst (tc_get now key c) = (case tc_view c key of None \<Rightarrow> None
     | Some (e, v) \<Rightarrow> if e < now then None else Some v)"
  by (simp add: tc_get_def tc_view_def split: option.splits prod.splits)

lemma tc_get_view: "tc_view (snd (tc_get now key c)) k =
    (case tc_view c key of None \<Rightarrow> tc_view c k
     | Some (e, v) \<Rightarrow> if e < now \<and> k = key then None else tc_view c k)"
  by (auto simp: tc_get_def tc_view_def delete_conv split: option.splits prod.splits)

section \<open>The interface the two-level cache relies on\<close>

locale local_store =
  fixes get :: "rat \<Rightarrow> string \<Rightarrow> 'c \<Rightarrow> 'v option \<times> 'c"
    and set_entry :: "rat \<Rightarrow> string \<Rightarrow> 'v \<Rightarrow> 'c \<Rightarrow> 'c"
    and remove :: "string \<Rightarrow> 'c \<Rightarrow> 'c"
    and clear :: "string \<Rightarrow> 'c \<Rightarrow> 'c"
    and view :: "'c \<Rightarrow> string \<Rightarrow> (rat \<times> 'v) option"
    and ttl :: "'c \<Rightarrow> rat"
    and ok :: "'c \<Rightarrow> bool"
  assumes get_value: "fst (get now k c) = (case view c k of None \<Rightarrow> None
        | Some (e, v) \<Rightarrow> if e < now then None else Some v)"
    and get_drops_only_expired: "view (snd (get now k c)) j =
        (case view c k of None \<Rightarrow> view c j
         | Some (e, v) \<Rightarrow> if e < now \<and> j = k then None else view c j)"
    and set_view_same: "ok c \<Longrightarrow> view (set_entry now k v c) k = Some (now + ttl c, v)"
    and set_view_other: "ok c \<Longrightarrow> j \<noteq> k \<Longrightarrow> view (set_entry now k v c) j \<in> {view c j, None}"
    and remove_view: "view (remove k c) j = (if j = k then None else view c j)"
    and clear_view: "view (clear p c) j = (if startswith j p then None else view c j)"
    and ok_get: "ok c \<Longrightarrow> ok (snd (get now k c))"
    and ok_set: "ok c \<Longrightarrow> ok (set_entry now k v c)"
    and ok_remove: "ok c \<Longrightarrow> ok (remove k c)"
    and ok_clear: "ok c \<Longrightarrow> ok (clear p c)"
begin

text \<open>A value is served until its time to live has passed, and not after.\<close>

lemma get_after_set:
  "ok c \<Longrightarrow> fst (get later k (set_entry now k v c)) =
     (if now + ttl c < later then None else Some v)"
  by (simp add: get_value set_view_same)

text \<open>Nothing under a cleared prefix, and no removed key, is served from the store.\<close>

lemma get_after_clear: "startswith k p \<Longrightarrow> fst (get now k (clear p c)) = None"
  by (simp add: get_value clear_view)

lemma get_after_remove: "fst (get now k (remove k c)) = None"
  by (simp add: get_value remove_view)

text \<open>A lookup never invents a value for another key.\<close>

lemma get_set_other:
  assumes "ok c" and "j \<noteq> k"
  shows "fst (get t j (set_entry now k v c)) \<in> {fst (get t j c), None}"
  using set_view_other[OF assms, of now v] by (auto simp: get_value)

end

interpretation ttl: local_store tc_get tc_set tc_delete tc_clear_prefix tc_view tc_ttl tc_ok
  by unfold_locales
    (auto simp: tc_get_fst tc_get_view tc_delete_view tc_clear_view tc_set_view_same
      tc_ok_get tc_ok_set tc_ok_delete tc_ok_clear dest: tc_set_view_other)

section \<open>The two-level cache\<close>

text \<open>
  The Redis client: \<open>rd_get\<close>, \<open>rd_set\<close>, \<open>rd_delete\<close> and \<open>rd_scan\<close> take the state of
  the server and may raise. \<^verbatim>\<open>SCAN\<close> returns the next cursor and a page of keys.
\<close>

record 'r redis =
  rd_get :: "string \<Rightarrow> 'r \<Rightarrow> (string option \<times> 'r) option"
  rd_set :: "string \<Rightarrow> string \<Rightarrow> nat \<Rightarrow> 'r \<Rightarrow> 'r option"
  rd_delete :: "string list \<Rightarrow> 'r \<Rightarrow> 'r option"
  rd_scan :: "nat \<Rightarrow> string \<Rightarrow> 'r \<Rightarrow> ((nat \<times> string list) \<times> 'r) option"

definition cache_get ::
  "(string \<Rightarrow> 'v option) \<Rightarrow> 'r redis \<Rightarrow> rat \<Rightarrow> string \<Rightarrow> 'v ttl_cache \<times> 'r
     \<Rightarrow> 'v option \<times> ('v ttl_cache \<times> 'r)" where
  "cache_get loads rd now key s = (case s of (c, r) \<Rightarrow>
     (case tc_get now key c of
       (Some v, c1) \<Rightarrow> (Some v, (c1, r))
     | (None, c1) \<Rightarrow>
        (case rd_get rd key r of
          None \<Rightarrow> (None, (c1, r))
        | Some (None, r1) \<Rightarrow> (None, (c1, r1))
        | Some (Some raw, r1) \<Rightarrow>
            if raw = [] then (None, (c1, r1))
            else (case loads raw of
                None \<Rightarrow> (None, (c1, r1))
              | Some d \<Rightarrow> (Some d, (tc_set now key d c1, r1))))))"

definition cache_set ::
  "('v \<Rightarrow> string) \<Rightarrow> 'r redis \<Rightarrow> settings \<Rightarrow> rat \<Rightarrow> string \<Rightarrow> 'v
     \<Rightarrow> 'v ttl_cache \<times> 'r \<Rightarrow> 'v ttl_cache \<times> 'r" where
  "cache_set dumps rd st now key v s = (case s of (c, r) \<Rightarrow>
     (tc_set now key v c,
      (case rd_set rd key (dumps v) (cache_ttl st) r of None \<Rightarrow> r | Some r1 \<Rightarrow> r1)))"

definition cache_invalidate ::
  "'r redis \<Rightarrow> string \<Rightarrow> 'v ttl_cache \<times> 'r \<Rightarrow> 'v ttl_cache \<times> 'r" where
  "cache_invalidate rd key s = (case s of (c, r) \<Rightarrow>
     (tc_delete key c, (case rd_delete rd [key] r of None \<Rightarrow> r | Some r1 \<Rightarrow> r1)))"

text \<open>
  The SCAN loop runs until the server hands back cursor 0, so it may run for ever:
  \<open>None\<close> is that it does not return. An exception ends it with the state reached.
\<close>

partial_function (option) redis_scan_loop ::
  "'r redis \<Rightarrow> string \<Rightarrow> nat \<Rightarrow> 'r \<Rightarrow> 'r option" where
  "redis_scan_loop rd prefix cursor r =
     (case rd_scan rd cursor (prefix @ ''*'') r of
       None \<Rightarrow> Some r
     | Some ((cursor1, keys), r1) \<Rightarrow>
        (case (if keys = [] then Some r1 else rd_delete rd keys r1) of
          None \<Rightarrow> Some r1
        | Some r2 \<Rightarrow> if cursor1 = 0 then Some r2 else redis_scan_loop rd prefix cursor1 r2))"

definition cache_invalidate_prefix ::
  "'r redis \<Rightarrow> string \<Rightarrow> 'v ttl_cache \<times> 'r \<Rightarrow> ('v ttl_cache \<times> 'r) option" where
  "cache_invalidate_prefix rd prefix s = (case s of (c, r) \<Rightarrow>
     map_option (Pair (tc_clear_prefix prefix c)) (redis_scan_loop rd prefix 0 r))"

definition policy_cache_prefix :: string where
  "policy_cache_prefix = ''skc:policies''"

definition column_tag_prefix :: string where
  "column_tag_prefix = ''skc:column_tags''"

end
