(* ===== verification/Stardata_Service.thy ===== *)
theory Stardata_Service
  imports Ttl_Cache
begin

text \<open>
  The services the catalog talks to, and the state of a running catalog.
  Stardata receives SQL statements: a statement is a value of \<open>sd_stmt\<close> with its text
  \<open>sql_text\<close>, exactly the f-string the code sends, and the model keeps the log of the
  statements sent with their outcomes. How Stardata and the RBAC control plane answer is
  not in the repository: the record \<open>ext\<close> holds their answers as functions of what they
  were sent so far, and every theorem is for all such records.
\<close>

section \<open>Statements\<close>

definition bq :: "string \<Rightarrow> string" where
  "bq s = CHR 0x60 # s @ [CHR 0x60]"

definition sq :: "string \<Rightarrow> string" where
  "sq s = CHR 0x27 # s @ [CHR 0x27]"

datatype sd_stmt =
    Create_View string
  | Grant_Select string string string
  | Revoke_Select string string string

fun sql_text :: "sd_stmt \<Rightarrow> string" where
  "sql_text (Create_View ddl) = ddl"
| "sql_text (Grant_Select db obj user) =
     ''GRANT SELECT_PRIV ON '' @ bq db @ ''.'' @ bq obj @ '' TO '' @ sq user @ ''@'' @ sq ''%'' @ '';''"
| "sql_text (Revoke_Select db tbl user) =
     ''REVOKE SELECT_PRIV ON '' @ bq db @ ''.'' @ bq tbl @ '' FROM '' @ sq user @ ''@'' @ sq ''%'' @ '';''"

type_synonym sd_log = "(sd_stmt \<times> bool) list"

section \<open>The services\<close>

datatype 'a http_reply = Http_Ok 'a | Http_Status int | Http_Exception string

record ext =
  ext_md5 :: "string \<Rightarrow> string"
  ext_sd_exec :: "sd_log \<Rightarrow> string \<Rightarrow> string option"
  ext_sd_columns :: "sd_log \<Rightarrow> string \<Rightarrow> string \<Rightarrow> string + string list"
  ext_sd_tables :: "sd_log \<Rightarrow> string \<Rightarrow> string + string list"
  ext_sd_connect :: "sd_log \<Rightarrow> string option"
  ext_sd_grantees :: "sd_log \<Rightarrow> string + string list"
  ext_rbac_roles :: "string \<Rightarrow> string list option http_reply"
  ext_rbac_users :: "string list http_reply"

text \<open>\<^verbatim>\<open>_stardata_execute\<close>: send one statement; \<open>Some\<close> is the exception it raised.\<close>

definition stardata_execute :: "ext \<Rightarrow> sd_stmt \<Rightarrow> sd_log \<Rightarrow> string option \<times> sd_log" where
  "stardata_execute e stmt lg =
     (let r = ext_sd_exec e lg (sql_text stmt) in (r, lg @ [(stmt, r = None)]))"

text \<open>\<^verbatim>\<open>RBACClient\<close>: an unreachable or failing control plane gives a user no role.\<close>

definition get_user_roles :: "ext \<Rightarrow> string \<Rightarrow> string list option" where
  "get_user_roles e u = (case ext_rbac_roles e u of
     Http_Ok d \<Rightarrow> d | Http_Status _ \<Rightarrow> Some [] | Http_Exception _ \<Rightarrow> Some [])"

definition role_names :: "ext \<Rightarrow> string \<Rightarrow> string list" where
  "role_names e u = (case get_user_roles e u of None \<Rightarrow> [] | Some rs \<Rightarrow> rs)"

text \<open>\<^verbatim>\<open>_stardata_users_with_role\<close> of the exceptions router, and its copy in the engine.\<close>

definition stardata_users_with_role :: "ext \<Rightarrow> string \<Rightarrow> string list" where
  "stardata_users_with_role e role = (case ext_rbac_users e of
     Http_Ok users \<Rightarrow> filter (\<lambda>u. role \<in> set (role_names e u)) users
   | Http_Status _ \<Rightarrow> [] | Http_Exception _ \<Rightarrow> [])"

section \<open>Grant and revoke helpers\<close>

text \<open>Both swallow the exception of the statement and only log it.\<close>

definition grant_view_to_user :: "ext \<Rightarrow> string \<Rightarrow> string \<Rightarrow> string \<Rightarrow> sd_log \<Rightarrow> sd_log" where
  "grant_view_to_user e db view user lg =
     snd (stardata_execute e (Grant_Select db view user) lg)"

definition revoke_base_table_from_user :: "ext \<Rightarrow> string \<Rightarrow> string \<Rightarrow> string \<Rightarrow> sd_log \<Rightarrow> sd_log" where
  "revoke_base_table_from_user e db tbl user lg =
     snd (stardata_execute e (Revoke_Select db tbl user) lg)"

section \<open>What the log says about a privilege\<close>

text \<open>
  The object-level SELECT privilege a user has by the statements of this log: decided by
  the last successful GRANT or REVOKE that names the object and the user, \<open>None\<close> when
  there is none.
\<close>

fun priv_key :: "sd_stmt \<Rightarrow> (string \<times> string \<times> string) option" where
  "priv_key (Create_View _) = None"
| "priv_key (Grant_Select db obj user) = Some (db, obj, user)"
| "priv_key (Revoke_Select db obj user) = Some (db, obj, user)"

fun is_grant :: "sd_stmt \<Rightarrow> bool" where
  "is_grant (Grant_Select _ _ _) = True"
| "is_grant _ = False"

definition select_priv :: "sd_log \<Rightarrow> string \<times> string \<times> string \<Rightarrow> bool option" where
  "select_priv lg k = map_option (\<lambda>(s, _). is_grant s)
     (List.find (\<lambda>(s, ok). ok \<and> priv_key s = Some k) (rev lg))"

lemma select_priv_Nil [simp]: "select_priv [] k = None"
  by (simp add: select_priv_def)

lemma select_priv_append [simp]:
  "select_priv (lg1 @ lg2) k = (case select_priv lg2 k of None \<Rightarrow> select_priv lg1 k | Some b \<Rightarrow> Some b)"
  by (simp add: select_priv_def find_append split: option.split)

lemma select_priv_Cons [simp]:
  "select_priv ((s, ok) # lg) k = (case select_priv lg k of
     None \<Rightarrow> if ok \<and> priv_key s = Some k then Some (is_grant s) else None | Some b \<Rightarrow> Some b)"
  using select_priv_append[of "[(s, ok)]" lg k]
  by (simp add: select_priv_def split: option.split_asm option.split)

text \<open>A sequence of steps on the log: none of them touches a privilege, or one of them decides it.\<close>

lemma priv_fold_untouched:
  assumes "\<And>x lg. x \<in> set xs \<Longrightarrow> select_priv (f x lg) k = select_priv lg k"
  shows "select_priv (fold f xs lg) k = select_priv lg k"
  using assms by (induction xs arbitrary: lg) auto

lemma priv_fold_decided:
  assumes "x \<in> set xs" and "\<And>lg. select_priv (f x lg) k = Some b"
    and "\<And>y lg. y \<in> set xs \<Longrightarrow> select_priv (f y lg) k = select_priv lg k \<or> select_priv (f y lg) k = Some b"
  shows "select_priv (fold f xs lg) k = Some b"
proof -
  have keep: "select_priv (fold f ys lg) k = Some b"
    if "select_priv lg k = Some b" "set ys \<subseteq> set xs" for ys lg
    using that
  proof (induction ys arbitrary: lg)
    case (Cons y ys)
    then have "select_priv (f y lg) k = Some b" using assms(3)[of y lg] by auto
    with Cons show ?case by simp
  qed simp
  obtain us vs where xs: "xs = us @ x # vs" using assms(1) split_list by metis
  have "select_priv (fold f vs (f x (fold f us lg))) k = Some b"
    by (rule keep) (auto simp: assms(2) xs)
  then show ?thesis by (simp add: xs)
qed

section \<open>The state of a running catalog\<close>

record world =
  w_db :: catalog
  w_cache :: "string ttl_cache"
  w_sd :: sd_log

definition init_world :: "settings \<Rightarrow> world" where
  "init_world st = \<lparr>w_db = empty_catalog, w_cache = local_cache_of st, w_sd = []\<rparr>"

text \<open>
  \<^verbatim>\<open>cache_invalidate_prefix\<close> as the handlers call it: the in-process cache is cleared;
  a failing Redis is only logged and does not change what the handler does.
\<close>

definition invalidate :: "string \<Rightarrow> world \<Rightarrow> world" where
  "invalidate prefix w = w\<lparr>w_cache := tc_clear_prefix prefix (w_cache w)\<rparr>"

text \<open>
  The end of a \<^verbatim>\<open>db_session\<close> block: the pending state of the tables is committed, or
  the exception of the block (or of the commit) rolls it back and goes on.
\<close>

definition commit :: "catalog \<Rightarrow> 'a \<Rightarrow> world \<Rightarrow> 'a res \<times> world" where
  "commit db a w = (case db_flush db of
     Inl err \<Rightarrow> (Inl err, w)
   | Inr db' \<Rightarrow> (Inr a, w\<lparr>w_db := db'\<rparr>))"

lemma invalidate_frame [simp, frame_simps]:
  "w_db (invalidate p w) = w_db w" "w_sd (invalidate p w) = w_sd w"
  by (simp_all add: invalidate_def)

lemma commit_Inr [simp]: "schema_ok db \<Longrightarrow> commit db a w = (Inr a, w\<lparr>w_db := db\<rparr>)"
  by (simp add: commit_def db_flush_ok)

lemma commit_cases:
  "(schema_ok db \<and> commit db a w = (Inr a, w\<lparr>w_db := db\<rparr>)) \<or>
   (\<not> schema_ok db \<and> commit db a w = (Inl internal_error, w))"
  by (simp add: commit_def db_flush_def)

lemma commit_sd [frame_simps]: "w_sd (snd (commit db a w)) = w_sd w"
  by (simp add: commit_def split: sum.splits)

lemma commit_schema_ok: "schema_ok (w_db w) \<Longrightarrow> schema_ok (w_db (snd (commit db a w)))"
  by (auto simp: commit_def split: sum.splits)

lemma stardata_execute_log: "snd (stardata_execute e s lg) = lg @ [(s, fst (stardata_execute e s lg) = None)]"
  by (simp add: stardata_execute_def Let_def)

lemma grant_log: "grant_view_to_user e db v u lg =
    lg @ [(Grant_Select db v u, fst (stardata_execute e (Grant_Select db v u) lg) = None)]"
  by (simp add: grant_view_to_user_def stardata_execute_log)

lemma revoke_log: "revoke_base_table_from_user e db t u lg =
    lg @ [(Revoke_Select db t u, fst (stardata_execute e (Revoke_Select db t u) lg) = None)]"
  by (simp add: revoke_base_table_from_user_def stardata_execute_log)

text \<open>A record of services that accept everything, for the concrete runs of the development.\<close>

definition calm_ext :: ext where
  "calm_ext = \<lparr>ext_md5 = (\<lambda>s. s), ext_sd_exec = (\<lambda>_ _. None),
     ext_sd_columns = (\<lambda>_ _ _. Inr []), ext_sd_tables = (\<lambda>_ _. Inr []),
     ext_sd_connect = (\<lambda>_. None), ext_sd_grantees = (\<lambda>_. Inr []),
     ext_rbac_roles = (\<lambda>_. Http_Ok (Some [])), ext_rbac_users = Http_Ok []\<rparr>"

end
