(* ===== verification/Demo_State.thy ===== *)
theory Demo_State
  imports Stardata_Service
begin

text \<open>
  A small concrete catalog and concrete services, on which the witnesses of the
  development evaluate: two classifications, a hash algorithm with a policy for the
  first one, a table with three tagged columns, and a role excepted for one of the
  two classifications.
\<close>

definition pii_class :: classification where
  "pii_class = \<lparr>cls_id = 1, cls_name = ''PII'', cls_display_name = ''Personal data'',
     cls_description = None, cls_sensitivity = ''high'', cls_color_hex = None\<rparr>"

definition pci_class :: classification where
  "pci_class = \<lparr>cls_id = 2, cls_name = ''PCI'', cls_display_name = ''Card data'',
     cls_description = None, cls_sensitivity = ''critical'', cls_color_hex = None\<rparr>"

definition email_term :: glossary_term where
  "email_term = \<lparr>gt_id = 1, gt_name = ''email_address'', gt_display_name = ''Email'',
     gt_description = None, gt_classification_id = Some 1, gt_column_name_patterns = [''email''],
     gt_description_patterns = [], gt_negative_patterns = [],
     gt_table_name_negative_patterns = [], gt_table_name_positive_patterns = [], gt_steward = None\<rparr>"

definition sha_algorithm :: masking_algorithm where
  "sha_algorithm = \<lparr>ma_id = 1, ma_name = ''SHA256_HASH'', ma_display_name = ''SHA-256'',
     ma_description = None, ma_algorithm_type = ''HASH'',
     ma_stardata_expression = ''SHA2({col}, 256)'', ma_applicable_types = [''VARCHAR'']\<rparr>"

definition pii_policy :: masking_policy where
  "pii_policy = \<lparr>mp_id = 1, mp_name = ''pii_default'', mp_description = None,
     mp_classification_id = Some 1, mp_glossary_term_id = None, mp_algorithm_id = 1,
     mp_priority = 100, mp_enabled = True\<rparr>"

definition demo_tag :: "int \<Rightarrow> string \<Rightarrow> string \<Rightarrow> int option \<Rightarrow> int option \<Rightarrow> bool \<Rightarrow> column_tag" where
  "demo_tag i tbl col term cls auto = \<lparr>ct_id = i, ct_database = ''demo'', ct_table = tbl,
     ct_column = col, ct_glossary_term_id = term, ct_classification_id = cls,
     ct_auto_detected = auto, ct_detection_score = None, ct_override_reason = None\<rparr>"

definition auditor_exception :: role_masking_exception where
  "auditor_exception = \<lparr>re_id = 1, re_role_name = ''auditor'', re_classification_id = 1,
     re_granted_by = ''admin''\<rparr>"

definition demo_db :: catalog where
  "demo_db = \<lparr>
     classifications = \<lparr>tbl_rows = [pii_class, pci_class], tbl_next = 3\<rparr>,
     glossary_terms = \<lparr>tbl_rows = [email_term], tbl_next = 2\<rparr>,
     masking_algorithms = \<lparr>tbl_rows = [sha_algorithm], tbl_next = 2\<rparr>,
     masking_policies = \<lparr>tbl_rows = [pii_policy], tbl_next = 2\<rparr>,
     column_tags = \<lparr>tbl_rows =
       [demo_tag 1 ''users'' ''mail'' None (Some 1) True, demo_tag 2 ''users'' ''card'' None (Some 2) False,
        demo_tag 3 ''notes'' ''body'' (Some 1) None False], tbl_next = 4\<rparr>,
     role_exceptions = \<lparr>tbl_rows = [auditor_exception], tbl_next = 2\<rparr>,
     governance_databases = empty_tbl, view_manifests = empty_tbl\<rparr>"

definition demo_world :: world where
  "demo_world = (init_world default_settings)\<lparr>w_db := demo_db\<rparr>"

text \<open>User \<^verbatim>\<open>ann\<close> is an analyst, \<^verbatim>\<open>bob\<close> an auditor; every statement is accepted.\<close>

definition demo_ext :: ext where
  "demo_ext = calm_ext\<lparr>ext_sd_columns := (\<lambda>_ _ _. Inr [''id'', ''mail'', ''card'']),
     ext_sd_tables := (\<lambda>_ _. Inr [''users'', ''users_masked'']),
     ext_sd_grantees := (\<lambda>_. Inr [sq ''ann'' @ ''@'' @ sq ''%'', sq ''bob'' @ ''@'' @ sq ''%'']),
     ext_rbac_roles := (\<lambda>u. if u = ''ann'' then Http_Ok (Some [''analyst''])
        else if u = ''bob'' then Http_Ok (Some [''auditor'']) else Http_Status 404),
     ext_rbac_users := Http_Ok [''ann'', ''bob'']\<rparr>"

lemmas demo_defs = demo_world_def demo_db_def pii_class_def pci_class_def email_term_def
  sha_algorithm_def pii_policy_def demo_tag_def auditor_exception_def init_world_def
  default_settings_def demo_ext_def calm_ext_def empty_tbl_def

lemma demo_schema_ok [simp]: "schema_ok demo_db" "schema_ok (w_db demo_world)"
proof -
  show "schema_ok demo_db"
    by (simp add: schema_defs tbl_ok_def demo_defs ct_key_def re_key_def
        ck_policy_single_target_def sensitivity_levels_def algorithm_types_def)
  then show "schema_ok (w_db demo_world)" by (simp add: demo_world_def)
qed

end
