(* ===== verification/Masking_Engine.thy ===== *)
theory Masking_Engine
  imports Demo_State
begin

text \<open>
  The masking view builder, \<^verbatim>\<open>catalog/engine/masking.py\<close>: resolution of the policy of a
  tagged column, the text of the masked view, the lockdown of the base table, and
  \<open>apply_masking_view\<close>, which is one function from the state of the catalog to its
  result and the next state. The statements it sends to Stardata are in the log of the
  state; what Stardata and the RBAC control plane answer comes from \<open>ext\<close>.
\<close>

section \<open>Policy resolution\<close>

text \<open>
  The query of one level: enabled policies of a target, by descending priority, first
  row. Rows of equal priority come in the order of the table, which is arbitrary.
\<close>

definition best_enabled_policy :: "(masking_policy \<Rightarrow> bool) \<Rightarrow> catalog \<Rightarrow> masking_policy option" where
  "best_enabled_policy target db =
     (case sort_key (\<lambda>p. - mp_priority p)
        (filter (\<lambda>p. target p \<and> mp_enabled p) (tbl_rows (masking_policies db))) of
        [] \<Rightarrow> None | p # _ \<Rightarrow> Some p)"

definition policy_candidates :: "catalog \<Rightarrow> column_tag \<Rightarrow> masking_policy list" where
  "policy_candidates db tag =
     (case ct_glossary_term_id tag of None \<Rightarrow> []
      | Some g \<Rightarrow> (case best_enabled_policy (\<lambda>p. mp_glossary_term_id p = Some g) db of
          None \<Rightarrow> [] | Some p \<Rightarrow> [p])) @
     (case ct_classification_id tag of None \<Rightarrow> []
      | Some c \<Rightarrow> (case best_enabled_policy (\<lambda>p. mp_classification_id p = Some c) db of
          None \<Rightarrow> [] | Some p \<Rightarrow> [p]))"

definition policy_key :: "masking_policy \<Rightarrow> int \<times> int" where
  "policy_key p = (mp_priority p, if mp_glossary_term_id p \<noteq> None then 1 else 0)"

definition resolve_policy_for_column :: "catalog \<Rightarrow> column_tag \<Rightarrow> masking_algorithm option" where
  "resolve_policy_for_column db tag = (case policy_candidates db tag of
     [] \<Rightarrow> None
   | p # ps \<Rightarrow> session_get ma_id (mp_algorithm_id (py_max_key policy_key p ps)) (masking_algorithms db))"

section \<open>The text of the masked view\<close>

definition view_column :: "(string \<times> string) list \<Rightarrow> string \<Rightarrow> string" where
  "view_column masked col = (case map_of masked col of
     Some expr \<Rightarrow> ''  '' @ expr @ '' AS '' @ bq col
   | None \<Rightarrow> ''  '' @ bq col)"

definition build_view_ddl ::
  "string \<Rightarrow> string \<Rightarrow> string \<Rightarrow> string list \<Rightarrow> (string \<times> string) list \<Rightarrow> string" where
  "build_view_ddl db tbl view cols masked =
     ''CREATE OR REPLACE VIEW '' @ bq db @ ''.'' @ bq view @ '' AS'' @ newline @
     ''SELECT'' @ newline @
     py_join ('','' @ newline) (map (view_column masked) cols) @ newline @
     ''FROM '' @ bq db @ ''.'' @ bq tbl @ '';''"

definition fill_expression :: "masking_algorithm \<Rightarrow> string \<Rightarrow> string" where
  "fill_expression a col = py_replace ''{col}'' (bq col) (ma_stardata_expression a)"

fun masked_exprs :: "catalog \<Rightarrow> column_tag list \<Rightarrow> (string \<times> string) list \<Rightarrow> (string \<times> string) list" where
  "masked_exprs db [] acc = acc"
| "masked_exprs db (t # ts) acc =
     (case resolve_policy_for_column db t of
        None \<Rightarrow> masked_exprs db ts acc
      | Some a \<Rightarrow> masked_exprs db ts (AList.update (ct_column t) (fill_expression a (ct_column t)) acc))"

section \<open>The lockdown of the base table\<close>

text \<open>\<^verbatim>\<open>r[0].strip("'").split("'@'")[0]\<close>: the user of a grantee such as \<^verbatim>\<open>'alice'@'%'\<close>.\<close>

definition quote_at_quote :: string where
  "quote_at_quote = [CHR 0x27] @ ''@'' @ [CHR 0x27]"

definition grantee_user :: "string \<Rightarrow> string" where
  "grantee_user g = split_first quote_at_quote (py_strip_char CHR 0x27 g)"

definition is_exempt :: "ext \<Rightarrow> string list \<Rightarrow> string \<Rightarrow> bool" where
  "is_exempt e exempt_roles user = list_ex (\<lambda>r. r \<in> set exempt_roles) (role_names e user)"

definition lockdown_user ::
  "ext \<Rightarrow> settings \<Rightarrow> string \<Rightarrow> string \<Rightarrow> string list \<Rightarrow> string \<Rightarrow> sd_log \<Rightarrow> sd_log" where
  "lockdown_user e st db tbl exempt_roles user lg =
     (if is_exempt e exempt_roles user then lg
      else grant_view_to_user e db (tbl @ masked_view_suffix st) user
             (revoke_base_table_from_user e db tbl user lg))"

definition enforce_base_table_lockdown ::
  "ext \<Rightarrow> settings \<Rightarrow> string \<Rightarrow> string \<Rightarrow> string list \<Rightarrow> sd_log \<Rightarrow> string option \<times> sd_log" where
  "enforce_base_table_lockdown e st db tbl exempt_roles lg =
     (case ext_sd_connect e lg of
        Some exc \<Rightarrow> (Some exc, lg)
      | None \<Rightarrow>
         (case ext_sd_grantees e lg of
            Inl _ \<Rightarrow> (None, lg)
          | Inr rows \<Rightarrow> (None, fold (lockdown_user e st db tbl exempt_roles) (map grantee_user rows) lg)))"

section \<open>The governance switch, as the engine reads it\<close>

definition is_governance_enabled :: "catalog \<Rightarrow> string \<Rightarrow> bool res" where
  "is_governance_enabled db database =
     (case scalar_one_or_none (\<lambda>g. gd_database g = database) (governance_databases db) of
        Inl err \<Rightarrow> Inl err
      | Inr None \<Rightarrow> Inr True
      | Inr (Some g) \<Rightarrow> Inr (gd_governance_enabled g))"

section \<open>Applying a masked view\<close>

record apply_result =
  ar_view_name :: string
  ar_columns_masked :: "string list"
  ar_action :: string
  ar_detail :: "string option"

definition table_tags :: "catalog \<Rightarrow> string \<Rightarrow> string \<Rightarrow> column_tag list" where
  "table_tags db database tbl =
     filter (\<lambda>t. ct_database t = database \<and> ct_table t = tbl) (tbl_rows (column_tags db))"

definition exempt_role_names :: "catalog \<Rightarrow> string list" where
  "exempt_role_names db = remdups (map re_role_name (tbl_rows (role_exceptions db)))"

definition find_manifest :: "catalog \<Rightarrow> string \<Rightarrow> string \<Rightarrow> view_manifest option res" where
  "find_manifest db database tbl = scalar_one_or_none (\<lambda>m. vm_key m = (database, tbl)) (view_manifests db)"

definition save_manifest ::
  "view_manifest option \<Rightarrow> string \<Rightarrow> string \<Rightarrow> string \<Rightarrow> string \<Rightarrow> string list \<Rightarrow> string \<Rightarrow> catalog \<Rightarrow> catalog" where
  "save_manifest manifest database tbl view ddl cols checksum db = (case manifest of
     Some m \<Rightarrow> db\<lparr>view_manifests := tbl_replace vm_id
        (m\<lparr>vm_view_ddl := ddl, vm_view_checksum := Some checksum, vm_columns_masked := cols\<rparr>)
        (view_manifests db)\<rparr>
   | None \<Rightarrow> db\<lparr>view_manifests := snd (tbl_insert (\<lambda>i. \<lparr>vm_id = i, vm_database = database,
        vm_base_table = tbl, vm_view_name = view, vm_view_ddl = ddl, vm_columns_masked = cols,
        vm_view_checksum = Some checksum\<rparr>) (view_manifests db))\<rparr>)"

definition governance_disabled_detail :: "string \<Rightarrow> string" where
  "governance_disabled_detail database =
     ''Governance is DISABLED for database '' @ sq database @ ''. '' @
     ''Re-enable via POST /api/v1/governance-switch/{database}/enable '' @
     ''before applying masking.''"

text \<open>The part of \<^verbatim>\<open>apply_masking_view\<close> after the statement was accepted.\<close>

definition enforce_and_persist ::
  "ext \<Rightarrow> settings \<Rightarrow> string \<Rightarrow> string \<Rightarrow> view_manifest option \<Rightarrow> string \<Rightarrow> string list \<Rightarrow> world
     \<Rightarrow> apply_result res \<times> world" where
  "enforce_and_persist e st database tbl manifest ddl cols w =
     (let view = tbl @ masked_view_suffix st;
          exempt = exempt_role_names (w_db w);
          lg1 = grant_view_to_user e database view ''analyst'' (w_sd w)
      in case enforce_base_table_lockdown e st database tbl exempt lg1 of
           (Some exc, lg2) \<Rightarrow> (Inl internal_error, w\<lparr>w_sd := lg2\<rparr>)
         | (None, lg2) \<Rightarrow>
            (case commit (save_manifest manifest database tbl view ddl cols (ext_md5 e ddl) (w_db w))
                    () (w\<lparr>w_sd := lg2\<rparr>) of
               (Inl err, w1) \<Rightarrow> (Inl err, w1)
             | (Inr _, w1) \<Rightarrow>
                (Inr \<lparr>ar_view_name = view, ar_columns_masked = cols,
                      ar_action = (if manifest = None then ''created'' else ''updated''),
                      ar_detail = None\<rparr>,
                 invalidate policy_cache_prefix w1)))"

definition apply_masking_view ::
  "ext \<Rightarrow> settings \<Rightarrow> string \<Rightarrow> string \<Rightarrow> bool \<Rightarrow> bool \<Rightarrow> world \<Rightarrow> apply_result res \<times> world" where
  "apply_masking_view e st database tbl dry_run force w =
     (let view = tbl @ masked_view_suffix st; db = w_db w;
          result = (\<lambda>cols action detail. \<lparr>ar_view_name = view, ar_columns_masked = cols,
             ar_action = action, ar_detail = Some detail\<rparr>)
      in case is_governance_enabled db database of
        Inl err \<Rightarrow> (Inl err, w)
      | Inr False \<Rightarrow> (Inr (result [] ''skipped'' (governance_disabled_detail database)), w)
      | Inr True \<Rightarrow>
        (let tags = table_tags db database tbl; exprs = masked_exprs db tags [];
             masked = map fst exprs in
         if tags = [] then
           (Inr (result [] ''skipped'' (''No column tags found '' @ em_dash @ '' nothing to mask'')), w)
         else if exprs = [] then
           (Inr (result [] ''skipped'' ''Column tags found but no active masking policies matched''), w)
         else (case ext_sd_columns e (w_sd w) database tbl of
           Inl exc \<Rightarrow>
             (Inr (result masked ''error'' (''Could not fetch column metadata from Stardata: '' @ exc)), w)
         | Inr cols \<Rightarrow>
           (let ddl = build_view_ddl database tbl view cols exprs in
            if dry_run then (Inr (result masked ''dry_run'' ddl), w)
            else (case find_manifest db database tbl of
              Inl err \<Rightarrow> (Inl err, w)
            | Inr manifest \<Rightarrow>
               if manifest \<noteq> None \<and> vm_view_checksum (the manifest) = Some (ext_md5 e ddl) \<and> \<not> force
               then (Inr (result masked ''unchanged''
                      (''DDL checksum matches '' @ em_dash @ '' view is current'')), w)
               else (case stardata_execute e (Create_View ddl) (w_sd w) of
                 (Some exc, lg1) \<Rightarrow> (Inr (result masked ''error'' exc), w\<lparr>w_sd := lg1\<rparr>)
               | (None, lg1) \<Rightarrow>
                   enforce_and_persist e st database tbl manifest ddl masked (w\<lparr>w_sd := lg1\<rparr>)))))))"

text \<open>The router \<^verbatim>\<open>POST /masking/apply\<close>: every tagged table of the database, or one.\<close>

definition tables_to_apply :: "catalog \<Rightarrow> apply_request \<Rightarrow> string list" where
  "tables_to_apply db b = (case ap_table b of
     Some t \<Rightarrow> if t \<noteq> [] then [t] else
       remdups (map ct_table (filter (\<lambda>t. ct_database t = ap_database b) (tbl_rows (column_tags db))))
   | None \<Rightarrow>
       remdups (map ct_table (filter (\<lambda>t. ct_database t = ap_database b) (tbl_rows (column_tags db)))))"

fun apply_tables ::
  "ext \<Rightarrow> settings \<Rightarrow> apply_request \<Rightarrow> string list \<Rightarrow> world \<Rightarrow> (string \<times> apply_result) list res \<times> world" where
  "apply_tables e st b [] w = (Inr [], w)"
| "apply_tables e st b (t # ts) w =
     (case apply_masking_view e st (ap_database b) t (ap_dry_run b) (ap_force b) w of
        (Inl err, w1) \<Rightarrow> (Inl err, w1)
      | (Inr r, w1) \<Rightarrow>
         (case apply_tables e st b ts w1 of
            (Inl err, w2) \<Rightarrow> (Inl err, w2)
          | (Inr rs, w2) \<Rightarrow> (Inr ((t, r) # rs), w2)))"

definition apply_masking ::
  "ext \<Rightarrow> settings \<Rightarrow> apply_request \<Rightarrow> world \<Rightarrow> (string \<times> apply_result) list res \<times> world" where
  "apply_masking e st b w = apply_tables e st b (tables_to_apply (w_db w) b) w"

section \<open>Facts on policy resolution\<close>

text \<open>The policies that apply to a tagged column, and the preference between them.\<close>

definition applies :: "masking_policy \<Rightarrow> column_tag \<Rightarrow> bool" where
  "applies p t \<longleftrightarrow> mp_enabled p \<and>
     ((ct_glossary_term_id t \<noteq> None \<and> mp_glossary_term_id p = ct_glossary_term_id t) \<or>
      (ct_classification_id t \<noteq> None \<and> mp_classification_id p = ct_classification_id t))"

lemma best_enabled_policy_Some:
  assumes "best_enabled_policy target db = Some p"
  shows "p \<in> set (tbl_rows (masking_policies db)) \<and> target p \<and> mp_enabled p"
    and "q \<in> set (tbl_rows (masking_policies db)) \<Longrightarrow> target q \<Longrightarrow> mp_enabled q \<Longrightarrow>
      mp_priority q \<le> mp_priority p"
proof -
  let ?f = "filter (\<lambda>p. target p \<and> mp_enabled p) (tbl_rows (masking_policies db))"
  let ?s = "sort_key (\<lambda>p. - mp_priority p) ?f"
  obtain ps where s: "?s = p # ps"
    using assms by (auto simp: best_enabled_policy_def split: list.splits)
  have "p \<in> set ?s" using s by simp
  then show "p \<in> set (tbl_rows (masking_policies db)) \<and> target p \<and> mp_enabled p" by simp
  have sorted: "sorted (map (\<lambda>p. - mp_priority p) ?s)" by (rule sorted_sort_key)
  assume "q \<in> set (tbl_rows (masking_policies db))" and "target q" and "mp_enabled q"
  then have "q \<in> set ?s" by simp
  then have "q \<in> set (p # ps)" by (simp only: s)
  then show "mp_priority q \<le> mp_priority p" using sorted unfolding s by auto
qed

lemma best_enabled_policy_None:
  "best_enabled_policy target db = None \<longleftrightarrow>
     (\<forall>p \<in> set (tbl_rows (masking_policies db)). \<not> (target p \<and> mp_enabled p))"
proof -
  let ?f = "filter (\<lambda>p. target p \<and> mp_enabled p) (tbl_rows (masking_policies db))"
  have "best_enabled_policy target db = None \<longleftrightarrow> sort_key (\<lambda>p. - mp_priority p) ?f = []"
    by (simp add: best_enabled_policy_def split: list.splits)
  also have "\<dots> \<longleftrightarrow> ?f = []" by (metis set_sort set_empty)
  finally show ?thesis by (simp add: filter_empty_conv)
qed

lemma policy_candidates_sound:
  assumes "p \<in> set (policy_candidates db t)"
  shows "p \<in> set (tbl_rows (masking_policies db)) \<and> applies p t"
proof -
  have "(\<exists>g. ct_glossary_term_id t = Some g \<and>
        best_enabled_policy (\<lambda>p. mp_glossary_term_id p = Some g) db = Some p) \<or>
      (\<exists>c. ct_classification_id t = Some c \<and>
        best_enabled_policy (\<lambda>p. mp_classification_id p = Some c) db = Some p)"
    using assms unfolding policy_candidates_def
    by (cases "ct_glossary_term_id t"; cases "ct_classification_id t") (auto split: option.splits)
  then show ?thesis by (auto simp: applies_def dest: best_enabled_policy_Some(1))
qed

lemma best_enabled_policy_exists:
  assumes "q \<in> set (tbl_rows (masking_policies db))" and "target q" and "mp_enabled q"
  obtains p where "best_enabled_policy target db = Some p" and "target p"
    and "mp_priority q \<le> mp_priority p"
proof -
  have "best_enabled_policy target db \<noteq> None"
    using assms best_enabled_policy_None[of target db] by blast
  then obtain p where p: "best_enabled_policy target db = Some p" by blast
  show thesis
    using that[OF p] best_enabled_policy_Some(1)[OF p] best_enabled_policy_Some(2)[OF p assms] by blast
qed

lemma policy_candidates_dominate:
  assumes "q \<in> set (tbl_rows (masking_policies db))" and "applies q t"
    and "\<forall>p \<in> set (tbl_rows (masking_policies db)). ck_policy_single_target p"
  shows "\<exists>p \<in> set (policy_candidates db t). policy_key q \<le> policy_key p"
proof -
  have single: "ck_policy_single_target q" using assms(1,3) by blast
  consider (by_term) g where "ct_glossary_term_id t = Some g" "mp_glossary_term_id q = Some g" "mp_enabled q"
    | (by_class) c where "ct_classification_id t = Some c" "mp_classification_id q = Some c" "mp_enabled q"
    using assms(2) by (auto simp: applies_def)
  then show ?thesis
  proof cases
    case by_term
    then obtain p where p: "best_enabled_policy (\<lambda>p. mp_glossary_term_id p = Some g) db = Some p"
      "mp_glossary_term_id p = Some g" "mp_priority q \<le> mp_priority p"
      using best_enabled_policy_exists[of q db "\<lambda>p. mp_glossary_term_id p = Some g"] assms(1) by blast
    then have "policy_key q \<le> policy_key p" using by_term by (simp add: policy_key_def)
    moreover have "p \<in> set (policy_candidates db t)" using p by_term by (simp add: policy_candidates_def)
    ultimately show ?thesis by blast
  next
    case by_class
    then obtain p where p: "best_enabled_policy (\<lambda>p. mp_classification_id p = Some c) db = Some p"
      "mp_priority q \<le> mp_priority p"
      using best_enabled_policy_exists[of q db "\<lambda>p. mp_classification_id p = Some c"] assms(1) by blast
    have "mp_glossary_term_id q = None"
      using single by_class by (auto simp: ck_policy_single_target_def)
    with p have "policy_key q \<le> policy_key p" by (auto simp: policy_key_def)
    moreover have "p \<in> set (policy_candidates db t)" using p by_class by (simp add: policy_candidates_def)
    ultimately show ?thesis by blast
  qed
qed

lemma resolve_policy_cases:
  assumes "schema_ok db"
  shows "(resolve_policy_for_column db t = None \<and>
      (\<forall>p \<in> set (tbl_rows (masking_policies db)). \<not> applies p t)) \<or>
    (\<exists>a p. resolve_policy_for_column db t = Some a \<and> a \<in> set (tbl_rows (masking_algorithms db)) \<and>
      p \<in> set (tbl_rows (masking_policies db)) \<and> applies p t \<and> mp_algorithm_id p = ma_id a \<and>
      (\<forall>q \<in> set (tbl_rows (masking_policies db)). applies q t \<longrightarrow> policy_key q \<le> policy_key p))"
proof (cases "policy_candidates db t")
  case Nil
  have single: "\<forall>p \<in> set (tbl_rows (masking_policies db)). ck_policy_single_target p"
    using assms by (simp add: schema_defs)
  show ?thesis
    using Nil policy_candidates_dominate[OF _ _ single, of _ t]
    by (auto simp: resolve_policy_for_column_def)
next
  case (Cons p0 ps)
  have single: "\<forall>p \<in> set (tbl_rows (masking_policies db)). ck_policy_single_target p"
    using assms by (simp add: schema_defs)
  let ?p = "py_max_key policy_key p0 ps"
  have "?p \<in> set (policy_candidates db t)" using Cons py_max_key_in[of policy_key p0 ps] by simp
  then have p: "?p \<in> set (tbl_rows (masking_policies db))" "applies ?p t"
    using policy_candidates_sound by blast+
  then obtain a where a: "session_get ma_id (mp_algorithm_id ?p) (masking_algorithms db) = Some a"
    using assms session_get_None_iff[of ma_id "mp_algorithm_id ?p" "masking_algorithms db"]
    by (fastforce simp: schema_defs)
  have "policy_key q \<le> policy_key ?p"
    if "q \<in> set (tbl_rows (masking_policies db))" "applies q t" for q
    using policy_candidates_dominate[OF that single] Cons py_max_key_ge[of _ p0 ps policy_key]
    by (metis order.trans)
  with p a session_get_Some_D[OF a] Cons show ?thesis
    by (auto simp: resolve_policy_for_column_def)
qed

text \<open>
  C4: In a catalog that satisfies its constraints, a tagged column is left unmasked
  exactly when no enabled policy targets its term or its classification. Otherwise the
  algorithm chosen is that of an enabled policy for the column that no other such policy
  beats: none has a higher priority, and on equal priority a policy of the term is
  preferred to one of the classification.
\<close>

theorem resolve_policy_correct:
  assumes "schema_ok db"
  shows "case resolve_policy_for_column db t of
      None \<Rightarrow> \<forall>p \<in> set (tbl_rows (masking_policies db)). \<not> applies p t
    | Some a \<Rightarrow> \<exists>p \<in> set (tbl_rows (masking_policies db)). applies p t \<and> mp_algorithm_id p = ma_id a \<and>
        (\<forall>q \<in> set (tbl_rows (masking_policies db)). applies q t \<longrightarrow>
           mp_priority q \<le> mp_priority p \<and>
           (mp_priority q = mp_priority p \<and> mp_glossary_term_id q \<noteq> None \<longrightarrow> mp_glossary_term_id p \<noteq> None))"
  using resolve_policy_cases[OF assms, of t]
proof (elim disjE exE conjE)
  fix a p
  assume "resolve_policy_for_column db t = Some a" and "p \<in> set (tbl_rows (masking_policies db))"
    and "applies p t" and "mp_algorithm_id p = ma_id a"
    and "\<forall>q \<in> set (tbl_rows (masking_policies db)). applies q t \<longrightarrow> policy_key q \<le> policy_key p"
  then show ?thesis
    by (auto simp: policy_key_def split: if_splits intro!: bexI[of _ p])
qed simp

theorem resolve_policy_correct_witness:
  "resolve_policy_for_column demo_db (demo_tag 1 ''users'' ''mail'' None (Some 1) True) = Some sha_algorithm \<and>
   (\<exists>p \<in> set (tbl_rows (masking_policies demo_db)).
      applies p (demo_tag 1 ''users'' ''mail'' None (Some 1) True) \<and> mp_algorithm_id p = 1)"
proof -
  let ?t = "demo_tag 1 ''users'' ''mail'' None (Some 1) True"
  have "resolve_policy_for_column demo_db ?t = Some sha_algorithm"
    by (simp add: resolve_policy_for_column_def policy_candidates_def best_enabled_policy_def
        session_get_def demo_defs)
  then show ?thesis
    using resolve_policy_correct[OF demo_schema_ok(1), of ?t] by (auto simp: sha_algorithm_def)
qed

section \<open>Facts on the lockdown\<close>

text \<open>Stardata accepts every statement it is sent.\<close>

definition accepts_all :: "ext \<Rightarrow> bool" where
  "accepts_all e = (\<forall>lg s. ext_sd_exec e lg s = None)"

lemma stardata_execute_accepts: "accepts_all e \<Longrightarrow> fst (stardata_execute e s lg) = None"
  by (simp add: accepts_all_def stardata_execute_def Let_def)

lemma lockdown_user_log:
  "lockdown_user e st db tbl ex u lg =
     (if is_exempt e ex u then lg
      else (lg @ [(Revoke_Select db tbl u, fst (stardata_execute e (Revoke_Select db tbl u) lg) = None)]) @
        [(Grant_Select db (tbl @ masked_view_suffix st) u,
          fst (stardata_execute e (Grant_Select db (tbl @ masked_view_suffix st) u)
            (lg @ [(Revoke_Select db tbl u, fst (stardata_execute e (Revoke_Select db tbl u) lg) = None)])) = None)])"
  by (simp only: lockdown_user_def grant_log revoke_log if_cancel)

lemma lockdown_user_priv:
  "x \<noteq> u \<or> is_exempt e ex x \<Longrightarrow>
     select_priv (lockdown_user e st db tbl ex x lg) (d, obj, u) = select_priv lg (d, obj, u)"
  "accepts_all e \<Longrightarrow> \<not> is_exempt e ex x \<Longrightarrow> masked_view_suffix st \<noteq> [] \<Longrightarrow>
     select_priv (lockdown_user e st db tbl ex x lg) (db, tbl, x) = Some False"
  "accepts_all e \<Longrightarrow> \<not> is_exempt e ex x \<Longrightarrow>
     select_priv (lockdown_user e st db tbl ex x lg) (db, tbl @ masked_view_suffix st, x) = Some True"
  by (auto simp: lockdown_user_log stardata_execute_accepts)

lemma lockdown_fold_untouched:
  assumes "u \<notin> set users \<or> is_exempt e ex u"
  shows "select_priv (fold (lockdown_user e st db tbl ex) users lg) (d, obj, u) = select_priv lg (d, obj, u)"
  using assms
proof (induction users rule: rev_induct)
  case (snoc x users)
  then have ih: "select_priv (fold (lockdown_user e st db tbl ex) users lg) (d, obj, u) =
      select_priv lg (d, obj, u)" by auto
  have "is_exempt e ex x \<or> x \<noteq> u" using snoc.prems by auto
  with ih show ?case by (auto simp: lockdown_user_priv)
qed simp

lemma lockdown_fold_locked:
  assumes "accepts_all e" and "masked_view_suffix st \<noteq> []"
    and "u \<in> set users" and "\<not> is_exempt e ex u"
  shows "select_priv (fold (lockdown_user e st db tbl ex) users lg) (db, tbl, u) = Some False \<and>
    select_priv (fold (lockdown_user e st db tbl ex) users lg) (db, tbl @ masked_view_suffix st, u) = Some True"
  using assms(3)
proof (induction users rule: rev_induct)
  case (snoc x users)
  show ?case
  proof (cases "x = u")
    case True
    with assms show ?thesis by (simp add: lockdown_user_priv)
  next
    case False
    with snoc show ?thesis by (simp add: lockdown_user_priv)
  qed
qed simp

lemma lockdown_appends: "\<exists>new. fold (lockdown_user e st db tbl ex) users lg = lg @ new"
proof (induction users arbitrary: lg)
  case (Cons u users)
  have "\<exists>n. lockdown_user e st db tbl ex u lg = lg @ n" by (simp add: lockdown_user_log)
  then obtain n where "lockdown_user e st db tbl ex u lg = lg @ n" ..
  with Cons[of "lg @ n"] show ?case by auto
qed simp

section \<open>Facts on the manifest\<close>

lemma save_manifest_ok:
  assumes "schema_ok db" and "find_manifest db d t = Inr mo"
  shows "schema_ok (save_manifest mo d t view ddl cols ck db)"
    and "\<exists>m. find_manifest (save_manifest mo d t view ddl cols ck db) d t = Inr (Some m) \<and>
      vm_view_ddl m = ddl \<and> vm_view_checksum m = Some ck \<and> vm_columns_masked m = cols"
    and "k \<noteq> (d, t) \<Longrightarrow> find_key vm_key k (view_manifests (save_manifest mo d t view ddl cols ck db)) =
      find_key vm_key k (view_manifests db)"
proof -
  note tok = schema_okD(8)[OF assms(1)]
  have fm: "find_key vm_key (d, t) (view_manifests db) = mo"
    using assms(2) tok by (simp add: find_manifest_def scalar_one_by_key)
  let ?db = "save_manifest mo d t view ddl cols ck db"
  have goals: "tbl_ok vm_id vm_key (view_manifests ?db) \<and>
      (\<exists>m. find_key vm_key (d, t) (view_manifests ?db) = Some m \<and>
        vm_view_ddl m = ddl \<and> vm_view_checksum m = Some ck \<and> vm_columns_masked m = cols) \<and>
      (k \<noteq> (d, t) \<longrightarrow> find_key vm_key k (view_manifests ?db) = find_key vm_key k (view_manifests db))"
  proof (cases mo)
    case None
    then show ?thesis
      using fm tok
      by (simp add: save_manifest_def tbl_ok_insert find_key_insert find_key_insert_old vm_key_def)
  next
    case (Some m)
    let ?m = "m\<lparr>vm_view_ddl := ddl, vm_view_checksum := Some ck, vm_columns_masked := cols\<rparr>"
    have m: "m \<in> set (tbl_rows (view_manifests db))" "vm_key m = (d, t)"
      using fm Some find_key_Some_D by fastforce+
    have same: "vm_id ?m = vm_id m" "vm_key ?m = vm_key m" by (simp_all add: vm_key_def)
    show ?thesis
      using tbl_ok_replace[OF tok m(1) same] find_key_replace[OF tok m(1) same]
        find_key_replace_other[OF m(1) tok same, of k] m(2) Some
      by (simp add: save_manifest_def)
  qed
  have other: "schema_ok ?db \<longleftrightarrow> tbl_ok vm_id vm_key (view_manifests ?db)"
    using assms(1)
    by (cases mo) (simp_all add: schema_ok_def terms_ok_def policies_ok_def tags_ok_def
      exceptions_ok_def save_manifest_def)
  with goals show "schema_ok ?db" by blast
  show "\<exists>m. find_manifest ?db d t = Inr (Some m) \<and>
      vm_view_ddl m = ddl \<and> vm_view_checksum m = Some ck \<and> vm_columns_masked m = cols"
    using goals by (auto simp: find_manifest_def scalar_one_by_key)
  show "k \<noteq> (d, t) \<Longrightarrow> find_key vm_key k (view_manifests ?db) = find_key vm_key k (view_manifests db)"
    using goals by blast
qed

lemma save_manifest_frame [simp]:
  "classifications (save_manifest mo d t view ddl cols ck db) = classifications db"
  "glossary_terms (save_manifest mo d t view ddl cols ck db) = glossary_terms db"
  "masking_algorithms (save_manifest mo d t view ddl cols ck db) = masking_algorithms db"
  "masking_policies (save_manifest mo d t view ddl cols ck db) = masking_policies db"
  "column_tags (save_manifest mo d t view ddl cols ck db) = column_tags db"
  "role_exceptions (save_manifest mo d t view ddl cols ck db) = role_exceptions db"
  "governance_databases (save_manifest mo d t view ddl cols ck db) = governance_databases db"
  by (simp_all add: save_manifest_def split: option.splits)

section \<open>The outcomes of applying a view\<close>

text \<open>What the handler has worked out when it sends the CREATE VIEW statement.\<close>

definition prepared ::
  "ext \<Rightarrow> settings \<Rightarrow> string \<Rightarrow> string \<Rightarrow> world \<Rightarrow> string list \<Rightarrow> (string \<times> string) list \<Rightarrow> bool" where
  "prepared e st d t w cols exprs \<longleftrightarrow>
     is_governance_enabled (w_db w) d = Inr True \<and>
     exprs = masked_exprs (w_db w) (table_tags (w_db w) d t) [] \<and> exprs \<noteq> [] \<and>
     table_tags (w_db w) d t \<noteq> [] \<and> ext_sd_columns e (w_sd w) d t = Inr cols"

abbreviation view_ddl :: "settings \<Rightarrow> string \<Rightarrow> string \<Rightarrow> string list \<Rightarrow> (string \<times> string) list \<Rightarrow> string" where
  "view_ddl st d t cols exprs \<equiv> build_view_ddl d t (t @ masked_view_suffix st) cols exprs"

lemma apply_masking_view_cases:
  assumes "apply_masking_view e st d t dry force w = (res, w')"
  obtains (no_effect) "w' = w"
      "\<And>r. res = Inr r \<Longrightarrow> ar_action r \<in> {''skipped'', ''error'', ''dry_run'', ''unchanged''}"
    | (rejected) cols exprs exc where "prepared e st d t w cols exprs" "\<not> dry"
      "stardata_execute e (Create_View (view_ddl st d t cols exprs)) (w_sd w) = (Some exc, w_sd w')"
      "w_db w' = w_db w" "w_cache w' = w_cache w" "res = Inr \<lparr>ar_view_name = t @ masked_view_suffix st,
         ar_columns_masked = map fst exprs, ar_action = ''error'', ar_detail = Some exc\<rparr>"
    | (accepted) cols exprs manifest lg where "prepared e st d t w cols exprs" "\<not> dry"
      "find_manifest (w_db w) d t = Inr manifest"
      "stardata_execute e (Create_View (view_ddl st d t cols exprs)) (w_sd w) = (None, lg)"
      "(res, w') = enforce_and_persist e st d t manifest (view_ddl st d t cols exprs)
         (map fst exprs) (w\<lparr>w_sd := lg\<rparr>)"
proof (cases "is_governance_enabled (w_db w) d")
  case (Inl err)
  with assms show thesis by (intro no_effect) (auto simp: apply_masking_view_def Let_def)
next
  case gov: (Inr b)
  let ?exprs = "masked_exprs (w_db w) (table_tags (w_db w) d t) []"
  show thesis
  proof (cases "b \<and> table_tags (w_db w) d t \<noteq> [] \<and> ?exprs \<noteq> []")
    case False
    with assms gov show thesis
      by (intro no_effect) (auto simp: apply_masking_view_def Let_def split: bool.splits if_splits)
  next
    case True
    then have prep: "prepared e st d t w cols ?exprs" if "ext_sd_columns e (w_sd w) d t = Inr cols" for cols
      using that gov by (simp add: prepared_def)
    note unf = apply_masking_view_def Let_def
    show thesis
    proof (cases "ext_sd_columns e (w_sd w) d t")
      case (Inl exc)
      with assms gov True show thesis by (intro no_effect) (auto simp: unf)
    next
      case cols: (Inr cols)
      let ?ddl = "view_ddl st d t cols ?exprs"
      show thesis
      proof (cases "dry")
        case True
        with assms gov \<open>b \<and> _\<close> cols show thesis by (intro no_effect) (auto simp: unf)
      next
        case live: False
        show thesis
        proof (cases "find_manifest (w_db w) d t")
          case (Inl err)
          with assms gov True cols live show thesis by (intro no_effect) (auto simp: unf)
        next
          case man: (Inr manifest)
          show thesis
          proof (cases "manifest \<noteq> None \<and> vm_view_checksum (the manifest) = Some (ext_md5 e ?ddl) \<and> \<not> force")
            case True
            with assms gov \<open>b \<and> _\<close> cols live man show thesis by (intro no_effect) (auto simp: unf)
          next
            case stale: False
            obtain r lg where x: "stardata_execute e (Create_View ?ddl) (w_sd w) = (r, lg)"
              by (cases "stardata_execute e (Create_View ?ddl) (w_sd w)")
            show thesis
            proof (cases r)
              case None
              have "(res, w') = enforce_and_persist e st d t manifest ?ddl (map fst ?exprs) (w\<lparr>w_sd := lg\<rparr>)"
                using assms gov True cols live man stale x None by (auto simp: unf split: if_splits)
              with prep[OF cols] live man x None show thesis by (intro accepted) auto
            next
              case (Some exc)
              have "(res, w') = (Inr \<lparr>ar_view_name = t @ masked_view_suffix st,
                  ar_columns_masked = map fst ?exprs, ar_action = ''error'', ar_detail = Some exc\<rparr>,
                  w\<lparr>w_sd := lg\<rparr>)"
                using assms gov True cols live man stale x Some by (auto simp: unf split: if_splits)
              with prep[OF cols] live x Some show thesis by (intro rejected) auto
            qed
          qed
        qed
      qed
    qed
  qed
qed

lemma enforce_and_persist_cases:
  assumes "enforce_and_persist e st d t mo ddl cols w = (res, w')"
  obtains (failed) err where "res = Inl err" "w_db w' = w_db w" "w_cache w' = w_cache w"
    | (persisted) r lg2 where "res = Inr r" "ar_columns_masked r = cols"
      "ar_view_name r = t @ masked_view_suffix st" "ar_action r \<in> {''created'', ''updated''}"
      "enforce_base_table_lockdown e st d t (exempt_role_names (w_db w))
         (grant_view_to_user e d (t @ masked_view_suffix st) ''analyst'' (w_sd w)) = (None, lg2)"
      "w_sd w' = lg2" "schema_ok (w_db w')"
      "w_db w' = save_manifest mo d t (t @ masked_view_suffix st) ddl cols (ext_md5 e ddl) (w_db w)"
  using assms
  by (auto simp: enforce_and_persist_def Let_def commit_def split: option.splits prod.splits sum.splits)

lemma lockdown_log:
  assumes "enforce_base_table_lockdown e st d t ex lg = (r, lg')"
  shows "\<exists>new. lg' = lg @ new"
  using assms lockdown_appends[of e st d t ex _ lg]
  by (force simp: enforce_base_table_lockdown_def split: option.splits sum.splits)

text \<open>Two concrete runs: the view of table \<^verbatim>\<open>users\<close> is created, or rejected by Stardata.\<close>

definition deny_ext :: ext where
  "deny_ext = demo_ext\<lparr>ext_sd_exec := (\<lambda>_ _. Some ''denied'')\<rparr>"

lemmas apply_eval = apply_masking_view_def Let_def is_governance_enabled_def scalar_one_or_none_def
  table_tags_def resolve_policy_for_column_def policy_candidates_def best_enabled_policy_def
  session_get_def find_manifest_def stardata_execute_def

lemma enforce_and_persist_succeeds:
  assumes "schema_ok (w_db w)" and "find_manifest (w_db w) d t = Inr mo" and "\<forall>lg. ext_sd_connect e lg = None"
  shows "\<exists>r w'. enforce_and_persist e st d t mo ddl cols w = (Inr r, w') \<and>
    ar_action r = (if mo = None then ''created'' else ''updated'')"
proof -
  obtain lg2 where "enforce_base_table_lockdown e st d t (exempt_role_names (w_db w))
      (grant_view_to_user e d (t @ masked_view_suffix st) ''analyst'' (w_sd w)) = (None, lg2)"
    using assms(3) by (cases "ext_sd_grantees e (grant_view_to_user e d (t @ masked_view_suffix st)
      ''analyst'' (w_sd w))") (auto simp: enforce_base_table_lockdown_def)
  then show ?thesis
    using save_manifest_ok(1)[OF assms(1,2)] by (simp add: enforce_and_persist_def Let_def)
qed

lemma demo_apply:
  "\<exists>r w'. apply_masking_view demo_ext default_settings ''demo'' ''users'' False False demo_world = (Inr r, w')
     \<and> ar_action r = ''created''"
proof -
  obtain cols exprs where p: "prepared demo_ext default_settings ''demo'' ''users'' demo_world cols exprs"
    by (simp add: prepared_def apply_eval demo_defs)
  have m: "find_manifest (w_db demo_world) ''demo'' ''users'' = Inr None"
    by (simp add: apply_eval demo_defs)
  have x: "stardata_execute demo_ext s lg = (None, lg @ [(s, True)])" for s lg
    by (simp add: stardata_execute_def demo_ext_def calm_ext_def)
  let ?ddl = "view_ddl default_settings ''demo'' ''users'' cols exprs"
  have "apply_masking_view demo_ext default_settings ''demo'' ''users'' False False demo_world =
      enforce_and_persist demo_ext default_settings ''demo'' ''users'' None ?ddl (map fst exprs)
        (demo_world\<lparr>w_sd := w_sd demo_world @ [(Create_View ?ddl, True)]\<rparr>)"
    using p m x unfolding prepared_def by (auto simp: apply_masking_view_def Let_def)
  moreover have "\<forall>lg. ext_sd_connect demo_ext lg = None" by (simp add: demo_ext_def calm_ext_def)
  ultimately show ?thesis
    using enforce_and_persist_succeeds[of "demo_world\<lparr>w_sd := w_sd demo_world @ [(Create_View ?ddl, True)]\<rparr>"
        "''demo''" "''users''" None demo_ext default_settings ?ddl "map fst exprs"] m
    by (simp add: demo_schema_ok)
qed

lemma demo_reject:
  "\<exists>r w'. apply_masking_view deny_ext default_settings ''demo'' ''users'' False False demo_world = (Inr r, w')
     \<and> ar_action r = ''error''"
  by (simp add: apply_eval deny_ext_def demo_defs)

section \<open>Properties of applying a view\<close>

text \<open>
  C2: \<open>apply_masking_view\<close> changes the tables and the cache only when it answers
  "created" or "updated". Every other outcome, be it an exception, a statement Stardata
  rejects, a dry run, a disabled governance switch or an unchanged view, leaves them as
  they were; and a dry run sends no statement to Stardata.
\<close>

theorem apply_masking_view_atomic:
  "case apply_masking_view e st d t dry force w of (res, w') \<Rightarrow>
     (\<exists>r. res = Inr r \<and> ar_action r \<in> {''created'', ''updated''}) \<or>
     (w_db w' = w_db w \<and> w_cache w' = w_cache w \<and> (w_sd w' = w_sd w \<or> \<not> dry))"
proof -
  obtain res w' where a: "apply_masking_view e st d t dry force w = (res, w')"
    by (cases "apply_masking_view e st d t dry force w")
  have "(\<exists>r. res = Inr r \<and> ar_action r \<in> {''created'', ''updated''}) \<or>
      (w_db w' = w_db w \<and> w_cache w' = w_cache w \<and> (w_sd w' = w_sd w \<or> \<not> dry))"
    using a
  proof (cases rule: apply_masking_view_cases)
    case no_effect
    then show ?thesis by simp
  next
    case (rejected cols exprs exc)
    then show ?thesis by simp
  next
    case (accepted cols exprs manifest lg)
    from accepted(5)[symmetric] show ?thesis
      by (cases rule: enforce_and_persist_cases) (use accepted(2) in auto)
  qed
  with a show ?thesis by simp
qed

theorem apply_masking_view_atomic_witness:
  "w_db (snd (apply_masking_view deny_ext default_settings ''demo'' ''users'' False False demo_world)) = demo_db"
proof -
  obtain r w' where r: "apply_masking_view deny_ext default_settings ''demo'' ''users'' False False demo_world
      = (Inr r, w')" "ar_action r = ''error''" using demo_reject by blast
  then show ?thesis
    using apply_masking_view_atomic[where e = deny_ext and st = default_settings and d = "''demo''"
        and t = "''users''" and dry = False and force = False and w = demo_world]
    by (simp add: demo_world_def)
qed

text \<open>
  A statement that Stardata rejects is reported as "error" and no privilege is
  granted or revoked on the way: by the log of statements, every user has on every object
  what they had before.
\<close>

theorem rejected_view_keeps_privileges:
  assumes "apply_masking_view e st d t dry force w = (Inr r, w')" and "ar_action r = ''error''"
  shows "w_db w' = w_db w \<and> select_priv (w_sd w') k = select_priv (w_sd w) k"
  using assms(1)
proof (cases rule: apply_masking_view_cases)
  case no_effect
  then show ?thesis by simp
next
  case (rejected cols exprs exc)
  from rejected(3) have "w_sd w' = w_sd w @ [(Create_View (view_ddl st d t cols exprs), False)]"
    by (auto simp: stardata_execute_def Let_def)
  with rejected(4) show ?thesis by simp
next
  case (accepted cols exprs manifest lg)
  from accepted(5)[symmetric] show ?thesis
    by (cases rule: enforce_and_persist_cases) (use assms(2) in auto)
qed

theorem rejected_view_keeps_privileges_witness:
  "\<exists>r w'. apply_masking_view deny_ext default_settings ''demo'' ''users'' False False demo_world = (Inr r, w')
     \<and> ar_action r = ''error'' \<and> w_db w' = demo_db
     \<and> select_priv (w_sd w') (''demo'', ''users'', ''ann'') = None"
proof -
  obtain r w' where r: "apply_masking_view deny_ext default_settings ''demo'' ''users'' False False demo_world
      = (Inr r, w')" "ar_action r = ''error''" using demo_reject by blast
  show ?thesis using rejected_view_keeps_privileges[OF r] r by (auto simp: demo_world_def init_world_def)
qed

text \<open>
  When a view is created or updated, the manifest of the table records exactly the
  statement that Stardata accepted, its checksum and the masked columns; the manifests of
  other tables and all other tables of the catalog are unchanged, and the constraints of
  the schema still hold.
\<close>

theorem applied_view_recorded:
  assumes "schema_ok (w_db w)"
    and "apply_masking_view e st d t dry force w = (Inr r, w')"
    and "ar_action r \<in> {''created'', ''updated''}"
  shows "\<exists>cols exprs m. prepared e st d t w cols exprs \<and>
    (Create_View (view_ddl st d t cols exprs), True) \<in> set (w_sd w') \<and>
    find_manifest (w_db w') d t = Inr (Some m) \<and> vm_view_ddl m = view_ddl st d t cols exprs \<and>
    vm_view_checksum m = Some (ext_md5 e (vm_view_ddl m)) \<and> vm_columns_masked m = map fst exprs \<and>
    ar_columns_masked r = map fst exprs \<and>
    (\<forall>k. k \<noteq> (d, t) \<longrightarrow>
       find_key vm_key k (view_manifests (w_db w')) = find_key vm_key k (view_manifests (w_db w))) \<and>
    column_tags (w_db w') = column_tags (w_db w) \<and>
    role_exceptions (w_db w') = role_exceptions (w_db w) \<and> schema_ok (w_db w')"
  using assms(2)
proof (cases rule: apply_masking_view_cases)
  case no_effect
  with assms(3) show ?thesis by auto
next
  case (rejected cols exprs exc)
  with assms(3) show ?thesis by auto
next
  case (accepted cols exprs manifest lg)
  let ?ddl = "view_ddl st d t cols exprs"
  from accepted(5)[symmetric] show ?thesis
  proof (cases rule: enforce_and_persist_cases)
    case failed
    then show ?thesis by simp
  next
    case (persisted r' lg2)
    have "lg = w_sd w @ [(Create_View ?ddl, True)]"
      using accepted(4) by (auto simp: stardata_execute_def Let_def)
    then have "(Create_View ?ddl, True) \<in> set (w_sd w')"
      using persisted(5,6) lockdown_log[OF persisted(5)] by (auto simp: grant_log)
    moreover note save_manifest_ok[OF assms(1) accepted(3), where view = "t @ masked_view_suffix st"
        and ddl = ?ddl and cols = "map fst exprs" and ck = "ext_md5 e ?ddl"]
    ultimately show ?thesis using persisted accepted(1) by fastforce
  qed
qed

theorem applied_view_recorded_witness:
  "\<exists>r w' cols exprs m.
     apply_masking_view demo_ext default_settings ''demo'' ''users'' False False demo_world = (Inr r, w') \<and>
     find_manifest (w_db w') ''demo'' ''users'' = Inr (Some m) \<and>
     vm_view_ddl m = view_ddl default_settings ''demo'' ''users'' cols exprs \<and> schema_ok (w_db w')"
proof -
  obtain r w' where r: "apply_masking_view demo_ext default_settings ''demo'' ''users'' False False demo_world
      = (Inr r, w')" "ar_action r \<in> {''created'', ''updated''}" using demo_apply by blast
  show ?thesis using applied_view_recorded[OF demo_schema_ok(2) r] r(1) by blast
qed

text \<open>
  Applying is idempotent. Right after a view was created or updated, applying it
  again without \<^verbatim>\<open>force\<close>, while Stardata reports the same columns, answers "unchanged"
  and changes nothing: no statement is sent.
\<close>

theorem apply_masking_view_idempotent:
  assumes "schema_ok (w_db w)"
    and "apply_masking_view e st d t dry force w = (Inr r, w')"
    and "ar_action r \<in> {''created'', ''updated''}"
    and "ext_sd_columns e (w_sd w') d t = ext_sd_columns e (w_sd w) d t"
  shows "\<exists>r'. apply_masking_view e st d t False False w' = (Inr r', w') \<and> ar_action r' = ''unchanged''
    \<and> ar_columns_masked r' = ar_columns_masked r"
  using assms(2)
proof (cases rule: apply_masking_view_cases)
  case no_effect
  with assms(3) show ?thesis by auto
next
  case (rejected cols exprs exc)
  with assms(3) show ?thesis by auto
next
  case (accepted cols exprs manifest lg)
  let ?ddl = "view_ddl st d t cols exprs"
  from accepted(5)[symmetric] show ?thesis
  proof (cases rule: enforce_and_persist_cases)
    case failed
    then show ?thesis by simp
  next
    case (persisted r' lg2)
    obtain m where m: "find_manifest (w_db w') d t = Inr (Some m)"
      "vm_view_checksum m = Some (ext_md5 e ?ddl)"
      using save_manifest_ok(2)[OF assms(1) accepted(3)] persisted(8) by fastforce
    have best: "best_enabled_policy f (w_db w') = best_enabled_policy f (w_db w)" for f
      using persisted(8) by (simp add: best_enabled_policy_def)
    have algs: "masking_algorithms (w_db w') = masking_algorithms (w_db w)"
      using persisted(8) by simp
    have res: "resolve_policy_for_column (w_db w') tag = resolve_policy_for_column (w_db w) tag" for tag
      unfolding resolve_policy_for_column_def policy_candidates_def best algs ..
    have "masked_exprs (w_db w') ts acc = masked_exprs (w_db w) ts acc" for ts acc
      by (induction ts arbitrary: acc) (simp_all add: res split: option.split)
    moreover have "table_tags (w_db w') d t = table_tags (w_db w) d t"
      and "is_governance_enabled (w_db w') d = is_governance_enabled (w_db w) d"
      using persisted(8) by (simp_all add: table_tags_def is_governance_enabled_def)
    ultimately have prep: "prepared e st d t w' cols exprs"
      using accepted(1) assms(4) unfolding prepared_def by auto
    have "apply_masking_view e st d t False False w' = (Inr \<lparr>ar_view_name = t @ masked_view_suffix st,
        ar_columns_masked = map fst exprs, ar_action = ''unchanged'',
        ar_detail = Some (''DDL checksum matches '' @ em_dash @ '' view is current'')\<rparr>, w')"
      using prep m unfolding prepared_def by (auto simp: apply_masking_view_def Let_def)
    with persisted(1,2) show ?thesis by simp
  qed
qed

theorem apply_masking_view_idempotent_witness:
  "\<exists>r w' r'.
     apply_masking_view demo_ext default_settings ''demo'' ''users'' False False demo_world = (Inr r, w') \<and>
     apply_masking_view demo_ext default_settings ''demo'' ''users'' False False w' = (Inr r', w') \<and>
     ar_action r = ''created'' \<and> ar_action r' = ''unchanged''"
proof -
  obtain r w' where r: "apply_masking_view demo_ext default_settings ''demo'' ''users'' False False demo_world
      = (Inr r, w')" "ar_action r = ''created''" using demo_apply by blast
  then have act: "ar_action r \<in> {''created'', ''updated''}" by simp
  have "ext_sd_columns demo_ext (w_sd w') ''demo'' ''users'' =
      ext_sd_columns demo_ext (w_sd demo_world) ''demo'' ''users''" by (simp add: demo_ext_def)
  from apply_masking_view_idempotent[OF demo_schema_ok(2) r(1) act this] r show ?thesis by blast
qed



text \<open>
  The name parsed out of a grantee \<^verbatim>\<open>'user'@'host'\<close> is the user, for every user name
  without quotes.
\<close>

theorem grantee_user_parses:
  assumes "CHR 0x27 \<notin> set u" and "u \<noteq> []" and "CHR 0x27 \<notin> set h" and "h \<noteq> []"
  shows "grantee_user (sq u @ ''@'' @ sq h) = u"
proof -
  let ?q = "CHR 0x27 :: char"
  have strip: "dropWhile (\<lambda>x. x = ?q) (u @ ys) = u @ ys" for ys
    using assms(1,2) by (cases u) auto
  have strip_h: "dropWhile (\<lambda>x. x = ?q) (rev h @ ys) = rev h @ ys" for ys
    using assms(3,4) by (cases h rule: rev_cases) auto
  have "py_strip_char ?q (sq u @ ''@'' @ sq h) = u @ quote_at_quote @ h"
    using strip strip_h by (simp add: py_strip_char_def sq_def quote_at_quote_def)
  moreover have "\<not> contains quote_at_quote (u @ butlast quote_at_quote)"
  proof
    assume "contains quote_at_quote (u @ butlast quote_at_quote)"
    then obtain x y where "u @ [?q, CHR ''@''] = x @ quote_at_quote @ y"
      by (auto simp: contains_iff quote_at_quote_def)
    then have "count_list (u @ [?q, CHR ''@'']) ?q = count_list (x @ quote_at_quote @ y) ?q" by simp
    then show False using assms(1) by (simp add: quote_at_quote_def count_notin)
  qed
  ultimately show ?thesis
    using split_first_prefix[of quote_at_quote u h] by (simp add: grantee_user_def quote_at_quote_def)
qed

theorem grantee_user_parses_witness: "grantee_user (sq ''alice'' @ ''@'' @ sq ''%'') = ''alice''"
  by (rule grantee_user_parses) simp_all

end
