(* ===== verification/Query_Planner.thy ===== *)
theory Query_Planner
  imports Masking_Engine
begin

text \<open>
  The role-aware query planner: \<open>resolve_query_target\<close> of \<^verbatim>\<open>catalog/engine/masking.py\<close>
  decides whether a user reads the base table or the masked view, and
  \<open>plan_masked_query\<close> of \<^verbatim>\<open>catalog/routers/masking.py\<close> turns the decision into the SQL
  the client runs.
\<close>

section \<open>Python's rendering of a list of strings\<close>

definition hex_digit :: "nat \<Rightarrow> char" where
  "hex_digit n = ''0123456789abcdef'' ! n"

definition py_repr_char :: "char \<Rightarrow> char \<Rightarrow> string" where
  "py_repr_char q c =
     (if c = q \<or> c = CHR 0x5C then [CHR 0x5C, c]
      else if c = CHR 0x09 then [CHR 0x5C, CHR ''t'']
      else if c = CHR 0x0A then [CHR 0x5C, CHR ''n'']
      else if c = CHR 0x0D then [CHR 0x5C, CHR ''r'']
      else if of_char c < (0x20 :: nat) \<or> c = CHR 0x7F
        then [CHR 0x5C, CHR ''x'', hex_digit (of_char c div 16), hex_digit (of_char c mod 16)]
      else [c])"

definition py_repr :: "string \<Rightarrow> string" where
  "py_repr s = (let q = (if CHR 0x27 \<in> set s \<and> CHR 0x22 \<notin> set s then CHR 0x22 else CHR 0x27)
     in q # concat (map (py_repr_char q) s) @ [q])"

definition py_list_repr :: "string list \<Rightarrow> string" where
  "py_list_repr xs = ''['' @ py_join '', '' (map py_repr xs) @ '']''"

section \<open>Base table or masked view\<close>

datatype target = Base_Table | Masked_View

record query_target =
  qt_target :: target
  qt_view_name :: string
  qt_columns_masked :: "string list"
  qt_role :: string
  qt_governance_disabled :: bool

definition priority_order :: "string list" where
  "priority_order = [''data_admin'', ''platform_admin'', ''account_admin'',
     ''data_engineer'', ''iceberg_engineer'', ''etl_writer'',
     ''analyst'', ''kafka_consumer'', ''snowflake_reader'', ''spark_user'']"

definition first_role :: "string list \<Rightarrow> string" where
  "first_role roles = (case roles of [] \<Rightarrow> ''unknown'' | r # _ \<Rightarrow> r)"

definition highest_role :: "string list \<Rightarrow> string" where
  "highest_role roles = (case List.find (\<lambda>r. r \<in> set roles) priority_order of
     Some r \<Rightarrow> r | None \<Rightarrow> first_role roles)"

definition tag_class_ids :: "column_tag list \<Rightarrow> int list" where
  "tag_class_ids tags = remdups (List.map_filter ct_classification_id tags)"

definition exempt_class_ids :: "catalog \<Rightarrow> string list \<Rightarrow> int list \<Rightarrow> int list" where
  "exempt_class_ids db roles class_ids = map re_classification_id
     (filter (\<lambda>x. re_role_name x \<in> set roles \<and> re_classification_id x \<in> set class_ids)
       (tbl_rows (role_exceptions db)))"

definition resolve_query_target ::
  "settings \<Rightarrow> catalog \<Rightarrow> string \<Rightarrow> string \<Rightarrow> string list \<Rightarrow> query_target res" where
  "resolve_query_target st db database tbl roles =
     (let view = tbl @ masked_view_suffix st
      in case is_governance_enabled db database of
        Inl err \<Rightarrow> Inl err
      | Inr False \<Rightarrow> Inr \<lparr>qt_target = Base_Table, qt_view_name = view, qt_columns_masked = [],
          qt_role = first_role roles, qt_governance_disabled = True\<rparr>
      | Inr True \<Rightarrow>
        (let tags = table_tags db database tbl; ids = tag_class_ids tags in
         if tags = [] then Inr \<lparr>qt_target = Base_Table, qt_view_name = view, qt_columns_masked = [],
           qt_role = first_role roles, qt_governance_disabled = False\<rparr>
         else (case find_manifest db database tbl of
            Inl err \<Rightarrow> Inl err
          | Inr manifest \<Rightarrow>
             if set ids \<subseteq> set (exempt_class_ids db roles ids)
             then Inr \<lparr>qt_target = Base_Table, qt_view_name = view, qt_columns_masked = [],
               qt_role = highest_role roles, qt_governance_disabled = False\<rparr>
             else Inr \<lparr>qt_target = Masked_View, qt_view_name = view,
               qt_columns_masked = (case manifest of None \<Rightarrow> [] | Some m \<Rightarrow> vm_columns_masked m),
               qt_role = highest_role roles, qt_governance_disabled = False\<rparr>)))"

section \<open>The statement for the client\<close>

record query_response =
  mr_username :: string
  mr_role :: string
  mr_target :: target
  mr_sql :: string
  mr_columns_masked :: "string list"
  mr_columns_clear :: "string list"
  mr_note :: string

definition select_list :: "string list option \<Rightarrow> string" where
  "select_list cols = (case cols of None \<Rightarrow> ''*''
   | Some cs \<Rightarrow> if cs \<noteq> [] \<and> cs \<noteq> [''*''] then py_join '', '' (map bq cs) else ''*'')"

definition clear_columns :: "string list option \<Rightarrow> string list" where
  "clear_columns cols = (case cols of None \<Rightarrow> [''*'']
   | Some cs \<Rightarrow> if cs = [] then [''*''] else cs)"

definition where_part :: "string option \<Rightarrow> string" where
  "where_part c = (case c of None \<Rightarrow> []
   | Some s \<Rightarrow> if s = [] then [] else newline @ ''WHERE '' @ s)"

definition base_note :: "string \<Rightarrow> string" where
  "base_note role = ''Full access: role '' @ sq role @
     '' has masking exception for all sensitive classifications in this table.''"

definition masked_note :: "string \<Rightarrow> string \<Rightarrow> string list \<Rightarrow> string" where
  "masked_note role view cols = ''Masked access: role '' @ sq role @ '' is routed to view '' @ sq view @
     ''. Columns masked: '' @
     (if cols = [] then ''none (no active policy)'' else py_list_repr cols) @ ''.''"

definition query_sql :: "query_request \<Rightarrow> string \<Rightarrow> string" where
  "query_sql q from_obj = ''SELECT '' @ select_list (qr_columns q) @ newline @ ''FROM '' @ from_obj @
     where_part (qr_where q) @ newline @ ''LIMIT '' @ str_of_int (qr_limit q) @ '';''"

definition plan_masked_query ::
  "ext \<Rightarrow> settings \<Rightarrow> query_request \<Rightarrow> catalog \<Rightarrow> query_response res" where
  "plan_masked_query e st q db =
     (let roles = role_names e (qr_username q) in
      if roles = [] then Inl (HTTPException 404 (''User '' @ sq (qr_username q) @
        '' not found in RBAC Control Plane or has no roles''))
      else case resolve_query_target st db (qr_database q) (qr_table q) roles of
        Inl err \<Rightarrow> Inl err
      | Inr res \<Rightarrow>
         (case qt_target res of
            Base_Table \<Rightarrow> Inr \<lparr>mr_username = qr_username q, mr_role = qt_role res, mr_target = Base_Table,
              mr_sql = query_sql q (bq (qr_database q) @ ''.'' @ bq (qr_table q)),
              mr_columns_masked = [], mr_columns_clear = clear_columns (qr_columns q),
              mr_note = base_note (qt_role res)\<rparr>
          | Masked_View \<Rightarrow> Inr \<lparr>mr_username = qr_username q, mr_role = qt_role res, mr_target = Masked_View,
              mr_sql = query_sql q (bq (qr_database q) @ ''.'' @ bq (qt_view_name res)),
              mr_columns_masked = qt_columns_masked res, mr_columns_clear = [],
              mr_note = masked_note (qt_role res) (qt_view_name res) (qt_columns_masked res)\<rparr>))"

section \<open>Facts on the decision\<close>

text \<open>The roles hold an exception for the classification of every tag of the table.\<close>

definition covers_all :: "catalog \<Rightarrow> string list \<Rightarrow> string \<Rightarrow> string \<Rightarrow> bool" where
  "covers_all db roles database tbl \<longleftrightarrow>
     (\<forall>t \<in> set (table_tags db database tbl). \<forall>c. ct_classification_id t = Some c \<longrightarrow>
        (\<exists>x \<in> set (tbl_rows (role_exceptions db)). re_role_name x \<in> set roles \<and> re_classification_id x = c))"

definition governance_on :: "catalog \<Rightarrow> string \<Rightarrow> bool" where
  "governance_on db database = (case find_key gd_database database (governance_databases db) of
     None \<Rightarrow> True | Some g \<Rightarrow> gd_governance_enabled g)"

lemma governance_enabled_ok:
  "schema_ok db \<Longrightarrow> is_governance_enabled db database = Inr (governance_on db database)"
  using scalar_one_by_key[OF schema_okD(7)]
  by (simp add: is_governance_enabled_def governance_on_def split: option.split)

lemma find_manifest_ok:
  "schema_ok db \<Longrightarrow> find_manifest db database tbl = Inr (find_key vm_key (database, tbl) (view_manifests db))"
  using scalar_one_by_key[OF schema_okD(8)] by (simp add: find_manifest_def)

lemma set_tag_class_ids: "set (tag_class_ids tags) = {c. \<exists>t \<in> set tags. ct_classification_id t = Some c}"
  by (force simp: tag_class_ids_def List.map_filter_def)

lemma full_exception_iff:
  "set (tag_class_ids (table_tags db d t)) \<subseteq> set (exempt_class_ids db roles (tag_class_ids (table_tags db d t)))
     \<longleftrightarrow> covers_all db roles d t"
  unfolding covers_all_def exempt_class_ids_def
  by (fastforce simp: set_tag_class_ids image_iff)

lemma covers_all_no_tags: "table_tags db d t = [] \<Longrightarrow> covers_all db roles d t"
  by (simp add: covers_all_def)

lemma resolve_query_target_cases:
  assumes "schema_ok db"
  obtains r where "resolve_query_target st db d t roles = Inr r"
    and "qt_target r = (if governance_on db d \<and> table_tags db d t \<noteq> [] \<and> \<not> covers_all db roles d t
      then Masked_View else Base_Table)"
    and "qt_view_name r = t @ masked_view_suffix st"
    and "qt_target r = Base_Table \<Longrightarrow> qt_columns_masked r = []"
  using covers_all_no_tags[of db d t roles]
  by (cases "governance_on db d"; cases "table_tags db d t = []"; cases "covers_all db roles d t")
    (auto simp: resolve_query_target_def Let_def governance_enabled_ok[OF assms] find_manifest_ok[OF assms]
      full_exception_iff)

section \<open>Properties\<close>



text \<open>
  An unreachable or failing RBAC control plane never opens clear data: a user whose
  roles cannot be read, or who has none, is answered 404 and gets no statement.
\<close>

theorem planner_fails_closed:
  assumes "\<forall>rs. ext_rbac_roles e (qr_username q) = Http_Ok (Some rs) \<longrightarrow> rs = []"
  shows "\<exists>msg. plan_masked_query e st q db = Inl (HTTPException 404 msg)"
proof -
  have "role_names e (qr_username q) = []"
    using assms by (auto simp: role_names_def get_user_roles_def split: http_reply.split option.split)
  then show ?thesis by (simp add: plan_masked_query_def)
qed

theorem planner_fails_closed_witness:
  "\<exists>msg. plan_masked_query demo_ext default_settings \<lparr>qr_username = ''zoe'', qr_database = ''demo'',
     qr_table = ''users'', qr_columns = None, qr_where = None, qr_limit = 10\<rparr> demo_db =
   Inl (HTTPException 404 msg)"
  by (rule planner_fails_closed) (simp add: demo_ext_def)

text \<open>
  The planner and the lockdown agree in one direction. In a table under governance
  with at least one classified column, a user whom the planner sends to the base table is
  one the lockdown exempts: the statement is never one that the lockdown has made fail.
\<close>

theorem base_routing_implies_exempt:
  assumes "schema_ok db" and "governance_on db (qr_database q)"
    and "tag \<in> set (table_tags db (qr_database q) (qr_table q))" and "ct_classification_id tag = Some c"
    and "plan_masked_query e st q db = Inr r" and "mr_target r = Base_Table"
  shows "is_exempt e (exempt_role_names db) (qr_username q)"
proof -
  let ?roles = "role_names e (qr_username q)"
  have "?roles \<noteq> []" using assms(5) by (auto simp: plan_masked_query_def)
  obtain t where t: "resolve_query_target st db (qr_database q) (qr_table q) ?roles = Inr t"
    and tgt: "qt_target t = (if governance_on db (qr_database q) \<and>
        table_tags db (qr_database q) (qr_table q) \<noteq> [] \<and>
        \<not> covers_all db ?roles (qr_database q) (qr_table q) then Masked_View else Base_Table)"
    using resolve_query_target_cases[OF assms(1)] by metis
  have "qt_target t = Base_Table"
    using assms(5,6) t \<open>?roles \<noteq> []\<close> by (auto simp: plan_masked_query_def split: target.splits)
  with tgt assms(2,3) have "covers_all db ?roles (qr_database q) (qr_table q)"
    by (auto split: if_splits)
  with assms(3,4) obtain x where "x \<in> set (tbl_rows (role_exceptions db))" "re_role_name x \<in> set ?roles"
    unfolding covers_all_def by blast
  then show ?thesis by (auto simp: is_exempt_def exempt_role_names_def list_ex_iff)
qed

theorem base_routing_implies_exempt_witness:
  "is_exempt demo_ext
     (exempt_role_names (demo_db\<lparr>role_exceptions := \<lparr>tbl_rows = [auditor_exception,
        auditor_exception\<lparr>re_id := 2, re_classification_id := 2\<rparr>], tbl_next = 3\<rparr>\<rparr>)) ''bob''"
proof -
  let ?db = "demo_db\<lparr>role_exceptions := \<lparr>tbl_rows = [auditor_exception,
        auditor_exception\<lparr>re_id := 2, re_classification_id := 2\<rparr>], tbl_next = 3\<rparr>\<rparr>"
  let ?q = "\<lparr>qr_username = ''bob'', qr_database = ''demo'',
      qr_table = ''users'', qr_columns = None, qr_where = None, qr_limit = 10\<rparr>"
  let ?tag = "demo_tag 1 ''users'' ''mail'' None (Some 1) True"
  have ok: "schema_ok ?db"
    using demo_schema_ok(1) by (simp add: schema_defs tbl_ok_def re_key_def auditor_exception_def demo_db_def
        pii_class_def pci_class_def)
  have roles: "role_names demo_ext ''bob'' = [''auditor'']"
    by (simp add: role_names_def get_user_roles_def demo_ext_def)
  have gov: "governance_on ?db (qr_database ?q)" by (simp add: governance_on_def find_key_def demo_defs)
  have tag: "?tag \<in> set (table_tags ?db (qr_database ?q) (qr_table ?q))"
    by (simp add: table_tags_def demo_db_def demo_tag_def)
  have cov: "covers_all ?db [''auditor''] ''demo'' ''users''"
    by (simp add: covers_all_def table_tags_def demo_db_def demo_tag_def auditor_exception_def)
  obtain t where t: "resolve_query_target default_settings ?db ''demo'' ''users'' [''auditor''] = Inr t"
    "qt_target t = Base_Table"
    using resolve_query_target_cases[OF ok, of default_settings "''demo''" "''users''" "[''auditor'']"] cov by metis
  obtain r where r: "plan_masked_query demo_ext default_settings ?q ?db = Inr r" "mr_target r = Base_Table"
    using t roles by (simp add: plan_masked_query_def)
  have cls: "ct_classification_id ?tag = Some 1" by (simp add: demo_tag_def)
  have "is_exempt demo_ext (exempt_role_names ?db) (qr_username ?q)"
    by (rule base_routing_implies_exempt[OF ok gov tag cls r])
  then show ?thesis by simp
qed

text \<open>
  In the other direction they disagree. An exception for one of the two
  classifications of a table exempts its role from the lockdown, so that its users keep
  the base table with both columns in clear, while the planner sends the same users to
  the masked view.
\<close>

theorem partial_exception_disagrees:
  "is_exempt demo_ext (exempt_role_names demo_db) ''bob'' \<and>
   map_sum id mr_target (plan_masked_query demo_ext default_settings \<lparr>qr_username = ''bob'',
     qr_database = ''demo'', qr_table = ''users'', qr_columns = None, qr_where = None, qr_limit = 10\<rparr> demo_db)
   = Inr Masked_View"
proof -
  have roles: "role_names demo_ext ''bob'' = [''auditor'']"
    by (simp add: role_names_def get_user_roles_def demo_ext_def)
  have gov: "is_governance_enabled demo_db ''demo'' = Inr True" by (simp add: apply_eval demo_defs)
  have man: "find_manifest demo_db ''demo'' ''users'' = Inr None" by (simp add: apply_eval demo_defs)
  have tags: "table_tags demo_db ''demo'' ''users'' =
      [demo_tag 1 ''users'' ''mail'' None (Some 1) True, demo_tag 2 ''users'' ''card'' None (Some 2) False]"
    by (simp add: table_tags_def demo_db_def demo_tag_def)
  have ids: "tag_class_ids (table_tags demo_db ''demo'' ''users'') = [1, 2]"
    unfolding tags by (simp add: tag_class_ids_def List.map_filter_def demo_tag_def)
  have ex: "exempt_class_ids demo_db [''auditor''] [1, 2] = [1]"
    by (simp add: exempt_class_ids_def demo_db_def auditor_exception_def)
  have "\<exists>t. resolve_query_target default_settings demo_db ''demo'' ''users'' [''auditor''] = Inr t \<and>
      qt_target t = Masked_View"
    unfolding resolve_query_target_def Let_def gov man ids ex by (simp add: tags)
  then show ?thesis
    by (auto simp: plan_masked_query_def roles is_exempt_def exempt_role_names_def demo_db_def
        auditor_exception_def)
qed

text \<open>
  A table whose tags all come from glossary terms without a classification is routed
  to its base table for every user, whatever policy its terms have: the planner looks at
  classifications only, while \<open>resolve_policy_for_column\<close> masks such a column.
\<close>

theorem term_only_tags_route_to_base:
  assumes "schema_ok db" and "role_names e (qr_username q) \<noteq> []"
    and "\<forall>t \<in> set (table_tags db (qr_database q) (qr_table q)). ct_classification_id t = None"
  shows "\<exists>r. plan_masked_query e st q db = Inr r \<and> mr_target r = Base_Table"
proof -
  let ?roles = "role_names e (qr_username q)"
  have "covers_all db ?roles (qr_database q) (qr_table q)" using assms(3) by (simp add: covers_all_def)
  moreover obtain t where "resolve_query_target st db (qr_database q) (qr_table q) ?roles = Inr t"
    and "qt_target t = (if governance_on db (qr_database q) \<and>
        table_tags db (qr_database q) (qr_table q) \<noteq> [] \<and>
        \<not> covers_all db ?roles (qr_database q) (qr_table q) then Masked_View else Base_Table)"
    using resolve_query_target_cases[OF assms(1)] by metis
  ultimately show ?thesis using assms(2) by (auto simp: plan_masked_query_def)
qed

theorem term_only_tags_route_to_base_witness:
  "\<exists>r. plan_masked_query demo_ext default_settings \<lparr>qr_username = ''ann'', qr_database = ''demo'',
     qr_table = ''notes'', qr_columns = None, qr_where = None, qr_limit = 10\<rparr> demo_db = Inr r \<and>
     mr_target r = Base_Table"
  by (rule term_only_tags_route_to_base, rule demo_schema_ok(1))
    (simp_all add: role_names_def get_user_roles_def demo_ext_def table_tags_def demo_db_def demo_tag_def)

end
