(* ===== verification/Role_Exceptions.thy ===== *)
theory Role_Exceptions
  imports Query_Planner "HOL-Library.Char_ord" "HOL-Library.List_Lexorder"
begin

text \<open>
  The router of the role masking exceptions, \<^verbatim>\<open>catalog/routers/exceptions.py\<close>: which
  roles bypass masking for a classification, and the grants that follow a change of an
  exception. A list endpoint orders its rows by code points of the ordering column (the C
  collation) and keeps the order of the table among equal ones.
\<close>

section \<open>Operations\<close>

record role_exception_out = role_masking_exception +
  eo_classification_name :: "string option"

definition enrich_exception :: "catalog \<Rightarrow> role_masking_exception \<Rightarrow> role_exception_out" where
  "enrich_exception db x = role_masking_exception.extend x
     \<lparr>eo_classification_name = map_option cls_name
        (session_get cls_id (re_classification_id x) (classifications db))\<rparr>"

definition list_exceptions :: "catalog \<Rightarrow> role_exception_out list" where
  "list_exceptions db = map (enrich_exception db) (sort_key re_role_name (tbl_rows (role_exceptions db)))"

definition all_sensitive_tables :: "catalog \<Rightarrow> string \<Rightarrow> (string \<times> string) list" where
  "all_sensitive_tables db database = map (\<lambda>m. (vm_base_table m, vm_view_name m))
     (filter (\<lambda>m. vm_database m = database) (tbl_rows (view_manifests db)))"

definition grant_base_tables_to_user ::
  "ext \<Rightarrow> string \<Rightarrow> (string \<times> string) list \<Rightarrow> string \<Rightarrow> sd_log \<Rightarrow> sd_log" where
  "grant_base_tables_to_user e database tables user =
     fold (\<lambda>(base, _) lg. snd (stardata_execute e (Grant_Select database base user) lg)) tables"

definition relock_user_for_database ::
  "ext \<Rightarrow> string \<Rightarrow> (string \<times> string) list \<Rightarrow> string list \<Rightarrow> string \<Rightarrow> sd_log \<Rightarrow> sd_log" where
  "relock_user_for_database e database tables remaining user lg =
     (if is_exempt e remaining user then lg
      else fold (\<lambda>(base, view) lg. grant_view_to_user e database view user
             (revoke_base_table_from_user e database base user lg)) tables lg)"

definition existing_exception :: "catalog \<Rightarrow> exception_create \<Rightarrow> role_masking_exception option res" where
  "existing_exception db b = scalar_one_or_none
     (\<lambda>x. re_key x = (ec_role_name b, ec_classification_id b)) (role_exceptions db)"

definition exception_conflict :: "exception_create \<Rightarrow> http_error" where
  "exception_conflict b = HTTPException 409 (''Role '' @ sq (ec_role_name b) @
     '' already has an exception for classification id='' @ str_of_int (ec_classification_id b))"

definition exception_row :: "exception_create \<Rightarrow> int \<Rightarrow> role_masking_exception" where
  "exception_row b i = \<lparr>re_id = i, re_role_name = ec_role_name b,
     re_classification_id = ec_classification_id b, re_granted_by = ec_granted_by b\<rparr>"

definition create_exception ::
  "ext \<Rightarrow> settings \<Rightarrow> exception_create \<Rightarrow> world \<Rightarrow> role_exception_out res \<times> world" where
  "create_exception e st b w =
     (case session_get cls_id (ec_classification_id b) (classifications (w_db w)) of
        None \<Rightarrow> (Inl (HTTPException 404
          (''Classification id='' @ str_of_int (ec_classification_id b) @ '' not found'')), w)
      | Some c \<Rightarrow>
        (case existing_exception (w_db w) b of
           Inl err \<Rightarrow> (Inl err, w)
         | Inr (Some x) \<Rightarrow> (Inl (exception_conflict b), w)
         | Inr None \<Rightarrow>
           (let (x, t) = tbl_insert (exception_row b) (role_exceptions (w_db w)) in
            case db_flush (w_db w\<lparr>role_exceptions := t\<rparr>) of
              Inl err \<Rightarrow> (Inl err, w)
            | Inr db1 \<Rightarrow>
               (case commit db1 (enrich_exception db1 x) (invalidate policy_cache_prefix w) of
                  (Inl err, w1) \<Rightarrow> (Inl err, w1)
                | (Inr out, w1) \<Rightarrow>
                   (Inr out, w1\<lparr>w_sd := fold (grant_base_tables_to_user e (stardata_demo_database st)
                        (all_sensitive_tables (w_db w1) (stardata_demo_database st)))
                      (stardata_users_with_role e (ec_role_name b)) (w_sd w1)\<rparr>)))))"

definition delete_exception ::
  "ext \<Rightarrow> settings \<Rightarrow> int \<Rightarrow> world \<Rightarrow> string res \<times> world" where
  "delete_exception e st i w =
     (case session_get re_id i (role_exceptions (w_db w)) of
        None \<Rightarrow> (Inl (HTTPException 404 (''Exception id='' @ str_of_int i @ '' not found'')), w)
      | Some x \<Rightarrow>
        (let w1 = invalidate policy_cache_prefix w in
         case db_flush (w_db w1\<lparr>role_exceptions := tbl_delete re_id i (role_exceptions (w_db w1))\<rparr>) of
           Inl err \<Rightarrow> (Inl err, w1)
         | Inr db1 \<Rightarrow>
            (case commit db1 (exempt_role_names db1) w1 of
               (Inl err, w2) \<Rightarrow> (Inl err, w2)
             | (Inr remaining, w2) \<Rightarrow>
                (Inr (''Exception '' @ str_of_int i @ '' revoked''),
                 w2\<lparr>w_sd := fold (relock_user_for_database e (stardata_demo_database st)
                      (all_sensitive_tables (w_db w2) (stardata_demo_database st)) remaining)
                    (stardata_users_with_role e (re_role_name x)) (w_sd w2)\<rparr>))))"

section \<open>Facts on the grants\<close>

lemma grant_step_priv:
  "select_priv (snd (stardata_execute e (Grant_Select d base u) lg)) k =
     (if fst (stardata_execute e (Grant_Select d base u) lg) = None \<and> (d, base, u) = k then Some True
      else select_priv lg k)"
  by (auto simp: stardata_execute_log)

lemma grant_base_tables_priv:
  assumes "accepts_all e" and "obj \<in> fst ` set tables"
  shows "select_priv (grant_base_tables_to_user e d tables u lg) (d, obj, u) = Some True"
proof -
  obtain view where "(obj, view) \<in> set tables" using assms(2) by auto
  then show ?thesis
    unfolding grant_base_tables_to_user_def
    by (rule priv_fold_decided) (auto simp: grant_step_priv stardata_execute_accepts[OF assms(1)])
qed

lemma grant_base_tables_other:
  assumes "v \<noteq> u \<or> d' \<noteq> d \<or> obj \<notin> fst ` set tables"
  shows "select_priv (grant_base_tables_to_user e d tables u lg) (d', obj, v) = select_priv lg (d', obj, v)"
  unfolding grant_base_tables_to_user_def
  by (rule priv_fold_untouched) (use assms in \<open>force simp: grant_step_priv\<close>)

lemma relock_user_other:
  assumes "v \<noteq> u \<or> d' \<noteq> d \<or> is_exempt e remaining u"
  shows "select_priv (relock_user_for_database e d tables remaining u lg) (d', obj, v) =
    select_priv lg (d', obj, v)"
proof (cases "is_exempt e remaining u")
  case False
  then show ?thesis
    unfolding relock_user_for_database_def if_not_P[OF False]
    by (intro priv_fold_untouched) (use assms in \<open>auto simp: grant_log revoke_log\<close>)
qed (simp add: relock_user_for_database_def)

lemma relock_user_locked:
  assumes "accepts_all e" and "(base, view) \<in> set tables" and "\<not> is_exempt e remaining u"
    and "fst ` set tables \<inter> snd ` set tables = {}"
  shows "select_priv (relock_user_for_database e d tables remaining u lg) (d, base, u) = Some False"
    and "select_priv (relock_user_for_database e d tables remaining u lg) (d, view, u) = Some True"
proof -
  let ?f = "\<lambda>(base, view) lg. grant_view_to_user e d view u (revoke_base_table_from_user e d base u lg)"
  have ne: False if "(b, v) \<in> set tables" "(b', b) \<in> set tables" for b v b'
    using assms(4) that by force
  have "select_priv (fold ?f tables lg) (d, base, u) = Some False"
    by (rule priv_fold_decided[OF assms(2)])
      (use assms(1,2) in \<open>auto dest: ne simp: grant_log revoke_log stardata_execute_accepts\<close>)
  moreover have "select_priv (fold ?f tables lg) (d, view, u) = Some True"
    by (rule priv_fold_decided[OF assms(2)])
      (use assms(1,2) in \<open>auto dest: ne simp: grant_log revoke_log stardata_execute_accepts\<close>)
  ultimately show "select_priv (relock_user_for_database e d tables remaining u lg) (d, base, u) = Some False"
    and "select_priv (relock_user_for_database e d tables remaining u lg) (d, view, u) = Some True"
    using assms(3) by (simp_all add: relock_user_for_database_def)
qed

section \<open>Outcomes of the two handlers\<close>

lemma existing_exception_ok:
  "schema_ok db \<Longrightarrow> existing_exception db b =
     Inr (find_key re_key (ec_role_name b, ec_classification_id b) (role_exceptions db))"
  unfolding existing_exception_def by (rule scalar_one_by_key[OF schema_okD(6)])

definition add_exception :: "exception_create \<Rightarrow> catalog \<Rightarrow> catalog" where
  "add_exception b db = db\<lparr>role_exceptions := snd (tbl_insert (exception_row b) (role_exceptions db))\<rparr>"

definition drop_exception :: "int \<Rightarrow> catalog \<Rightarrow> catalog" where
  "drop_exception i db = db\<lparr>role_exceptions := tbl_delete re_id i (role_exceptions db)\<rparr>"

lemma add_exception_ok:
  assumes "schema_ok db" and "session_get cls_id (ec_classification_id b) (classifications db) = Some c"
    and "find_key re_key (ec_role_name b, ec_classification_id b) (role_exceptions db) = None"
  shows "schema_ok (add_exception b db)"
proof -
  have row: "re_id (exception_row b i) = i"
    "re_key (exception_row b i) = (ec_role_name b, ec_classification_id b)"
    "re_classification_id (exception_row b i) = ec_classification_id b" for i
    by (simp_all add: exception_row_def re_key_def)
  have "tbl_ok re_id re_key (role_exceptions (add_exception b db))"
    using tbl_ok_insert[OF schema_okD(6)[OF assms(1)], of "exception_row b"] assms(3)
    by (simp add: row add_exception_def)
  moreover have "fk cls_id (classifications db) (ec_classification_id b)"
    using session_get_Some_D[OF assms(2)] by (force simp: fk_def)
  ultimately show ?thesis
    using assms(1) by (auto simp: schema_ok_def terms_ok_def policies_ok_def tags_ok_def exceptions_ok_def
      add_exception_def row_simps row)
qed

lemma drop_exception_ok: "schema_ok db \<Longrightarrow> schema_ok (drop_exception i db)"
  by (auto simp: schema_ok_def terms_ok_def policies_ok_def tags_ok_def exceptions_ok_def
      drop_exception_def tbl_ok_delete row_simps)

lemma create_exception_cases:
  assumes "schema_ok (w_db w)" and "create_exception e st b w = (res, w')"
  obtains (no_class) err where "res = Inl err" "status_code err = 404" "w' = w"
      "session_get cls_id (ec_classification_id b) (classifications (w_db w)) = None"
    | (conflict) "res = Inl (exception_conflict b)" "w' = w"
      "session_get cls_id (ec_classification_id b) (classifications (w_db w)) \<noteq> None"
      "find_key re_key (ec_role_name b, ec_classification_id b) (role_exceptions (w_db w)) \<noteq> None"
    | (created) out where "res = Inr out"
      "session_get cls_id (ec_classification_id b) (classifications (w_db w)) \<noteq> None"
      "find_key re_key (ec_role_name b, ec_classification_id b) (role_exceptions (w_db w)) = None"
      "w_db w' = add_exception b (w_db w)" "schema_ok (w_db w')"
      "out = enrich_exception (w_db w') (exception_row b (tbl_next (role_exceptions (w_db w))))"
      "w_sd w' = fold (grant_base_tables_to_user e (stardata_demo_database st)
         (all_sensitive_tables (w_db w) (stardata_demo_database st)))
         (stardata_users_with_role e (ec_role_name b)) (w_sd w)"
proof (cases "session_get cls_id (ec_classification_id b) (classifications (w_db w))")
  case None
  with assms(2) show thesis by (intro no_class) (auto simp: create_exception_def)
next
  case cls: (Some c)
  let ?old = "find_key re_key (ec_role_name b, ec_classification_id b) (role_exceptions (w_db w))"
  show thesis
  proof (cases ?old)
    case (Some x)
    with assms cls show thesis
      by (intro conflict) (auto simp: create_exception_def existing_exception_ok)
  next
    case None
    have ok: "schema_ok (add_exception b (w_db w))" by (rule add_exception_ok[OF assms(1) cls None])
    obtain x t where ins: "tbl_insert (exception_row b) (role_exceptions (w_db w)) = (x, t)"
      by (cases "tbl_insert (exception_row b) (role_exceptions (w_db w))")
    then have db1: "w_db w\<lparr>role_exceptions := t\<rparr> = add_exception b (w_db w)"
      and x: "x = exception_row b (tbl_next (role_exceptions (w_db w)))"
      by (auto simp: add_exception_def tbl_insert_def Let_def)
    have tables: "all_sensitive_tables (add_exception b (w_db w)) d = all_sensitive_tables (w_db w) d" for d
      by (simp add: all_sensitive_tables_def add_exception_def)
    show thesis
      using assms cls None ok
      by (intro created[of "enrich_exception (add_exception b (w_db w)) x"])
        (auto simp: create_exception_def existing_exception_ok ins db1 x tables db_flush_def)
  qed
qed

lemma delete_exception_cases:
  assumes "schema_ok (w_db w)" and "delete_exception e st i w = (res, w')"
  obtains (missing) err where "res = Inl err" "status_code err = 404" "w' = w"
      "session_get re_id i (role_exceptions (w_db w)) = None"
    | (deleted) x msg where "res = Inr msg" "session_get re_id i (role_exceptions (w_db w)) = Some x"
      "w_db w' = drop_exception i (w_db w)" "schema_ok (w_db w')"
      "w_sd w' = fold (relock_user_for_database e (stardata_demo_database st)
         (all_sensitive_tables (w_db w) (stardata_demo_database st)) (exempt_role_names (w_db w')))
         (stardata_users_with_role e (re_role_name x)) (w_sd w)"
proof (cases "session_get re_id i (role_exceptions (w_db w))")
  case None
  with assms(2) show thesis by (intro missing) (auto simp: delete_exception_def)
next
  case (Some x)
  have ok: "schema_ok (drop_exception i (w_db w))" by (rule drop_exception_ok[OF assms(1)])
  have tables: "all_sensitive_tables (drop_exception i (w_db w)) d = all_sensitive_tables (w_db w) d" for d
    by (simp add: all_sensitive_tables_def drop_exception_def)
  show thesis
    using assms Some ok tables
    by (intro deleted[of "''Exception '' @ str_of_int i @ '' revoked''" x])
      (auto simp: delete_exception_def Let_def db_flush_def drop_exception_def)
qed

section \<open>A concrete run\<close>

text \<open>The demo catalog, with the view of table \<^verbatim>\<open>users\<close> on record.\<close>

definition users_manifest :: view_manifest where
  "users_manifest = \<lparr>vm_id = 1, vm_database = ''demo'', vm_base_table = ''users'',
     vm_view_name = ''users_masked'', vm_view_ddl = [], vm_columns_masked = [''mail''],
     vm_view_checksum = None\<rparr>"

definition masked_world :: world where
  "masked_world = demo_world\<lparr>w_db := demo_db\<lparr>view_manifests := \<lparr>tbl_rows = [users_manifest], tbl_next = 2\<rparr>\<rparr>\<rparr>"

definition demo_settings :: settings where
  "demo_settings = default_settings\<lparr>stardata_demo_database := ''demo''\<rparr>"

definition analyst_request :: exception_create where
  "analyst_request = \<lparr>ec_role_name = ''analyst'', ec_classification_id = 1, ec_granted_by = ''admin''\<rparr>"

lemma masked_world_ok [simp]: "schema_ok (w_db masked_world)"
  using demo_schema_ok(1) by (simp add: masked_world_def schema_ok_def terms_ok_def policies_ok_def
      tags_ok_def exceptions_ok_def tbl_ok_def users_manifest_def)

lemma masked_world_tables: "all_sensitive_tables (w_db masked_world) ''demo'' = [(''users'', ''users_masked'')]"
  by (simp add: all_sensitive_tables_def masked_world_def users_manifest_def)

lemma demo_roles:
  "role_names demo_ext ''ann'' = [''analyst'']" "role_names demo_ext ''bob'' = [''auditor'']"
  "stardata_users_with_role demo_ext ''analyst'' = [''ann'']"
  "stardata_users_with_role demo_ext ''auditor'' = [''bob'']"
  by (simp_all add: stardata_users_with_role_def role_names_def get_user_roles_def demo_ext_def)

lemma demo_accepts [simp]: "accepts_all demo_ext"
  by (simp add: accepts_all_def demo_ext_def calm_ext_def)

lemma masked_world_create:
  "\<exists>out w'. create_exception demo_ext demo_settings analyst_request masked_world = (Inr out, w')"
proof -
  obtain res w' where r: "create_exception demo_ext demo_settings analyst_request masked_world = (res, w')"
    by (cases "create_exception demo_ext demo_settings analyst_request masked_world")
  have req: "session_get cls_id (ec_classification_id analyst_request) (classifications (w_db masked_world)) \<noteq> None"
    "find_key re_key (ec_role_name analyst_request, ec_classification_id analyst_request)
       (role_exceptions (w_db masked_world)) = None"
    by (simp_all add: analyst_request_def session_get_def find_key_def re_key_def masked_world_def demo_defs)
  from masked_world_ok r show ?thesis by (cases rule: create_exception_cases) (use req r in auto)
qed

lemma masked_world_delete:
  "\<exists>msg w'. delete_exception demo_ext demo_settings 1 masked_world = (Inr msg, w') \<and>
     exempt_role_names (w_db w') = []"
proof -
  obtain res w' where r: "delete_exception demo_ext demo_settings 1 masked_world = (res, w')"
    by (cases "delete_exception demo_ext demo_settings 1 masked_world")
  have x: "session_get re_id 1 (role_exceptions (w_db masked_world)) = Some auditor_exception"
    by (simp add: session_get_def masked_world_def demo_defs)
  from masked_world_ok r show ?thesis
    by (cases rule: delete_exception_cases)
      (use x r in \<open>auto simp: exempt_role_names_def drop_exception_def row_simps masked_world_def demo_defs\<close>)
qed

section \<open>Properties\<close>

text \<open>
  Creating an exception either is refused and changes nothing at all, 404 exactly when
  the classification does not exist and 409 exactly when the role already has this
  exception, or it adds one row for the role and the classification, under an unused key,
  and changes no other row of the catalog, whose constraints still hold.
\<close>

theorem create_exception_correct:
  assumes "schema_ok (w_db w)"
  shows "case create_exception e st b w of
      (Inl err, w') \<Rightarrow> w' = w \<and>
        (if session_get cls_id (ec_classification_id b) (classifications (w_db w)) = None
         then status_code err = 404
         else status_code err = 409 \<and>
           find_key re_key (ec_role_name b, ec_classification_id b) (role_exceptions (w_db w)) \<noteq> None)
    | (Inr out, w') \<Rightarrow> schema_ok (w_db w') \<and>
        find_key re_key (ec_role_name b, ec_classification_id b) (role_exceptions (w_db w)) = None \<and>
        find_key re_key (ec_role_name b, ec_classification_id b) (role_exceptions (w_db w'))
          = Some (exception_row b (re_id out)) \<and>
        eo_classification_name out \<noteq> None \<and>
        (\<forall>k. k \<noteq> (ec_role_name b, ec_classification_id b) \<longrightarrow>
           find_key re_key k (role_exceptions (w_db w')) = find_key re_key k (role_exceptions (w_db w))) \<and>
        w_db w' = w_db w\<lparr>role_exceptions := role_exceptions (w_db w')\<rparr>"
proof -
  obtain res w' where r: "create_exception e st b w = (res, w')" by (cases "create_exception e st b w")
  have key: "re_key (exception_row b i) = (ec_role_name b, ec_classification_id b)" for i
    by (simp add: exception_row_def re_key_def)
  from assms r show ?thesis
  proof (cases rule: create_exception_cases)
    case no_class
    with r show ?thesis by simp
  next
    case conflict
    have "status_code (exception_conflict b) = 409" by (simp add: exception_conflict_def)
    with conflict show ?thesis using r by simp
  next
    case (created out)
    let ?row = "exception_row b (tbl_next (role_exceptions (w_db w)))"
    have out: "re_id out = re_id ?row" "eo_classification_name out =
        map_option cls_name (session_get cls_id (ec_classification_id b) (classifications (w_db w)))"
      using created(4,6) by (simp_all add: enrich_exception_def role_masking_exception.defs
        exception_row_def add_exception_def)
    have "find_key re_key k (role_exceptions (w_db w')) =
        (if k = re_key ?row then Some ?row else find_key re_key k (role_exceptions (w_db w)))" for k
      using find_key_insert[OF created(3), of "exception_row b"]
        find_key_insert_old[of re_key "exception_row b" "role_exceptions (w_db w)" k]
      by (auto simp: created(4) add_exception_def key)
    moreover have "?row = exception_row b (re_id out)" by (simp add: out exception_row_def)
    ultimately show ?thesis
      using r created(1,2,3,4,5) out(2) by (auto simp: key add_exception_def)
  qed
qed

theorem create_exception_correct_witness:
  "\<exists>out w'. create_exception demo_ext default_settings
     \<lparr>ec_role_name = ''auditor'', ec_classification_id = 2, ec_granted_by = ''admin''\<rparr> demo_world = (Inr out, w') \<and>
     schema_ok (w_db w')"
proof -
  let ?b = "\<lparr>ec_role_name = ''auditor'', ec_classification_id = 2, ec_granted_by = ''admin''\<rparr>"
  obtain res w' where r: "create_exception demo_ext default_settings ?b demo_world = (res, w')"
    by (cases "create_exception demo_ext default_settings ?b demo_world")
  have "session_get cls_id 2 (classifications (w_db demo_world)) \<noteq> None"
    and "find_key re_key (''auditor'', 2) (role_exceptions (w_db demo_world)) = None"
    by (simp_all add: session_get_def find_key_def re_key_def demo_defs)
  then show ?thesis
    using create_exception_correct[OF demo_schema_ok(2), where e = demo_ext and st = default_settings and b = ?b] r
    by (cases res) auto
qed

text \<open>
  The grants that follow the creation. When Stardata accepts the statements, each user
  who holds the role according to the RBAC control plane ends with SELECT on every base
  table of the demo database that has a masked view, whatever its classification, and no
  other privilege of anyone changes: neither that of another user, nor any on an object
  of another database.
\<close>

theorem create_exception_grants:
  assumes "schema_ok (w_db w)" and "create_exception e st b w = (Inr out, w')" and "accepts_all e"
  shows "select_priv (w_sd w') (d, obj, u) =
    (if u \<in> set (stardata_users_with_role e (ec_role_name b)) \<and> d = stardata_demo_database st \<and>
        obj \<in> fst ` set (all_sensitive_tables (w_db w) d)
     then Some True else select_priv (w_sd w) (d, obj, u))"
  using assms(1,2)
proof (cases rule: create_exception_cases)
  case (created out')
  let ?d = "stardata_demo_database st"
  let ?ts = "all_sensitive_tables (w_db w) ?d"
  show ?thesis
  proof (cases "u \<in> set (stardata_users_with_role e (ec_role_name b)) \<and> d = ?d \<and> obj \<in> fst ` set ?ts")
    case True
    have "select_priv (w_sd w') (?d, obj, u) = Some True"
      unfolding created(7)
    proof (rule priv_fold_decided[of u])
      fix y lg
      show "select_priv (grant_base_tables_to_user e ?d ?ts y lg) (?d, obj, u) = select_priv lg (?d, obj, u) \<or>
          select_priv (grant_base_tables_to_user e ?d ?ts y lg) (?d, obj, u) = Some True"
        using grant_base_tables_other[of u y ?d ?d obj ?ts e lg]
          grant_base_tables_priv[OF assms(3), of obj ?ts ?d u lg] True by (cases "y = u") auto
    qed (use True grant_base_tables_priv[OF assms(3)] in auto)
    with True show ?thesis by simp
  next
    case False
    have "select_priv (w_sd w') (d, obj, u) = select_priv (w_sd w) (d, obj, u)"
      unfolding created(7)
      by (rule priv_fold_untouched, rule grant_base_tables_other) (use False in auto)
    with False show ?thesis by auto
  qed
qed simp_all

theorem create_exception_grants_witness:
  "\<exists>out w'. create_exception demo_ext demo_settings analyst_request masked_world = (Inr out, w') \<and>
     select_priv (w_sd w') (''demo'', ''users'', ''ann'') = Some True \<and>
     select_priv (w_sd w') (''sales'', ''users'', ''ann'') = None"
proof -
  obtain out w' where r: "create_exception demo_ext demo_settings analyst_request masked_world = (Inr out, w')"
    using masked_world_create by blast
  have sd: "w_sd masked_world = []" by (simp add: masked_world_def demo_world_def init_world_def)
  have d: "stardata_demo_database demo_settings = ''demo''" by (simp add: demo_settings_def)
  have u: "stardata_users_with_role demo_ext (ec_role_name analyst_request) = [''ann'']"
    by (simp add: analyst_request_def demo_roles)
  note g = create_exception_grants[OF masked_world_ok r demo_accepts]
  show ?thesis
    using r g[of "''demo''" "''users''" "''ann''"] g[of "''sales''" "''users''" "''ann''"]
    unfolding u d by (simp add: masked_world_tables sd)
qed



text \<open>
  Deleting the exception that was just created restores the table of exceptions.
\<close>

theorem create_delete_exception_roundtrip:
  assumes "schema_ok (w_db w)" and "create_exception e st b w = (Inr out, w')"
  shows "\<exists>msg w''. delete_exception e st (re_id out) w' = (Inr msg, w'') \<and>
    tbl_rows (role_exceptions (w_db w'')) = tbl_rows (role_exceptions (w_db w))"
  using assms
proof (cases rule: create_exception_cases)
  case (created out')
  let ?i = "tbl_next (role_exceptions (w_db w))"
  have out: "re_id out = ?i"
    using created(1,6) assms(2) by (auto simp: enrich_exception_def role_masking_exception.defs exception_row_def)
  have rows: "tbl_rows (role_exceptions (w_db w')) = tbl_rows (role_exceptions (w_db w)) @ [exception_row b ?i]"
    using created(4) by (simp add: add_exception_def row_simps)
  have fresh: "\<forall>x \<in> set (tbl_rows (role_exceptions (w_db w))). re_id x < ?i"
    using schema_okD(6)[OF assms(1)] by (simp add: tbl_ok_def)
  obtain res w'' where r: "delete_exception e st ?i w' = (res, w'')" by (cases "delete_exception e st ?i w'")
  from created(5) r show ?thesis
  proof (cases rule: delete_exception_cases)
    case missing
    then show ?thesis by (auto simp: session_get_None_iff rows exception_row_def)
  next
    case (deleted x msg)
    have "filter (\<lambda>x. re_id x \<noteq> ?i) (tbl_rows (role_exceptions (w_db w))) = tbl_rows (role_exceptions (w_db w))"
      using fresh by (auto simp: filter_id_conv)
    with deleted r out show ?thesis by (simp add: drop_exception_def row_simps rows exception_row_def)
  qed
qed simp_all

theorem create_delete_exception_roundtrip_witness:
  "\<exists>out w' msg w''. create_exception demo_ext demo_settings analyst_request masked_world = (Inr out, w') \<and>
     delete_exception demo_ext demo_settings (re_id out) w' = (Inr msg, w'') \<and>
     tbl_rows (role_exceptions (w_db w'')) = [auditor_exception]"
proof -
  obtain out w' where r: "create_exception demo_ext demo_settings analyst_request masked_world = (Inr out, w')"
    using masked_world_create by blast
  have "tbl_rows (role_exceptions (w_db masked_world)) = [auditor_exception]"
    by (simp add: masked_world_def demo_db_def)
  with create_delete_exception_roundtrip[OF masked_world_ok r] r show ?thesis by auto
qed

end
