(* ===== verification/Governance_Switch.thy ===== *)
theory Governance_Switch
  imports Query_Planner "HOL-Library.Char_ord" "HOL-Library.List_Lexorder"
begin

text \<open>
  The per-database circuit breaker, \<^verbatim>\<open>catalog/routers/governance_switch.py\<close>. The interface
  of a switch is the locale \<open>circuit_breaker\<close>, interpreted on the two handlers; what a
  sequence of requests does is proved once inside it.
\<close>

section \<open>Operations\<close>

record disable_request =
  dr_reason :: string
  dr_disabled_by :: string

definition new_governance_row :: "string \<Rightarrow> int \<Rightarrow> governance_database" where
  "new_governance_row database i = \<lparr>gd_id = i, gd_database = database, gd_governance_enabled = True,
     gd_disabled_reason = None, gd_disabled_by = None, gd_disabled_at = None, gd_enabled_at = None\<rparr>"

definition governance_get_or_create :: "catalog \<Rightarrow> string \<Rightarrow> (governance_database \<times> catalog) res" where
  "governance_get_or_create db database =
     (case scalar_one_or_none (\<lambda>g. gd_database g = database) (governance_databases db) of
        Inl err \<Rightarrow> Inl err
      | Inr (Some g) \<Rightarrow> Inr (g, db)
      | Inr None \<Rightarrow>
         (let (g, t) = tbl_insert (new_governance_row database) (governance_databases db) in
          case db_flush (db\<lparr>governance_databases := t\<rparr>) of
            Inl err \<Rightarrow> Inl err
          | Inr db1 \<Rightarrow> Inr (g, db1)))"

definition list_switches :: "catalog \<Rightarrow> governance_database list" where
  "list_switches db = sort_key gd_database (tbl_rows (governance_databases db))"

definition get_switch :: "catalog \<Rightarrow> string \<Rightarrow> governance_database res" where
  "get_switch db database =
     (case scalar_one_or_none (\<lambda>g. gd_database g = database) (governance_databases db) of
        Inl err \<Rightarrow> Inl err
      | Inr None \<Rightarrow> Inl (HTTPException 404 (''Database '' @ sq database @
          '' not registered in governance switch. '' @
          ''Run a masking apply first, or POST /governance-switch/{db}/enable.''))
      | Inr (Some g) \<Rightarrow> Inr g)"

text \<open>The rest of a handler, once the row has its new values.\<close>

definition save_switch ::
  "governance_database \<Rightarrow> catalog \<Rightarrow> world \<Rightarrow> governance_database res \<times> world" where
  "save_switch g db w =
     (let w1 = invalidate policy_cache_prefix w in
      case db_flush (db\<lparr>governance_databases := tbl_replace gd_id g (governance_databases db)\<rparr>) of
        Inl err \<Rightarrow> (Inl err, w1)
      | Inr db1 \<Rightarrow> commit db1 g w1)"

definition none_or :: "string option \<Rightarrow> string" where
  "none_or x = (case x of None \<Rightarrow> ''None'' | Some s \<Rightarrow> s)"

definition disable_governance ::
  "int \<Rightarrow> string \<Rightarrow> disable_request \<Rightarrow> world \<Rightarrow> governance_database res \<times> world" where
  "disable_governance now database b w =
     (case governance_get_or_create (w_db w) database of
        Inl err \<Rightarrow> (Inl err, w)
      | Inr (g, db1) \<Rightarrow>
         if \<not> gd_governance_enabled g
         then (Inl (HTTPException 409 (''Database '' @ sq database @ '' is already disabled. '' @
           ''Reason: '' @ none_or (gd_disabled_reason g))), w)
         else save_switch (g\<lparr>gd_governance_enabled := False, gd_disabled_reason := Some (dr_reason b),
           gd_disabled_by := Some (dr_disabled_by b), gd_disabled_at := Some now,
           gd_enabled_at := None\<rparr>) db1 w)"

definition enable_governance :: "int \<Rightarrow> string \<Rightarrow> world \<Rightarrow> governance_database res \<times> world" where
  "enable_governance now database w =
     (case governance_get_or_create (w_db w) database of
        Inl err \<Rightarrow> (Inl err, w)
      | Inr (g, db1) \<Rightarrow>
         if gd_governance_enabled g
         then (Inl (HTTPException 409 (''Database '' @ sq database @ '' is already enabled.'')), w)
         else save_switch (g\<lparr>gd_governance_enabled := True, gd_disabled_reason := None,
           gd_disabled_by := None, gd_disabled_at := None, gd_enabled_at := Some now\<rparr>) db1 w)"

section \<open>The contract of a switch\<close>

text \<open>
  A switch per database: an operation succeeds exactly when it has something to change,
  and afterwards the database is in the state asked for and every other one as before.
\<close>

locale circuit_breaker =
  fixes ok :: "'s \<Rightarrow> bool"
    and is_on :: "'s \<Rightarrow> string \<Rightarrow> bool"
    and turn :: "bool \<Rightarrow> string \<Rightarrow> 's \<Rightarrow> bool \<times> 's"
  assumes turn_ok: "ok s \<Longrightarrow> ok (snd (turn b d s))"
    and turn_succeeds: "ok s \<Longrightarrow> fst (turn b d s) = (is_on s d \<noteq> b)"
    and turn_sets: "ok s \<Longrightarrow> is_on (snd (turn b d s)) = (is_on s)(d := b)"
begin

lemma run_ok: "ok s \<Longrightarrow> ok (fold (\<lambda>(b, d) s. snd (turn b d s)) cmds s)"
  by (induction cmds arbitrary: s) (auto simp: turn_ok)

lemma run_sets:
  "ok s \<Longrightarrow> is_on (fold (\<lambda>(b, d) s. snd (turn b d s)) cmds s) = fold (\<lambda>(b, d) f. f(d := b)) cmds (is_on s)"
  by (induction cmds arbitrary: s) (auto simp: turn_ok turn_sets)

lemma last_command_wins:
  assumes "ok s" and "d \<notin> snd ` set later"
  shows "is_on (fold (\<lambda>(b, d) s. snd (turn b d s)) (earlier @ (b, d) # later) s) d = b"
proof -
  have keep: "fold (\<lambda>(b, d) f. f(d := b)) cmds f d = f d" if "d \<notin> snd ` set cmds" for cmds f
    using that by (induction cmds arbitrary: f) auto
  show ?thesis using assms(2) by (simp only: run_sets[OF assms(1)]) (simp add: keep)
qed

lemma repeated_fails: "ok s \<Longrightarrow> \<not> fst (turn b d (snd (turn b d s)))"
  by (simp add: turn_ok turn_succeeds turn_sets)

lemma undo_restores: "ok s \<Longrightarrow> fst (turn b d s) \<Longrightarrow> is_on (snd (turn (\<not> b) d (snd (turn b d s)))) = is_on s"
  by (auto simp: turn_ok turn_succeeds turn_sets fun_eq_iff)

end

section \<open>The handlers keep the contract\<close>

lemma switch_key: "tbl_ok gd_id gd_database t \<Longrightarrow>
    scalar_one_or_none (\<lambda>g. gd_database g = d) t = Inr (find_key gd_database d t)"
  by (rule scalar_one_by_key)

lemma schema_ok_switch:
  "schema_ok db \<Longrightarrow> schema_ok (db\<lparr>governance_databases := t\<rparr>) \<longleftrightarrow> tbl_ok gd_id gd_database t"
  by (auto simp: schema_ok_def terms_ok_def policies_ok_def tags_ok_def exceptions_ok_def)

lemma governance_get_or_create_ok:
  assumes "schema_ok db"
  obtains g db1 where "governance_get_or_create db d = Inr (g, db1)" "schema_ok db1"
    "gd_database g = d" "g \<in> set (tbl_rows (governance_databases db1))"
    "gd_governance_enabled g = governance_on db d" "governance_on db1 = governance_on db"
    "db1 = db\<lparr>governance_databases := governance_databases db1\<rparr>"
    "find_key gd_database d (governance_databases db) = None \<Longrightarrow> gd_governance_enabled g"
proof (cases "find_key gd_database d (governance_databases db)")
  case (Some g)
  then show thesis
    using assms find_key_Some_D[OF Some]
    by (intro that[of g db])
      (auto simp: governance_get_or_create_def switch_key[OF schema_okD(7)] governance_on_def)
next
  case None
  let ?t = "snd (tbl_insert (new_governance_row d) (governance_databases db))"
  let ?db1 = "db\<lparr>governance_databases := ?t\<rparr>"
  have row: "gd_database (new_governance_row d i) = d" "gd_id (new_governance_row d i) = i"
    "gd_governance_enabled (new_governance_row d i)" for i
    by (simp_all add: new_governance_row_def)
  have ok: "schema_ok ?db1"
    using tbl_ok_insert[OF schema_okD(7)[OF assms], of "new_governance_row d"] None
    by (simp add: schema_ok_switch[OF assms] row)
  have "governance_get_or_create db d =
      Inr (new_governance_row d (tbl_next (governance_databases db)), ?db1)"
    using None ok
    by (simp add: governance_get_or_create_def switch_key[OF schema_okD(7)[OF assms]] db_flush_def
        split_beta row_simps)
  moreover have "governance_on ?db1 = governance_on db"
  proof
    fix x
    show "governance_on ?db1 x = governance_on db x"
      using find_key_insert[OF None, of "new_governance_row d"] None row(3)
        find_key_insert_old[of gd_database "new_governance_row d" "governance_databases db" x]
      by (cases "x = d") (auto simp: governance_on_def row)
  qed
  ultimately show thesis
    using ok None by (intro that[of "new_governance_row d (tbl_next (governance_databases db))" ?db1])
      (auto simp: row row_simps governance_on_def)
qed

lemma save_switch_ok:
  assumes "schema_ok db" and "g \<in> set (tbl_rows (governance_databases db))"
    and "gd_id g' = gd_id g" and "gd_database g' = gd_database g"
  shows "save_switch g' db w = (Inr g', (invalidate policy_cache_prefix w)\<lparr>w_db :=
      db\<lparr>governance_databases := tbl_replace gd_id g' (governance_databases db)\<rparr>\<rparr>)"
    and "schema_ok (db\<lparr>governance_databases := tbl_replace gd_id g' (governance_databases db)\<rparr>)"
    and "governance_on (db\<lparr>governance_databases := tbl_replace gd_id g' (governance_databases db)\<rparr>) =
      (governance_on db)(gd_database g := gd_governance_enabled g')"
proof -
  note t = schema_okD(7)[OF assms(1)]
  show ok: "schema_ok (db\<lparr>governance_databases := tbl_replace gd_id g' (governance_databases db)\<rparr>)"
    using tbl_ok_replace[OF t assms(2,3,4)] by (simp add: schema_ok_switch[OF assms(1)])
  then show "save_switch g' db w = (Inr g', (invalidate policy_cache_prefix w)\<lparr>w_db :=
      db\<lparr>governance_databases := tbl_replace gd_id g' (governance_databases db)\<rparr>\<rparr>)"
    by (simp add: save_switch_def db_flush_def)
  show "governance_on (db\<lparr>governance_databases := tbl_replace gd_id g' (governance_databases db)\<rparr>) =
      (governance_on db)(gd_database g := gd_governance_enabled g')"
    using find_key_replace[OF t assms(2,3,4)] find_key_replace_other[OF assms(2) t assms(3,4)]
    by (auto simp: governance_on_def fun_eq_iff)
qed

lemma disable_governance_cases:
  assumes "schema_ok (w_db w)"
  obtains (refused) msg where "disable_governance now d b w = (Inl (HTTPException 409 msg), w)"
      "\<not> governance_on (w_db w) d"
    | (done_off) g w' where "disable_governance now d b w = (Inr g, w')" "governance_on (w_db w) d"
      "gd_database g = d" "\<not> gd_governance_enabled g" "gd_disabled_reason g = Some (dr_reason b)"
      "schema_ok (w_db w')" "governance_on (w_db w') = (governance_on (w_db w))(d := False)"
      "w_sd w' = w_sd w" "w_db w' = (w_db w)\<lparr>governance_databases := governance_databases (w_db w')\<rparr>"
proof -
  obtain g db1 where g: "governance_get_or_create (w_db w) d = Inr (g, db1)" "schema_ok db1"
    "gd_database g = d" "g \<in> set (tbl_rows (governance_databases db1))"
    "gd_governance_enabled g = governance_on (w_db w) d" "governance_on db1 = governance_on (w_db w)"
    "db1 = (w_db w)\<lparr>governance_databases := governance_databases db1\<rparr>"
    using governance_get_or_create_ok[OF assms] by metis
  show thesis
  proof (cases "governance_on (w_db w) d")
    case False
    with g show thesis by (intro refused) (auto simp: disable_governance_def)
  next
    case True
    let ?g = "g\<lparr>gd_governance_enabled := False, gd_disabled_reason := Some (dr_reason b),
           gd_disabled_by := Some (dr_disabled_by b), gd_disabled_at := Some now, gd_enabled_at := None\<rparr>"
    let ?db2 = "db1\<lparr>governance_databases := tbl_replace gd_id ?g (governance_databases db1)\<rparr>"
    have "disable_governance now d b w = save_switch ?g db1 w"
      using g True by (simp add: disable_governance_def)
    moreover have "?db2 = (w_db w)\<lparr>governance_databases := governance_databases ?db2\<rparr>"
      by (subst g(7)) simp
    ultimately show thesis
      using save_switch_ok(1)[OF g(2,4), of ?g w] save_switch_ok(2,3)[OF g(2,4), of ?g] g(3,6) True
      by (intro done_off[of ?g "(invalidate policy_cache_prefix w)\<lparr>w_db := ?db2\<rparr>"]) simp_all
  qed
qed

lemma enable_governance_cases:
  assumes "schema_ok (w_db w)"
  obtains (refused) msg where "enable_governance now d w = (Inl (HTTPException 409 msg), w)"
      "governance_on (w_db w) d"
    | (done_on) g w' where "enable_governance now d w = (Inr g, w')" "\<not> governance_on (w_db w) d"
      "gd_database g = d" "gd_governance_enabled g" "gd_disabled_reason g = None"
      "schema_ok (w_db w')" "governance_on (w_db w') = (governance_on (w_db w))(d := True)"
      "w_sd w' = w_sd w" "w_db w' = (w_db w)\<lparr>governance_databases := governance_databases (w_db w')\<rparr>"
proof -
  obtain g db1 where g: "governance_get_or_create (w_db w) d = Inr (g, db1)" "schema_ok db1"
    "gd_database g = d" "g \<in> set (tbl_rows (governance_databases db1))"
    "gd_governance_enabled g = governance_on (w_db w) d" "governance_on db1 = governance_on (w_db w)"
    "db1 = (w_db w)\<lparr>governance_databases := governance_databases db1\<rparr>"
    using governance_get_or_create_ok[OF assms] by metis
  show thesis
  proof (cases "governance_on (w_db w) d")
    case True
    with g show thesis by (intro refused) (auto simp: enable_governance_def)
  next
    case False
    let ?g = "g\<lparr>gd_governance_enabled := True, gd_disabled_reason := None,
           gd_disabled_by := None, gd_disabled_at := None, gd_enabled_at := Some now\<rparr>"
    let ?db2 = "db1\<lparr>governance_databases := tbl_replace gd_id ?g (governance_databases db1)\<rparr>"
    have "enable_governance now d w = save_switch ?g db1 w"
      using g False by (simp add: enable_governance_def)
    moreover have "?db2 = (w_db w)\<lparr>governance_databases := governance_databases ?db2\<rparr>"
      by (subst g(7)) simp
    ultimately show thesis
      using save_switch_ok(1)[OF g(2,4), of ?g w] save_switch_ok(2,3)[OF g(2,4), of ?g] g(3,6) False
      by (intro done_on[of ?g "(invalidate policy_cache_prefix w)\<lparr>w_db := ?db2\<rparr>"]) simp_all
  qed
qed

text \<open>One request on a switch: whether it was answered with a row, and the next state.\<close>

definition switch_request :: "int \<Rightarrow> disable_request \<Rightarrow> bool \<Rightarrow> string \<Rightarrow> world \<Rightarrow> bool \<times> world" where
  "switch_request now b on d w =
     (if on then map_prod is_ok id (enable_governance now d w)
      else map_prod is_ok id (disable_governance now d b w))"

interpretation gs: circuit_breaker "\<lambda>w :: world. schema_ok (w_db w)" "\<lambda>w. governance_on (w_db w)"
  "switch_request now b" for now b
proof
  fix w :: world and on d
  assume ok: "schema_ok (w_db w)"
  have all: "schema_ok (w_db (snd (switch_request now b on d w))) \<and>
    fst (switch_request now b on d w) = (governance_on (w_db w) d \<noteq> on) \<and>
    governance_on (w_db (snd (switch_request now b on d w))) = (governance_on (w_db w))(d := on)"
  proof (cases on)
    case True
    from ok show ?thesis
      by (cases rule: enable_governance_cases[of w now d])
        (use True ok in \<open>auto simp: switch_request_def fun_upd_idem\<close>)
  next
    case False
    from ok show ?thesis
      by (cases rule: disable_governance_cases[of w now d b])
        (use False ok in \<open>auto simp: switch_request_def fun_upd_idem\<close>)
  qed
  then show "schema_ok (w_db (snd (switch_request now b on d w)))"
    "fst (switch_request now b on d w) = (governance_on (w_db w) d \<noteq> on)"
    "governance_on (w_db (snd (switch_request now b on d w))) = (governance_on (w_db w))(d := on)"
    by blast+
qed

section \<open>Properties\<close>

text \<open>
  C29: The switch is the partial function the rest of the catalog reads, by refinement: a
  request succeeds exactly when it changes the state of its database, a refused request
  (409) changes nothing, and after any sequence of requests the governance of a database
  is what the last request on it asked for.
\<close>

theorem governance_switch_refines:
  assumes "schema_ok (w_db w)" and "d \<notin> snd ` set later"
  shows "governance_on (w_db (fold (\<lambda>(b, d) w. snd (switch_request now r b d w))
      (earlier @ (on, d) # later) w)) d = on \<and>
    (let (ok, w') = switch_request now r on d w in
       ok = (governance_on (w_db w) d \<noteq> on) \<and> (\<not> ok \<longrightarrow> w' = w) \<and>
       governance_on (w_db w') = (governance_on (w_db w))(d := on))"
proof -
  have "\<not> fst (switch_request now r on d w) \<longrightarrow> snd (switch_request now r on d w) = w"
  proof (cases on)
    case True
    from assms(1) show ?thesis
      by (cases rule: enable_governance_cases[of w now d]) (simp_all add: True switch_request_def)
  next
    case False
    from assms(1) show ?thesis
      by (cases rule: disable_governance_cases[of w now d r]) (simp_all add: False switch_request_def)
  qed
  then show ?thesis
    using gs.last_command_wins[OF assms, of now r earlier on] gs.turn_succeeds[OF assms(1)]
      gs.turn_sets[OF assms(1)]
    by (simp add: split_beta Let_def)
qed

theorem governance_switch_refines_witness:
  "\<not> governance_on (w_db (fold (\<lambda>(b, d) w. snd (switch_request 0 \<lparr>dr_reason = ''etl'', dr_disabled_by = ''admin''\<rparr> b d w))
      [(False, ''demo''), (True, ''sales'')] demo_world)) ''demo''"
  using governance_switch_refines[OF demo_schema_ok(2), of "''demo''" "[(True, ''sales'')]" 0
      "\<lparr>dr_reason = ''etl'', dr_disabled_by = ''admin''\<rparr>" "[]" False]
  by simp

text \<open>
  What a disabled switch does to the two readers of it. Every user who has a role is
  routed to the base table whatever the tags and exceptions say, and applying a masked view
  answers "skipped" and touches nothing, until the switch is enabled again.
\<close>

theorem disabled_governance_opens_base:
  assumes "schema_ok (w_db w)" and "disable_governance now d b w = (Inr g, w')"
    and "role_names e (qr_username q) \<noteq> []" and "qr_database q = d"
  shows "(\<exists>r. plan_masked_query e st q (w_db w') = Inr r \<and> mr_target r = Base_Table) \<and>
    (\<exists>r. apply_masking_view e st d t dry force w' = (Inr r, w') \<and> ar_action r = ''skipped'')"
  using assms(1)
proof (cases rule: disable_governance_cases[of w now d b])
  case refused
  with assms(2) show ?thesis by simp
next
  case (done_off g' w1)
  have w1: "w1 = w'" using done_off(1) assms(2) by simp
  have ok: "schema_ok (w_db w')" and off: "\<not> governance_on (w_db w') d"
    using done_off(6,7) w1 by simp_all
  obtain t' where "resolve_query_target st (w_db w') (qr_database q) (qr_table q) (role_names e (qr_username q)) = Inr t'"
    and "qt_target t' = Base_Table"
    using resolve_query_target_cases[OF ok] off assms(4) by metis
  then show ?thesis
    using assms(3) off governance_enabled_ok[OF ok, of d]
    by (simp add: plan_masked_query_def apply_masking_view_def)
qed

theorem disabled_governance_opens_base_witness:
  "\<exists>g w' r r'. disable_governance 0 ''demo'' \<lparr>dr_reason = ''etl'', dr_disabled_by = ''admin''\<rparr> demo_world = (Inr g, w') \<and>
     plan_masked_query demo_ext default_settings \<lparr>qr_username = ''ann'', qr_database = ''demo'',
       qr_table = ''users'', qr_columns = None, qr_where = None, qr_limit = 10\<rparr> (w_db w') = Inr r \<and>
     mr_target r = Base_Table \<and>
     apply_masking_view demo_ext default_settings ''demo'' ''users'' False False w' = (Inr r', w') \<and>
     ar_action r' = ''skipped''"
proof -
  let ?b = "\<lparr>dr_reason = ''etl'', dr_disabled_by = ''admin''\<rparr>"
  let ?q = "\<lparr>qr_username = ''ann'', qr_database = ''demo'',
      qr_table = ''users'', qr_columns = None, qr_where = None, qr_limit = 10\<rparr>"
  have on: "governance_on (w_db demo_world) ''demo''" by (simp add: governance_on_def find_key_def demo_defs)
  obtain g w' where d: "disable_governance 0 ''demo'' ?b demo_world = (Inr g, w')"
    using demo_schema_ok(2) by (cases rule: disable_governance_cases[of demo_world 0 "''demo''" ?b]) (use on in auto)
  have roles: "role_names demo_ext (qr_username ?q) \<noteq> []"
    by (simp add: role_names_def get_user_roles_def demo_ext_def)
  have db: "qr_database ?q = ''demo''" by simp
  note p = disabled_governance_opens_base[OF demo_schema_ok(2) d roles db, where st = default_settings
      and t = "''users''" and dry = False and force = False]
  from p d show ?thesis by blast
qed

text \<open>
  A database cannot be registered by enabling it. On a database without a row the
  request is refused with 409 and the row made for it is rolled back, so reading the
  switch still answers 404, with a message that recommends this very request.
\<close>

theorem enable_never_registers:
  assumes "schema_ok (w_db w)" and "find_key gd_database d (governance_databases (w_db w)) = None"
  shows "\<exists>msg msg'. enable_governance now d w = (Inl (HTTPException 409 msg), w) \<and>
    get_switch (w_db w) d = Inl (HTTPException 404 msg')"
proof -
  have on: "governance_on (w_db w) d" using assms(2) by (simp add: governance_on_def)
  from assms(1) have "\<exists>msg. enable_governance now d w = (Inl (HTTPException 409 msg), w)"
    by (cases rule: enable_governance_cases[of w now d]) (use on in auto)
  then show ?thesis
    using assms(2) by (simp add: get_switch_def switch_key[OF schema_okD(7)[OF assms(1)]])
qed

theorem enable_never_registers_witness:
  "\<exists>msg msg'. enable_governance 0 ''demo'' demo_world = (Inl (HTTPException 409 msg), demo_world) \<and>
    get_switch (w_db demo_world) ''demo'' = Inl (HTTPException 404 msg')"
  by (rule enable_never_registers, rule demo_schema_ok(2)) (simp add: find_key_def demo_defs)

end
