(* ===== verification/Classifier.thy ===== *)
theory Classifier
  imports Stardata_Service
begin

text \<open>
  The automatic column classifier, \<^verbatim>\<open>catalog/engine/classifier.py\<close>: stage 1 scores a
  column name against the patterns of a glossary term, stage 2 arbitrates the substring
  hits with the signals A to D, and \<open>classify_columns\<close> keeps the best candidate of each
  column, left to right. The text a signal contributes to \<^verbatim>\<open>arb_signals\<close> is a value of
  \<open>arb_signal\<close>, one constructor per f-string with the values it interpolates.
\<close>

section \<open>Data\<close>

datatype confidence = REJECT | LOW | MEDIUM | HIGH

datatype arb_signal =
    A_prefix string string | A_suffix string string
  | A_prefix_us string string | A_us_suffix string string | A_middle string string
  | B_no_class | B_strong_context nat string | B_weak_context string | B_no_context
  | C_negative_guard string string | C_negative_prefix string string | C_clear
  | D_table_reject string string | D_table_reject_edge string string
  | D_table_boost string string | D_table_boost_edge string string | D_table_neutral string
  | Base_score py_float | Base_score_direct py_float | Arb_total py_float

record column_match =
  cm_column_name :: string
  cm_term_id :: "int option"
  cm_term_name :: "string option"
  cm_classification_id :: "int option"
  cm_classification_name :: "string option"
  cm_score :: py_float
  cm_confidence :: confidence
  cm_arb_score :: py_float
  cm_arb_signals :: "arb_signal list"
  cm_use_conservative_policy :: bool

record term_spec =
  ts_id :: int
  ts_name :: string
  ts_classification_id :: "int option"
  ts_classification_name :: "string option"
  ts_classification_sensitivity :: string
  ts_patterns :: "string list"
  ts_negative_patterns :: "string list"
  ts_table_name_negative_patterns :: "string list"
  ts_table_name_positive_patterns :: "string list"

definition base_threshold :: py_float where "base_threshold = f0_7"
definition arb_medium_threshold :: py_float where "arb_medium_threshold = f0_85"
definition arb_high_threshold :: py_float where "arb_high_threshold = f0_95"

text \<open>The dictionary \<^verbatim>\<open>conf_rank\<close> of \<open>classify_columns\<close>, and the order it induces.\<close>

fun conf_rank :: "confidence \<Rightarrow> int" where
  "conf_rank HIGH = 2"
| "conf_rank MEDIUM = 1"
| "conf_rank LOW = 0"
| "conf_rank REJECT = - 1"

lemma conf_rank_inject: "conf_rank a = conf_rank b \<longleftrightarrow> a = b"
  by (cases a; cases b) simp_all

instantiation confidence :: linorder
begin

definition less_eq_confidence :: "confidence \<Rightarrow> confidence \<Rightarrow> bool" where
  "less_eq_confidence a b = (conf_rank a \<le> conf_rank b)"

definition less_confidence :: "confidence \<Rightarrow> confidence \<Rightarrow> bool" where
  "less_confidence a b = (conf_rank a < conf_rank b)"

instance
  by standard (auto simp: less_eq_confidence_def less_confidence_def conf_rank_inject)

end

definition sensitivity_rank :: "string \<Rightarrow> int" where
  "sensitivity_rank s = (case map_of [(''low'', 0), (''medium'', 1), (''high'', 2), (''critical'', 3)] s
     of None \<Rightarrow> 0 | Some r \<Rightarrow> r)"

section \<open>Loading the term specifications\<close>

definition load_term_specs :: "catalog \<Rightarrow> term_spec list" where
  "load_term_specs db = map (\<lambda>t.
     let cls = (case gt_classification_id t of None \<Rightarrow> None
                | Some i \<Rightarrow> session_get cls_id i (classifications db))
     in \<lparr>ts_id = gt_id t, ts_name = gt_name t, ts_classification_id = gt_classification_id t,
         ts_classification_name = map_option cls_name cls,
         ts_classification_sensitivity = (case cls of None \<Rightarrow> ''low'' | Some c \<Rightarrow> cls_sensitivity c),
         ts_patterns = map py_lower (gt_column_name_patterns t),
         ts_negative_patterns = map py_lower (gt_negative_patterns t),
         ts_table_name_negative_patterns = map py_lower (gt_table_name_negative_patterns t),
         ts_table_name_positive_patterns = map py_lower (gt_table_name_positive_patterns t)\<rparr>)
     (tbl_rows (glossary_terms db))"

section \<open>Stage 1: base scoring\<close>

fun base_score_loop :: "string \<Rightarrow> string list \<Rightarrow> py_float \<Rightarrow> string \<Rightarrow> py_float \<times> string" where
  "base_score_loop col [] best_score best_pat = (best_score, best_pat)"
| "base_score_loop col (pat # pats) best_score best_pat =
     (if pat = [] then base_score_loop col pats best_score best_pat
      else if col = pat then (f1_0, pat)
      else if word_search pat col then
        (if best_score < f0_9 then base_score_loop col pats f0_9 pat
         else base_score_loop col pats best_score best_pat)
      else if contains pat col then
        (if best_score < f0_7 then base_score_loop col pats f0_7 pat
         else base_score_loop col pats best_score best_pat)
      else base_score_loop col pats best_score best_pat)"

definition base_score :: "string \<Rightarrow> string list \<Rightarrow> py_float \<times> string" where
  "base_score col patterns = base_score_loop col patterns 0 []"

section \<open>Stage 2: arbitration signals\<close>

definition signal_A_position :: "string \<Rightarrow> string \<Rightarrow> py_float \<times> arb_signal" where
  "signal_A_position col pat =
     (if startswith col pat then (f0_15, A_prefix pat col)
      else if endswith col pat then (f0_10, A_suffix pat col)
      else if startswith col (pat @ ''_'') then (f0_15, A_prefix_us pat col)
      else if endswith col (''_'' @ pat) then (f0_10, A_us_suffix pat col)
      else (0, A_middle pat col))"

definition confirmed_siblings :: "string \<Rightarrow> column_match list \<Rightarrow> column_match list" where
  "confirmed_siblings cls already = filter (\<lambda>m. cm_confidence m \<in> {HIGH, MEDIUM} \<and>
     cm_classification_name m = Some cls) already"

definition signal_B_sibling_context ::
  "string option \<Rightarrow> column_match list \<Rightarrow> py_float \<times> arb_signal" where
  "signal_B_sibling_context cls already = (case cls of
     None \<Rightarrow> (0, B_no_class)
   | Some c \<Rightarrow>
      (if c = [] then (0, B_no_class)
       else let n = length (confirmed_siblings c already) in
         if 2 \<le> n then (f0_20, B_strong_context n c)
         else if n = 1 then (f0_12, B_weak_context c)
         else (0, B_no_context)))"

fun signal_C_negative_guard :: "string \<Rightarrow> string list \<Rightarrow> bool \<times> arb_signal" where
  "signal_C_negative_guard col [] = (False, C_clear)"
| "signal_C_negative_guard col (neg # negs) =
     (if neg = [] then signal_C_negative_guard col negs
      else if word_search neg col then (True, C_negative_guard neg col)
      else if startswith col (neg @ ''_'') \<or> col = neg then (True, C_negative_prefix neg col)
      else signal_C_negative_guard col negs)"

fun signal_D_negatives :: "string \<Rightarrow> string list \<Rightarrow> arb_signal option" where
  "signal_D_negatives tbl [] = None"
| "signal_D_negatives tbl (neg # negs) =
     (if neg = [] then signal_D_negatives tbl negs
      else if word_search neg tbl then Some (D_table_reject tbl neg)
      else if startswith tbl neg \<or> endswith tbl neg then Some (D_table_reject_edge tbl neg)
      else signal_D_negatives tbl negs)"

fun signal_D_positives :: "string \<Rightarrow> string list \<Rightarrow> arb_signal option" where
  "signal_D_positives tbl [] = None"
| "signal_D_positives tbl (pos # poss) =
     (if pos = [] then signal_D_positives tbl poss
      else if word_search pos tbl then Some (D_table_boost tbl pos)
      else if startswith tbl pos \<or> endswith tbl pos then Some (D_table_boost_edge tbl pos)
      else signal_D_positives tbl poss)"

definition signal_D_table_context :: "string \<Rightarrow> term_spec \<Rightarrow> bool \<times> py_float \<times> arb_signal" where
  "signal_D_table_context tbl ts =
     (case signal_D_negatives tbl (ts_table_name_negative_patterns ts) of
        Some d \<Rightarrow> (True, 0, d)
      | None \<Rightarrow>
         (case signal_D_positives tbl (ts_table_name_positive_patterns ts) of
            Some d \<Rightarrow> (False, f0_20, d)
          | None \<Rightarrow> (False, 0, D_table_neutral tbl)))"

section \<open>Arbitration\<close>

definition verdict :: "py_float \<Rightarrow> confidence" where
  "verdict arb_score =
     (if arb_high_threshold \<le> arb_score then HIGH
      else if arb_medium_threshold \<le> arb_score then MEDIUM
      else LOW)"

definition arbitrate ::
  "string \<Rightarrow> string \<Rightarrow> term_spec \<Rightarrow> column_match list \<Rightarrow> string
     \<Rightarrow> confidence \<times> py_float \<times> arb_signal list" where
  "arbitrate col pat ts already tbl =
     (case signal_C_negative_guard col (ts_negative_patterns ts) of
        (True, reason) \<Rightarrow> (REJECT, 0, [reason])
      | (False, _) \<Rightarrow>
         (let (d_rejected, d_boost, d_signals) =
            (if tbl \<noteq> [] then
               (case signal_D_table_context tbl ts of (r, b, d) \<Rightarrow> (r, b, [d]))
             else (False, 0, [])) in
          if d_rejected then (REJECT, 0, d_signals)
          else
            (case signal_A_position col pat of (a_boost, a_desc) \<Rightarrow>
             (case signal_B_sibling_context (ts_classification_name ts) already of
               (b_boost, b_desc) \<Rightarrow>
                 (let arb_score = fl_add (fl_add (fl_add f0_7 a_boost) b_boost) d_boost in
                  (verdict arb_score, arb_score,
                   d_signals @ [a_desc, b_desc, Arb_total arb_score]))))))"

section \<open>Main classification\<close>

definition norm_name :: "string \<Rightarrow> string" where
  "norm_name s = replace_char CHR '' '' CHR ''_'' (py_lower s)"

definition score_term ::
  "string \<Rightarrow> string \<Rightarrow> term_spec \<Rightarrow> column_match list \<Rightarrow> py_float \<Rightarrow> string
     \<Rightarrow> confidence \<times> py_float \<times> arb_signal list" where
  "score_term col tbl ts already base pat =
     (if f0_9 \<le> base then
        (if tbl \<noteq> [] \<and> ts_table_name_negative_patterns ts \<noteq> [] then
           (case signal_D_table_context tbl ts of (d_rejected, _, d_desc) \<Rightarrow>
             if d_rejected then (REJECT, 0, [Base_score base, d_desc])
             else (HIGH, base, [Base_score_direct base, d_desc]))
         else (HIGH, base, [Base_score_direct base]))
      else arbitrate col pat ts already tbl)"

definition candidate ::
  "string \<Rightarrow> term_spec \<Rightarrow> py_float \<Rightarrow> confidence \<times> py_float \<times> arb_signal list \<Rightarrow> column_match" where
  "candidate col ts base r = (case r of (conf, arb, sigs) \<Rightarrow>
     \<lparr>cm_column_name = col, cm_term_id = Some (ts_id ts), cm_term_name = Some (ts_name ts),
      cm_classification_id = ts_classification_id ts,
      cm_classification_name = ts_classification_name ts,
      cm_score = base, cm_confidence = conf, cm_arb_score = arb, cm_arb_signals = sigs,
      cm_use_conservative_policy = (conf = MEDIUM)\<rparr>)"

text \<open>
  \<^verbatim>\<open>_rank\<close> closes over the loop variable \<^verbatim>\<open>ts\<close>: both matches it compares take their
  sensitivity from the term being tried.
\<close>

definition match_rank :: "term_spec \<Rightarrow> column_match \<Rightarrow> int \<times> py_float \<times> int" where
  "match_rank ts m = (conf_rank (cm_confidence m), cm_arb_score m,
     sensitivity_rank (ts_classification_sensitivity ts))"

definition keep_best :: "term_spec \<Rightarrow> column_match \<Rightarrow> column_match \<Rightarrow> column_match" where
  "keep_best ts best cand =
     (if cm_confidence cand \<in> {REJECT, LOW} then
        (if cm_confidence best \<in> {LOW, REJECT} then cand else best)
      else if match_rank ts best < match_rank ts cand then cand else best)"

fun scan_terms ::
  "string \<Rightarrow> string \<Rightarrow> string \<Rightarrow> column_match list \<Rightarrow> py_float \<Rightarrow> column_match \<Rightarrow> term_spec list
     \<Rightarrow> column_match" where
  "scan_terms col col_lower tbl already threshold best [] = best"
| "scan_terms col col_lower tbl already threshold best (ts # rest) =
     (case base_score col_lower (ts_patterns ts) of (base, pat) \<Rightarrow>
        if base < threshold then scan_terms col col_lower tbl already threshold best rest
        else scan_terms col col_lower tbl already threshold
               (keep_best ts best
                  (candidate col ts base (score_term col_lower tbl ts already base pat))) rest)"

definition no_match :: "string \<Rightarrow> column_match" where
  "no_match col = \<lparr>cm_column_name = col, cm_term_id = None, cm_term_name = None,
     cm_classification_id = None, cm_classification_name = None, cm_score = 0,
     cm_confidence = LOW, cm_arb_score = 0, cm_arb_signals = [],
     cm_use_conservative_policy = False\<rparr>"

definition taggable :: "column_match \<Rightarrow> bool" where
  "taggable m = (cm_confidence m \<in> {HIGH, MEDIUM})"

fun classify_loop ::
  "string list \<Rightarrow> term_spec list \<Rightarrow> py_float \<Rightarrow> string \<Rightarrow> column_match list \<Rightarrow> column_match list" where
  "classify_loop [] specs threshold tbl already = []"
| "classify_loop (col # cols) specs threshold tbl already =
     (let m = scan_terms col (norm_name col) tbl already threshold (no_match col) specs in
      m # classify_loop cols specs threshold tbl (if taggable m then already @ [m] else already))"

definition classify_columns ::
  "string list \<Rightarrow> term_spec list \<Rightarrow> py_float \<Rightarrow> string \<Rightarrow> column_match list" where
  "classify_columns cols specs threshold table_name =
     classify_loop cols specs threshold (norm_name table_name) []"

section \<open>The scan functions\<close>

text \<open>
  \<^verbatim>\<open>scan_table\<close> raises when Stardata does; \<^verbatim>\<open>scan_database\<close> lists the base tables that
  are not masked views and leaves out the tables whose scan raised.
\<close>

definition scan_table ::
  "ext \<Rightarrow> term_spec list \<Rightarrow> py_float \<Rightarrow> sd_log \<Rightarrow> string \<Rightarrow> string \<Rightarrow> string + column_match list" where
  "scan_table e specs threshold lg db tbl = (case ext_sd_columns e lg db tbl of
     Inl exc \<Rightarrow> Inl exc
   | Inr cols \<Rightarrow> Inr (classify_columns cols specs threshold tbl))"

definition get_stardata_tables :: "ext \<Rightarrow> settings \<Rightarrow> sd_log \<Rightarrow> string \<Rightarrow> string + string list" where
  "get_stardata_tables e st lg db = (case ext_sd_tables e lg db of
     Inl exc \<Rightarrow> Inl exc
   | Inr rows \<Rightarrow> Inr (filter (\<lambda>r. \<not> endswith r (masked_view_suffix st)) rows))"

fun scan_tables_loop ::
  "ext \<Rightarrow> term_spec list \<Rightarrow> py_float \<Rightarrow> sd_log \<Rightarrow> string \<Rightarrow> string list
     \<Rightarrow> (string \<times> column_match list) list \<Rightarrow> (string \<times> column_match list) list" where
  "scan_tables_loop e specs threshold lg db [] results = results"
| "scan_tables_loop e specs threshold lg db (t # ts) results =
     (case scan_table e specs threshold lg db t of
        Inl _ \<Rightarrow> scan_tables_loop e specs threshold lg db ts results
      | Inr ms \<Rightarrow> scan_tables_loop e specs threshold lg db ts (AList.update t ms results))"

definition scan_database ::
  "ext \<Rightarrow> settings \<Rightarrow> term_spec list \<Rightarrow> py_float \<Rightarrow> sd_log \<Rightarrow> string
     \<Rightarrow> string + (string \<times> column_match list) list" where
  "scan_database e st specs threshold lg db = (case get_stardata_tables e st lg db of
     Inl exc \<Rightarrow> Inl exc
   | Inr tables \<Rightarrow> Inr (scan_tables_loop e specs threshold lg db tables []))"

section \<open>Stage 1 in closed form\<close>

lemma score_order [simp]: "f0_7 < f0_9" "f0_9 < f1_0" "0 < f0_7" "\<not> f0_9 \<le> f0_7" "f0_9 \<le> f1_0"
  "f0_7 \<noteq> 0" "f0_9 \<noteq> 0"
  by (simp_all add: py_simps)

lemma base_score_loop_eq:
  "base_score_loop col pats b p =
     (if col \<noteq> [] \<and> col \<in> set pats then (f1_0, col)
      else if f0_9 \<le> b then (b, p)
      else case List.find (\<lambda>q. q \<noteq> [] \<and> word_search q col) pats of
          Some q \<Rightarrow> (f0_9, q)
        | None \<Rightarrow> if f0_7 \<le> b then (b, p)
            else (case List.find (\<lambda>q. q \<noteq> [] \<and> contains q col) pats of
                Some q \<Rightarrow> (f0_7, q) | None \<Rightarrow> (b, p)))"
proof (induction pats arbitrary: b p)
  case (Cons q pats)
  let ?w = "\<lambda>q. q \<noteq> [] \<and> word_search q col" and ?c = "\<lambda>q. q \<noteq> [] \<and> contains q col"
  have eq: "?w q \<and> ?c q" if "col = q" "col \<noteq> []" using that by simp
  have cw: "?w q \<Longrightarrow> ?c q" by (auto dest: word_search_contains)
  consider "\<not> ?c q" | "?w q" "col = q" | "?w q" "col \<noteq> q" | "\<not> ?w q" "?c q" "col \<noteq> q"
    using eq by blast
  then show ?case
  proof cases
    case 1
    then have "\<not> ?w q" using cw by blast
    then have "List.find ?w (q # pats) = List.find ?w pats"
      and "List.find ?c (q # pats) = List.find ?c pats"
      and "col \<noteq> [] \<and> col \<in> set (q # pats) \<longleftrightarrow> col \<noteq> [] \<and> col \<in> set pats"
      and "base_score_loop col (q # pats) b p = base_score_loop col pats b p"
      using 1 eq by auto
    then show ?thesis by (simp only: Cons.IH)
  next
    case 2
    then show ?thesis by simp
  next
    case 3
    then have "List.find ?w (q # pats) = Some q"
      and "col \<noteq> [] \<and> col \<in> set (q # pats) \<longleftrightarrow> col \<noteq> [] \<and> col \<in> set pats"
      and "base_score_loop col (q # pats) b p =
        (if b < f0_9 then base_score_loop col pats f0_9 q else base_score_loop col pats b p)"
      by auto
    then show ?thesis by (simp only: Cons.IH option.simps) simp
  next
    case 4
    then have "List.find ?w (q # pats) = List.find ?w pats"
      and "List.find ?c (q # pats) = Some q"
      and "col \<noteq> [] \<and> col \<in> set (q # pats) \<longleftrightarrow> col \<noteq> [] \<and> col \<in> set pats"
      and "base_score_loop col (q # pats) b p =
        (if b < f0_7 then base_score_loop col pats f0_7 q else base_score_loop col pats b p)"
      by auto
    moreover have "b < f0_7 \<Longrightarrow> b < f0_9" by (simp add: py_simps)
    ultimately show ?thesis
      by (cases "b < f0_7"; simp only: Cons.IH option.simps) (simp_all split: option.split)
  qed
qed simp

lemma base_score_values: "fst (base_score col pats) \<in> {0, f0_7, f0_9, f1_0}"
  by (auto simp: base_score_def base_score_loop_eq split: option.splits)

lemma base_score_match:
  assumes "base_score col pats = (b, p)" and "b \<noteq> 0"
  shows "p \<in> set pats \<and> p \<noteq> [] \<and> contains p col"
  using assms
  by (auto simp: base_score_def base_score_loop_eq not_le
      dest!: find_Some_D dest: word_search_contains split: if_splits option.splits)

section \<open>The arbitration as a decision table\<close>

datatype position = At_start | At_end | In_middle

definition position_of :: "string \<Rightarrow> string \<Rightarrow> position" where
  "position_of col pat = (if startswith col pat then At_start
     else if endswith col pat then At_end else In_middle)"

text \<open>
  What the thresholds and the rounded sums amount to: position of the hit, number of
  confirmed siblings, and whether the table name boosts the term.
\<close>

definition decision :: "position \<Rightarrow> nat \<Rightarrow> bool \<Rightarrow> confidence" where
  "decision pos n boosted = (case pos of
     At_start \<Rightarrow> if 1 \<le> n \<or> boosted then HIGH else MEDIUM
   | At_end \<Rightarrow> if 2 \<le> n \<or> boosted then HIGH else if n = 1 then MEDIUM else LOW
   | In_middle \<Rightarrow> if 1 \<le> n \<and> boosted then HIGH else if 2 \<le> n \<or> boosted then MEDIUM else LOW)"

definition sibling_count :: "string option \<Rightarrow> column_match list \<Rightarrow> nat" where
  "sibling_count cls already = (case cls of None \<Rightarrow> 0
     | Some c \<Rightarrow> if c = [] then 0 else length (confirmed_siblings c already))"

definition position_boost :: "position \<Rightarrow> py_float" where
  "position_boost pos = (case pos of At_start \<Rightarrow> f0_15 | At_end \<Rightarrow> f0_10 | In_middle \<Rightarrow> 0)"

definition sibling_boost :: "nat \<Rightarrow> py_float" where
  "sibling_boost n = (if 2 \<le> n then f0_20 else if n = 1 then f0_12 else 0)"

lemma signal_A_boost: "fst (signal_A_position col pat) = position_boost (position_of col pat)"
proof -
  have "startswith col pat" if "startswith col (pat @ ''_'')"
    using that unfolding startswith_iff by (metis append_assoc)
  moreover have "endswith col pat" if "endswith col (''_'' @ pat)"
    using that unfolding endswith_iff by (metis append_assoc)
  ultimately show ?thesis
    by (auto simp: signal_A_position_def position_of_def position_boost_def)
qed

lemma signal_B_boost:
  "fst (signal_B_sibling_context cls already) = sibling_boost (sibling_count cls already)"
  by (simp add: signal_B_sibling_context_def sibling_boost_def sibling_count_def Let_def
      split: option.splits)

lemma verdict_sum:
  "verdict (fl_add (fl_add (fl_add f0_7 (position_boost pos)) (sibling_boost n))
     (if boosted then f0_20 else 0)) = decision pos n boosted"
proof -
  consider "n = 0" | "n = 1" | "2 \<le> n" by linarith
  then show ?thesis
    by cases (cases pos; cases boosted;
      simp add: decision_def verdict_def position_boost_def sibling_boost_def
        arb_high_threshold_def arb_medium_threshold_def py_simps float_eval)+
qed

definition table_rejects :: "string \<Rightarrow> term_spec \<Rightarrow> bool" where
  "table_rejects tbl ts = (tbl \<noteq> [] \<and> fst (signal_D_table_context tbl ts))"

definition table_boosts :: "string \<Rightarrow> term_spec \<Rightarrow> bool" where
  "table_boosts tbl ts = (tbl \<noteq> [] \<and> fst (snd (signal_D_table_context tbl ts)) = f0_20)"

lemma signal_D_boost_values:
  "fst (snd (signal_D_table_context tbl ts)) \<in> {0, f0_20}"
  by (auto simp: signal_D_table_context_def split: option.splits)

lemma arbitrate_eq:
  "fst (arbitrate col pat ts already tbl) =
     (if fst (signal_C_negative_guard col (ts_negative_patterns ts)) \<or> table_rejects tbl ts
      then REJECT
      else decision (position_of col pat) (sibling_count (ts_classification_name ts) already)
             (table_boosts tbl ts))"
proof -
  obtain g gr where g: "signal_C_negative_guard col (ts_negative_patterns ts) = (g, gr)"
    by (cases "signal_C_negative_guard col (ts_negative_patterns ts)")
  obtain r b d where d: "signal_D_table_context tbl ts = (r, b, d)"
    by (cases "signal_D_table_context tbl ts")
  have b: "b = (if b = f0_20 then f0_20 else 0)"
    using signal_D_boost_values[of tbl ts] d by auto
  obtain a ad where a: "signal_A_position col pat = (a, ad)"
    by (cases "signal_A_position col pat")
  have a': "a = position_boost (position_of col pat)"
    using signal_A_boost[of col pat] a by simp
  obtain s sd where s: "signal_B_sibling_context (ts_classification_name ts) already = (s, sd)"
    by (cases "signal_B_sibling_context (ts_classification_name ts) already")
  have s': "s = sibling_boost (sibling_count (ts_classification_name ts) already)"
    using signal_B_boost[of "ts_classification_name ts" already] s by simp
  note v = verdict_sum[of "position_of col pat" "sibling_count (ts_classification_name ts) already",
      folded a' s']
  show ?thesis
    using v[of False] v[of True] b
    by (cases g; cases "tbl = []"; cases r)
      (auto simp: arbitrate_def g d a s table_rejects_def table_boosts_def Let_def
        split: if_splits)
qed

section \<open>One candidate\<close>

lemma candidate_fields [simp]:
  "cm_column_name (candidate col ts base r) = col"
  "cm_term_id (candidate col ts base r) = Some (ts_id ts)"
  "cm_classification_id (candidate col ts base r) = ts_classification_id ts"
  "cm_classification_name (candidate col ts base r) = ts_classification_name ts"
  "cm_term_name (candidate col ts base r) = Some (ts_name ts)"
  "cm_score (candidate col ts base r) = base"
  "cm_confidence (candidate col ts base r) = fst r"
  "cm_arb_score (candidate col ts base r) = fst (snd r)"
  "cm_use_conservative_policy (candidate col ts base r) \<longleftrightarrow> fst r = MEDIUM"
  by (simp_all add: candidate_def split: prod.splits)

lemma keep_best_cases: "keep_best ts best cand = best \<or> keep_best ts best cand = cand"
  by (simp add: keep_best_def)

lemma score_term_rejected: "table_rejects tbl ts \<Longrightarrow>
    fst (score_term col tbl ts already base pat) = REJECT"
proof -
  assume r: "table_rejects tbl ts"
  then have "ts_table_name_negative_patterns ts \<noteq> []"
    by (auto simp: table_rejects_def signal_D_table_context_def split: option.splits)
  with r show ?thesis
    by (auto simp: score_term_def arbitrate_eq table_rejects_def split: prod.splits)
qed

text \<open>What makes a candidate taggable: the term is not rejected by the table name, and a
  substring hit is not stopped by the negative guard.\<close>

definition admissible :: "string \<Rightarrow> string \<Rightarrow> term_spec \<Rightarrow> py_float \<Rightarrow> bool" where
  "admissible col tbl ts base \<longleftrightarrow> \<not> table_rejects tbl ts \<and> base = fst (base_score col (ts_patterns ts))
     \<and> (base < f0_9 \<longrightarrow> \<not> fst (signal_C_negative_guard col (ts_negative_patterns ts)))"

lemma score_term_taggable:
  assumes "fst (score_term col tbl ts already (fst bs) (snd bs)) \<in> {HIGH, MEDIUM}"
    and "bs = base_score col (ts_patterns ts)"
  shows "admissible col tbl ts (fst bs)"
proof -
  have "\<not> table_rejects tbl ts"
    using assms(1) score_term_rejected by fastforce
  moreover have "\<not> fst (signal_C_negative_guard col (ts_negative_patterns ts))" if "fst bs < f0_9"
    using that assms(1) by (auto simp: score_term_def arbitrate_eq split: if_splits)
  ultimately show ?thesis using assms(2) by (simp add: admissible_def)
qed

section \<open>Invariant of the scan of one column\<close>

definition match_ok ::
  "string \<Rightarrow> string \<Rightarrow> string \<Rightarrow> term_spec list \<Rightarrow> py_float \<Rightarrow> column_match \<Rightarrow> bool" where
  "match_ok col col_lower tbl specs threshold m \<longleftrightarrow>
     cm_column_name m = col \<and>
     (cm_use_conservative_policy m \<longleftrightarrow> cm_confidence m = MEDIUM) \<and>
     (taggable m \<longrightarrow> (\<exists>ts \<in> set specs. cm_term_id m = Some (ts_id ts) \<and>
        cm_classification_id m = ts_classification_id ts \<and>
        cm_classification_name m = ts_classification_name ts \<and>
        threshold \<le> cm_score m \<and> admissible col_lower tbl ts (cm_score m)))"

lemma match_ok_no_match [simp]: "match_ok col cl tbl specs th (no_match col)"
  by (simp add: match_ok_def no_match_def taggable_def)

lemma match_ok_mono:
  "match_ok col cl tbl specs th m \<Longrightarrow> set specs \<subseteq> set specs' \<Longrightarrow> match_ok col cl tbl specs' th m"
  unfolding match_ok_def by blast

lemma match_ok_candidate:
  assumes "ts \<in> set specs" and "base_score cl (ts_patterns ts) = (base, pat)" and "th \<le> base"
  shows "match_ok col cl tbl specs th
    (candidate col ts base (score_term cl tbl ts already base pat))" (is "match_ok _ _ _ _ _ ?c")
proof -
  have adm: "admissible cl tbl ts base" if "taggable ?c"
  proof -
    have "fst (score_term cl tbl ts already (fst (base, pat)) (snd (base, pat))) \<in> {HIGH, MEDIUM}"
      using that by (simp add: taggable_def)
    then have "admissible cl tbl ts (fst (base, pat))"
      using assms(2)[symmetric] by (rule score_term_taggable)
    then show ?thesis by simp
  qed
  have "taggable ?c \<longrightarrow> (\<exists>t \<in> set specs. cm_term_id ?c = Some (ts_id t) \<and>
      cm_classification_id ?c = ts_classification_id t \<and>
      cm_classification_name ?c = ts_classification_name t \<and>
      th \<le> cm_score ?c \<and> admissible cl tbl t (cm_score ?c))"
    by (intro impI bexI[OF _ assms(1)]) (simp only: candidate_fields assms(3) adm simp_thms)
  then show ?thesis unfolding match_ok_def by simp
qed

lemma scan_terms_ok:
  assumes "match_ok col cl tbl specs th best" and "set rest \<subseteq> set specs"
  shows "match_ok col cl tbl specs th (scan_terms col cl tbl already th best rest)"
  using assms
proof (induction rest arbitrary: best)
  case (Cons ts rest)
  obtain base pat where bs: "base_score cl (ts_patterns ts) = (base, pat)"
    by (cases "base_score cl (ts_patterns ts)")
  let ?cand = "candidate col ts base (score_term cl tbl ts already base pat)"
  have "match_ok col cl tbl specs th (keep_best ts best ?cand)" if "th \<le> base"
    using keep_best_cases[of ts best ?cand] match_ok_candidate[OF _ bs that, of specs col tbl already]
      Cons.prems by auto
  with Cons bs show ?case by (auto simp: not_less)
qed simp

lemma classify_loop_ok:
  "list_all2 (\<lambda>c m. match_ok c (norm_name c) tbl specs th m) cols
     (classify_loop cols specs th tbl already)"
proof (induction cols arbitrary: already)
  case (Cons c cols)
  show ?case by (simp add: Let_def Cons.IH scan_terms_ok)
qed simp

lemma classify_loop_take:
  "take n (classify_loop cols specs th tbl already) = classify_loop (take n cols) specs th tbl already"
proof (induction cols arbitrary: n already)
  case (Cons c cols)
  then show ?case by (cases n) (simp_all add: Let_def)
qed simp

section \<open>Properties\<close>

text \<open>
  Stage 1 agrees with the tiers of the documentation, in the order of the pattern
  list: a pattern equal to the column scores 1.0; failing that the first pattern found
  between word boundaries scores 0.9; failing that the first pattern contained in the
  column scores 0.7; otherwise the score is 0. Empty patterns never match.
\<close>

theorem base_score_tiers:
  "base_score col pats =
     (if col \<noteq> [] \<and> col \<in> set pats then (f1_0, col)
      else case List.find (\<lambda>q. q \<noteq> [] \<and> word_search q col) pats of
          Some q \<Rightarrow> (f0_9, q)
        | None \<Rightarrow>
           (case List.find (\<lambda>q. q \<noteq> [] \<and> contains q col) pats of
              Some q \<Rightarrow> (f0_7, q) | None \<Rightarrow> (0, [])))"
  by (simp add: base_score_def base_score_loop_eq not_le split: option.splits)

text \<open>
  C27: The arbitration of a substring hit, computed by the code in binary floating point
  against the thresholds 0.85 and 0.95, is the decision table \<open>decision\<close> over the
  position of the hit, the number of confirmed siblings and the table-name boost, unless
  the negative guard or the table name rejects. In particular the rounded sum
  0.7 + 0.15 still reaches 0.85.
\<close>

theorem arbitrate_decides:
  "fst (arbitrate col pat ts already tbl) =
     (if fst (signal_C_negative_guard col (ts_negative_patterns ts)) \<or> table_rejects tbl ts
      then REJECT
      else decision (position_of col pat) (sibling_count (ts_classification_name ts) already)
             (table_boosts tbl ts))"
  by (rule arbitrate_eq)

text \<open>
  C16: \<open>classify_columns\<close> returns one match per column, in column order; a match that will
  produce a tag comes from one of the terms, with that term's classification, a score not
  below the threshold, no rejection by the table name and, for a substring hit, none by
  the negative guard; and exactly the MEDIUM matches ask for the conservative policy.
\<close>

theorem classify_columns_sound:
  "list_all2 (\<lambda>c m. match_ok c (norm_name c) (norm_name table_name) specs th m) cols
     (classify_columns cols specs th table_name)"
  unfolding classify_columns_def by (rule classify_loop_ok)

text \<open>
  The classification of a column depends on the columns before it only: scanning a
  prefix of the column list gives the same matches for that prefix.
\<close>

theorem classify_columns_prefix:
  "take n (classify_columns cols specs th table_name) =
     classify_columns (take n cols) specs th table_name"
  unfolding classify_columns_def by (rule classify_loop_take)

section \<open>What the ranking and the early tier leave out\<close>

lemma arbitrate_arb_score:
  assumes "\<not> fst (signal_C_negative_guard col (ts_negative_patterns ts))" and "\<not> table_rejects tbl ts"
  shows "fst (snd (arbitrate col pat ts already tbl)) =
    fl_add (fl_add (fl_add f0_7 (position_boost (position_of col pat)))
      (sibling_boost (sibling_count (ts_classification_name ts) already)))
      (if table_boosts tbl ts then f0_20 else 0)"
proof -
  obtain r b d where d: "signal_D_table_context tbl ts = (r, b, d)"
    by (cases "signal_D_table_context tbl ts")
  have "b = (if b = f0_20 then f0_20 else 0)"
    using signal_D_boost_values[of tbl ts] d by auto
  with assms d show ?thesis
    by (auto simp: arbitrate_def table_rejects_def table_boosts_def Let_def
        signal_A_boost [symmetric] signal_B_boost [symmetric] split: prod.splits if_splits)
qed

lemma match_rank_sensitivity:
  "match_rank ts a < match_rank ts b \<longleftrightarrow>
     (conf_rank (cm_confidence a), cm_arb_score a) < (conf_rank (cm_confidence b), cm_arb_score b)"
  by (auto simp: match_rank_def)

lemma keep_best_any_term: "keep_best ts best cand = keep_best ts' best cand"
  by (simp add: keep_best_def match_rank_sensitivity)

definition with_sensitivity :: "(term_spec \<Rightarrow> string) \<Rightarrow> term_spec \<Rightarrow> term_spec" where
  "with_sensitivity f ts = ts\<lparr>ts_classification_sensitivity := f ts\<rparr>"

lemma with_sensitivity_fields [simp]:
  "ts_id (with_sensitivity f ts) = ts_id ts"
  "ts_name (with_sensitivity f ts) = ts_name ts"
  "ts_classification_id (with_sensitivity f ts) = ts_classification_id ts"
  "ts_classification_name (with_sensitivity f ts) = ts_classification_name ts"
  "ts_patterns (with_sensitivity f ts) = ts_patterns ts"
  "ts_negative_patterns (with_sensitivity f ts) = ts_negative_patterns ts"
  "ts_table_name_negative_patterns (with_sensitivity f ts) = ts_table_name_negative_patterns ts"
  "ts_table_name_positive_patterns (with_sensitivity f ts) = ts_table_name_positive_patterns ts"
  by (simp_all add: with_sensitivity_def)

lemma with_sensitivity_frame [simp]:
  "candidate col (with_sensitivity f ts) base r = candidate col ts base r"
  "score_term col tbl (with_sensitivity f ts) already base pat = score_term col tbl ts already base pat"
  unfolding candidate_def score_term_def arbitrate_def signal_D_table_context_def
    with_sensitivity_fields by (rule refl)+

lemma scan_terms_sensitivity:
  "scan_terms col cl tbl already th best (map (with_sensitivity f) specs) =
     scan_terms col cl tbl already th best specs"
proof (induction specs arbitrary: best)
  case (Cons ts specs)
  show ?case
    by (simp add: Cons.IH keep_best_any_term[of "with_sensitivity f ts" _ _ ts] split: prod.split)
qed simp

lemma classify_loop_sensitivity:
  "classify_loop cols (map (with_sensitivity f) specs) th tbl already =
     classify_loop cols specs th tbl already"
  by (induction cols arbitrary: already) (simp_all add: Let_def scan_terms_sensitivity)

lemma score_term_direct:
  "f0_9 \<le> base \<Longrightarrow> \<not> table_rejects tbl ts \<Longrightarrow>
     fst (score_term col tbl ts already base pat) = HIGH \<and>
     fst (snd (score_term col tbl ts already base pat)) = base"
  by (auto simp: score_term_def table_rejects_def split: prod.splits)

lemma keep_best_first_high:
  "cm_confidence cand = HIGH \<Longrightarrow> keep_best ts (no_match col) cand = cand"
  by (simp add: keep_best_def match_rank_def no_match_def)

text \<open>
  The sensitivity of a classification never influences the result. The ranking
  means to break ties by sensitivity, but it reads the sensitivity of the term being
  tried for both matches, so changing every term's sensitivity changes nothing.
\<close>

theorem classify_ignores_sensitivity:
  "classify_columns cols (map (with_sensitivity f) specs) th table_name =
     classify_columns cols specs th table_name"
  unfolding classify_columns_def by (rule classify_loop_sensitivity)

text \<open>
  The negative guard (signal C) only protects substring hits. A column that contains
  a pattern between word boundaries is classified HIGH whatever the negative patterns of
  the term are, even when the guard itself would reject the column.
\<close>

theorem negative_guard_bypassed:
  assumes "f0_9 \<le> fst (base_score (norm_name col) (ts_patterns ts))"
    and "\<not> table_rejects (norm_name table_name) ts" and "th \<le> f0_9"
    and "fst (signal_C_negative_guard (norm_name col) (ts_negative_patterns ts))"
  shows "map cm_confidence (classify_columns [col] [ts] th table_name) = [HIGH]"
proof -
  obtain b p where bp: "base_score (norm_name col) (ts_patterns ts) = (b, p)"
    by (cases "base_score (norm_name col) (ts_patterns ts)")
  with assms have "f0_9 \<le> b" and "\<not> b < th" by auto
  with bp score_term_direct[OF _ assms(2), of b "norm_name col" "[]" p] show ?thesis
    by (simp add: classify_columns_def Let_def keep_best_first_high)
qed

definition full_name_term :: term_spec where
  "full_name_term = \<lparr>ts_id = 1, ts_name = ''full_name'', ts_classification_id = Some 1,
     ts_classification_name = Some ''PII'', ts_classification_sensitivity = ''high'',
     ts_patterns = [''name''], ts_negative_patterns = [''company''],
     ts_table_name_negative_patterns = [], ts_table_name_positive_patterns = [''customer'']\<rparr>"

lemma company_name_scores:
  "norm_name ''company_name'' = ''company_name''" "norm_name ''accounts'' = ''accounts''"
  "base_score ''company_name'' [''name''] = (f0_9, ''name'')"
  "fst (signal_C_negative_guard ''company_name'' [''company''])"
  by (simp_all add: norm_name_def base_score_def string_eval)

theorem negative_guard_bypassed_witness:
  "map cm_confidence (classify_columns [''company_name''] [full_name_term] f0_7 ''accounts'') = [HIGH]"
  using negative_guard_bypassed[of "''company_name''" full_name_term "''accounts''" f0_7]
  by (simp add: company_name_scores full_name_term_def table_rejects_def
      signal_D_table_context_def string_eval order_less_imp_le)

text \<open>
  An exact match can lose to a substring match of a later term: the ranking compares
  the arbitration score, which for a prefix hit in a boosted table is 0.7 + 0.15 + 0.20,
  above the 1.0 of an exact match. The column is then tagged with the later term and its
  recorded score is 0.7.
\<close>

theorem substring_displaces_exact:
  assumes "base_score (norm_name col) (ts_patterns ts1) = (f1_0, p1)"
    and "base_score (norm_name col) (ts_patterns ts2) = (f0_7, p2)"
    and "startswith (norm_name col) p2" and "table_boosts (norm_name table_name) ts2"
    and "\<not> table_rejects (norm_name table_name) ts1" and "\<not> table_rejects (norm_name table_name) ts2"
    and "\<not> fst (signal_C_negative_guard (norm_name col) (ts_negative_patterns ts2))"
  shows "map (\<lambda>m. (cm_term_id m, cm_score m, cm_confidence m))
    (classify_columns [col] [ts1, ts2] f0_7 table_name) = [(Some (ts_id ts2), f0_7, HIGH)]"
proof -
  let ?cl = "norm_name col" and ?tbl = "norm_name table_name"
  let ?c1 = "candidate col ts1 f1_0 (score_term ?cl ?tbl ts1 [] f1_0 p1)"
  let ?c2 = "candidate col ts2 f0_7 (score_term ?cl ?tbl ts2 [] f0_7 p2)"
  have st2: "score_term ?cl ?tbl ts2 [] f0_7 p2 = arbitrate ?cl p2 ts2 [] ?tbl"
    by (simp add: score_term_def)
  have pos: "position_of ?cl p2 = At_start" using assms(3) by (simp add: position_of_def)
  have n: "sibling_count (ts_classification_name ts2) [] = 0"
    by (simp add: sibling_count_def confirmed_siblings_def split: option.splits)
  have hi: "cm_confidence ?c2 = HIGH"
    using assms(4,6,7) by (simp add: st2 arbitrate_eq pos decision_def)
  have "cm_arb_score ?c2 = fl_add (fl_add (fl_add f0_7 f0_15) 0) f0_20"
    using assms(4,6,7)
    by (simp add: st2 arbitrate_arb_score pos n position_boost_def sibling_boost_def)
  then have arb: "f1_0 < cm_arb_score ?c2" by (simp add: py_simps float_eval)
  have c1: "cm_confidence ?c1 = HIGH" "cm_arb_score ?c1 = f1_0"
    using score_term_direct[OF _ assms(5), of f1_0 ?cl "[]" p1] by simp_all
  have "keep_best ts2 ?c1 ?c2 = ?c2"
    using hi arb c1 by (simp add: keep_best_def match_rank_def)
  with assms(1,2) c1 hi show ?thesis
    by (simp add: classify_columns_def Let_def keep_best_first_high order_less_imp_le not_less
        order.strict_trans[OF score_order(1,2)])
qed

definition name_id_term :: term_spec where
  "name_id_term = full_name_term\<lparr>ts_id := 7, ts_name := ''name_id'', ts_patterns := [''nameid'']\<rparr>"

theorem substring_displaces_exact_witness:
  "map (\<lambda>m. (cm_term_id m, cm_score m, cm_confidence m))
    (classify_columns [''nameid''] [name_id_term, full_name_term] f0_7 ''customers'') =
      [(Some 1, f0_7, HIGH)]"
proof -
  have n: "norm_name ''nameid'' = ''nameid''" "norm_name ''customers'' = ''customers''"
    by (simp_all add: norm_name_def string_eval)
  have b: "base_score ''nameid'' [''nameid''] = (f1_0, ''nameid'')"
    "base_score ''nameid'' [''name''] = (f0_7, ''name'')"
    by (simp_all add: base_score_def string_eval)
  have d: "signal_D_table_context ''customers'' full_name_term =
      (False, f0_20, D_table_boost_edge ''customers'' ''customer'')"
    "signal_D_table_context ''customers'' name_id_term =
      (False, f0_20, D_table_boost_edge ''customers'' ''customer'')"
    by (simp_all add: signal_D_table_context_def full_name_term_def name_id_term_def string_eval)
  have c: "\<not> fst (signal_C_negative_guard ''nameid'' [''company''])"
    by (simp add: string_eval)
  have f: "ts_patterns name_id_term = [''nameid'']" "ts_patterns full_name_term = [''name'']"
    "ts_negative_patterns full_name_term = [''company'']" "ts_id full_name_term = 1"
    by (simp_all add: name_id_term_def full_name_term_def)
  show ?thesis
    using substring_displaces_exact[of "''nameid''" name_id_term "''nameid''" full_name_term "''name''"
        "''customers''"]
    by (simp add: n b c d f table_boosts_def table_rejects_def startswith_def
        del: signal_C_negative_guard.simps)
qed

end
