(* ===== verification/Column_Tags.thy ===== *)
theory Column_Tags
  imports Classifier Demo_State "HOL-Library.Char_ord" "HOL-Library.List_Lexorder"
begin

text \<open>
  The column tags, \<^verbatim>\<open>catalog/routers/columns.py\<close>: manual tags, and the scan that writes
  what the classifier found. The column \<^verbatim>\<open>detection_score\<close> is \<^verbatim>\<open>Numeric(3,2)\<close>; the scores
  the classifier gives (0.7, 0.9, 1.0) fit it, so the row keeps the score as it is.
\<close>

section \<open>Reading tags\<close>

record column_tag_out = column_tag +
  cto_glossary_term_name :: "string option"
  cto_classification_name :: "string option"

definition enrich_tag :: "catalog \<Rightarrow> column_tag \<Rightarrow> column_tag_out" where
  "enrich_tag db t = column_tag.extend t
     \<lparr>cto_glossary_term_name = (case ct_glossary_term_id t of None \<Rightarrow> None
        | Some i \<Rightarrow> map_option gt_name (session_get gt_id i (glossary_terms db))),
      cto_classification_name = (case ct_classification_id t of None \<Rightarrow> None
        | Some i \<Rightarrow> map_option cls_name (session_get cls_id i (classifications db)))\<rparr>"

definition opt_filter :: "string option \<Rightarrow> string \<Rightarrow> bool" where
  "opt_filter q s = (case q of None \<Rightarrow> True | Some v \<Rightarrow> v = [] \<or> s = v)"

definition list_column_tags :: "catalog \<Rightarrow> string option \<Rightarrow> string option \<Rightarrow> column_tag_out list" where
  "list_column_tags db database tbl = map (enrich_tag db) (sort_key ct_key
     (filter (\<lambda>t. opt_filter database (ct_database t) \<and> opt_filter tbl (ct_table t))
       (tbl_rows (column_tags db))))"

definition find_tag :: "catalog \<Rightarrow> string \<Rightarrow> string \<Rightarrow> string \<Rightarrow> column_tag option res" where
  "find_tag db d t c = scalar_one_or_none (\<lambda>x. ct_key x = (d, t, c)) (column_tags db)"

definition no_tag :: "string \<Rightarrow> string \<Rightarrow> string \<Rightarrow> http_error" where
  "no_tag d t c = HTTPException 404 (''No tag for '' @ d @ ''.'' @ t @ ''.'' @ c)"

definition get_column_tag :: "catalog \<Rightarrow> string \<Rightarrow> string \<Rightarrow> string \<Rightarrow> column_tag_out res" where
  "get_column_tag db d t c = (case find_tag db d t c of
     Inl err \<Rightarrow> Inl err
   | Inr None \<Rightarrow> Inl (no_tag d t c)
   | Inr (Some x) \<Rightarrow> Inr (enrich_tag db x))"

section \<open>Manual tags\<close>

definition promote_tag :: "column_tag_create \<Rightarrow> column_tag \<Rightarrow> column_tag" where
  "promote_tag b t = t\<lparr>ct_glossary_term_id := tc_glossary_term_id b,
     ct_classification_id := tc_classification_id b, ct_auto_detected := False,
     ct_override_reason := tc_override_reason b\<rparr>"

definition manual_tag :: "column_tag_create \<Rightarrow> int \<Rightarrow> column_tag" where
  "manual_tag b i = \<lparr>ct_id = i, ct_database = tc_database b, ct_table = tc_table b,
     ct_column = tc_column b, ct_glossary_term_id = tc_glossary_term_id b,
     ct_classification_id = tc_classification_id b, ct_auto_detected = False,
     ct_detection_score = None, ct_override_reason = tc_override_reason b\<rparr>"

definition already_tagged_error :: "column_tag_create \<Rightarrow> http_error" where
  "already_tagged_error b = HTTPException 409 (''Column '' @ tc_database b @ ''.'' @ tc_table b @ ''.'' @
     tc_column b @ '' is already manually tagged. Use PATCH to update.'')"

text \<open>Flush, refresh, invalidate, answer with the enriched row, commit.\<close>

definition save_tag :: "column_tag \<Rightarrow> column_tag tbl \<Rightarrow> world \<Rightarrow> column_tag_out res \<times> world" where
  "save_tag x t w = (case db_flush (w_db w\<lparr>column_tags := t\<rparr>) of
     Inl err \<Rightarrow> (Inl err, w)
   | Inr db1 \<Rightarrow> commit db1 (enrich_tag db1 x) (invalidate column_tag_prefix w))"

definition create_column_tag :: "column_tag_create \<Rightarrow> world \<Rightarrow> column_tag_out res \<times> world" where
  "create_column_tag b w =
     (case find_tag (w_db w) (tc_database b) (tc_table b) (tc_column b) of
        Inl err \<Rightarrow> (Inl err, w)
      | Inr (Some x) \<Rightarrow>
         if ct_auto_detected x
         then save_tag (promote_tag b x) (tbl_replace ct_id (promote_tag b x) (column_tags (w_db w))) w
         else (Inl (already_tagged_error b), w)
      | Inr None \<Rightarrow>
         (let (x, t) = tbl_insert (manual_tag b) (column_tags (w_db w)) in save_tag x t w))"

definition delete_column_tag :: "string \<Rightarrow> string \<Rightarrow> string \<Rightarrow> world \<Rightarrow> string res \<times> world" where
  "delete_column_tag d t c w = (case find_tag (w_db w) d t c of
     Inl err \<Rightarrow> (Inl err, w)
   | Inr None \<Rightarrow> (Inl (no_tag d t c), w)
   | Inr (Some x) \<Rightarrow>
      commit (w_db w\<lparr>column_tags := tbl_delete ct_id (ct_id x) (column_tags (w_db w))\<rparr>)
        (''Tag for '' @ d @ ''.'' @ t @ ''.'' @ c @ '' removed'') (invalidate column_tag_prefix w))"

text \<open>
  The default policy of a classification, as \<^verbatim>\<open>_get_class_default_policy_id\<close> looks it up:
  ordered by ascending priority. Nothing calls it.
\<close>

definition get_class_default_policy_id :: "catalog \<Rightarrow> int option \<Rightarrow> int option" where
  "get_class_default_policy_id db cid = (case cid of None \<Rightarrow> None
   | Some c \<Rightarrow> (case sort_key mp_priority (filter (\<lambda>p. mp_classification_id p = Some c \<and>
        mp_glossary_term_id p = None \<and> mp_enabled p) (tbl_rows (masking_policies db))) of
        [] \<Rightarrow> None | p # _ \<Rightarrow> Some (mp_id p)))"

section \<open>The scan\<close>

record scan_column_result =
  sc_column_name :: string
  sc_matched_term :: "string option"
  sc_matched_classification :: "string option"
  sc_score :: py_float
  sc_confidence :: confidence
  sc_arb_score :: py_float
  sc_arb_signals :: "arb_signal list"
  sc_use_conservative_policy :: bool
  sc_action :: string

record scan_table_result =
  st_table :: string
  st_columns_scanned :: nat
  st_columns_tagged :: nat
  st_results :: "scan_column_result list"

definition scan_result :: "column_match \<Rightarrow> bool \<Rightarrow> string \<Rightarrow> scan_column_result" where
  "scan_result m conservative action = \<lparr>sc_column_name = cm_column_name m,
     sc_matched_term = cm_term_name m, sc_matched_classification = cm_classification_name m,
     sc_score = py_round (cm_score m) 2, sc_confidence = cm_confidence m,
     sc_arb_score = py_round (cm_arb_score m) 3, sc_arb_signals = cm_arb_signals m,
     sc_use_conservative_policy = conservative, sc_action = action\<rparr>"

definition tag_term_id :: "column_match \<Rightarrow> int option" where
  "tag_term_id m = (if cm_confidence m = MEDIUM then None else cm_term_id m)"

definition action_label :: "column_match \<Rightarrow> string" where
  "action_label m = (if cm_confidence m = MEDIUM then ''tagged_conservative'' else ''tagged'')"

definition auto_tag :: "scan_request \<Rightarrow> string \<Rightarrow> column_match \<Rightarrow> int \<Rightarrow> column_tag" where
  "auto_tag b tbl m i = \<lparr>ct_id = i, ct_database = sr_database b, ct_table = tbl,
     ct_column = cm_column_name m, ct_glossary_term_id = tag_term_id m,
     ct_classification_id = cm_classification_id m, ct_auto_detected = True,
     ct_detection_score = Some (cm_score m), ct_override_reason = None\<rparr>"

definition retag :: "column_match \<Rightarrow> column_tag \<Rightarrow> column_tag" where
  "retag m t = t\<lparr>ct_glossary_term_id := tag_term_id m,
     ct_classification_id := cm_classification_id m, ct_detection_score := Some (cm_score m)\<rparr>"

definition persist_tag :: "scan_request \<Rightarrow> string \<Rightarrow> column_match \<Rightarrow> world \<Rightarrow> string res \<times> world" where
  "persist_tag b tbl m w =
     (case find_tag (w_db w) (sr_database b) tbl (cm_column_name m) of
        Inl err \<Rightarrow> (Inl err, w)
      | Inr (Some x) \<Rightarrow>
         if \<not> ct_auto_detected x then commit (w_db w) ''skipped'' w
         else if sr_overwrite_existing b
         then commit (w_db w\<lparr>column_tags := tbl_replace ct_id (retag m x) (column_tags (w_db w))\<rparr>)
                (action_label m) w
         else commit (w_db w) ''skipped'' w
      | Inr None \<Rightarrow>
         commit (w_db w\<lparr>column_tags := snd (tbl_insert (auto_tag b tbl m) (column_tags (w_db w)))\<rparr>)
           (action_label m) w)"

definition scan_column :: "scan_request \<Rightarrow> string \<Rightarrow> column_match \<Rightarrow> world \<Rightarrow> scan_column_result res \<times> world" where
  "scan_column b tbl m w =
     (if cm_confidence m = REJECT then (Inr (scan_result m False ''rejected''), w)
      else if cm_confidence m = LOW \<or> cm_term_id m = None
      then (Inr (scan_result m False ''skipped''), w)
      else if sr_dry_run b
      then (Inr (scan_result m (cm_use_conservative_policy m) ''dry_run''), w)
      else case persist_tag b tbl m w of
        (Inl err, w1) \<Rightarrow> (Inl err, w1)
      | (Inr action, w1) \<Rightarrow>
         (Inr (scan_result m (cm_use_conservative_policy m) action),
          if action \<noteq> ''skipped'' then invalidate column_tag_prefix w1 else w1))"

fun scan_matches ::
  "scan_request \<Rightarrow> string \<Rightarrow> column_match list \<Rightarrow> world \<Rightarrow> scan_column_result list res \<times> world" where
  "scan_matches b tbl [] w = (Inr [], w)"
| "scan_matches b tbl (m # ms) w =
     (case scan_column b tbl m w of
        (Inl err, w1) \<Rightarrow> (Inl err, w1)
      | (Inr r, w1) \<Rightarrow>
         (case scan_matches b tbl ms w1 of
            (Inl err, w2) \<Rightarrow> (Inl err, w2)
          | (Inr rs, w2) \<Rightarrow> (Inr (r # rs), w2)))"

definition persisted :: "scan_column_result \<Rightarrow> bool" where
  "persisted r = (sc_action r \<in> {''tagged'', ''tagged_conservative''})"

fun scan_tables ::
  "scan_request \<Rightarrow> (string \<times> column_match list) list \<Rightarrow> world \<Rightarrow> scan_table_result list res \<times> world" where
  "scan_tables b [] w = (Inr [], w)"
| "scan_tables b ((tbl, ms) # rest) w =
     (case scan_matches b tbl ms w of
        (Inl err, w1) \<Rightarrow> (Inl err, w1)
      | (Inr rs, w1) \<Rightarrow>
         (case scan_tables b rest w1 of
            (Inl err, w2) \<Rightarrow> (Inl err, w2)
          | (Inr ts, w2) \<Rightarrow>
             (Inr (\<lparr>st_table = tbl, st_columns_scanned = length ms,
                st_columns_tagged = length (filter persisted rs), st_results = rs\<rparr> # ts), w2)))"

definition tables_matches ::
  "ext \<Rightarrow> settings \<Rightarrow> scan_request \<Rightarrow> world \<Rightarrow> string + (string \<times> column_match list) list" where
  "tables_matches e st b w =
     (let specs = load_term_specs (w_db w); threshold = auto_classify_threshold st in
      case sr_table b of
        None \<Rightarrow> scan_database e st specs threshold (w_sd w) (sr_database b)
      | Some t \<Rightarrow>
         if t = [] then scan_database e st specs threshold (w_sd w) (sr_database b)
         else (case scan_table e specs threshold (w_sd w) (sr_database b) t of
            Inl exc \<Rightarrow> Inl exc | Inr ms \<Rightarrow> Inr [(t, ms)]))"

definition scan_columns ::
  "ext \<Rightarrow> settings \<Rightarrow> scan_request \<Rightarrow> world \<Rightarrow> scan_table_result list res \<times> world" where
  "scan_columns e st b w = (case tables_matches e st b w of
     Inl exc \<Rightarrow> (Inl internal_error, w)
   | Inr tms \<Rightarrow> scan_tables b tms w)"

section \<open>Facts on one write\<close>

lemma find_tag_ok: "schema_ok db \<Longrightarrow> find_tag db d t c = Inr (find_key ct_key (d, t, c) (column_tags db))"
  unfolding find_tag_def by (rule scalar_one_by_key[OF schema_okD(5)])

text \<open>What a scan may do to the catalog: it keeps every manual tag and makes none.\<close>

definition scan_frame :: "catalog \<Rightarrow> catalog \<Rightarrow> bool" where
  "scan_frame db db' \<longleftrightarrow> schema_ok db' \<and> db' = db\<lparr>column_tags := column_tags db'\<rparr> \<and>
     filter (\<lambda>t. \<not> ct_auto_detected t) (tbl_rows (column_tags db')) =
       filter (\<lambda>t. \<not> ct_auto_detected t) (tbl_rows (column_tags db)) \<and>
     ct_key ` set (tbl_rows (column_tags db)) \<subseteq> ct_key ` set (tbl_rows (column_tags db'))"

lemma scan_frame_refl: "schema_ok db \<Longrightarrow> scan_frame db db"
  by (simp add: scan_frame_def)

lemma scan_frame_trans: "scan_frame db db1 \<Longrightarrow> scan_frame db1 db2 \<Longrightarrow> scan_frame db db2"
  unfolding scan_frame_def by (metis (no_types, lifting) catalog.update_convs(5) catalog.surjective subset_trans)

lemma schema_ok_tags:
  "schema_ok db \<Longrightarrow> schema_ok (db\<lparr>column_tags := t\<rparr>) \<longleftrightarrow> tags_ok (db\<lparr>column_tags := t\<rparr>)"
  by (auto simp: schema_ok_def terms_ok_def policies_ok_def exceptions_ok_def)

lemma auto_rows_replace:
  assumes "tbl_ok ct_id ct_key t" and "x \<in> set (tbl_rows t)" and "ct_auto_detected x"
    and "ct_id x' = ct_id x" and "ct_auto_detected x'" and "ct_key x' = ct_key x"
  shows "filter (\<lambda>t. \<not> ct_auto_detected t) (tbl_rows (tbl_replace ct_id x' t)) =
      filter (\<lambda>t. \<not> ct_auto_detected t) (tbl_rows t)"
    and "ct_key ` set (tbl_rows (tbl_replace ct_id x' t)) = ct_key ` set (tbl_rows t)"
proof -
  have same: "y = x" if "y \<in> set (tbl_rows t)" "ct_id y = ct_id x" for y
    using assms(1,2) that by (auto simp: tbl_ok_def dest: distinct_map_inj_eq)
  then have keep: "filter (\<lambda>t. \<not> ct_auto_detected t) (map (\<lambda>y. if ct_id y = ct_id x' then x' else y) ys) =
      filter (\<lambda>t. \<not> ct_auto_detected t) ys" if "set ys \<subseteq> set (tbl_rows t)" for ys
    using that assms(3-5) by (induction ys) auto
  then show "filter (\<lambda>t. \<not> ct_auto_detected t) (tbl_rows (tbl_replace ct_id x' t)) =
      filter (\<lambda>t. \<not> ct_auto_detected t) (tbl_rows t)" by (simp add: row_simps)
  have "map ct_key (tbl_rows (tbl_replace ct_id x' t)) = map ct_key (tbl_rows t)"
    using map_replace_key[of ct_id "tbl_rows t" x x' ct_key] assms by (simp add: tbl_ok_def row_simps)
  then show "ct_key ` set (tbl_rows (tbl_replace ct_id x' t)) = ct_key ` set (tbl_rows t)"
    by (metis list.set_map)
qed

lemma persist_tag_cases:
  assumes "schema_ok (w_db w)" and "persist_tag b tbl m w = (res, w')"
  obtains (failed) err where "res = Inl err" "w' = w"
    | (kept) "res = Inr ''skipped''" "w' = w"
      "(sr_database b, tbl, cm_column_name m) \<in> ct_key ` set (tbl_rows (column_tags (w_db w)))"
    | (written) "res = Inr (action_label m)" "w' = w\<lparr>w_db := w_db w'\<rparr>" "scan_frame (w_db w) (w_db w')"
      "(sr_database b, tbl, cm_column_name m) \<in> ct_key ` set (tbl_rows (column_tags (w_db w')))"
proof -
  let ?k = "(sr_database b, tbl, cm_column_name m)"
  note t = schema_okD(5)[OF assms(1)]
  show thesis
  proof (cases "find_key ct_key ?k (column_tags (w_db w))")
    case None
    let ?t = "snd (tbl_insert (auto_tag b tbl m) (column_tags (w_db w)))"
    let ?db = "(w_db w)\<lparr>column_tags := ?t\<rparr>"
    have p: "(res, w') = commit ?db (action_label m) w"
      using assms None by (simp add: persist_tag_def find_tag_ok)
    show thesis
    proof (cases "schema_ok ?db")
      case True
      have "scan_frame (w_db w) ?db" using True by (auto simp: scan_frame_def row_simps auto_tag_def)
      with True p show thesis
        by (intro written) (auto simp: row_simps auto_tag_def ct_key_def)
    next
      case False
      with p show thesis by (intro failed) (auto simp: commit_def db_flush_def)
    qed
  next
    case (Some x)
    then have x: "x \<in> set (tbl_rows (column_tags (w_db w)))" "ct_key x = ?k"
      using find_key_Some_D by fastforce+
    then have mem: "?k \<in> ct_key ` set (tbl_rows (column_tags (w_db w)))" by (metis image_eqI)
    show thesis
    proof (cases "ct_auto_detected x \<and> sr_overwrite_existing b")
      case False
      then have "(res, w') = (Inr ''skipped'', w)"
        using assms Some by (auto simp: persist_tag_def find_tag_ok split: if_splits)
      with mem show thesis by (intro kept) auto
    next
      case True
      let ?t = "tbl_replace ct_id (retag m x) (column_tags (w_db w))"
      let ?db = "(w_db w)\<lparr>column_tags := ?t\<rparr>"
      have p: "(res, w') = commit ?db (action_label m) w"
        using assms Some True by (simp add: persist_tag_def find_tag_ok)
      have r: "ct_id (retag m x) = ct_id x" "ct_auto_detected (retag m x)" "ct_key (retag m x) = ct_key x"
        using True by (simp_all add: retag_def ct_key_def)
      note rows = auto_rows_replace[OF t x(1) _ r]
      show thesis
      proof (cases "schema_ok ?db")
        case ok: True
        have "scan_frame (w_db w) ?db" using ok rows True by (simp add: scan_frame_def)
        moreover have "?k \<in> ct_key ` set (tbl_rows ?t)" using rows(2) True x by (metis image_eqI)
        ultimately show thesis using ok p by (intro written) auto
      next
        case False
        with p show thesis by (intro failed) (auto simp: commit_def db_flush_def)
      qed
    qed
  qed
qed

lemma scan_column_frame:
  assumes "schema_ok (w_db w)" and "scan_column b tbl m w = (res, w')"
  shows "scan_frame (w_db w) (w_db w') \<and> w_sd w' = w_sd w \<and> (sr_dry_run b \<longrightarrow> w' = w) \<and>
    (is_ok res \<longrightarrow> \<not> sr_dry_run b \<longrightarrow> taggable m \<longrightarrow> cm_term_id m \<noteq> None \<longrightarrow>
       (sr_database b, tbl, cm_column_name m) \<in> ct_key ` set (tbl_rows (column_tags (w_db w'))))"
proof (cases "cm_confidence m = REJECT \<or> cm_confidence m = LOW \<or> cm_term_id m = None \<or> sr_dry_run b")
  case True
  then have "w' = w" using assms(2) by (auto simp: scan_column_def split: if_splits)
  with True assms(1) show ?thesis by (auto simp: scan_frame_refl taggable_def)
next
  case False
  obtain r w1 where p: "persist_tag b tbl m w = (r, w1)" by (cases "persist_tag b tbl m w")
  have res: "(res, w') = (case r of Inl err \<Rightarrow> (Inl err, w1)
      | Inr action \<Rightarrow> (Inr (scan_result m (cm_use_conservative_policy m) action),
          if action \<noteq> ''skipped'' then invalidate column_tag_prefix w1 else w1))"
    using assms(2) False p by (cases r) (auto simp: scan_column_def)
  from assms(1) p show ?thesis
  proof (cases rule: persist_tag_cases)
    case failed
    then show ?thesis using res assms(1) False by (simp add: scan_frame_refl)
  next
    case kept
    then show ?thesis using res assms(1) False by (simp add: scan_frame_refl)
  next
    case written
    have "w_sd w1 = w_sd w" using written(2) by (metis world.select_convs(3) world.surjective world.update_convs(1))
    moreover have "w_db w' = w_db w1" "w_sd w' = w_sd w1"
      using res written(1) by (auto simp: frame_simps split: if_splits)
    ultimately show ?thesis using written(3,4) False by simp
  qed
qed

lemma scan_frame_ok: "scan_frame db db' \<Longrightarrow> schema_ok db'"
  by (simp add: scan_frame_def)

lemma scan_frame_keys:
  "scan_frame db db' \<Longrightarrow> k \<in> ct_key ` set (tbl_rows (column_tags db)) \<Longrightarrow>
     k \<in> ct_key ` set (tbl_rows (column_tags db'))"
  by (auto simp: scan_frame_def)

text \<open>The tags a scan of these matches leaves behind.\<close>

definition covered :: "scan_request \<Rightarrow> string \<Rightarrow> column_match list \<Rightarrow> catalog \<Rightarrow> bool" where
  "covered b tbl ms db \<longleftrightarrow> (\<forall>m \<in> set ms. taggable m \<longrightarrow> cm_term_id m \<noteq> None \<longrightarrow>
     (sr_database b, tbl, cm_column_name m) \<in> ct_key ` set (tbl_rows (column_tags db)))"

lemma covered_mono: "scan_frame db db' \<Longrightarrow> covered b tbl ms db \<Longrightarrow> covered b tbl ms db'"
  unfolding covered_def using scan_frame_keys by blast

lemma scan_matches_frame:
  assumes "schema_ok (w_db w)" and "scan_matches b tbl ms w = (res, w')"
  shows "scan_frame (w_db w) (w_db w') \<and> w_sd w' = w_sd w \<and> (sr_dry_run b \<longrightarrow> w' = w) \<and>
    (is_ok res \<longrightarrow> \<not> sr_dry_run b \<longrightarrow> covered b tbl ms (w_db w'))"
  using assms
proof (induction ms arbitrary: w res w')
  case Nil
  then show ?case by (auto simp: scan_frame_refl covered_def)
next
  case (Cons m ms)
  obtain r w1 where r: "scan_column b tbl m w = (r, w1)" by (cases "scan_column b tbl m w")
  note step = scan_column_frame[OF Cons.prems(1) r]
  have ok1: "schema_ok (w_db w1)" using step scan_frame_ok by blast
  obtain rs w2 where rs: "scan_matches b tbl ms w1 = (rs, w2)" by (cases "scan_matches b tbl ms w1")
  note rest = Cons.IH[OF ok1 rs]
  show ?case
  proof (cases r)
    case (Inl err)
    with Cons.prems(2) r step show ?thesis by auto
  next
    case (Inr x)
    have w': "w' = w2" and ok: "is_ok res \<longleftrightarrow> is_ok rs"
      using Cons.prems(2) r rs Inr by (auto split: sum.splits)
    have "covered b tbl (m # ms) (w_db w2)" if "is_ok rs" "\<not> sr_dry_run b"
      using rest that step scan_frame_keys[of "w_db w1" "w_db w2"] Inr unfolding covered_def by auto
    then show ?thesis
      using step rest scan_frame_trans[of "w_db w" "w_db w1" "w_db w2"] unfolding w' ok by simp
  qed
qed

lemma scan_tables_frame:
  assumes "schema_ok (w_db w)" and "scan_tables b tms w = (res, w')"
  shows "scan_frame (w_db w) (w_db w') \<and> w_sd w' = w_sd w \<and> (sr_dry_run b \<longrightarrow> w' = w) \<and>
    (is_ok res \<longrightarrow> \<not> sr_dry_run b \<longrightarrow> (\<forall>(tbl, ms) \<in> set tms. covered b tbl ms (w_db w')))"
  using assms
proof (induction tms arbitrary: w res w')
  case Nil
  then show ?case by (auto simp: scan_frame_refl)
next
  case (Cons tm tms)
  obtain tbl ms where tm: "tm = (tbl, ms)" by (cases tm)
  obtain r w1 where r: "scan_matches b tbl ms w = (r, w1)" by (cases "scan_matches b tbl ms w")
  note step = scan_matches_frame[OF Cons.prems(1) r]
  have ok1: "schema_ok (w_db w1)" using step scan_frame_ok by blast
  obtain rs w2 where rs: "scan_tables b tms w1 = (rs, w2)" by (cases "scan_tables b tms w1")
  note rest = Cons.IH[OF ok1 rs]
  show ?case
  proof (cases r)
    case (Inl err)
    with Cons.prems(2) r step tm show ?thesis by auto
  next
    case (Inr x)
    have w': "w' = w2" and ok: "is_ok res \<longleftrightarrow> is_ok rs"
      using Cons.prems(2) r rs Inr tm by (auto split: sum.splits)
    have "covered b tbl ms (w_db w2)" if "is_ok rs" "\<not> sr_dry_run b"
      using rest that step covered_mono[of "w_db w1" "w_db w2"] Inr by auto
    then show ?thesis
      using step rest scan_frame_trans[of "w_db w" "w_db w1" "w_db w2"] unfolding w' ok tm by simp
  qed
qed

text \<open>A second scan without \<^verbatim>\<open>overwrite_existing\<close> finds a tag wherever it would write one.\<close>

lemma scan_matches_covered:
  assumes "schema_ok (w_db w)" and "covered b tbl ms (w_db w)" and "\<not> sr_overwrite_existing b"
  shows "\<exists>rs. scan_matches b tbl ms w = (Inr rs, w) \<and> \<not> list_ex persisted rs"
  using assms(2)
proof (induction ms)
  case (Cons m ms)
  have "\<exists>r. scan_column b tbl m w = (Inr r, w) \<and> \<not> persisted r"
  proof (cases "cm_confidence m = REJECT \<or> cm_confidence m = LOW \<or> cm_term_id m = None \<or> sr_dry_run b")
    case True
    then show ?thesis by (auto simp: scan_column_def scan_result_def persisted_def)
  next
    case False
    then have "taggable m" by (cases "cm_confidence m") (auto simp: taggable_def)
    then have "find_key ct_key (sr_database b, tbl, cm_column_name m) (column_tags (w_db w)) \<noteq> None"
      using Cons.prems False by (auto simp: covered_def find_key_None_iff)
    then have "persist_tag b tbl m w = (Inr ''skipped'', w)"
      using assms(1,3) by (auto simp: persist_tag_def find_tag_ok)
    with False show ?thesis by (simp add: scan_column_def scan_result_def persisted_def)
  qed
  moreover have "\<exists>rs. scan_matches b tbl ms w = (Inr rs, w) \<and> \<not> list_ex persisted rs"
    using Cons by (simp add: covered_def)
  ultimately show ?case by auto
qed simp

lemma scan_tables_covered:
  assumes "schema_ok (w_db w)" and "\<not> sr_overwrite_existing b"
    and "\<forall>(tbl, ms) \<in> set tms. covered b tbl ms (w_db w)"
  shows "\<exists>ts. scan_tables b tms w = (Inr ts, w) \<and> (\<forall>t \<in> set ts. st_columns_tagged t = 0)"
  using assms(3)
proof (induction tms)
  case (Cons tm tms)
  obtain tbl ms where tm: "tm = (tbl, ms)" by (cases tm)
  obtain rs where rs: "scan_matches b tbl ms w = (Inr rs, w)" "\<not> list_ex persisted rs"
    using scan_matches_covered[OF assms(1) _ assms(2)] Cons.prems tm by fastforce
  then have "filter persisted rs = []" by (simp add: filter_empty_conv list_ex_iff)
  with rs Cons tm show ?case by auto
qed simp

lemma tables_matches_same:
  assumes "scan_frame (w_db w) (w_db w')" and "w_sd w' = w_sd w"
  shows "tables_matches e st b w' = tables_matches e st b w"
proof -
  have same: "glossary_terms (w_db w') = glossary_terms (w_db w)"
    "classifications (w_db w') = classifications (w_db w)"
    using assms(1) unfolding scan_frame_def
    by (metis catalog.select_convs(1,2) catalog.surjective catalog.update_convs(5))+
  have "load_term_specs (w_db w') = load_term_specs (w_db w)"
    unfolding load_term_specs_def same ..
  then show ?thesis using assms(2) by (simp add: tables_matches_def Let_def split: option.split)
qed

section \<open>Outcomes of the tag handlers\<close>

definition tag_target_ok :: "catalog \<Rightarrow> column_tag_create \<Rightarrow> bool" where
  "tag_target_ok db b \<longleftrightarrow> fk_opt gt_id (glossary_terms db) (tc_glossary_term_id b) \<and>
     fk_opt cls_id (classifications db) (tc_classification_id b)"

abbreviation tag_request_key :: "column_tag_create \<Rightarrow> string \<times> string \<times> string" where
  "tag_request_key b \<equiv> (tc_database b, tc_table b, tc_column b)"

lemma save_tag_ok: "schema_ok (w_db w\<lparr>column_tags := t\<rparr>) \<Longrightarrow>
    save_tag x t w = (Inr (enrich_tag (w_db w\<lparr>column_tags := t\<rparr>) x),
      (invalidate column_tag_prefix w)\<lparr>w_db := w_db w\<lparr>column_tags := t\<rparr>\<rparr>)"
  by (simp add: save_tag_def db_flush_def)

lemma save_tag_bad: "\<not> schema_ok (w_db w\<lparr>column_tags := t\<rparr>) \<Longrightarrow> save_tag x t w = (Inl internal_error, w)"
  by (simp add: save_tag_def db_flush_def)

lemma manual_tag_fields [simp]:
  "ct_id (manual_tag b i) = i" "ct_key (manual_tag b i) = tag_request_key b"
  "ct_glossary_term_id (manual_tag b i) = tc_glossary_term_id b"
  "ct_classification_id (manual_tag b i) = tc_classification_id b"
  "\<not> ct_auto_detected (manual_tag b i)" "ct_override_reason (manual_tag b i) = tc_override_reason b"
  by (simp_all add: manual_tag_def ct_key_def)

lemma promote_tag_fields [simp]:
  "ct_id (promote_tag b t) = ct_id t" "ct_key (promote_tag b t) = ct_key t"
  "ct_glossary_term_id (promote_tag b t) = tc_glossary_term_id b"
  "ct_classification_id (promote_tag b t) = tc_classification_id b"
  "\<not> ct_auto_detected (promote_tag b t)" "ct_override_reason (promote_tag b t) = tc_override_reason b"
  "ct_detection_score (promote_tag b t) = ct_detection_score t"
  by (simp_all add: promote_tag_def ct_key_def)

text \<open>One row is written: the schema holds exactly when its two references do.\<close>

lemma tags_ok_write:
  assumes "schema_ok db" and "tbl_ok ct_id ct_key t" and "x \<in> set (tbl_rows t)"
    and "set (tbl_rows t) \<subseteq> insert x (set (tbl_rows (column_tags db)))"
    and "ct_glossary_term_id x = tc_glossary_term_id b" and "ct_classification_id x = tc_classification_id b"
  shows "schema_ok (db\<lparr>column_tags := t\<rparr>) \<longleftrightarrow> tag_target_ok db b"
proof -
  have "\<forall>y \<in> set (tbl_rows (column_tags db)). fk_opt gt_id (glossary_terms db) (ct_glossary_term_id y) \<and>
      fk_opt cls_id (classifications db) (ct_classification_id y)"
    using assms(1) by (simp add: schema_ok_def tags_ok_def)
  then show ?thesis
    using assms(2-6) by (auto simp: schema_ok_tags[OF assms(1)] tags_ok_def tag_target_ok_def)
qed

lemma create_column_tag_cases:
  assumes "schema_ok (w_db w)" and "create_column_tag b w = (res, w')"
  obtains (bad_target) "res = Inl internal_error" "w' = w" "\<not> tag_target_ok (w_db w) b"
    | (manual) x where "res = Inl (already_tagged_error b)" "w' = w"
      "find_key ct_key (tag_request_key b) (column_tags (w_db w)) = Some x" "\<not> ct_auto_detected x"
    | (promoted) x where "find_key ct_key (tag_request_key b) (column_tags (w_db w)) = Some x"
      "ct_auto_detected x" "schema_ok (w_db w')" "res = Inr (enrich_tag (w_db w') (promote_tag b x))"
      "w_db w' = (w_db w)\<lparr>column_tags := tbl_replace ct_id (promote_tag b x) (column_tags (w_db w))\<rparr>"
    | (added) "find_key ct_key (tag_request_key b) (column_tags (w_db w)) = None"
      "schema_ok (w_db w')" "res = Inr (enrich_tag (w_db w') (manual_tag b (tbl_next (column_tags (w_db w)))))"
      "w_db w' = (w_db w)\<lparr>column_tags := snd (tbl_insert (manual_tag b) (column_tags (w_db w)))\<rparr>"
proof (cases "find_key ct_key (tag_request_key b) (column_tags (w_db w))")
  case None
  note t = schema_okD(5)[OF assms(1)]
  let ?x = "manual_tag b (tbl_next (column_tags (w_db w)))"
  let ?t = "snd (tbl_insert (manual_tag b) (column_tags (w_db w)))"
  have c: "(res, w') = save_tag ?x ?t w"
    using assms None by (simp add: create_column_tag_def find_tag_ok split_beta row_simps)
  have "schema_ok (w_db w\<lparr>column_tags := ?t\<rparr>) \<longleftrightarrow> tag_target_ok (w_db w) b"
    by (rule tags_ok_write[OF assms(1), of _ ?x]) (use tbl_ok_insert[OF t, of "manual_tag b"] None in \<open>auto simp: row_simps\<close>)
  then show thesis
    using c None by (cases "tag_target_ok (w_db w) b")
      (auto simp: save_tag_ok save_tag_bad intro: bad_target added)
next
  case (Some x)
  note t = schema_okD(5)[OF assms(1)]
  have x: "x \<in> set (tbl_rows (column_tags (w_db w)))" using find_key_Some_D[OF Some] by blast
  show thesis
  proof (cases "ct_auto_detected x")
    case False
    with assms Some show thesis by (intro manual) (auto simp: create_column_tag_def find_tag_ok)
  next
    case True
    let ?t = "tbl_replace ct_id (promote_tag b x) (column_tags (w_db w))"
    have c: "(res, w') = save_tag (promote_tag b x) ?t w"
      using assms Some True by (simp add: create_column_tag_def find_tag_ok)
    have "promote_tag b x \<in> set (tbl_rows ?t)" using x by (auto simp: row_simps image_iff intro!: bexI[of _ x])
    then have "schema_ok (w_db w\<lparr>column_tags := ?t\<rparr>) \<longleftrightarrow> tag_target_ok (w_db w) b"
      by (intro tags_ok_write[OF assms(1), of _ "promote_tag b x"])
        (use tbl_ok_replace[OF t x, of "promote_tag b x"] in \<open>auto simp: row_simps\<close>)
    then show thesis
      using c Some True by (cases "tag_target_ok (w_db w) b")
        (auto simp: save_tag_ok save_tag_bad intro: bad_target promoted)
  qed
qed

section \<open>Properties\<close>

text \<open>
  C28: A scan never touches a manual tag. Whatever Stardata answers and wherever the scan
  stops, the manual tags are the same rows in the same order, no tagged column loses its
  tag, no other table changes, the constraints hold and no statement is sent; a dry run
  changes nothing at all.
\<close>

theorem scan_keeps_manual_tags:
  assumes "schema_ok (w_db w)"
  shows "case scan_columns e st b w of (res, w') \<Rightarrow>
    filter (\<lambda>t. \<not> ct_auto_detected t) (tbl_rows (column_tags (w_db w'))) =
      filter (\<lambda>t. \<not> ct_auto_detected t) (tbl_rows (column_tags (w_db w))) \<and>
    ct_key ` set (tbl_rows (column_tags (w_db w))) \<subseteq> ct_key ` set (tbl_rows (column_tags (w_db w'))) \<and>
    w_db w' = w_db w\<lparr>column_tags := column_tags (w_db w')\<rparr> \<and> schema_ok (w_db w') \<and>
    w_sd w' = w_sd w \<and> (sr_dry_run b \<longrightarrow> w' = w)"
proof -
  obtain res w' where r: "scan_columns e st b w = (res, w')" by (cases "scan_columns e st b w")
  have "scan_frame (w_db w) (w_db w') \<and> w_sd w' = w_sd w \<and> (sr_dry_run b \<longrightarrow> w' = w)"
  proof (cases "tables_matches e st b w")
    case (Inl exc)
    with r assms show ?thesis by (auto simp: scan_columns_def scan_frame_refl)
  next
    case (Inr tms)
    with r have "scan_tables b tms w = (res, w')" by (simp add: scan_columns_def)
    from scan_tables_frame[OF assms this] show ?thesis by blast
  qed
  with r show ?thesis by (simp add: scan_frame_def)
qed

theorem scan_keeps_manual_tags_witness:
  "ct_id ` set (filter (\<lambda>t. \<not> ct_auto_detected t) (tbl_rows (column_tags (w_db (snd (scan_columns demo_ext
     default_settings \<lparr>sr_database = ''demo'', sr_table = None, sr_dry_run = False,
       sr_overwrite_existing = True\<rparr> demo_world)))))) = {2, 3}"
proof -
  let ?b = "\<lparr>sr_database = ''demo'', sr_table = None, sr_dry_run = False, sr_overwrite_existing = True\<rparr>"
  have "ct_id ` set (filter (\<lambda>t. \<not> ct_auto_detected t) (tbl_rows (column_tags (w_db demo_world)))) = {2, 3}"
    by (simp add: demo_defs)
  then show ?thesis
    using scan_keeps_manual_tags[OF demo_schema_ok(2), where e = demo_ext and st = default_settings and b = ?b]
    by (auto simp: split_beta)
qed

text \<open>
  Scanning is idempotent. After a scan that succeeded, the same scan without
  \<^verbatim>\<open>overwrite_existing\<close> succeeds, tags no column and leaves the catalog as it is: every
  column the classifier finds taggable has its tag.
\<close>

theorem scan_idempotent:
  assumes "schema_ok (w_db w)" and "scan_columns e st b w = (Inr r, w')" and "\<not> sr_dry_run b"
  shows "\<exists>r'. scan_columns e st (b\<lparr>sr_overwrite_existing := False\<rparr>) w' = (Inr r', w') \<and>
    (\<forall>t \<in> set r'. st_columns_tagged t = 0)"
proof -
  let ?b = "b\<lparr>sr_overwrite_existing := False\<rparr>"
  obtain tms where tms: "tables_matches e st b w = Inr tms" "scan_tables b tms w = (Inr r, w')"
    using assms(2) by (auto simp: scan_columns_def split: sum.splits)
  note f = scan_tables_frame[OF assms(1) tms(2)]
  have "tables_matches e st ?b w' = tables_matches e st b w'"
    by (simp add: tables_matches_def Let_def split: option.split)
  also have "\<dots> = Inr tms" using tables_matches_same[of w w' e st b] f tms(1) by simp
  finally have tm: "tables_matches e st ?b w' = Inr tms" .
  have "\<forall>(tbl, ms) \<in> set tms. covered ?b tbl ms (w_db w')"
    using f assms(3) by (auto simp: covered_def)
  moreover have "schema_ok (w_db w')" using f scan_frame_ok by blast
  ultimately show ?thesis
    using scan_tables_covered[of w' ?b tms] tm by (simp add: scan_columns_def)
qed

theorem scan_idempotent_witness:
  "\<exists>r w' r'. scan_columns demo_ext default_settings \<lparr>sr_database = ''demo'', sr_table = Some ''users'',
      sr_dry_run = False, sr_overwrite_existing = False\<rparr> demo_world = (Inr r, w') \<and>
    scan_columns demo_ext default_settings \<lparr>sr_database = ''demo'', sr_table = Some ''users'',
      sr_dry_run = False, sr_overwrite_existing = False\<rparr> w' = (Inr r', w')"
proof -
  let ?b = "\<lparr>sr_database = ''demo'', sr_table = Some ''users'', sr_dry_run = False,
    sr_overwrite_existing = False\<rparr>"
  have specs: "load_term_specs (w_db demo_world) = [\<lparr>ts_id = 1, ts_name = ''email_address'',
      ts_classification_id = Some 1, ts_classification_name = Some ''PII'',
      ts_classification_sensitivity = ''high'', ts_patterns = [''email''], ts_negative_patterns = [],
      ts_table_name_negative_patterns = [], ts_table_name_positive_patterns = []\<rparr>]"
    by (simp add: load_term_specs_def session_get_def demo_defs Let_def string_eval)
  have th: "0 < auto_classify_threshold default_settings" by (simp add: default_settings_def)
  have "classify_columns [''id'', ''mail'', ''card''] (load_term_specs (w_db demo_world))
      (auto_classify_threshold default_settings) ''users'' = [no_match ''id'', no_match ''mail'', no_match ''card'']"
    unfolding specs using th
    by (simp add: classify_columns_def base_score_def norm_name_def string_eval Let_def no_match_def taggable_def)
  then have "tables_matches demo_ext default_settings ?b demo_world =
      Inr [(''users'', [no_match ''id'', no_match ''mail'', no_match ''card''])]"
    by (simp add: tables_matches_def scan_table_def Let_def demo_ext_def)
  then obtain r where r: "scan_columns demo_ext default_settings ?b demo_world = (Inr r, demo_world)"
    by (simp add: scan_columns_def scan_column_def no_match_def)
  from scan_idempotent[OF demo_schema_ok(2) r] r show ?thesis by auto
qed

text \<open>
  Tagging a column by hand. The request is refused with 409 exactly when the column
  has a manual tag, and with 500 when a referenced term or classification does not exist;
  in both cases nothing changes. Otherwise the column ends with one manual tag with the
  references of the request, a tag found by the scan is promoted in place (it keeps its
  id and its detection score), and no other column's tag changes.
\<close>

theorem create_column_tag_correct:
  assumes "schema_ok (w_db w)"
  shows "case create_column_tag b w of
      (Inl err, w') \<Rightarrow> w' = w \<and>
        (err = already_tagged_error b \<and>
           (\<exists>x. find_key ct_key (tag_request_key b) (column_tags (w_db w)) = Some x \<and> \<not> ct_auto_detected x) \<or>
         err = internal_error \<and> \<not> tag_target_ok (w_db w) b)
    | (Inr out, w') \<Rightarrow> schema_ok (w_db w') \<and>
        (\<exists>t. find_key ct_key (tag_request_key b) (column_tags (w_db w')) = Some t \<and> ct_id t = ct_id out \<and>
           \<not> ct_auto_detected t \<and> ct_glossary_term_id t = tc_glossary_term_id b \<and>
           ct_classification_id t = tc_classification_id b \<and> ct_override_reason t = tc_override_reason b \<and>
           (\<forall>x. find_key ct_key (tag_request_key b) (column_tags (w_db w)) = Some x \<longrightarrow>
              ct_auto_detected x \<and> ct_id t = ct_id x \<and> ct_detection_score t = ct_detection_score x)) \<and>
        (\<forall>k. k \<noteq> tag_request_key b \<longrightarrow>
           find_key ct_key k (column_tags (w_db w')) = find_key ct_key k (column_tags (w_db w)))"
proof -
  obtain res w' where r: "create_column_tag b w = (res, w')" by (cases "create_column_tag b w")
  note t = schema_okD(5)[OF assms]
  have id: "ct_id (enrich_tag db x) = ct_id x" for db x
    by (simp add: enrich_tag_def column_tag.defs)
  from assms r show ?thesis
  proof (cases rule: create_column_tag_cases)
    case bad_target
    with r show ?thesis by simp
  next
    case manual
    with r show ?thesis by simp
  next
    case (promoted x)
    have x: "x \<in> set (tbl_rows (column_tags (w_db w)))" "ct_key x = tag_request_key b"
      using find_key_Some_D[OF promoted(1)] by blast+
    have "find_key ct_key (tag_request_key b) (column_tags (w_db w')) = Some (promote_tag b x)"
      using find_key_replace[OF t x(1), of "promote_tag b x"] x(2) promoted(5) by simp
    moreover have "find_key ct_key k (column_tags (w_db w')) = find_key ct_key k (column_tags (w_db w))"
      if "k \<noteq> tag_request_key b" for k
      using find_key_replace_other[OF x(1) t, of "promote_tag b x" k] x(2) promoted(5) that by simp
    ultimately show ?thesis using promoted r by (simp add: id)
  next
    case added
    have "find_key ct_key k (column_tags (w_db w')) = (if k = tag_request_key b
        then Some (manual_tag b (tbl_next (column_tags (w_db w)))) else find_key ct_key k (column_tags (w_db w)))" for k
      using find_key_insert[OF added(1), of "manual_tag b"]
        find_key_insert_old[of ct_key "manual_tag b" "column_tags (w_db w)" k] added(4) by auto
    with added r show ?thesis by (simp add: id)
  qed
qed

theorem create_column_tag_correct_witness:
  "\<exists>out w'. create_column_tag \<lparr>tc_database = ''demo'', tc_table = ''users'', tc_column = ''mail'',
      tc_glossary_term_id = Some 1, tc_classification_id = Some 2, tc_override_reason = None\<rparr> demo_world = (Inr out, w')
    \<and> schema_ok (w_db w')"
proof -
  let ?b = "\<lparr>tc_database = ''demo'', tc_table = ''users'', tc_column = ''mail'',
      tc_glossary_term_id = Some 1, tc_classification_id = Some 2, tc_override_reason = None\<rparr>"
  obtain res w' where r: "create_column_tag ?b demo_world = (res, w')" by (cases "create_column_tag ?b demo_world")
  have "tag_target_ok (w_db demo_world) ?b"
    by (simp add: tag_target_ok_def fk_opt_def fk_def demo_defs)
  moreover have "find_key ct_key (tag_request_key ?b) (column_tags (w_db demo_world)) =
      Some (demo_tag 1 ''users'' ''mail'' None (Some 1) True)"
    by (simp add: find_key_def ct_key_def demo_defs)
  moreover have "ct_auto_detected (demo_tag 1 ''users'' ''mail'' None (Some 1) True)" by (simp add: demo_tag_def)
  ultimately show ?thesis
    using create_column_tag_correct[OF demo_schema_ok(2), of ?b] r by (cases res) auto
qed

text \<open>
  The lookup of the default policy of a classification returns the enabled policy with
  the lowest priority, although its description and the resolution of a column's policy
  take the highest.
\<close>

theorem class_default_is_lowest:
  assumes "get_class_default_policy_id db (Some c) = Some i"
  shows "\<exists>p \<in> set (tbl_rows (masking_policies db)). mp_id p = i \<and> mp_enabled p \<and>
    mp_classification_id p = Some c \<and>
    (\<forall>q \<in> set (tbl_rows (masking_policies db)). mp_enabled q \<and> mp_classification_id q = Some c \<and>
       mp_glossary_term_id q = None \<longrightarrow> mp_priority p \<le> mp_priority q)"
proof -
  let ?f = "filter (\<lambda>p. mp_classification_id p = Some c \<and> mp_glossary_term_id p = None \<and> mp_enabled p)
    (tbl_rows (masking_policies db))"
  obtain p ps where s: "sort_key mp_priority ?f = p # ps" "mp_id p = i"
    using assms by (auto simp: get_class_default_policy_id_def split: list.splits)
  have "sorted (map mp_priority (p # ps))" using sorted_sort_key[of mp_priority ?f] s(1) by simp
  moreover have all: "set (p # ps) = set ?f" using s(1) by (metis set_sort)
  ultimately have "\<forall>q \<in> set ?f. mp_priority p \<le> mp_priority q" by auto
  moreover have "p \<in> set ?f" using all by auto
  ultimately show ?thesis using s(2) by auto
qed

theorem class_default_is_lowest_witness:
  "\<exists>p \<in> set (tbl_rows (masking_policies demo_db)). mp_id p = 1 \<and> mp_classification_id p = Some 1"
proof -
  have "get_class_default_policy_id demo_db (Some 1) = Some 1"
    by (simp add: get_class_default_policy_id_def demo_defs)
  from class_default_is_lowest[OF this] show ?thesis by blast
qed

end
