(* ===== verification/Catalog_Crud.thy ===== *)
theory Catalog_Crud
  imports Demo_State "HOL-Library.Char_ord" "HOL-Library.List_Lexorder"
begin

text \<open>
  The four routers of named resources, \<^verbatim>\<open>catalog/routers/classifications.py\<close>,
  \<^verbatim>\<open>glossary.py\<close>, \<^verbatim>\<open>algorithms.py\<close> and \<^verbatim>\<open>policies.py\<close>: list, get, create, patch and
  delete. What they promise a client is the locale \<open>named_resource\<close>, interpreted on each.

  Deleting a row through the ORM first sets the foreign keys of its children to NULL (none
  of the relationships of \<^verbatim>\<open>models.py\<close> has \<^verbatim>\<open>passive_deletes\<close> or a delete cascade) and then
  deletes the row. Where the child's column is NOT NULL the first step is refused; the
  model leaves such a child as it is, and the flush is refused by its foreign key instead.
\<close>

section \<open>Patching\<close>

text \<open>\<^verbatim>\<open>model_dump(exclude_none=True)\<close> and \<^verbatim>\<open>setattr\<close>: a field left out, or null, is kept.\<close>

definition patch :: "'a option \<Rightarrow> 'a \<Rightarrow> 'a" where
  "patch v old = (case v of None \<Rightarrow> old | Some x \<Rightarrow> x)"

definition patch_opt :: "'a option \<Rightarrow> 'a option \<Rightarrow> 'a option" where
  "patch_opt v old = (case v of None \<Rightarrow> old | Some x \<Rightarrow> Some x)"

definition not_found :: "string \<Rightarrow> string \<Rightarrow> http_error" where
  "not_found kind name = HTTPException 404 (kind @ '' '' @ sq name @ '' not found'')"

definition already_exists :: "string \<Rightarrow> string \<Rightarrow> http_error" where
  "already_exists kind name = HTTPException 409 (kind @ '' '' @ sq name @ '' already exists'')"

definition deleted_message :: "string \<Rightarrow> string \<Rightarrow> string" where
  "deleted_message kind name = kind @ '' '' @ sq name @ '' deleted''"

section \<open>Classifications\<close>

definition list_classifications :: "catalog \<Rightarrow> classification list" where
  "list_classifications db = sort_key cls_name (tbl_rows (classifications db))"

definition get_classification :: "catalog \<Rightarrow> string \<Rightarrow> classification res" where
  "get_classification db name =
     (case scalar_one_or_none (\<lambda>c. cls_name c = name) (classifications db) of
        Inl err \<Rightarrow> Inl err
      | Inr None \<Rightarrow> Inl (not_found ''Classification'' name)
      | Inr (Some c) \<Rightarrow> Inr c)"

definition new_classification :: "classification_create \<Rightarrow> int \<Rightarrow> classification" where
  "new_classification b i = \<lparr>cls_id = i, cls_name = cc_name b, cls_display_name = cc_display_name b,
     cls_description = cc_description b, cls_sensitivity = cc_sensitivity b, cls_color_hex = cc_color_hex b\<rparr>"

definition create_classification :: "classification_create \<Rightarrow> world \<Rightarrow> classification res \<times> world" where
  "create_classification b w =
     (case scalar_one_or_none (\<lambda>c. cls_name c = cc_name b) (classifications (w_db w)) of
        Inl err \<Rightarrow> (Inl err, w)
      | Inr (Some c) \<Rightarrow> (Inl (already_exists ''Classification'' (cc_name b)), w)
      | Inr None \<Rightarrow>
         (let (c, t) = tbl_insert (new_classification b) (classifications (w_db w)) in
          case db_flush (w_db w\<lparr>classifications := t\<rparr>) of
            Inl err \<Rightarrow> (Inl err, w) | Inr db1 \<Rightarrow> commit db1 c w))"

definition patch_classification :: "classification_update \<Rightarrow> classification \<Rightarrow> classification" where
  "patch_classification b c = c\<lparr>cls_display_name := patch (cu_display_name b) (cls_display_name c),
     cls_description := patch_opt (cu_description b) (cls_description c),
     cls_sensitivity := patch (cu_sensitivity b) (cls_sensitivity c),
     cls_color_hex := patch_opt (cu_color_hex b) (cls_color_hex c)\<rparr>"

definition update_classification ::
  "string \<Rightarrow> classification_update \<Rightarrow> world \<Rightarrow> classification res \<times> world" where
  "update_classification name b w =
     (case scalar_one_or_none (\<lambda>c. cls_name c = name) (classifications (w_db w)) of
        Inl err \<Rightarrow> (Inl err, w)
      | Inr None \<Rightarrow> (Inl (not_found ''Classification'' name), w)
      | Inr (Some c) \<Rightarrow>
         commit (w_db w\<lparr>classifications := tbl_replace cls_id (patch_classification b c) (classifications (w_db w))\<rparr>)
           (patch_classification b c) (invalidate policy_cache_prefix w))"

definition null_ref :: "int \<Rightarrow> int option \<Rightarrow> int option" where
  "null_ref i r = (if r = Some i then None else r)"

definition map_rows :: "('r \<Rightarrow> 'r) \<Rightarrow> 'r tbl \<Rightarrow> 'r tbl" where
  "map_rows f t = t\<lparr>tbl_rows := map f (tbl_rows t)\<rparr>"

definition drop_classification :: "int \<Rightarrow> catalog \<Rightarrow> catalog" where
  "drop_classification i db = db\<lparr>
     glossary_terms := map_rows (\<lambda>t. t\<lparr>gt_classification_id := null_ref i (gt_classification_id t)\<rparr>) (glossary_terms db),
     masking_policies := map_rows (\<lambda>p. p\<lparr>mp_classification_id := null_ref i (mp_classification_id p)\<rparr>) (masking_policies db),
     column_tags := map_rows (\<lambda>t. t\<lparr>ct_classification_id := null_ref i (ct_classification_id t)\<rparr>) (column_tags db),
     classifications := tbl_delete cls_id i (classifications db)\<rparr>"

definition delete_classification :: "string \<Rightarrow> world \<Rightarrow> string res \<times> world" where
  "delete_classification name w =
     (case scalar_one_or_none (\<lambda>c. cls_name c = name) (classifications (w_db w)) of
        Inl err \<Rightarrow> (Inl err, w)
      | Inr None \<Rightarrow> (Inl (not_found ''Classification'' name), w)
      | Inr (Some c) \<Rightarrow> commit (drop_classification (cls_id c) (w_db w))
           (deleted_message ''Classification'' name) (invalidate policy_cache_prefix w))"

section \<open>Glossary terms\<close>

record glossary_term_out =
  gto_id :: int
  gto_name :: string
  gto_display_name :: string
  gto_description :: "string option"
  gto_classification_id :: "int option"
  gto_classification_name :: "string option"
  gto_column_name_patterns :: "string list"
  gto_description_patterns :: "string list"
  gto_negative_patterns :: "string list"
  gto_steward :: "string option"

text \<open>The second argument is the classification object the session has loaded for the term.\<close>

definition enrich_term :: "glossary_term \<Rightarrow> classification option \<Rightarrow> glossary_term_out" where
  "enrich_term t c = \<lparr>gto_id = gt_id t, gto_name = gt_name t, gto_display_name = gt_display_name t,
     gto_description = gt_description t, gto_classification_id = gt_classification_id t,
     gto_classification_name = map_option cls_name c,
     gto_column_name_patterns = gt_column_name_patterns t,
     gto_description_patterns = gt_description_patterns t,
     gto_negative_patterns = gt_negative_patterns t, gto_steward = gt_steward t\<rparr>"

definition term_classification :: "catalog \<Rightarrow> glossary_term \<Rightarrow> classification option" where
  "term_classification db t = (case gt_classification_id t of None \<Rightarrow> None
     | Some i \<Rightarrow> session_get cls_id i (classifications db))"

definition list_terms :: "catalog \<Rightarrow> glossary_term_out list" where
  "list_terms db = map (\<lambda>t. enrich_term t (term_classification db t)) (sort_key gt_name (tbl_rows (glossary_terms db)))"

definition get_term :: "catalog \<Rightarrow> string \<Rightarrow> glossary_term_out res" where
  "get_term db name = (case scalar_one_or_none (\<lambda>t. gt_name t = name) (glossary_terms db) of
     Inl err \<Rightarrow> Inl err
   | Inr None \<Rightarrow> Inl (not_found ''Glossary term'' name)
   | Inr (Some t) \<Rightarrow> Inr (enrich_term t (term_classification db t)))"

definition new_term :: "glossary_create \<Rightarrow> int \<Rightarrow> glossary_term" where
  "new_term b i = \<lparr>gt_id = i, gt_name = gc_name b, gt_display_name = gc_display_name b,
     gt_description = gc_description b, gt_classification_id = gc_classification_id b,
     gt_column_name_patterns = gc_column_name_patterns b,
     gt_description_patterns = gc_description_patterns b, gt_negative_patterns = gc_negative_patterns b,
     gt_table_name_negative_patterns = [], gt_table_name_positive_patterns = [], gt_steward = gc_steward b\<rparr>"

definition create_term :: "glossary_create \<Rightarrow> world \<Rightarrow> glossary_term_out res \<times> world" where
  "create_term b w =
     (let db = w_db w in
      case scalar_one_or_none (\<lambda>t. gt_name t = gc_name b) (glossary_terms db) of
        Inl err \<Rightarrow> (Inl err, w)
      | Inr (Some t) \<Rightarrow> (Inl (already_exists ''Glossary term'' (gc_name b)), w)
      | Inr None \<Rightarrow>
         if gc_classification_id b \<notin> {None, Some 0} \<and>
            session_get cls_id (the (gc_classification_id b)) (classifications db) = None
         then (Inl (HTTPException 404 (''Classification id='' @ str_of_int (the (gc_classification_id b)) @
           '' not found'')), w)
         else (let (x, t) = tbl_insert (new_term b) (glossary_terms db) in
           case db_flush (db\<lparr>glossary_terms := t\<rparr>) of
             Inl err \<Rightarrow> (Inl err, w)
           | Inr db1 \<Rightarrow> commit db1 (enrich_term x (term_classification db1 x)) (invalidate policy_cache_prefix w)))"

definition patch_term :: "glossary_update \<Rightarrow> glossary_term \<Rightarrow> glossary_term" where
  "patch_term b t = t\<lparr>gt_display_name := patch (gu_display_name b) (gt_display_name t),
     gt_description := patch_opt (gu_description b) (gt_description t),
     gt_classification_id := patch_opt (gu_classification_id b) (gt_classification_id t),
     gt_column_name_patterns := patch (gu_column_name_patterns b) (gt_column_name_patterns t),
     gt_description_patterns := patch (gu_description_patterns b) (gt_description_patterns t),
     gt_negative_patterns := patch (gu_negative_patterns b) (gt_negative_patterns t),
     gt_steward := patch_opt (gu_steward b) (gt_steward t)\<rparr>"

text \<open>The classification object was loaded before the patch and is not loaded again.\<close>

definition update_term :: "string \<Rightarrow> glossary_update \<Rightarrow> world \<Rightarrow> glossary_term_out res \<times> world" where
  "update_term name b w =
     (case scalar_one_or_none (\<lambda>t. gt_name t = name) (glossary_terms (w_db w)) of
        Inl err \<Rightarrow> (Inl err, w)
      | Inr None \<Rightarrow> (Inl (not_found ''Glossary term'' name), w)
      | Inr (Some t) \<Rightarrow>
         commit (w_db w\<lparr>glossary_terms := tbl_replace gt_id (patch_term b t) (glossary_terms (w_db w))\<rparr>)
           (enrich_term (patch_term b t) (term_classification (w_db w) t)) (invalidate policy_cache_prefix w))"

definition drop_term :: "int \<Rightarrow> catalog \<Rightarrow> catalog" where
  "drop_term i db = db\<lparr>
     masking_policies := map_rows (\<lambda>p. p\<lparr>mp_glossary_term_id := null_ref i (mp_glossary_term_id p)\<rparr>) (masking_policies db),
     column_tags := map_rows (\<lambda>t. t\<lparr>ct_glossary_term_id := null_ref i (ct_glossary_term_id t)\<rparr>) (column_tags db),
     glossary_terms := tbl_delete gt_id i (glossary_terms db)\<rparr>"

definition delete_term :: "string \<Rightarrow> world \<Rightarrow> string res \<times> world" where
  "delete_term name w =
     (case scalar_one_or_none (\<lambda>t. gt_name t = name) (glossary_terms (w_db w)) of
        Inl err \<Rightarrow> (Inl err, w)
      | Inr None \<Rightarrow> (Inl (not_found ''Glossary term'' name), w)
      | Inr (Some t) \<Rightarrow> commit (drop_term (gt_id t) (w_db w))
           (deleted_message ''Glossary term'' name) (invalidate policy_cache_prefix w))"

section \<open>Masking algorithms\<close>

definition list_algorithms :: "catalog \<Rightarrow> masking_algorithm list" where
  "list_algorithms db = sort_key ma_name (tbl_rows (masking_algorithms db))"

definition get_algorithm :: "catalog \<Rightarrow> string \<Rightarrow> masking_algorithm res" where
  "get_algorithm db name =
     (case scalar_one_or_none (\<lambda>a. ma_name a = name) (masking_algorithms db) of
        Inl err \<Rightarrow> Inl err
      | Inr None \<Rightarrow> Inl (not_found ''Algorithm'' name)
      | Inr (Some a) \<Rightarrow> Inr a)"

definition new_algorithm :: "algorithm_create \<Rightarrow> int \<Rightarrow> masking_algorithm" where
  "new_algorithm b i = \<lparr>ma_id = i, ma_name = ac_name b, ma_display_name = ac_display_name b,
     ma_description = ac_description b, ma_algorithm_type = ac_algorithm_type b,
     ma_stardata_expression = ac_stardata_expression b, ma_applicable_types = ac_applicable_types b\<rparr>"

definition create_algorithm :: "algorithm_create \<Rightarrow> world \<Rightarrow> masking_algorithm res \<times> world" where
  "create_algorithm b w =
     (case scalar_one_or_none (\<lambda>a. ma_name a = ac_name b) (masking_algorithms (w_db w)) of
        Inl err \<Rightarrow> (Inl err, w)
      | Inr (Some a) \<Rightarrow> (Inl (already_exists ''Algorithm'' (ac_name b)), w)
      | Inr None \<Rightarrow>
         (let (a, t) = tbl_insert (new_algorithm b) (masking_algorithms (w_db w)) in
          case db_flush (w_db w\<lparr>masking_algorithms := t\<rparr>) of
            Inl err \<Rightarrow> (Inl err, w) | Inr db1 \<Rightarrow> commit db1 a w))"

definition patch_algorithm :: "algorithm_update \<Rightarrow> masking_algorithm \<Rightarrow> masking_algorithm" where
  "patch_algorithm b a = a\<lparr>ma_display_name := patch (au_display_name b) (ma_display_name a),
     ma_description := patch_opt (au_description b) (ma_description a),
     ma_stardata_expression := patch (au_stardata_expression b) (ma_stardata_expression a),
     ma_applicable_types := patch (au_applicable_types b) (ma_applicable_types a)\<rparr>"

definition update_algorithm :: "string \<Rightarrow> algorithm_update \<Rightarrow> world \<Rightarrow> masking_algorithm res \<times> world" where
  "update_algorithm name b w =
     (case scalar_one_or_none (\<lambda>a. ma_name a = name) (masking_algorithms (w_db w)) of
        Inl err \<Rightarrow> (Inl err, w)
      | Inr None \<Rightarrow> (Inl (not_found ''Algorithm'' name), w)
      | Inr (Some a) \<Rightarrow>
         commit (w_db w\<lparr>masking_algorithms := tbl_replace ma_id (patch_algorithm b a) (masking_algorithms (w_db w))\<rparr>)
           (patch_algorithm b a) (invalidate policy_cache_prefix w))"

definition drop_algorithm :: "int \<Rightarrow> catalog \<Rightarrow> catalog" where
  "drop_algorithm i db = db\<lparr>masking_algorithms := tbl_delete ma_id i (masking_algorithms db)\<rparr>"

definition delete_algorithm :: "string \<Rightarrow> world \<Rightarrow> string res \<times> world" where
  "delete_algorithm name w =
     (case scalar_one_or_none (\<lambda>a. ma_name a = name) (masking_algorithms (w_db w)) of
        Inl err \<Rightarrow> (Inl err, w)
      | Inr None \<Rightarrow> (Inl (not_found ''Algorithm'' name), w)
      | Inr (Some a) \<Rightarrow> commit (drop_algorithm (ma_id a) (w_db w))
           (deleted_message ''Algorithm'' name) (invalidate policy_cache_prefix w))"

section \<open>Masking policies\<close>

record policy_out = masking_policy +
  po_algorithm_name :: "string option"

definition enrich_policy :: "masking_policy \<Rightarrow> masking_algorithm option \<Rightarrow> policy_out" where
  "enrich_policy p a = masking_policy.extend p \<lparr>po_algorithm_name = map_option ma_name a\<rparr>"

definition policy_algorithm :: "catalog \<Rightarrow> masking_policy \<Rightarrow> masking_algorithm option" where
  "policy_algorithm db p = session_get ma_id (mp_algorithm_id p) (masking_algorithms db)"

definition list_policies :: "catalog \<Rightarrow> policy_out list" where
  "list_policies db = map (\<lambda>p. enrich_policy p (policy_algorithm db p))
     (sort_key (\<lambda>p. (- mp_priority p, mp_name p)) (tbl_rows (masking_policies db)))"

definition get_policy :: "catalog \<Rightarrow> string \<Rightarrow> policy_out res" where
  "get_policy db name = (case scalar_one_or_none (\<lambda>p. mp_name p = name) (masking_policies db) of
     Inl err \<Rightarrow> Inl err
   | Inr None \<Rightarrow> Inl (not_found ''Policy'' name)
   | Inr (Some p) \<Rightarrow> Inr (enrich_policy p (policy_algorithm db p)))"

definition new_policy :: "policy_create \<Rightarrow> int \<Rightarrow> masking_policy" where
  "new_policy b i = \<lparr>mp_id = i, mp_name = pc_name b, mp_description = pc_description b,
     mp_classification_id = pc_classification_id b, mp_glossary_term_id = pc_term b,
     mp_algorithm_id = pc_algorithm_id b, mp_priority = pc_priority b, mp_enabled = pc_enabled b\<rparr>"

definition create_policy :: "policy_create \<Rightarrow> world \<Rightarrow> policy_out res \<times> world" where
  "create_policy b w =
     (let db = w_db w in
      case scalar_one_or_none (\<lambda>p. mp_name p = pc_name b) (masking_policies db) of
        Inl err \<Rightarrow> (Inl err, w)
      | Inr (Some p) \<Rightarrow> (Inl (already_exists ''Policy'' (pc_name b)), w)
      | Inr None \<Rightarrow>
         if session_get ma_id (pc_algorithm_id b) (masking_algorithms db) = None
         then (Inl (HTTPException 404 (''Algorithm id='' @ str_of_int (pc_algorithm_id b) @ '' not found'')), w)
         else (let (x, t) = tbl_insert (new_policy b) (masking_policies db) in
           case db_flush (db\<lparr>masking_policies := t\<rparr>) of
             Inl err \<Rightarrow> (Inl err, w)
           | Inr db1 \<Rightarrow> commit db1 (enrich_policy x (policy_algorithm db1 x)) (invalidate policy_cache_prefix w)))"

definition patch_policy :: "policy_update \<Rightarrow> masking_policy \<Rightarrow> masking_policy" where
  "patch_policy b p = p\<lparr>mp_description := patch_opt (pu_description b) (mp_description p),
     mp_algorithm_id := patch (pu_algorithm_id b) (mp_algorithm_id p),
     mp_priority := patch (pu_priority b) (mp_priority p),
     mp_enabled := patch (pu_enabled b) (mp_enabled p)\<rparr>"

text \<open>As for the terms, the algorithm object answered with is the one loaded before the patch.\<close>

definition update_policy :: "string \<Rightarrow> policy_update \<Rightarrow> world \<Rightarrow> policy_out res \<times> world" where
  "update_policy name b w =
     (case scalar_one_or_none (\<lambda>p. mp_name p = name) (masking_policies (w_db w)) of
        Inl err \<Rightarrow> (Inl err, w)
      | Inr None \<Rightarrow> (Inl (not_found ''Policy'' name), w)
      | Inr (Some p) \<Rightarrow>
         commit (w_db w\<lparr>masking_policies := tbl_replace mp_id (patch_policy b p) (masking_policies (w_db w))\<rparr>)
           (enrich_policy (patch_policy b p) (policy_algorithm (w_db w) p)) (invalidate policy_cache_prefix w))"

definition delete_policy :: "string \<Rightarrow> world \<Rightarrow> string res \<times> world" where
  "delete_policy name w =
     (case scalar_one_or_none (\<lambda>p. mp_name p = name) (masking_policies (w_db w)) of
        Inl err \<Rightarrow> (Inl err, w)
      | Inr None \<Rightarrow> (Inl (not_found ''Policy'' name), w)
      | Inr (Some p) \<Rightarrow>
         commit (w_db w\<lparr>masking_policies := tbl_delete mp_id (mp_id p) (masking_policies (w_db w))\<rparr>)
           (deleted_message ''Policy'' name) (invalidate policy_cache_prefix w))"

section \<open>The contract of a named resource\<close>

text \<open>
  The state holds a finite map from names to rows; an operation that succeeds does to the
  map what its name says, and one that is refused leaves the map as it is.
\<close>

locale named_resource =
  fixes ok :: "'s \<Rightarrow> bool"
    and lookup :: "'s \<Rightarrow> string \<Rightarrow> 'r option"
    and name_of :: "'b \<Rightarrow> string"
    and create :: "'b \<Rightarrow> 's \<Rightarrow> bool \<times> 's"
    and update :: "string \<Rightarrow> 'u \<Rightarrow> 's \<Rightarrow> bool \<times> 's"
    and delete :: "string \<Rightarrow> 's \<Rightarrow> bool \<times> 's"
  assumes create_ok: "ok s \<Longrightarrow> ok (snd (create b s))"
    and update_ok: "ok s \<Longrightarrow> ok (snd (update n u s))"
    and delete_ok: "ok s \<Longrightarrow> ok (snd (delete n s))"
    and create_done: "ok s \<Longrightarrow> fst (create b s) \<Longrightarrow>
      lookup s (name_of b) = None \<and> (\<exists>r. lookup (snd (create b s)) = (lookup s)(name_of b \<mapsto> r))"
    and update_done: "ok s \<Longrightarrow> fst (update n u s) \<Longrightarrow>
      lookup s n \<noteq> None \<and> (\<exists>r. lookup (snd (update n u s)) = (lookup s)(n \<mapsto> r))"
    and delete_done: "ok s \<Longrightarrow> fst (delete n s) \<Longrightarrow>
      lookup s n \<noteq> None \<and> lookup (snd (delete n s)) = (lookup s)(n := None)"
    and create_refused: "ok s \<Longrightarrow> \<not> fst (create b s) \<Longrightarrow> lookup (snd (create b s)) = lookup s"
    and update_refused: "ok s \<Longrightarrow> \<not> fst (update n u s) \<Longrightarrow> lookup (snd (update n u s)) = lookup s"
    and delete_refused: "ok s \<Longrightarrow> \<not> fst (delete n s) \<Longrightarrow> lookup (snd (delete n s)) = lookup s"
begin

lemma create_twice_refused:
  assumes "ok s" and "fst (create b s)" and "name_of b' = name_of b"
  shows "\<not> fst (create b' (snd (create b s)))"
  using create_done[OF assms(1,2)] create_done[OF create_ok[OF assms(1)], of b' b] assms(3) by auto

lemma create_then_delete:
  assumes "ok s" and "fst (create b s)" and "fst (delete (name_of b) (snd (create b s)))"
  shows "lookup (snd (delete (name_of b) (snd (create b s)))) = lookup s"
proof -
  obtain r where r: "lookup s (name_of b) = None" "lookup (snd (create b s)) = (lookup s)(name_of b \<mapsto> r)"
    using create_done[OF assms(1,2)] by blast
  have "(lookup s)(name_of b := None) = lookup s" by (rule fun_upd_idem[of "lookup s", OF r(1)])
  then show ?thesis using delete_done[OF create_ok[OF assms(1)] assms(3)] r(2) by simp
qed

lemma delete_twice_refused: "ok s \<Longrightarrow> fst (delete n s) \<Longrightarrow> \<not> fst (delete n (snd (delete n s)))"
  using delete_done[of s n] delete_done[OF delete_ok, of s n n] by auto

lemma update_keeps_names: "ok s \<Longrightarrow> dom (lookup (snd (update n u s))) = dom (lookup s)"
  using update_done[of s n u] update_refused[of s n u] by (cases "fst (update n u s)") (auto split: if_splits)

lemma names_after_create:
  "ok s \<Longrightarrow> dom (lookup (snd (create b s))) = (if fst (create b s) then insert (name_of b) (dom (lookup s)) else dom (lookup s))"
  using create_done[of s b] create_refused[of s b] by auto

end

section \<open>The handlers keep the contract\<close>

text \<open>One shape for the twelve writing handlers: refused, or one map update in a valid state.\<close>

definition outcome :: "'a res \<times> world \<Rightarrow> bool \<times> world" where
  "outcome r = map_prod is_ok id r"

lemma outcome_simps [simp]:
  "fst (outcome (res, w)) = is_ok res" "snd (outcome (res, w)) = w"
  by (simp_all add: outcome_def)

lemma outcome_commit:
  "fst (outcome (commit db a w)) = schema_ok db"
  "w_db (snd (outcome (commit db a w))) = (if schema_ok db then db else w_db w)"
  using commit_cases[of db a w] by auto

lemma outcome_flush_commit:
  "fst (outcome (case db_flush db of Inl err \<Rightarrow> (Inl err, w) | Inr db1 \<Rightarrow> commit db1 (f db1) w1)) = schema_ok db"
  "w_db w1 = w_db w \<Longrightarrow> w_db (snd (outcome (case db_flush db of Inl err \<Rightarrow> (Inl err, w)
     | Inr db1 \<Rightarrow> commit db1 (f db1) w1))) = (if schema_ok db then db else w_db w)"
  by (auto simp: db_flush_def)

definition did :: "bool \<Rightarrow> catalog \<Rightarrow> world \<Rightarrow> bool \<times> world \<Rightarrow> bool" where
  "did P db w r \<longleftrightarrow> fst r = P \<and> w_db (snd r) = (if P then db else w_db w)"

lemma did_simps:
  "did True db w (outcome (Inr a, w1)) \<longleftrightarrow> w_db w1 = db"
  "did False db w (outcome (Inl e, w1)) \<longleftrightarrow> w_db w1 = w_db w"
  by (auto simp: did_def)

lemma did_commit: "w_db w1 = w_db w \<Longrightarrow> did (schema_ok db) db w (outcome (commit db a w1))"
  by (auto simp: did_def outcome_commit)

lemma did_flush:
  "w_db w1 = w_db w \<Longrightarrow> did (schema_ok db) db w (outcome (case db_flush db of Inl err \<Rightarrow> (Inl err, w)
     | Inr db1 \<Rightarrow> commit db1 (f db1) w1))"
  by (auto simp: did_def db_flush_def)

lemmas one_by_name = scalar_one_by_key[OF schema_okD(1)] scalar_one_by_key[OF schema_okD(2)]
  scalar_one_by_key[OF schema_okD(3)] scalar_one_by_key[OF schema_okD(4)]

definition db_with_classification :: "classification_create \<Rightarrow> catalog \<Rightarrow> catalog" where
  "db_with_classification b db =
     db\<lparr>classifications := snd (tbl_insert (new_classification b) (classifications db))\<rparr>"

lemma create_classification_did:
  assumes "schema_ok (w_db w)"
  shows "did (find_key cls_name (cc_name b) (classifications (w_db w)) = None \<and>
      schema_ok (db_with_classification b (w_db w))) (db_with_classification b (w_db w)) w
    (outcome (create_classification b w))"
proof (cases "find_key cls_name (cc_name b) (classifications (w_db w))")
  case None
  show ?thesis
    using did_flush[of w w "db_with_classification b (w_db w)"] None
    by (simp add: create_classification_def one_by_name[OF assms] split_beta db_with_classification_def)
next
  case (Some c)
  then show ?thesis by (simp add: create_classification_def one_by_name[OF assms] did_simps)
qed

lemma update_classification_did:
  assumes "schema_ok (w_db w)"
  shows "\<exists>c. did (find_key cls_name n (classifications (w_db w)) = Some c \<and>
      schema_ok (w_db w\<lparr>classifications := tbl_replace cls_id (patch_classification b c) (classifications (w_db w))\<rparr>))
    (w_db w\<lparr>classifications := tbl_replace cls_id (patch_classification b c) (classifications (w_db w))\<rparr>) w
    (outcome (update_classification n b w))"
  using did_commit[of "invalidate policy_cache_prefix w" w]
  by (intro exI[of _ "the (find_key cls_name n (classifications (w_db w)))"],
      cases "find_key cls_name n (classifications (w_db w))")
    (simp_all add: update_classification_def one_by_name[OF assms] did_simps frame_simps)

lemma delete_classification_did:
  assumes "schema_ok (w_db w)"
  shows "\<exists>c. did (find_key cls_name n (classifications (w_db w)) = Some c \<and>
      schema_ok (drop_classification (cls_id c) (w_db w))) (drop_classification (cls_id c) (w_db w)) w
    (outcome (delete_classification n w))"
  using did_commit[of "invalidate policy_cache_prefix w" w]
  by (intro exI[of _ "the (find_key cls_name n (classifications (w_db w)))"],
      cases "find_key cls_name n (classifications (w_db w))")
    (simp_all add: delete_classification_def one_by_name[OF assms] did_simps frame_simps)

text \<open>The contract from what the three handlers did to the rows of their table.\<close>

lemma named_resource_by_did:
  fixes rows :: "catalog \<Rightarrow> 'r tbl"
  assumes tok: "\<And>db. schema_ok db \<Longrightarrow> tbl_ok ident key (rows db)"
    and mk: "\<And>b i. key (mk b i) = name_of b"
    and pat: "\<And>u x. ident (pat u x) = ident x" "\<And>u x. key (pat u x) = key x"
    and C: "\<And>b w. schema_ok (w_db w) \<Longrightarrow> \<exists>P db.
      did (find_key key (name_of b) (rows (w_db w)) = None \<and> P \<and> schema_ok db) db w (create b w) \<and>
      rows db = snd (tbl_insert (mk b) (rows (w_db w)))"
    and U: "\<And>n u w. schema_ok (w_db w) \<Longrightarrow> \<exists>x db.
      did (find_key key n (rows (w_db w)) = Some x \<and> schema_ok db) db w (update n u w) \<and>
      rows db = tbl_replace ident (pat u x) (rows (w_db w))"
    and D: "\<And>n w. schema_ok (w_db w) \<Longrightarrow> \<exists>x db.
      did (find_key key n (rows (w_db w)) = Some x \<and> schema_ok db) db w (delete n w) \<and>
      rows db = tbl_delete ident (ident x) (rows (w_db w))"
  shows "named_resource (\<lambda>w :: world. schema_ok (w_db w)) (\<lambda>w. key_map key (rows (w_db w))) name_of create update delete"
proof
  fix w :: world and b n u
  assume ok: "schema_ok (w_db w)"
  note t = tok[OF ok]
  obtain P db1 where c: "did (find_key key (name_of b) (rows (w_db w)) = None \<and> P \<and> schema_ok db1) db1 w (create b w)"
    "rows db1 = snd (tbl_insert (mk b) (rows (w_db w)))" using C[OF ok] by blast
  obtain x db2 where u: "did (find_key key n (rows (w_db w)) = Some x \<and> schema_ok db2) db2 w (update n u w)"
    "rows db2 = tbl_replace ident (pat u x) (rows (w_db w))" using U[OF ok] by blast
  obtain y db3 where d: "did (find_key key n (rows (w_db w)) = Some y \<and> schema_ok db3) db3 w (delete n w)"
    "rows db3 = tbl_delete ident (ident y) (rows (w_db w))" using D[OF ok] by blast
  show "schema_ok (w_db (snd (create b w)))" "schema_ok (w_db (snd (update n u w)))"
    "schema_ok (w_db (snd (delete n w)))"
    using c(1) u(1) d(1) ok by (auto simp: did_def)
  show "fst (create b w) \<Longrightarrow> find_key key (name_of b) (rows (w_db w)) = None \<and>
      (\<exists>r. key_map key (rows (w_db (snd (create b w)))) = (key_map key (rows (w_db w)))(name_of b \<mapsto> r))"
    using c key_map_insert[of key "mk b" "rows (w_db w)"] by (auto simp: did_def mk)
  show "fst (update n u w) \<Longrightarrow> find_key key n (rows (w_db w)) \<noteq> None \<and>
      (\<exists>r. key_map key (rows (w_db (snd (update n u w)))) = (key_map key (rows (w_db w)))(n \<mapsto> r))"
    using u key_map_replace[OF t _ pat] by (auto simp: did_def)
  show "fst (delete n w) \<Longrightarrow> find_key key n (rows (w_db w)) \<noteq> None \<and>
      key_map key (rows (w_db (snd (delete n w)))) = (key_map key (rows (w_db w)))(n := None)"
    using d key_map_delete[OF t] by (auto simp: did_def)
  show "\<not> fst (create b w) \<Longrightarrow> key_map key (rows (w_db (snd (create b w)))) = key_map key (rows (w_db w))"
    "\<not> fst (update n u w) \<Longrightarrow> key_map key (rows (w_db (snd (update n u w)))) = key_map key (rows (w_db w))"
    "\<not> fst (delete n w) \<Longrightarrow> key_map key (rows (w_db (snd (delete n w)))) = key_map key (rows (w_db w))"
    using c u d by (auto simp: did_def)
qed

interpretation cls: named_resource "\<lambda>w :: world. schema_ok (w_db w)"
  "\<lambda>w. key_map cls_name (classifications (w_db w))" cc_name
  "\<lambda>b w. outcome (create_classification b w)" "\<lambda>n b w. outcome (update_classification n b w)"
  "\<lambda>n w. outcome (delete_classification n w)"
proof (rule named_resource_by_did[where ident = cls_id and mk = new_classification and pat = patch_classification])
  fix w :: world and b n u
  assume ok: "schema_ok (w_db w)"
  show "\<exists>P db. did (find_key cls_name (cc_name b) (classifications (w_db w)) = None \<and> P \<and> schema_ok db) db w
      (outcome (create_classification b w)) \<and> classifications db = snd (tbl_insert (new_classification b) (classifications (w_db w)))"
    using create_classification_did[OF ok, of b]
    by (intro exI[of _ True] exI[of _ "db_with_classification b (w_db w)"]) (simp add: db_with_classification_def)
  show "\<exists>x db. did (find_key cls_name n (classifications (w_db w)) = Some x \<and> schema_ok db) db w
      (outcome (update_classification n u w)) \<and> classifications db = tbl_replace cls_id (patch_classification u x) (classifications (w_db w))"
    using update_classification_did[OF ok, of n u] by force
  show "\<exists>x db. did (find_key cls_name n (classifications (w_db w)) = Some x \<and> schema_ok db) db w
      (outcome (delete_classification n w)) \<and> classifications db = tbl_delete cls_id (cls_id x) (classifications (w_db w))"
    using delete_classification_did[OF ok, of n] by (force simp: drop_classification_def)
qed (simp_all add: new_classification_def patch_classification_def schema_okD)

text \<open>Glossary terms.\<close>

lemma create_term_did:
  assumes "schema_ok (w_db w)"
  shows "\<exists>P. did (find_key gt_name (gc_name b) (glossary_terms (w_db w)) = None \<and> P \<and>
      schema_ok (w_db w\<lparr>glossary_terms := snd (tbl_insert (new_term b) (glossary_terms (w_db w)))\<rparr>))
    (w_db w\<lparr>glossary_terms := snd (tbl_insert (new_term b) (glossary_terms (w_db w)))\<rparr>) w (outcome (create_term b w))"
proof (cases "find_key gt_name (gc_name b) (glossary_terms (w_db w))")
  case None
  let ?G = "gc_classification_id b \<notin> {None, Some 0} \<and>
    session_get cls_id (the (gc_classification_id b)) (classifications (w_db w)) = None"
  let ?db = "w_db w\<lparr>glossary_terms := snd (tbl_insert (new_term b) (glossary_terms (w_db w)))\<rparr>"
  show ?thesis
  proof (cases ?G)
    case True
    then show ?thesis using None
      by (intro exI[of _ False]) (auto simp: create_term_def one_by_name[OF assms] did_simps Let_def)
  next
    case False
    then have "create_term b w = (case db_flush ?db of Inl err \<Rightarrow> (Inl err, w)
      | Inr db1 \<Rightarrow> commit db1 (enrich_term (fst (tbl_insert (new_term b) (glossary_terms (w_db w))))
          (term_classification db1 (fst (tbl_insert (new_term b) (glossary_terms (w_db w))))))
          (invalidate policy_cache_prefix w))"
      using None unfolding create_term_def Let_def one_by_name[OF assms] if_not_P[OF False]
      by (simp add: split_beta)
    then show ?thesis
      using None by (intro exI[of _ True]) (simp add: did_flush frame_simps)
  qed
next
  case (Some c)
  then show ?thesis by (simp add: create_term_def one_by_name[OF assms] did_simps Let_def)
qed

lemma update_term_did:
  assumes "schema_ok (w_db w)"
  shows "\<exists>t. did (find_key gt_name n (glossary_terms (w_db w)) = Some t \<and>
      schema_ok (w_db w\<lparr>glossary_terms := tbl_replace gt_id (patch_term b t) (glossary_terms (w_db w))\<rparr>))
    (w_db w\<lparr>glossary_terms := tbl_replace gt_id (patch_term b t) (glossary_terms (w_db w))\<rparr>) w
    (outcome (update_term n b w))"
  using did_commit[of "invalidate policy_cache_prefix w" w]
  by (intro exI[of _ "the (find_key gt_name n (glossary_terms (w_db w)))"],
      cases "find_key gt_name n (glossary_terms (w_db w))")
    (simp_all add: update_term_def one_by_name[OF assms] did_simps frame_simps)

lemma delete_term_did:
  assumes "schema_ok (w_db w)"
  shows "\<exists>t. did (find_key gt_name n (glossary_terms (w_db w)) = Some t \<and> schema_ok (drop_term (gt_id t) (w_db w)))
    (drop_term (gt_id t) (w_db w)) w (outcome (delete_term n w))"
  using did_commit[of "invalidate policy_cache_prefix w" w]
  by (intro exI[of _ "the (find_key gt_name n (glossary_terms (w_db w)))"],
      cases "find_key gt_name n (glossary_terms (w_db w))")
    (simp_all add: delete_term_def one_by_name[OF assms] did_simps frame_simps)

interpretation gt: named_resource "\<lambda>w :: world. schema_ok (w_db w)"
  "\<lambda>w. key_map gt_name (glossary_terms (w_db w))" gc_name
  "\<lambda>b w. outcome (create_term b w)" "\<lambda>n b w. outcome (update_term n b w)"
  "\<lambda>n w. outcome (delete_term n w)"
proof (rule named_resource_by_did[where ident = gt_id and mk = new_term and pat = patch_term])
  fix w :: world and b n u
  assume ok: "schema_ok (w_db w)"
  show "\<exists>P db. did (find_key gt_name (gc_name b) (glossary_terms (w_db w)) = None \<and> P \<and> schema_ok db) db w
      (outcome (create_term b w)) \<and> glossary_terms db = snd (tbl_insert (new_term b) (glossary_terms (w_db w)))"
    using create_term_did[OF ok, of b] by force
  show "\<exists>x db. did (find_key gt_name n (glossary_terms (w_db w)) = Some x \<and> schema_ok db) db w
      (outcome (update_term n u w)) \<and> glossary_terms db = tbl_replace gt_id (patch_term u x) (glossary_terms (w_db w))"
    using update_term_did[OF ok, of n u] by force
  show "\<exists>x db. did (find_key gt_name n (glossary_terms (w_db w)) = Some x \<and> schema_ok db) db w
      (outcome (delete_term n w)) \<and> glossary_terms db = tbl_delete gt_id (gt_id x) (glossary_terms (w_db w))"
    using delete_term_did[OF ok, of n] by (force simp: drop_term_def)
qed (simp_all add: new_term_def patch_term_def schema_okD)

text \<open>Masking algorithms.\<close>

lemma create_algorithm_did:
  assumes "schema_ok (w_db w)"
  shows "did (find_key ma_name (ac_name b) (masking_algorithms (w_db w)) = None \<and>
      schema_ok (w_db w\<lparr>masking_algorithms := snd (tbl_insert (new_algorithm b) (masking_algorithms (w_db w)))\<rparr>))
    (w_db w\<lparr>masking_algorithms := snd (tbl_insert (new_algorithm b) (masking_algorithms (w_db w)))\<rparr>) w
    (outcome (create_algorithm b w))"
  using did_flush[of w w]
  by (cases "find_key ma_name (ac_name b) (masking_algorithms (w_db w))")
    (simp_all add: create_algorithm_def one_by_name[OF assms] did_simps split_beta)

lemma update_algorithm_did:
  assumes "schema_ok (w_db w)"
  shows "\<exists>a. did (find_key ma_name n (masking_algorithms (w_db w)) = Some a \<and>
      schema_ok (w_db w\<lparr>masking_algorithms := tbl_replace ma_id (patch_algorithm b a) (masking_algorithms (w_db w))\<rparr>))
    (w_db w\<lparr>masking_algorithms := tbl_replace ma_id (patch_algorithm b a) (masking_algorithms (w_db w))\<rparr>) w
    (outcome (update_algorithm n b w))"
  using did_commit[of "invalidate policy_cache_prefix w" w]
  by (intro exI[of _ "the (find_key ma_name n (masking_algorithms (w_db w)))"],
      cases "find_key ma_name n (masking_algorithms (w_db w))")
    (simp_all add: update_algorithm_def one_by_name[OF assms] did_simps frame_simps)

lemma delete_algorithm_did:
  assumes "schema_ok (w_db w)"
  shows "\<exists>a. did (find_key ma_name n (masking_algorithms (w_db w)) = Some a \<and>
      schema_ok (drop_algorithm (ma_id a) (w_db w))) (drop_algorithm (ma_id a) (w_db w)) w (outcome (delete_algorithm n w))"
  using did_commit[of "invalidate policy_cache_prefix w" w]
  by (intro exI[of _ "the (find_key ma_name n (masking_algorithms (w_db w)))"],
      cases "find_key ma_name n (masking_algorithms (w_db w))")
    (simp_all add: delete_algorithm_def one_by_name[OF assms] did_simps frame_simps)

interpretation ma: named_resource "\<lambda>w :: world. schema_ok (w_db w)"
  "\<lambda>w. key_map ma_name (masking_algorithms (w_db w))" ac_name
  "\<lambda>b w. outcome (create_algorithm b w)" "\<lambda>n b w. outcome (update_algorithm n b w)"
  "\<lambda>n w. outcome (delete_algorithm n w)"
proof (rule named_resource_by_did[where ident = ma_id and mk = new_algorithm and pat = patch_algorithm])
  fix w :: world and b n u
  assume ok: "schema_ok (w_db w)"
  show "\<exists>P db. did (find_key ma_name (ac_name b) (masking_algorithms (w_db w)) = None \<and> P \<and> schema_ok db) db w
      (outcome (create_algorithm b w)) \<and> masking_algorithms db = snd (tbl_insert (new_algorithm b) (masking_algorithms (w_db w)))"
    using create_algorithm_did[OF ok, of b] by (intro exI[of _ True]) force
  show "\<exists>x db. did (find_key ma_name n (masking_algorithms (w_db w)) = Some x \<and> schema_ok db) db w
      (outcome (update_algorithm n u w)) \<and> masking_algorithms db = tbl_replace ma_id (patch_algorithm u x) (masking_algorithms (w_db w))"
    using update_algorithm_did[OF ok, of n u] by force
  show "\<exists>x db. did (find_key ma_name n (masking_algorithms (w_db w)) = Some x \<and> schema_ok db) db w
      (outcome (delete_algorithm n w)) \<and> masking_algorithms db = tbl_delete ma_id (ma_id x) (masking_algorithms (w_db w))"
    using delete_algorithm_did[OF ok, of n] by (force simp: drop_algorithm_def)
qed (simp_all add: new_algorithm_def patch_algorithm_def schema_okD)

text \<open>Masking policies.\<close>

lemma create_policy_did:
  assumes "schema_ok (w_db w)"
  shows "did (find_key mp_name (pc_name b) (masking_policies (w_db w)) = None \<and>
      session_get ma_id (pc_algorithm_id b) (masking_algorithms (w_db w)) \<noteq> None \<and>
      schema_ok (w_db w\<lparr>masking_policies := snd (tbl_insert (new_policy b) (masking_policies (w_db w)))\<rparr>))
    (w_db w\<lparr>masking_policies := snd (tbl_insert (new_policy b) (masking_policies (w_db w)))\<rparr>) w
    (outcome (create_policy b w))"
  using did_flush[of "invalidate policy_cache_prefix w" w]
  by (cases "find_key mp_name (pc_name b) (masking_policies (w_db w))";
      cases "session_get ma_id (pc_algorithm_id b) (masking_algorithms (w_db w))")
    (simp_all add: create_policy_def one_by_name[OF assms] did_simps split_beta Let_def frame_simps)

lemma update_policy_did:
  assumes "schema_ok (w_db w)"
  shows "\<exists>p. did (find_key mp_name n (masking_policies (w_db w)) = Some p \<and>
      schema_ok (w_db w\<lparr>masking_policies := tbl_replace mp_id (patch_policy b p) (masking_policies (w_db w))\<rparr>))
    (w_db w\<lparr>masking_policies := tbl_replace mp_id (patch_policy b p) (masking_policies (w_db w))\<rparr>) w
    (outcome (update_policy n b w))"
  using did_commit[of "invalidate policy_cache_prefix w" w]
  by (intro exI[of _ "the (find_key mp_name n (masking_policies (w_db w)))"],
      cases "find_key mp_name n (masking_policies (w_db w))")
    (simp_all add: update_policy_def one_by_name[OF assms] did_simps frame_simps)

lemma delete_policy_did:
  assumes "schema_ok (w_db w)"
  shows "\<exists>p. did (find_key mp_name n (masking_policies (w_db w)) = Some p \<and>
      schema_ok (w_db w\<lparr>masking_policies := tbl_delete mp_id (mp_id p) (masking_policies (w_db w))\<rparr>))
    (w_db w\<lparr>masking_policies := tbl_delete mp_id (mp_id p) (masking_policies (w_db w))\<rparr>) w (outcome (delete_policy n w))"
  using did_commit[of "invalidate policy_cache_prefix w" w]
  by (intro exI[of _ "the (find_key mp_name n (masking_policies (w_db w)))"],
      cases "find_key mp_name n (masking_policies (w_db w))")
    (simp_all add: delete_policy_def one_by_name[OF assms] did_simps frame_simps)

interpretation mp: named_resource "\<lambda>w :: world. schema_ok (w_db w)"
  "\<lambda>w. key_map mp_name (masking_policies (w_db w))" pc_name
  "\<lambda>b w. outcome (create_policy b w)" "\<lambda>n b w. outcome (update_policy n b w)"
  "\<lambda>n w. outcome (delete_policy n w)"
proof (rule named_resource_by_did[where ident = mp_id and mk = new_policy and pat = patch_policy])
  fix w :: world and b n u
  assume ok: "schema_ok (w_db w)"
  show "\<exists>P db. did (find_key mp_name (pc_name b) (masking_policies (w_db w)) = None \<and> P \<and> schema_ok db) db w
      (outcome (create_policy b w)) \<and> masking_policies db = snd (tbl_insert (new_policy b) (masking_policies (w_db w)))"
    using create_policy_did[OF ok, of b] by force
  show "\<exists>x db. did (find_key mp_name n (masking_policies (w_db w)) = Some x \<and> schema_ok db) db w
      (outcome (update_policy n u w)) \<and> masking_policies db = tbl_replace mp_id (patch_policy u x) (masking_policies (w_db w))"
    using update_policy_did[OF ok, of n u] by force
  show "\<exists>x db. did (find_key mp_name n (masking_policies (w_db w)) = Some x \<and> schema_ok db) db w
      (outcome (delete_policy n w)) \<and> masking_policies db = tbl_delete mp_id (mp_id x) (masking_policies (w_db w))"
    using delete_policy_did[OF ok, of n] by force
qed (simp_all add: new_policy_def patch_policy_def schema_okD)

section \<open>Deleting a classification\<close>

lemma tbl_ok_map_rows:
  assumes "tbl_ok ident key t" and "\<And>x. ident (f x) = ident x" and "\<And>x. key (f x) = key x"
  shows "tbl_ok ident key (map_rows f t)"
  using assms by (auto simp: tbl_ok_def map_rows_def comp_def)

lemma fk_delete: "fk ident (tbl_delete ident i t) j \<longleftrightarrow> fk ident t j \<and> j \<noteq> i"
  by (auto simp: fk_def row_simps)

lemma fk_null_ref: "fk_opt ident t r \<Longrightarrow> fk_opt ident (tbl_delete ident i t) (null_ref i r)"
  by (auto simp: fk_opt_def null_ref_def fk_delete split: option.splits)

text \<open>The rows that make the deletion fail: policies of the classification, and exceptions.\<close>

definition classification_in_use :: "catalog \<Rightarrow> int \<Rightarrow> bool" where
  "classification_in_use db i \<longleftrightarrow>
     (\<exists>p \<in> set (tbl_rows (masking_policies db)). mp_classification_id p = Some i) \<or>
     (\<exists>x \<in> set (tbl_rows (role_exceptions db)). re_classification_id x = i)"

lemma drop_classification_frame:
  "masking_algorithms (drop_classification i db) = masking_algorithms db"
  "role_exceptions (drop_classification i db) = role_exceptions db"
  "governance_databases (drop_classification i db) = governance_databases db"
  "view_manifests (drop_classification i db) = view_manifests db"
  by (simp_all add: drop_classification_def)

lemma policies_ok_drop:
  assumes "policies_ok db" and "\<forall>p \<in> set (tbl_rows (masking_policies db)). mp_classification_id p \<noteq> Some i"
  shows "policies_ok (drop_classification i db)"
proof -
  let ?f = "\<lambda>p. p\<lparr>mp_classification_id := null_ref i (mp_classification_id p)\<rparr>"
  have "map ?f (tbl_rows (masking_policies db)) = tbl_rows (masking_policies db)"
    using assms(2) by (intro map_idI) (simp add: null_ref_def)
  then have pol: "masking_policies (drop_classification i db) = masking_policies db"
    by (simp add: drop_classification_def map_rows_def)
  have terms: "gt_id ` set (tbl_rows (glossary_terms (drop_classification i db))) =
      gt_id ` set (tbl_rows (glossary_terms db))"
    by (force simp: drop_classification_def map_rows_def image_image)
  have cls: "classifications (drop_classification i db) = tbl_delete cls_id i (classifications db)"
    by (simp add: drop_classification_def)
  show ?thesis
    unfolding policies_ok_def pol
  proof (intro conjI ballI)
    show "tbl_ok mp_id mp_name (masking_policies db)" using assms(1) by (simp add: policies_ok_def)
    fix p assume p: "p \<in> set (tbl_rows (masking_policies db))"
    show "ck_policy_single_target p" using assms(1) p by (simp add: policies_ok_def)
    show "fk ma_id (masking_algorithms (drop_classification i db)) (mp_algorithm_id p)"
      using assms(1) p by (simp add: policies_ok_def drop_classification_frame)
    show "fk_opt cls_id (classifications (drop_classification i db)) (mp_classification_id p)"
      using assms p unfolding cls by (auto simp: policies_ok_def fk_opt_def fk_delete split: option.splits)
    have "fk_opt gt_id (glossary_terms db) (mp_glossary_term_id p)"
      using assms(1) p by (simp add: policies_ok_def)
    then show "fk_opt gt_id (glossary_terms (drop_classification i db)) (mp_glossary_term_id p)"
      unfolding fk_opt_def fk_def terms .
  qed
qed

lemma terms_ok_drop: "terms_ok db \<Longrightarrow> terms_ok (drop_classification i db)"
  using fk_null_ref[of cls_id "classifications db"]
  by (auto simp: terms_ok_def drop_classification_def map_rows_def comp_def tbl_ok_def)

lemma tags_ok_drop:
  assumes "tags_ok db"
  shows "tags_ok (drop_classification i db)"
proof -
  have terms: "gt_id ` set (tbl_rows (glossary_terms (drop_classification i db))) =
      gt_id ` set (tbl_rows (glossary_terms db))"
    by (force simp: drop_classification_def map_rows_def image_image)
  have "fk_opt gt_id (glossary_terms (drop_classification i db)) r \<longleftrightarrow> fk_opt gt_id (glossary_terms db) r" for r
    unfolding fk_opt_def fk_def terms ..
  moreover have "tbl_ok ct_id ct_key (column_tags (drop_classification i db))"
    using assms by (simp add: tags_ok_def drop_classification_def tbl_ok_map_rows ct_key_def)
  ultimately show ?thesis
    using assms fk_null_ref[of cls_id "classifications db"]
    unfolding tags_ok_def by (auto simp: drop_classification_def map_rows_def)
qed

lemma schema_ok_drop_iff:
  assumes "schema_ok db"
  shows "schema_ok (drop_classification i db) \<longleftrightarrow> \<not> classification_in_use db i"
proof
  assume ok: "schema_ok (drop_classification i db)"
  show "\<not> classification_in_use db i"
  proof
    assume "classification_in_use db i"
    then show False unfolding classification_in_use_def
    proof
      assume "\<exists>p \<in> set (tbl_rows (masking_policies db)). mp_classification_id p = Some i"
      then obtain p where p: "p \<in> set (tbl_rows (masking_policies db))" "mp_classification_id p = Some i" ..
      have "ck_policy_single_target p" using assms p(1) by (simp add: schema_ok_def policies_ok_def)
      moreover have "ck_policy_single_target (p\<lparr>mp_classification_id := None\<rparr>)"
        using ok p by (force simp: schema_ok_def policies_ok_def drop_classification_def map_rows_def null_ref_def)
      ultimately show False using p(2) by (auto simp: ck_policy_single_target_def)
    next
      assume "\<exists>x \<in> set (tbl_rows (role_exceptions db)). re_classification_id x = i"
      then show False
        using ok by (auto simp: schema_ok_def exceptions_ok_def drop_classification_def fk_delete)
    qed
  qed
next
  assume free: "\<not> classification_in_use db i"
  have pol: "policies_ok (drop_classification i db)"
    using assms free by (intro policies_ok_drop) (auto simp: schema_ok_def classification_in_use_def)
  have exc: "exceptions_ok (drop_classification i db)"
    using assms free by (auto simp: schema_ok_def exceptions_ok_def classification_in_use_def
      drop_classification_def fk_delete)
  show "schema_ok (drop_classification i db)"
    using assms pol exc terms_ok_drop tags_ok_drop tbl_ok_delete
    by (auto simp: schema_ok_def drop_classification_frame) (auto simp: drop_classification_def row_simps)
qed

section \<open>Properties\<close>

lemma fst_outcome [simp]: "fst (outcome r) = is_ok (fst r)" and snd_outcome [simp]: "snd (outcome r) = snd r"
  by (simp_all add: outcome_def)

text \<open>
  Deleting a classification succeeds exactly when no policy targets it and no role has
  an exception for it; otherwise the answer is 500 and nothing in the tables changes,
  although the schema declares ON DELETE CASCADE for both. On success the terms and the tags that
  referred to it keep every other field and refer to no classification.
\<close>

theorem delete_classification_correct:
  assumes "schema_ok (w_db w)" and "find_key cls_name n (classifications (w_db w)) = Some c"
  shows "if classification_in_use (w_db w) (cls_id c)
    then \<exists>w'. delete_classification n w = (Inl internal_error, w') \<and> w_db w' = w_db w
    else \<exists>msg w'. delete_classification n w = (Inr msg, w') \<and> schema_ok (w_db w') \<and>
      find_key cls_name n (classifications (w_db w')) = None \<and>
      masking_policies (w_db w') = masking_policies (w_db w) \<and>
      tbl_rows (column_tags (w_db w')) = map (\<lambda>t. if ct_classification_id t = Some (cls_id c)
        then t\<lparr>ct_classification_id := None\<rparr> else t) (tbl_rows (column_tags (w_db w)))"
proof -
  have eq: "delete_classification n w = commit (drop_classification (cls_id c) (w_db w))
      (deleted_message ''Classification'' n) (invalidate policy_cache_prefix w)"
    using assms by (simp add: delete_classification_def one_by_name)
  show ?thesis
  proof (cases "classification_in_use (w_db w) (cls_id c)")
    case True
    then show ?thesis
      using eq schema_ok_drop_iff[OF assms(1), of "cls_id c"]
      by (simp add: commit_def db_flush_def frame_simps)
  next
    case False
    let ?db = "drop_classification (cls_id c) (w_db w)"
    have ok: "schema_ok ?db" using False schema_ok_drop_iff[OF assms(1)] by simp
    have gone: "find_key cls_name n (classifications ?db) = None"
      using find_key_delete[OF schema_okD(1)[OF assms(1)] assms(2)] by (simp add: drop_classification_def)
    have "map (\<lambda>p. p\<lparr>mp_classification_id := null_ref (cls_id c) (mp_classification_id p)\<rparr>)
        (tbl_rows (masking_policies (w_db w))) = tbl_rows (masking_policies (w_db w))"
      using False by (intro map_idI) (auto simp: null_ref_def classification_in_use_def)
    then have pol: "masking_policies ?db = masking_policies (w_db w)"
      by (simp add: drop_classification_def map_rows_def)
    have tags: "tbl_rows (column_tags ?db) = map (\<lambda>t. if ct_classification_id t = Some (cls_id c)
        then t\<lparr>ct_classification_id := None\<rparr> else t) (tbl_rows (column_tags (w_db w)))"
      by (simp add: drop_classification_def map_rows_def null_ref_def)
    show ?thesis using False eq ok gone pol tags by simp
  qed
qed

theorem delete_classification_correct_witness:
  "(\<exists>w'. delete_classification ''PII'' demo_world = (Inl internal_error, w')) \<and>
   (\<exists>msg w'. delete_classification ''PCI'' demo_world = (Inr msg, w') \<and> schema_ok (w_db w'))"
proof -
  have pii: "find_key cls_name ''PII'' (classifications (w_db demo_world)) = Some pii_class"
    and pci: "find_key cls_name ''PCI'' (classifications (w_db demo_world)) = Some pci_class"
    by (simp_all add: find_key_def demo_defs)
  have use: "classification_in_use (w_db demo_world) (cls_id pii_class)"
    and free: "\<not> classification_in_use (w_db demo_world) (cls_id pci_class)"
    by (simp_all add: classification_in_use_def demo_defs)
  show ?thesis
    using delete_classification_correct[OF demo_schema_ok(2) pii] delete_classification_correct[OF demo_schema_ok(2) pci]
      use free by auto
qed

text \<open>
  A policy that was created can be deleted again at once, which restores the map of
  policies by name, and cannot be created a second time: that is refused with 409 and
  changes nothing.
\<close>

theorem create_delete_policy_roundtrip:
  assumes "schema_ok (w_db w)" and "create_policy b w = (Inr out, w1)"
  shows "(\<exists>msg w2. delete_policy (pc_name b) w1 = (Inr msg, w2) \<and>
      key_map mp_name (masking_policies (w_db w2)) = key_map mp_name (masking_policies (w_db w))) \<and>
    create_policy b w1 = (Inl (already_exists ''Policy'' (pc_name b)), w1)"
proof -
  have c: "fst (outcome (create_policy b w))" and w1: "snd (outcome (create_policy b w)) = w1"
    using assms(2) by simp_all
  have ok1: "schema_ok (w_db w1)" using mp.create_ok[OF assms(1), of b] w1 by simp
  obtain p where p: "find_key mp_name (pc_name b) (masking_policies (w_db w1)) = Some p"
    using mp.create_done[OF assms(1) c] unfolding w1 by (metis fun_upd_same)
  have "schema_ok (w_db w1\<lparr>masking_policies := tbl_delete mp_id (mp_id p) (masking_policies (w_db w1))\<rparr>)"
    using ok1 tbl_ok_delete[OF schema_okD(4)[OF ok1]]
    by (auto simp: schema_ok_def policies_ok_def terms_ok_def tags_ok_def exceptions_ok_def row_simps)
  then obtain msg w2 where d: "delete_policy (pc_name b) w1 = (Inr msg, w2)"
    using p ok1 by (simp add: delete_policy_def one_by_name commit_def db_flush_def frame_simps)
  have "key_map mp_name (masking_policies (w_db w2)) = key_map mp_name (masking_policies (w_db w))"
    using mp.create_then_delete[OF assms(1) c] d unfolding w1 by simp
  moreover have "create_policy b w1 = (Inl (already_exists ''Policy'' (pc_name b)), w1)"
    using p ok1 by (simp add: create_policy_def one_by_name Let_def)
  ultimately show ?thesis using d by blast
qed

definition pci_policy_request :: policy_create where
  "pci_policy_request = \<lparr>pc_name = ''pci_default'', pc_description = None, pc_classification_id = Some 2,
     pc_glossary_term_id = None, pc_algorithm_id = 1, pc_priority = 10, pc_enabled = True\<rparr>"

theorem create_delete_policy_roundtrip_witness:
  "\<exists>out w1 msg w2. create_policy pci_policy_request demo_world = (Inr out, w1) \<and>
     delete_policy ''pci_default'' w1 = (Inr msg, w2) \<and>
     key_map mp_name (masking_policies (w_db w2)) = key_map mp_name (masking_policies demo_db)"
proof -
  let ?db = "demo_db\<lparr>masking_policies := snd (tbl_insert (new_policy pci_policy_request) (masking_policies demo_db))\<rparr>"
  have ok: "schema_ok ?db"
    using demo_schema_ok(1) by (simp add: schema_defs tbl_ok_def row_simps new_policy_def pci_policy_request_def
        pc_term_def ck_policy_single_target_def demo_db_def pii_class_def pci_class_def sha_algorithm_def pii_policy_def)
  have w: "w_db demo_world = demo_db" by (simp add: demo_world_def)
  have "session_get ma_id (pc_algorithm_id pci_policy_request) (masking_algorithms demo_db) = Some sha_algorithm"
    by (simp add: session_get_def demo_db_def sha_algorithm_def pci_policy_request_def)
  moreover have "find_key mp_name (pc_name pci_policy_request) (masking_policies demo_db) = None"
    by (simp add: find_key_def demo_db_def pii_policy_def pci_policy_request_def)
  ultimately obtain out w1 where c: "create_policy pci_policy_request demo_world = (Inr out, w1)"
    using ok by (simp add: create_policy_def one_by_name[OF demo_schema_ok(1)] w split_beta Let_def db_flush_def)
  from create_delete_policy_roundtrip[OF demo_schema_ok(2) c] c show ?thesis
    by (simp add: w) (simp add: pci_policy_request_def)
qed

text \<open>
  A request for a policy that names no target at all passes its validator, because the
  rule "exactly one target" is attached to a field the request leaves out; the database
  then refuses the row, and the client is answered 500 instead of 422.
\<close>

theorem policy_without_target_is_500:
  assumes "schema_ok (w_db w)" and "pc_classification_id b = None" and "pc_glossary_term_id b = None"
    and "class_plus (lower_chars @ digit_chars @ ''_-'') 80 (pc_name b)"
    and "find_key mp_name (pc_name b) (masking_policies (w_db w)) = None"
    and "session_get ma_id (pc_algorithm_id b) (masking_algorithms (w_db w)) \<noteq> None"
  shows "valid_policy_create b \<and> create_policy b w = (Inl internal_error, w)"
proof -
  let ?db = "w_db w\<lparr>masking_policies := snd (tbl_insert (new_policy b) (masking_policies (w_db w)))\<rparr>"
  have "\<not> ck_policy_single_target (new_policy b i)" for i
    using assms(2,3) by (simp add: ck_policy_single_target_def new_policy_def pc_term_def)
  then have "\<not> schema_ok ?db" by (auto simp: schema_ok_def policies_ok_def row_simps)
  then have "create_policy b w = (Inl internal_error, w)"
    using assms(1,5,6) by (auto simp: create_policy_def one_by_name Let_def split_beta db_flush_def)
  then show ?thesis using assms(2-4) by (simp add: valid_policy_create_def)
qed

theorem policy_without_target_is_500_witness:
  "valid_policy_create (pci_policy_request\<lparr>pc_classification_id := None\<rparr>) \<and>
   create_policy (pci_policy_request\<lparr>pc_classification_id := None\<rparr>) demo_world = (Inl internal_error, demo_world)"
  by (rule policy_without_target_is_500, rule demo_schema_ok(2))
    (simp_all add: pci_policy_request_def class_plus_def lower_chars_def digit_chars_def find_key_def
      session_get_def demo_defs)

text \<open>
  Patching the algorithm of a policy answers with the new \<^verbatim>\<open>algorithm_id\<close> next to the
  name of the old algorithm; a read after it has the new name.
\<close>

theorem update_policy_reports_old_algorithm:
  assumes "schema_ok (w_db w)" and "update_policy n b w = (Inr out, w')" and "pu_algorithm_id b = Some a"
  shows "\<exists>p new. find_key mp_name n (masking_policies (w_db w)) = Some p \<and> mp_algorithm_id out = a \<and>
    po_algorithm_name out = map_option ma_name (policy_algorithm (w_db w) p) \<and>
    get_policy (w_db w') n = Inr new \<and> mp_algorithm_id new = a \<and>
    po_algorithm_name new = map_option ma_name (session_get ma_id a (masking_algorithms (w_db w)))"
proof -
  obtain p where p: "find_key mp_name n (masking_policies (w_db w)) = Some p"
    using assms(1,2) by (cases "find_key mp_name n (masking_policies (w_db w))")
      (auto simp: update_policy_def one_by_name)
  let ?p = "patch_policy b p"
  let ?db = "w_db w\<lparr>masking_policies := tbl_replace mp_id ?p (masking_policies (w_db w))\<rparr>"
  have u: "(Inr out, w') = commit ?db (enrich_policy ?p (policy_algorithm (w_db w) p)) (invalidate policy_cache_prefix w)"
    using assms(1,2) p by (simp add: update_policy_def one_by_name)
  then have ok: "schema_ok ?db" and db': "w_db w' = ?db" and out: "out = enrich_policy ?p (policy_algorithm (w_db w) p)"
    by (auto simp: commit_def db_flush_def split: if_splits)
  have alg: "mp_algorithm_id ?p = a" using assms(3) by (simp add: patch_policy_def patch_def)
  have "mp_id ?p = mp_id p" "mp_name ?p = mp_name p" by (simp_all add: patch_policy_def)
  from key_map_replace[OF schema_okD(4)[OF assms(1)] p this]
  have "find_key mp_name n (masking_policies ?db) = Some ?p" by (simp add: fun_eq_iff)
  then have "scalar_one_or_none (\<lambda>p. mp_name p = n) (masking_policies ?db) = Inr (Some ?p)"
    using one_by_name(4)[OF ok, of n] by simp
  then have "get_policy (w_db w') n = Inr (enrich_policy ?p (policy_algorithm ?db ?p))"
    by (simp add: get_policy_def db')
  then show ?thesis
    using p out alg by (simp add: enrich_policy_def masking_policy.defs policy_algorithm_def)
qed

definition null_out_algorithm :: masking_algorithm where
  "null_out_algorithm = sha_algorithm\<lparr>ma_id := 2, ma_name := ''NULL_OUT''\<rparr>"

theorem update_policy_reports_old_algorithm_witness:
  "\<exists>out w' new. update_policy ''pii_default'' \<lparr>pu_description = None, pu_algorithm_id = Some 2, pu_priority = None,
      pu_enabled = None\<rparr>
      (demo_world\<lparr>w_db := demo_db\<lparr>masking_algorithms := \<lparr>tbl_rows = [sha_algorithm, null_out_algorithm], tbl_next = 3\<rparr>\<rparr>\<rparr>)
      = (Inr out, w') \<and> mp_algorithm_id out = 2 \<and> po_algorithm_name out = Some ''SHA256_HASH'' \<and>
    get_policy (w_db w') ''pii_default'' = Inr new \<and> po_algorithm_name new = Some ''NULL_OUT''"
proof -
  let ?b = "\<lparr>pu_description = None, pu_algorithm_id = Some 2, pu_priority = None, pu_enabled = None\<rparr>"
  let ?db = "demo_db\<lparr>masking_algorithms := \<lparr>tbl_rows = [sha_algorithm, null_out_algorithm], tbl_next = 3\<rparr>\<rparr>"
  let ?w = "demo_world\<lparr>w_db := ?db\<rparr>"
  let ?db2 = "?db\<lparr>masking_policies := \<lparr>tbl_rows = [pii_policy\<lparr>mp_algorithm_id := 2\<rparr>], tbl_next = 2\<rparr>\<rparr>"
  have ok: "schema_ok ?db" "schema_ok ?db2"
    using demo_schema_ok(1) by (simp_all add: schema_defs tbl_ok_def null_out_algorithm_def demo_db_def
      ck_policy_single_target_def sha_algorithm_def pii_policy_def algorithm_types_def)
  have p: "find_key mp_name ''pii_default'' (masking_policies ?db) = Some pii_policy"
    by (simp add: find_key_def demo_db_def pii_policy_def)
  have t: "tbl_replace mp_id (patch_policy ?b pii_policy) (masking_policies ?db) =
      \<lparr>tbl_rows = [pii_policy\<lparr>mp_algorithm_id := 2\<rparr>], tbl_next = 2\<rparr>"
    by (simp add: tbl_replace_def demo_db_def patch_policy_def patch_def patch_opt_def pii_policy_def)
  have one: "scalar_one_or_none (\<lambda>p. mp_name p = ''pii_default'') (masking_policies ?db) = Inr (Some pii_policy)"
    using one_by_name(4)[OF ok(1)] p by simp
  have "update_policy ''pii_default'' ?b ?w = commit ?db2 (enrich_policy (patch_policy ?b pii_policy)
      (policy_algorithm ?db pii_policy)) (invalidate policy_cache_prefix ?w)"
    using one t by (simp add: update_policy_def)
  then obtain out w' where u: "update_policy ''pii_default'' ?b ?w = (Inr out, w')"
    using ok(2) by simp
  have ok': "schema_ok (w_db ?w)" using ok(1) by simp
  have b: "pu_algorithm_id ?b = Some 2" by simp
  have names: "map_option ma_name (policy_algorithm (w_db ?w) pii_policy) = Some ''SHA256_HASH''"
    "map_option ma_name (session_get ma_id 2 (masking_algorithms (w_db ?w))) = Some ''NULL_OUT''"
    by (simp_all add: policy_algorithm_def session_get_def pii_policy_def sha_algorithm_def null_out_algorithm_def)
  have p': "find_key mp_name ''pii_default'' (masking_policies (w_db ?w)) = Some pii_policy" using p by simp
  from update_policy_reports_old_algorithm[OF ok' u b] u show ?thesis
    unfolding p' names by (metis names(1) option.inject)
qed

end
