(* ===== verification/Access_Scopes.thy ===== *)
theory Access_Scopes
  imports Catalog_Schema
begin

text \<open>
  Who may do what: the token checks of \<^verbatim>\<open>catalog/middleware/auth.py\<close> and the exchange of
  the master token for a JWT, \<^verbatim>\<open>catalog/routers/auth.py\<close>. The JWT library is not part of
  the repository: \<open>jwt_lib\<close> holds its two functions over an abstract type of tokens, and
  \<open>jwt_lawful\<close> states the one documented law the catalog relies on.
\<close>

section \<open>Tokens\<close>

text \<open>
  The value under \<^verbatim>\<open>"scopes"\<close> in a decoded payload. Python's \<^verbatim>\<open>in\<close> is membership on a list
  and substring search on a string, and raises on a number or null.
\<close>

datatype scopes_claim = No_Scopes | Scope_List "string list" | Scope_Text string | Scope_Other

record jwt_payload =
  pl_sub :: string
  pl_scopes :: scopes_claim
  pl_exp :: int

datatype jwt_reply = Decoded jwt_payload | Expired_Signature | Invalid_Token

record 'tok jwt_lib =
  jwt_encode :: "jwt_payload \<Rightarrow> string \<Rightarrow> string \<Rightarrow> 'tok"
  jwt_decode :: "int \<Rightarrow> 'tok \<Rightarrow> string \<Rightarrow> string list \<Rightarrow> jwt_reply"

definition jwt_lawful :: "'tok jwt_lib \<Rightarrow> bool" where
  "jwt_lawful j \<longleftrightarrow> (\<forall>p secret alg algs now. alg \<in> set algs \<longrightarrow>
     jwt_decode j now (jwt_encode j p secret alg) secret algs =
       (if now < pl_exp p then Decoded p else Expired_Signature))"

section \<open>The middleware\<close>

definition unauthorized :: "string \<Rightarrow> http_error" where
  "unauthorized msg = HTTPException 401 msg"

definition forbidden :: "string \<Rightarrow> http_error" where
  "forbidden msg = HTTPException 403 msg"

definition decode_token :: "'tok jwt_lib \<Rightarrow> settings \<Rightarrow> int \<Rightarrow> 'tok \<Rightarrow> jwt_payload res" where
  "decode_token j st now tok = (case jwt_decode j now tok (jwt_secret st) [jwt_algorithm st] of
     Decoded p \<Rightarrow> Inr p
   | Expired_Signature \<Rightarrow> Inl (unauthorized ''Token expired'')
   | Invalid_Token \<Rightarrow> Inl (unauthorized ''Invalid token''))"

text \<open>\<^verbatim>\<open>any(s in scopes for s in wanted)\<close>.\<close>

definition scope_in :: "string list \<Rightarrow> scopes_claim \<Rightarrow> bool res" where
  "scope_in wanted claim = (case claim of
     No_Scopes \<Rightarrow> Inr False
   | Scope_List xs \<Rightarrow> Inr (list_ex (\<lambda>s. s \<in> set xs) wanted)
   | Scope_Text t \<Rightarrow> Inr (list_ex (\<lambda>s. contains s t) wanted)
   | Scope_Other \<Rightarrow> Inl internal_error)"

definition require_scope ::
  "string list \<Rightarrow> string \<Rightarrow> 'tok jwt_lib \<Rightarrow> settings \<Rightarrow> int \<Rightarrow> 'tok \<Rightarrow> jwt_payload res" where
  "require_scope wanted msg j st now tok = (case decode_token j st now tok of
     Inl err \<Rightarrow> Inl err
   | Inr p \<Rightarrow> (case scope_in wanted (pl_scopes p) of
       Inl err \<Rightarrow> Inl err
     | Inr True \<Rightarrow> Inr p
     | Inr False \<Rightarrow> Inl (forbidden msg)))"

definition require_read :: "'tok jwt_lib \<Rightarrow> settings \<Rightarrow> int \<Rightarrow> 'tok \<Rightarrow> jwt_payload res" where
  "require_read = require_scope [''read'', ''write'', ''admin''] ''Insufficient scope''"

definition require_write :: "'tok jwt_lib \<Rightarrow> settings \<Rightarrow> int \<Rightarrow> 'tok \<Rightarrow> jwt_payload res" where
  "require_write = require_scope [''write'', ''admin'']
     (''Insufficient scope '' @ em_dash @ '' write required'')"

definition require_admin :: "'tok jwt_lib \<Rightarrow> settings \<Rightarrow> int \<Rightarrow> 'tok \<Rightarrow> jwt_payload res" where
  "require_admin = require_scope [''admin'']
     (''Insufficient scope '' @ em_dash @ '' admin required'')"

section \<open>The token exchange\<close>

record 'tok token_out =
  to_access_token :: 'tok
  to_token_type :: string
  to_expires_in :: int

definition get_token :: "'tok jwt_lib \<Rightarrow> settings \<Rightarrow> int \<Rightarrow> string \<Rightarrow> 'tok token_out res" where
  "get_token j st now token =
     (if token \<noteq> master_token st then Inl (unauthorized ''Invalid token'')
      else Inr \<lparr>to_access_token = jwt_encode j
           \<lparr>pl_sub = ''admin'', pl_scopes = Scope_List [''read'', ''write'', ''admin''],
            pl_exp = now + jwt_expire_minutes st * 60\<rparr> (jwt_secret st) (jwt_algorithm st),
         to_token_type = ''bearer'', to_expires_in = jwt_expire_minutes st * 60\<rparr>)"

section \<open>Properties\<close>

lemma require_scope_mono:
  assumes "require_scope ws msg j st now tok = Inr p" and "set ws \<subseteq> set ws'"
  shows "require_scope ws' msg' j st now tok = Inr p"
proof -
  obtain q where q: "decode_token j st now tok = Inr q" "scope_in ws (pl_scopes q) = Inr True" "q = p"
    using assms(1) by (auto simp: require_scope_def split: sum.splits bool.splits)
  then have "scope_in ws' (pl_scopes q) = Inr True"
    using assms(2) by (auto simp: scope_in_def list_ex_iff split: scopes_claim.splits)
  with q show ?thesis by (simp add: require_scope_def)
qed

lemma scope_levels:
  "require_admin j st now tok = Inr p \<Longrightarrow> require_write j st now tok = Inr p"
  "require_write j st now tok = Inr p \<Longrightarrow> require_read j st now tok = Inr p"
  unfolding require_admin_def require_write_def require_read_def
  by (erule require_scope_mono, simp)+

text \<open>
  The token of the exchange opens every endpoint until the moment it expires, and none
  from then on; a wrong master token is answered 401 and gets no token.
\<close>

theorem token_exchange_correct:
  assumes "jwt_lawful j"
  shows "case get_token j st now token of
      Inl err \<Rightarrow> token \<noteq> master_token st \<and> status_code err = 401
    | Inr out \<Rightarrow> token = master_token st \<and>
        (if later < now + to_expires_in out
         then is_ok (require_admin j st later (to_access_token out)) \<and>
              is_ok (require_write j st later (to_access_token out)) \<and>
              is_ok (require_read j st later (to_access_token out))
         else require_read j st later (to_access_token out) = Inl (unauthorized ''Token expired''))"
proof (cases "token = master_token st")
  case True
  let ?p = "\<lparr>pl_sub = ''admin'', pl_scopes = Scope_List [''read'', ''write'', ''admin''],
    pl_exp = now + jwt_expire_minutes st * 60\<rparr>"
  let ?tok = "jwt_encode j ?p (jwt_secret st) (jwt_algorithm st)"
  have dec: "jwt_decode j later ?tok (jwt_secret st) [jwt_algorithm st] =
      (if later < now + jwt_expire_minutes st * 60 then Decoded ?p else Expired_Signature)"
    using assms by (simp add: jwt_lawful_def)
  have "require_admin j st later ?tok = Inr ?p" if "later < now + jwt_expire_minutes st * 60"
    using that dec by (simp add: require_admin_def require_scope_def decode_token_def scope_in_def)
  moreover note scope_levels
  ultimately show ?thesis
    using True dec
    by (auto simp: get_token_def require_read_def require_scope_def decode_token_def scope_in_def
        require_write_def require_admin_def)
qed (simp add: get_token_def unauthorized_def)

definition plain_jwt :: "(jwt_payload \<times> string \<times> string) jwt_lib" where
  "plain_jwt = \<lparr>jwt_encode = (\<lambda>p s a. (p, s, a)),
     jwt_decode = (\<lambda>now (p, s, a) secret algs. if s \<noteq> secret \<or> a \<notin> set algs then Invalid_Token
       else if now < pl_exp p then Decoded p else Expired_Signature)\<rparr>"

lemma plain_jwt_lawful: "jwt_lawful plain_jwt"
  by (simp add: jwt_lawful_def plain_jwt_def)

theorem token_exchange_correct_witness:
  "\<exists>out. get_token plain_jwt default_settings 0 ''changeme-catalog-master-token'' = Inr out \<and>
     is_ok (require_admin plain_jwt default_settings 86399 (to_access_token out)) \<and>
     \<not> is_ok (require_read plain_jwt default_settings 86400 (to_access_token out))"
proof -
  let ?t = "''changeme-catalog-master-token''"
  obtain out where out: "get_token plain_jwt default_settings 0 ?t = Inr out" "to_expires_in out = 86400"
    by (simp add: get_token_def default_settings_def)
  then show ?thesis
    using token_exchange_correct[OF plain_jwt_lawful,
        where st = default_settings and now = 0 and token = ?t and later = 86399]
      token_exchange_correct[OF plain_jwt_lawful,
        where st = default_settings and now = 0 and token = ?t and later = 86400] by auto
qed

end
