(* ===== verification/Catalog_Api.thy ===== *)
theory Catalog_Api
  imports Role_Exceptions Governance_Switch Column_Tags Catalog_Crud Access_Scopes
begin

text \<open>
  The service as a whole: one constructor of \<open>request\<close> per route the routers declare, the
  scope each route asks for, the validator of its body, and \<open>api_step\<close>, which checks them
  in the order FastAPI does (the dependency that decodes the token first, then the body)
  and runs the handler. A run of the service is a sequence of such steps, between which
  the outside services may change their answers.
\<close>

section \<open>Routes\<close>

record view_manifest_out =
  vo_database :: string
  vo_base_table :: string
  vo_view_name :: string
  vo_columns_masked :: "string list"
  vo_view_checksum :: "string option"

definition manifest_out :: "view_manifest \<Rightarrow> view_manifest_out" where
  "manifest_out m = \<lparr>vo_database = vm_database m, vo_base_table = vm_base_table m,
     vo_view_name = vm_view_name m, vo_columns_masked = vm_columns_masked m,
     vo_view_checksum = vm_view_checksum m\<rparr>"

definition list_view_manifests :: "catalog \<Rightarrow> string option \<Rightarrow> view_manifest_out list" where
  "list_view_manifests db database = map manifest_out (sort_key vm_key
     (filter (\<lambda>m. opt_filter database (vm_database m)) (tbl_rows (view_manifests db))))"

datatype request =
    List_Classifications | Get_Classification string | Create_Classification classification_create
  | Update_Classification string classification_update | Delete_Classification string
  | List_Terms | Get_Term string | Create_Term glossary_create
  | Update_Term string glossary_update | Delete_Term string
  | List_Algorithms | Get_Algorithm string | Create_Algorithm algorithm_create
  | Update_Algorithm string algorithm_update | Delete_Algorithm string
  | List_Policies | Get_Policy string | Create_Policy policy_create
  | Update_Policy string policy_update | Delete_Policy string
  | List_Column_Tags "string option" "string option" | Get_Column_Tag string string string
  | Create_Column_Tag column_tag_create | Delete_Column_Tag string string string
  | Scan_Columns scan_request
  | Apply_Masking apply_request | List_View_Manifests "string option" | Plan_Masked_Query query_request
  | List_Exceptions | Create_Exception exception_create | Delete_Exception int
  | List_Switches | Get_Switch string | Disable_Governance string disable_request
  | Enable_Governance string

datatype answer =
    A_Classifications "classification list" | A_Classification classification
  | A_Terms "glossary_term_out list" | A_Term glossary_term_out
  | A_Algorithms "masking_algorithm list" | A_Algorithm masking_algorithm
  | A_Policies "policy_out list" | A_Policy policy_out
  | A_Tags "column_tag_out list" | A_Tag column_tag_out
  | A_Scan "scan_table_result list" | A_Applied "(string \<times> apply_result) list"
  | A_Manifests "view_manifest_out list" | A_Query query_response
  | A_Exceptions "role_exception_out list" | A_Exception role_exception_out
  | A_Switches "governance_database list" | A_Switch governance_database
  | A_Ok string

datatype scope_level = Read | Write | Admin

fun required_scope :: "request \<Rightarrow> scope_level" where
  "required_scope (Create_Classification _) = Write"
| "required_scope (Update_Classification _ _) = Write"
| "required_scope (Delete_Classification _) = Admin"
| "required_scope (Create_Term _) = Write"
| "required_scope (Update_Term _ _) = Write"
| "required_scope (Delete_Term _) = Admin"
| "required_scope (Create_Algorithm _) = Write"
| "required_scope (Update_Algorithm _ _) = Write"
| "required_scope (Delete_Algorithm _) = Admin"
| "required_scope (Create_Policy _) = Write"
| "required_scope (Update_Policy _ _) = Write"
| "required_scope (Delete_Policy _) = Admin"
| "required_scope (Create_Column_Tag _) = Write"
| "required_scope (Delete_Column_Tag _ _ _) = Admin"
| "required_scope (Scan_Columns _) = Write"
| "required_scope (Apply_Masking _) = Write"
| "required_scope (Create_Exception _) = Admin"
| "required_scope (Delete_Exception _) = Admin"
| "required_scope (Disable_Governance _ _) = Admin"
| "required_scope (Enable_Governance _) = Admin"
| "required_scope _ = Read"

fun body_ok :: "request \<Rightarrow> bool" where
  "body_ok (Create_Classification b) = valid_classification_create b"
| "body_ok (Update_Classification _ b) = valid_classification_update b"
| "body_ok (Create_Term b) = valid_glossary_create b"
| "body_ok (Create_Algorithm b) = valid_algorithm_create b"
| "body_ok (Create_Policy b) = valid_policy_create b"
| "body_ok (Plan_Masked_Query q) = valid_query_request q"
| "body_ok _ = True"

definition authorize ::
  "scope_level \<Rightarrow> 'tok jwt_lib \<Rightarrow> settings \<Rightarrow> int \<Rightarrow> 'tok \<Rightarrow> jwt_payload res" where
  "authorize l = (case l of Read \<Rightarrow> require_read | Write \<Rightarrow> require_write | Admin \<Rightarrow> require_admin)"

section \<open>The step\<close>

definition read_only :: "('a \<Rightarrow> answer) \<Rightarrow> 'a res \<Rightarrow> world \<Rightarrow> answer res \<times> world" where
  "read_only f r w = (map_sum id f r, w)"

definition answered :: "('a \<Rightarrow> answer) \<Rightarrow> 'a res \<times> world \<Rightarrow> answer res \<times> world" where
  "answered f r = map_prod (map_sum id f) id r"

fun handle :: "ext \<Rightarrow> settings \<Rightarrow> int \<Rightarrow> request \<Rightarrow> world \<Rightarrow> answer res \<times> world" where
  "handle e st now List_Classifications w = read_only A_Classifications (Inr (list_classifications (w_db w))) w"
| "handle e st now (Get_Classification n) w = read_only A_Classification (get_classification (w_db w) n) w"
| "handle e st now (Create_Classification b) w = answered A_Classification (create_classification b w)"
| "handle e st now (Update_Classification n b) w = answered A_Classification (update_classification n b w)"
| "handle e st now (Delete_Classification n) w = answered A_Ok (delete_classification n w)"
| "handle e st now List_Terms w = read_only A_Terms (Inr (list_terms (w_db w))) w"
| "handle e st now (Get_Term n) w = read_only A_Term (get_term (w_db w) n) w"
| "handle e st now (Create_Term b) w = answered A_Term (create_term b w)"
| "handle e st now (Update_Term n b) w = answered A_Term (update_term n b w)"
| "handle e st now (Delete_Term n) w = answered A_Ok (delete_term n w)"
| "handle e st now List_Algorithms w = read_only A_Algorithms (Inr (list_algorithms (w_db w))) w"
| "handle e st now (Get_Algorithm n) w = read_only A_Algorithm (get_algorithm (w_db w) n) w"
| "handle e st now (Create_Algorithm b) w = answered A_Algorithm (create_algorithm b w)"
| "handle e st now (Update_Algorithm n b) w = answered A_Algorithm (update_algorithm n b w)"
| "handle e st now (Delete_Algorithm n) w = answered A_Ok (delete_algorithm n w)"
| "handle e st now List_Policies w = read_only A_Policies (Inr (list_policies (w_db w))) w"
| "handle e st now (Get_Policy n) w = read_only A_Policy (get_policy (w_db w) n) w"
| "handle e st now (Create_Policy b) w = answered A_Policy (create_policy b w)"
| "handle e st now (Update_Policy n b) w = answered A_Policy (update_policy n b w)"
| "handle e st now (Delete_Policy n) w = answered A_Ok (delete_policy n w)"
| "handle e st now (List_Column_Tags d t) w = read_only A_Tags (Inr (list_column_tags (w_db w) d t)) w"
| "handle e st now (Get_Column_Tag d t c) w = read_only A_Tag (get_column_tag (w_db w) d t c) w"
| "handle e st now (Create_Column_Tag b) w = answered A_Tag (create_column_tag b w)"
| "handle e st now (Delete_Column_Tag d t c) w = answered A_Ok (delete_column_tag d t c w)"
| "handle e st now (Scan_Columns b) w = answered A_Scan (scan_columns e st b w)"
| "handle e st now (Apply_Masking b) w = answered A_Applied (apply_masking e st b w)"
| "handle e st now (List_View_Manifests d) w = read_only A_Manifests (Inr (list_view_manifests (w_db w) d)) w"
| "handle e st now (Plan_Masked_Query q) w = read_only A_Query (plan_masked_query e st q (w_db w)) w"
| "handle e st now List_Exceptions w = read_only A_Exceptions (Inr (list_exceptions (w_db w))) w"
| "handle e st now (Create_Exception b) w = answered A_Exception (create_exception e st b w)"
| "handle e st now (Delete_Exception i) w = answered A_Ok (delete_exception e st i w)"
| "handle e st now List_Switches w = read_only A_Switches (Inr (list_switches (w_db w))) w"
| "handle e st now (Get_Switch d) w = read_only A_Switch (get_switch (w_db w) d) w"
| "handle e st now (Disable_Governance d b) w = answered A_Switch (disable_governance now d b w)"
| "handle e st now (Enable_Governance d) w = answered A_Switch (enable_governance now d w)"

definition unprocessable :: http_error where
  "unprocessable = HTTPException 422 ''Unprocessable Entity''"

definition api_step ::
  "'tok jwt_lib \<Rightarrow> ext \<Rightarrow> settings \<Rightarrow> int \<Rightarrow> 'tok \<Rightarrow> request \<Rightarrow> world \<Rightarrow> answer res \<times> world" where
  "api_step j e st now tok req w = (case authorize (required_scope req) j st now tok of
     Inl err \<Rightarrow> (Inl err, w)
   | Inr p \<Rightarrow> if \<not> body_ok req then (Inl unprocessable, w) else handle e st now req w)"

text \<open>The states a service started on an empty catalog can reach.\<close>

inductive reachable :: "'tok jwt_lib \<Rightarrow> settings \<Rightarrow> world \<Rightarrow> bool" for j st where
  start: "reachable j st (init_world st)"
| step: "reachable j st w \<Longrightarrow> api_step j e st now tok req w = (res, w') \<Longrightarrow> reachable j st w'"

section \<open>The constraints of the schema are an invariant\<close>

lemma answered_simps [simp]:
  "snd (answered f r) = snd r" "fst (answered f r) = map_sum id f (fst r)" "snd (read_only g s w) = w"
  by (simp_all add: answered_def read_only_def)

lemma apply_masking_view_ok:
  assumes "schema_ok (w_db w)"
  shows "schema_ok (w_db (snd (apply_masking_view e st d t dry force w)))"
proof -
  obtain res w' where a: "apply_masking_view e st d t dry force w = (res, w')"
    by (cases "apply_masking_view e st d t dry force w")
  have "schema_ok (w_db w')"
    using a
  proof (cases rule: apply_masking_view_cases)
    case (accepted cols exprs manifest lg)
    from accepted(5)[symmetric] show ?thesis
      by (cases rule: enforce_and_persist_cases) (use assms in simp_all)
  qed (use assms in simp_all)
  with a show ?thesis by simp
qed

lemma apply_tables_ok: "schema_ok (w_db w) \<Longrightarrow> schema_ok (w_db (snd (apply_tables e st b ts w)))"
proof (induction ts arbitrary: w)
  case (Cons t ts)
  obtain r w1 where r: "apply_masking_view e st (ap_database b) t (ap_dry_run b) (ap_force b) w = (r, w1)"
    by (cases "apply_masking_view e st (ap_database b) t (ap_dry_run b) (ap_force b) w")
  have "schema_ok (w_db w1)"
    using apply_masking_view_ok[OF Cons.prems, of e st "ap_database b" t "ap_dry_run b" "ap_force b"] r by simp
  from Cons.IH[OF this] r show ?case
    by (cases r; cases "apply_tables e st b ts w1"; cases "fst (apply_tables e st b ts w1)")
      (use \<open>schema_ok (w_db w1)\<close> in auto)
qed simp

lemma delete_column_tag_ok: "schema_ok (w_db w) \<Longrightarrow> schema_ok (w_db (snd (delete_column_tag d t c w)))"
  by (auto simp: delete_column_tag_def frame_simps commit_schema_ok split: sum.split option.split)

lemma create_column_tag_ok:
  assumes "schema_ok (w_db w)"
  shows "schema_ok (w_db (snd (create_column_tag b w)))"
proof -
  obtain res w' where r: "create_column_tag b w = (res, w')" by (cases "create_column_tag b w")
  from assms r show ?thesis by (cases rule: create_column_tag_cases) (use assms r in simp_all)
qed

lemma scan_columns_ok:
  assumes "schema_ok (w_db w)"
  shows "schema_ok (w_db (snd (scan_columns e st b w)))"
proof -
  obtain res w' where r: "scan_columns e st b w = (res, w')" by (cases "scan_columns e st b w")
  show ?thesis
  proof (cases "tables_matches e st b w")
    case (Inl exc)
    with r assms show ?thesis by (auto simp: scan_columns_def)
  next
    case (Inr tms)
    with r have "scan_tables b tms w = (res, w')" by (simp add: scan_columns_def)
    from scan_tables_frame[OF assms this] r show ?thesis by (simp add: scan_frame_def)
  qed
qed

lemma exceptions_handlers_ok:
  assumes "schema_ok (w_db w)"
  shows "schema_ok (w_db (snd (create_exception e st b w)))" "schema_ok (w_db (snd (delete_exception e st i w)))"
proof -
  obtain res w' where r: "create_exception e st b w = (res, w')" by (cases "create_exception e st b w")
  from assms r show "schema_ok (w_db (snd (create_exception e st b w)))"
    by (cases rule: create_exception_cases) (use assms r in simp_all)
  obtain res w' where r: "delete_exception e st i w = (res, w')" by (cases "delete_exception e st i w")
  from assms r show "schema_ok (w_db (snd (delete_exception e st i w)))"
    by (cases rule: delete_exception_cases) (use assms r in simp_all)
qed

lemma switch_handlers_ok:
  assumes "schema_ok (w_db w)"
  shows "schema_ok (w_db (snd (disable_governance now d b w)))" "schema_ok (w_db (snd (enable_governance now d w)))"
  using gs.turn_ok[OF assms, of now b False d] gs.turn_ok[OF assms, of now b True d]
  by (simp_all add: switch_request_def)

lemma crud_handlers_ok:
  assumes "schema_ok (w_db w)"
  shows "schema_ok (w_db (snd (create_classification b1 w)))" "schema_ok (w_db (snd (update_classification n b2 w)))"
    "schema_ok (w_db (snd (delete_classification n w)))" "schema_ok (w_db (snd (create_term b3 w)))"
    "schema_ok (w_db (snd (update_term n b4 w)))" "schema_ok (w_db (snd (delete_term n w)))"
    "schema_ok (w_db (snd (create_algorithm b5 w)))" "schema_ok (w_db (snd (update_algorithm n b6 w)))"
    "schema_ok (w_db (snd (delete_algorithm n w)))" "schema_ok (w_db (snd (create_policy b7 w)))"
    "schema_ok (w_db (snd (update_policy n b8 w)))" "schema_ok (w_db (snd (delete_policy n w)))"
  using cls.create_ok[OF assms, of b1] cls.update_ok[OF assms, of n b2] cls.delete_ok[OF assms, of n]
    gt.create_ok[OF assms, of b3] gt.update_ok[OF assms, of n b4] gt.delete_ok[OF assms, of n]
    ma.create_ok[OF assms, of b5] ma.update_ok[OF assms, of n b6] ma.delete_ok[OF assms, of n]
    mp.create_ok[OF assms, of b7] mp.update_ok[OF assms, of n b8] mp.delete_ok[OF assms, of n]
  by simp_all

lemma handle_ok: "schema_ok (w_db w) \<Longrightarrow> schema_ok (w_db (snd (handle e st now req w)))"
  by (cases req) (simp_all add: crud_handlers_ok switch_handlers_ok exceptions_handlers_ok scan_columns_ok
    create_column_tag_ok delete_column_tag_ok apply_tables_ok apply_masking_def)

lemma api_step_ok: "schema_ok (w_db w) \<Longrightarrow> schema_ok (w_db (snd (api_step j e st now tok req w)))"
  by (simp add: api_step_def handle_ok split: sum.split)



section \<open>What a scope allows\<close>

lemma handle_read: "required_scope req = Read \<Longrightarrow> snd (handle e st now req w) = w"
  by (cases req) simp_all

lemma authorize_mono:
  assumes "authorize l j st now tok = Inr p" and "l \<noteq> Read"
  shows "require_write j st now tok = Inr p"
  using assms scope_levels(1)[of j st now tok p] by (cases l) (simp_all add: authorize_def)

text \<open>
  A token without the write or admin scope changes nothing: whatever route it calls,
  the tables, the cache and the statements sent to Stardata stay as they are.
\<close>

theorem read_scope_changes_nothing:
  assumes "\<not> is_ok (require_write j st now tok)"
  shows "snd (api_step j e st now tok req w) = w"
proof (cases "required_scope req = Read")
  case True
  then show ?thesis by (simp add: api_step_def handle_read split: sum.split)
next
  case False
  have "authorize (required_scope req) j st now tok \<noteq> Inr p" for p
    using authorize_mono[OF _ False, of j st now tok p] assms by auto
  then show ?thesis by (simp add: api_step_def split: sum.split)
qed

theorem read_scope_changes_nothing_witness:
  "snd (api_step plain_jwt demo_ext default_settings 0
     (\<lparr>pl_sub = ''bi'', pl_scopes = Scope_List [''read''], pl_exp = 60\<rparr>,
        jwt_secret default_settings, jwt_algorithm default_settings)
     (Delete_Policy ''pii_default'') demo_world) = demo_world"
  by (rule read_scope_changes_nothing)
    (simp add: require_write_def require_scope_def decode_token_def plain_jwt_def scope_in_def)

text \<open>What only an administrator may take away.\<close>

definition nothing_removed :: "catalog \<Rightarrow> catalog \<Rightarrow> bool" where
  "nothing_removed db db' \<longleftrightarrow> role_exceptions db' = role_exceptions db \<and>
     governance_databases db' = governance_databases db \<and>
     dom (key_map cls_name (classifications db)) \<subseteq> dom (key_map cls_name (classifications db')) \<and>
     dom (key_map gt_name (glossary_terms db)) \<subseteq> dom (key_map gt_name (glossary_terms db')) \<and>
     dom (key_map ma_name (masking_algorithms db)) \<subseteq> dom (key_map ma_name (masking_algorithms db')) \<and>
     dom (key_map mp_name (masking_policies db)) \<subseteq> dom (key_map mp_name (masking_policies db')) \<and>
     dom (key_map ct_key (column_tags db)) \<subseteq> dom (key_map ct_key (column_tags db')) \<and>
     dom (key_map vm_key (view_manifests db)) \<subseteq> dom (key_map vm_key (view_manifests db'))"

lemma nothing_removed_refl [simp]: "nothing_removed db db"
  by (simp add: nothing_removed_def)

lemma nothing_removed_trans: "nothing_removed a b \<Longrightarrow> nothing_removed b c \<Longrightarrow> nothing_removed a c"
  unfolding nothing_removed_def by (metis (mono_tags, lifting) subset_trans)

lemma key_map_insert_dom:
  "find_key key (key (mk (tbl_next t))) t = None \<Longrightarrow>
     dom (key_map key t) \<subseteq> dom (key_map key (snd (tbl_insert mk t)))"
  by (simp add: key_map_insert) blast

lemma did_nothing_removed:
  "did P db w r \<Longrightarrow> (P \<Longrightarrow> nothing_removed (w_db w) db) \<Longrightarrow> nothing_removed (w_db w) (w_db (snd r))"
  by (auto simp: did_def)

lemma create_handlers_keep:
  assumes "schema_ok (w_db w)"
  shows "nothing_removed (w_db w) (w_db (snd (create_classification b1 w)))"
    "nothing_removed (w_db w) (w_db (snd (create_term b2 w)))"
    "nothing_removed (w_db w) (w_db (snd (create_algorithm b3 w)))"
    "nothing_removed (w_db w) (w_db (snd (create_policy b4 w)))"
proof -
  have names: "cls_name (new_classification b1 i) = cc_name b1" "gt_name (new_term b2 i) = gc_name b2"
    "ma_name (new_algorithm b3 i) = ac_name b3" "mp_name (new_policy b4 i) = pc_name b4" for i
    by (simp_all add: new_classification_def new_term_def new_algorithm_def new_policy_def)
  note dom = key_map_insert_dom[of cls_name "new_classification b1"] key_map_insert_dom[of gt_name "new_term b2"]
    key_map_insert_dom[of ma_name "new_algorithm b3"] key_map_insert_dom[of mp_name "new_policy b4"]
  obtain P where t: "did (find_key gt_name (gc_name b2) (glossary_terms (w_db w)) = None \<and> P \<and>
      schema_ok (w_db w\<lparr>glossary_terms := snd (tbl_insert (new_term b2) (glossary_terms (w_db w)))\<rparr>))
    (w_db w\<lparr>glossary_terms := snd (tbl_insert (new_term b2) (glossary_terms (w_db w)))\<rparr>) w (outcome (create_term b2 w))"
    using create_term_did[OF assms] by blast
  show "nothing_removed (w_db w) (w_db (snd (create_classification b1 w)))"
    using did_nothing_removed[OF create_classification_did[OF assms, of b1]] dom(1)
    by (simp add: nothing_removed_def db_with_classification_def names)
  show "nothing_removed (w_db w) (w_db (snd (create_term b2 w)))"
    using did_nothing_removed[OF t] dom(2) by (simp add: nothing_removed_def names)
  show "nothing_removed (w_db w) (w_db (snd (create_algorithm b3 w)))"
    using did_nothing_removed[OF create_algorithm_did[OF assms, of b3]] dom(3)
    by (simp add: nothing_removed_def names)
  show "nothing_removed (w_db w) (w_db (snd (create_policy b4 w)))"
    using did_nothing_removed[OF create_policy_did[OF assms, of b4]] dom(4)
    by (simp add: nothing_removed_def names)
qed

lemma update_handlers_keep:
  assumes "schema_ok (w_db w)"
  shows "nothing_removed (w_db w) (w_db (snd (update_classification n b1 w)))"
    "nothing_removed (w_db w) (w_db (snd (update_term n b2 w)))"
    "nothing_removed (w_db w) (w_db (snd (update_algorithm n b3 w)))"
    "nothing_removed (w_db w) (w_db (snd (update_policy n b4 w)))"
proof -
  have "outcome r = (is_ok (fst r), snd r)" for r :: "'a res \<times> world" by (simp add: prod_eq_iff)
  note dom = cls.update_keeps_names[OF assms, of n b1] gt.update_keeps_names[OF assms, of n b2]
    ma.update_keeps_names[OF assms, of n b3] mp.update_keeps_names[OF assms, of n b4]
  obtain c where c: "did (find_key cls_name n (classifications (w_db w)) = Some c \<and>
      schema_ok (w_db w\<lparr>classifications := tbl_replace cls_id (patch_classification b1 c) (classifications (w_db w))\<rparr>))
    (w_db w\<lparr>classifications := tbl_replace cls_id (patch_classification b1 c) (classifications (w_db w))\<rparr>) w
    (outcome (update_classification n b1 w))" using update_classification_did[OF assms] by blast
  show "nothing_removed (w_db w) (w_db (snd (update_classification n b1 w)))"
    using c dom(1) by (auto simp: nothing_removed_def did_def split: if_splits)
  obtain t where t: "did (find_key gt_name n (glossary_terms (w_db w)) = Some t \<and>
      schema_ok (w_db w\<lparr>glossary_terms := tbl_replace gt_id (patch_term b2 t) (glossary_terms (w_db w))\<rparr>))
    (w_db w\<lparr>glossary_terms := tbl_replace gt_id (patch_term b2 t) (glossary_terms (w_db w))\<rparr>) w
    (outcome (update_term n b2 w))" using update_term_did[OF assms] by blast
  show "nothing_removed (w_db w) (w_db (snd (update_term n b2 w)))"
    using t dom(2) by (auto simp: nothing_removed_def did_def split: if_splits)
  obtain a where a: "did (find_key ma_name n (masking_algorithms (w_db w)) = Some a \<and>
      schema_ok (w_db w\<lparr>masking_algorithms := tbl_replace ma_id (patch_algorithm b3 a) (masking_algorithms (w_db w))\<rparr>))
    (w_db w\<lparr>masking_algorithms := tbl_replace ma_id (patch_algorithm b3 a) (masking_algorithms (w_db w))\<rparr>) w
    (outcome (update_algorithm n b3 w))" using update_algorithm_did[OF assms] by blast
  show "nothing_removed (w_db w) (w_db (snd (update_algorithm n b3 w)))"
    using a dom(3) by (auto simp: nothing_removed_def did_def split: if_splits)
  obtain p where p: "did (find_key mp_name n (masking_policies (w_db w)) = Some p \<and>
      schema_ok (w_db w\<lparr>masking_policies := tbl_replace mp_id (patch_policy b4 p) (masking_policies (w_db w))\<rparr>))
    (w_db w\<lparr>masking_policies := tbl_replace mp_id (patch_policy b4 p) (masking_policies (w_db w))\<rparr>) w
    (outcome (update_policy n b4 w))" using update_policy_did[OF assms] by blast
  show "nothing_removed (w_db w) (w_db (snd (update_policy n b4 w)))"
    using p dom(4) by (auto simp: nothing_removed_def did_def split: if_splits)
qed

lemma dom_key_map: "dom (key_map key t) = key ` set (tbl_rows t)"
  using find_key_None_iff[of key _ t] by (auto simp: dom_def)

lemma create_column_tag_keeps:
  assumes "schema_ok (w_db w)"
  shows "nothing_removed (w_db w) (w_db (snd (create_column_tag b w)))"
proof -
  obtain res w' where r: "create_column_tag b w = (res, w')" by (cases "create_column_tag b w")
  note t = schema_okD(5)[OF assms]
  from assms r show ?thesis
  proof (cases rule: create_column_tag_cases)
    case (promoted x)
    with key_map_replace[OF t promoted(1), of "promote_tag b x"] r show ?thesis
      by (auto simp: nothing_removed_def)
  next
    case added
    with key_map_insert_dom[of ct_key "manual_tag b" "column_tags (w_db w)"] r show ?thesis
      by (simp add: nothing_removed_def)
  qed (use r in simp_all)
qed

lemma scan_columns_keeps:
  assumes "schema_ok (w_db w)"
  shows "nothing_removed (w_db w) (w_db (snd (scan_columns e st b w)))"
proof -
  obtain res w' where r: "scan_columns e st b w = (res, w')" by (cases "scan_columns e st b w")
  show ?thesis
  proof (cases "tables_matches e st b w")
    case (Inl exc)
    with r show ?thesis by (auto simp: scan_columns_def)
  next
    case (Inr tms)
    with r have "scan_tables b tms w = (res, w')" by (simp add: scan_columns_def)
    from scan_tables_frame[OF assms this]
    have keys: "dom (key_map ct_key (column_tags (w_db w))) \<subseteq> dom (key_map ct_key (column_tags (w_db w')))"
      and same: "w_db w' = w_db w\<lparr>column_tags := column_tags (w_db w')\<rparr>"
      by (simp_all add: scan_frame_def dom_key_map)
    have "nothing_removed (w_db w) (w_db w\<lparr>column_tags := column_tags (w_db w')\<rparr>)"
      using keys by (simp add: nothing_removed_def)
    then show ?thesis using r same by simp
  qed
qed

lemma apply_masking_view_keeps:
  assumes "schema_ok (w_db w)"
  shows "nothing_removed (w_db w) (w_db (snd (apply_masking_view e st d t dry force w)))"
proof -
  obtain res w' where a: "apply_masking_view e st d t dry force w = (res, w')"
    by (cases "apply_masking_view e st d t dry force w")
  have "nothing_removed (w_db w) (w_db w')"
    using a
  proof (cases rule: apply_masking_view_cases)
    case (accepted cols exprs manifest lg)
    from accepted(5)[symmetric] show ?thesis
    proof (cases rule: enforce_and_persist_cases)
      case failed
      then show ?thesis by simp
    next
      case (persisted r' lg2)
      have man: "find_key vm_key k (view_manifests (w_db w')) \<noteq> None"
        if "find_key vm_key k (view_manifests (w_db w)) \<noteq> None" for k
      proof (cases "k = (d, t)")
        case True
        obtain m where "find_manifest (w_db w') d t = Inr (Some m)"
          using save_manifest_ok(2)[OF assms accepted(3)] persisted(8) by fastforce
        then show ?thesis using find_manifest_ok[OF persisted(7), of d t] True by simp
      next
        case False
        have "find_key vm_key k (view_manifests (w_db w')) = find_key vm_key k (view_manifests (w_db w))"
          using save_manifest_ok(3)[OF assms accepted(3) False] persisted(8) by simp
        with that show ?thesis by simp
      qed
      then show ?thesis using persisted(8) by (auto simp: nothing_removed_def dom_def)
    qed
  qed simp_all
  with a show ?thesis by simp
qed

lemma apply_tables_keeps:
  "schema_ok (w_db w) \<Longrightarrow> nothing_removed (w_db w) (w_db (snd (apply_tables e st b ts w)))"
proof (induction ts arbitrary: w)
  case (Cons t ts)
  obtain r w1 where r: "apply_masking_view e st (ap_database b) t (ap_dry_run b) (ap_force b) w = (r, w1)"
    by (cases "apply_masking_view e st (ap_database b) t (ap_dry_run b) (ap_force b) w")
  have ok: "schema_ok (w_db w1)" and step: "nothing_removed (w_db w) (w_db w1)"
    using apply_masking_view_ok[OF Cons.prems, of e st "ap_database b" t "ap_dry_run b" "ap_force b"]
      apply_masking_view_keeps[OF Cons.prems, of e st "ap_database b" t "ap_dry_run b" "ap_force b"] r by simp_all
  from nothing_removed_trans[OF step Cons.IH[OF ok]] r step show ?case
    by (cases r; cases "apply_tables e st b ts w1"; cases "fst (apply_tables e st b ts w1)") auto
qed simp

lemma handle_write_keeps:
  "schema_ok (w_db w) \<Longrightarrow> required_scope req = Write \<Longrightarrow>
     nothing_removed (w_db w) (w_db (snd (handle e st now req w)))"
  by (cases req) (simp_all add: create_handlers_keep update_handlers_keep create_column_tag_keeps
    scan_columns_keeps apply_tables_keeps apply_masking_def)

text \<open>
  Without the admin scope nothing can be taken away: no route removes a
  classification, term, algorithm, policy, column tag or view manifest, and the role
  exceptions and the governance switches, which decide who reads clear data, do not change.
\<close>

theorem only_admin_removes:
  assumes "schema_ok (w_db w)" and "\<not> is_ok (require_admin j st now tok)"
  shows "nothing_removed (w_db w) (w_db (snd (api_step j e st now tok req w)))"
proof (cases "required_scope req")
  case Read
  then show ?thesis by (simp add: api_step_def handle_read split: sum.split)
next
  case Write
  then show ?thesis
    using handle_write_keeps[OF assms(1)] by (simp add: api_step_def split: sum.split)
next
  case Admin
  then show ?thesis using assms(2) by (auto simp: api_step_def authorize_def split: sum.split)
qed

theorem only_admin_removes_witness:
  "nothing_removed demo_db (w_db (snd (api_step plain_jwt demo_ext default_settings 0
     (\<lparr>pl_sub = ''steward'', pl_scopes = Scope_List [''write''], pl_exp = 60\<rparr>,
        jwt_secret default_settings, jwt_algorithm default_settings)
     (Disable_Governance ''demo'' \<lparr>dr_reason = ''etl'', dr_disabled_by = ''admin''\<rparr>) demo_world)))"
proof -
  let ?tok = "(\<lparr>pl_sub = ''steward'', pl_scopes = Scope_List [''write''], pl_exp = 60\<rparr>,
        jwt_secret default_settings, jwt_algorithm default_settings)"
  have "\<not> is_ok (require_admin plain_jwt default_settings 0 ?tok)"
    by (simp add: require_admin_def require_scope_def decode_token_def plain_jwt_def scope_in_def)
  from only_admin_removes[OF demo_schema_ok(2) this] show ?thesis by (simp add: demo_world_def)
qed

end
