(* ===== verification/Py_Text.thy ===== *)
theory Py_Text
  imports Py_Strings
begin

text \<open>
  Python's whitespace, lines and words: \<^verbatim>\<open>strip\<close>, \<^verbatim>\<open>splitlines\<close>, \<^verbatim>\<open>split\<close> with and without a separator,
  \<^verbatim>\<open>isdigit\<close> with \<^verbatim>\<open>int\<close>, and \<^verbatim>\<open>upper\<close>, on the characters of ASCII.
\<close>

definition py_space :: "char \<Rightarrow> bool" where
  "py_space c = (c = CHR '' '' \<or> (9 \<le> (of_char c :: nat) \<and> (of_char c :: nat) \<le> 13) \<or>
     (28 \<le> (of_char c :: nat) \<and> (of_char c :: nat) \<le> 31))"

definition py_strip :: "string \<Rightarrow> string" where
  "py_strip s = rev (dropWhile py_space (rev (dropWhile py_space s)))"

definition line_break :: "char \<Rightarrow> bool" where
  "line_break c = ((10 \<le> (of_char c :: nat) \<and> (of_char c :: nat) \<le> 13) \<or>
     (28 \<le> (of_char c :: nat) \<and> (of_char c :: nat) \<le> 30))"

fun split_lines_from :: "string \<Rightarrow> string \<Rightarrow> string list" where
  "split_lines_from acc [] = (if acc = [] then [] else [rev acc])"
| "split_lines_from acc (c # cs) =
     (if c = CHR 0x0D \<and> cs \<noteq> [] \<and> hd cs = CHR 0x0A then rev acc # split_lines_from [] (tl cs)
      else if line_break c then rev acc # split_lines_from [] cs
      else split_lines_from (c # acc) cs)"

definition py_splitlines :: "string \<Rightarrow> string list" where
  "py_splitlines s = split_lines_from [] s"

fun words_from :: "string \<Rightarrow> string \<Rightarrow> string list" where
  "words_from acc [] = (if acc = [] then [] else [rev acc])"
| "words_from acc (c # cs) = (if py_space c
     then (if acc = [] then words_from [] cs else rev acc # words_from [] cs)
     else words_from (c # acc) cs)"

definition py_split :: "string \<Rightarrow> string list" where
  "py_split s = words_from [] s"

definition is_digit :: "char \<Rightarrow> bool" where
  "is_digit c = (48 \<le> (of_char c :: nat) \<and> (of_char c :: nat) \<le> 57)"

definition py_isdigit :: "string \<Rightarrow> bool" where
  "py_isdigit s = (s \<noteq> [] \<and> list_all is_digit s)"

definition nat_of_digits :: "string \<Rightarrow> nat" where
  "nat_of_digits s = foldl (\<lambda>n c. 10 * n + (of_char c - 48)) 0 s"

definition upper_char :: "char \<Rightarrow> char" where
  "upper_char c = (if 97 \<le> (of_char c :: nat) \<and> (of_char c :: nat) \<le> 122 then char_of ((of_char c :: nat) - 32) else c)"

definition py_upper :: "string \<Rightarrow> string" where
  "py_upper s = map upper_char s"

text \<open>\<^verbatim>\<open>s.split(sep)\<close> for a separator of one character.\<close>

fun split_on_from :: "char \<Rightarrow> string \<Rightarrow> string \<Rightarrow> string list" where
  "split_on_from sep acc [] = [rev acc]"
| "split_on_from sep acc (c # cs) = (if c = sep then rev acc # split_on_from sep [] cs
     else split_on_from sep (c # acc) cs)"

definition py_split_on :: "char \<Rightarrow> string \<Rightarrow> string list" where
  "py_split_on sep s = split_on_from sep [] s"

section \<open>Words\<close>

definition spaces :: "string \<Rightarrow> bool" where
  "spaces s = list_all py_space s"

definition no_space :: "string \<Rightarrow> bool" where
  "no_space s = list_all (\<lambda>c. \<not> py_space c) s"

lemma words_from_word: "no_space w \<Longrightarrow> words_from acc (w @ s) = words_from (rev w @ acc) s"
  by (induction w arbitrary: acc) (auto simp: no_space_def)

lemma words_from_spaces:
  "\<lbrakk>spaces w; w \<noteq> []\<rbrakk> \<Longrightarrow> words_from acc (w @ s) = (if acc = [] then [] else [rev acc]) @ words_from [] s"
  by (induction w arbitrary: acc) (force simp: spaces_def)+

lemma words_from_append:
  "words_from acc (x @ w # y) = words_from acc (x @ [w]) @ words_from [] y" if "py_space w"
  using that by (induction x arbitrary: acc) auto

lemma py_split_word: "\<lbrakk>no_space w; w \<noteq> []\<rbrakk> \<Longrightarrow> py_split w = [w]"
  using words_from_word[of w "[]" "[]"] by (simp add: py_split_def)

lemma py_split_word_space:
  "\<lbrakk>no_space w; w \<noteq> []; py_space c\<rbrakk> \<Longrightarrow> py_split (w @ c # s) = w # py_split s"
  using words_from_word[of w "[]" "c # s"] by (simp add: py_split_def)

end
