(* ===== verification/Py_Regex.thy ===== *)
theory Py_Regex
  imports Py_Text
begin

text \<open>
  The part of Python's \<^verbatim>\<open>re\<close> the code uses: a backtracking matcher. \<open>rx_run\<close> lists the ways an
  expression can match at a place, in the order the engine tries them, so the match Python
  returns is the first; \<open>rx_match\<close> is the declarative relation it computes. A place in a text is
  the part before it, reversed, and the part after it; a group is recorded with its text, the
  latest capture first. Groups inside a lookahead are not kept (no expression of the code has one).
\<close>

section \<open>Expressions\<close>

datatype rx =
    Eps
  | Cls "char \<Rightarrow> bool"
  | Cat rx rx
  | Alt rx rx
  | Star bool rx
  | Grp nat rx
  | Word_Edge
  | Ahead rx
  | Line_Start
  | Line_End

type_synonym place = "string \<times> string"
type_synonym groups = "(nat \<times> string) list"
type_synonym rx_state = "place \<times> groups"

definition word_char :: "char \<Rightarrow> bool" where
  "word_char c = (let n = (of_char c :: nat) in
     (48 \<le> n \<and> n \<le> 57) \<or> (65 \<le> n \<and> n \<le> 90) \<or> (97 \<le> n \<and> n \<le> 122) \<or> n = 95)"

definition at_word_edge :: "place \<Rightarrow> bool" where
  "at_word_edge p = ((fst p \<noteq> [] \<and> word_char (hd (fst p))) \<noteq> (snd p \<noteq> [] \<and> word_char (hd (snd p))))"

primrec star_run :: "(rx_state \<Rightarrow> rx_state list) \<Rightarrow> bool \<Rightarrow> nat \<Rightarrow> rx_state \<Rightarrow> rx_state list" where
  "star_run f greedy 0 x = [x]"
| "star_run f greedy (Suc n) x =
     (let more = concat (map (star_run f greedy n)
            (filter (\<lambda>y. length (snd (fst y)) < length (snd (fst x))) (f x)))
      in if greedy then more @ [x] else x # more)"

definition captured :: "place \<Rightarrow> place \<Rightarrow> string" where
  "captured p q = take (length (snd p) - length (snd q)) (snd p)"

primrec rx_run :: "rx \<Rightarrow> rx_state \<Rightarrow> rx_state list" where
  "rx_run Eps x = [x]"
| "rx_run (Cls p) x = (case x of ((b, s), g) \<Rightarrow>
     (case s of [] \<Rightarrow> [] | c # cs \<Rightarrow> if p c then [((c # b, cs), g)] else []))"
| "rx_run (Cat r1 r2) x = concat (map (rx_run r2) (rx_run r1 x))"
| "rx_run (Alt r1 r2) x = rx_run r1 x @ rx_run r2 x"
| "rx_run (Star greedy r) x = star_run (rx_run r) greedy (length (snd (fst x))) x"
| "rx_run (Grp n r) x = map (\<lambda>(q, g). (q, (n, captured (fst x) q) # g)) (rx_run r x)"
| "rx_run Word_Edge x = (if at_word_edge (fst x) then [x] else [])"
| "rx_run (Ahead r) x = (if rx_run r x = [] then [] else [x])"
| "rx_run Line_Start x = (if fst (fst x) = [] then [x] else [])"
| "rx_run Line_End x = (if snd (fst x) = [] \<or> snd (fst x) = newline then [x] else [])"

section \<open>Search, iteration, substitution\<close>

record rmatch =
  rm_before :: string
  rm_end :: place
  rm_groups :: groups

definition rm_start :: "rmatch \<Rightarrow> nat" where
  "rm_start m = length (rm_before m)"

definition rm_stop :: "rmatch \<Rightarrow> nat" where
  "rm_stop m = length (fst (rm_end m))"

definition group :: "rmatch \<Rightarrow> nat \<Rightarrow> string option" where
  "group m n = map_of (rm_groups m) n"

fun rx_search_from :: "rx \<Rightarrow> string \<Rightarrow> string \<Rightarrow> rmatch option" where
  "rx_search_from r b s = (case rx_run r ((b, s), []) of
     (q, g) # _ \<Rightarrow> Some \<lparr>rm_before = b, rm_end = q, rm_groups = g\<rparr>
   | [] \<Rightarrow> (case s of [] \<Rightarrow> None | c # cs \<Rightarrow> rx_search_from r (c # b) cs))"

declare rx_search_from.simps [simp del]

definition rx_search :: "rx \<Rightarrow> string \<Rightarrow> rmatch option" where
  "rx_search r s = rx_search_from r [] s"

text \<open>
  \<^verbatim>\<open>finditer\<close> goes on from the end of each match; the bound is the number of places left, and
  after an empty match (which no expression of the code has) it moves on by one character.
\<close>

primrec rx_iter :: "rx \<Rightarrow> nat \<Rightarrow> place \<Rightarrow> rmatch list" where
  "rx_iter r 0 p = []"
| "rx_iter r (Suc n) p = (case rx_search_from r (fst p) (snd p) of
     None \<Rightarrow> []
   | Some m \<Rightarrow> m # (if snd (rm_end m) = [] then []
       else if length (rm_before m) < rm_stop m then rx_iter r n (rm_end m)
       else rx_iter r n (hd (snd (rm_end m)) # fst (rm_end m), tl (snd (rm_end m)))))"

definition rx_finditer :: "rx \<Rightarrow> string \<Rightarrow> rmatch list" where
  "rx_finditer r s = rx_iter r (Suc (length s)) ([], s)"

text \<open>\<^verbatim>\<open>re.sub(r, repl, s)\<close> with \<open>repl\<close> a function of the match.\<close>

fun replace_matches :: "(rmatch \<Rightarrow> string) \<Rightarrow> string \<Rightarrow> nat \<Rightarrow> rmatch list \<Rightarrow> string" where
  "replace_matches f s pos [] = drop pos s"
| "replace_matches f s pos (m # ms) =
     take (rm_start m - pos) (drop pos s) @ f m @ replace_matches f s (rm_stop m) ms"

definition rx_sub :: "rx \<Rightarrow> (rmatch \<Rightarrow> string) \<Rightarrow> string \<Rightarrow> string" where
  "rx_sub r f s = replace_matches f s 0 (rx_finditer r s)"

section \<open>The notation of the code\<close>

definition plus :: "rx \<Rightarrow> rx" where
  "plus r = Cat r (Star True r)"

definition opt :: "rx \<Rightarrow> rx" where
  "opt r = Alt r Eps"

definition cats :: "rx list \<Rightarrow> rx" where
  "cats rs = foldr Cat rs Eps"

text \<open>The characters themselves.\<close>

definition lit :: "string \<Rightarrow> rx" where
  "lit s = cats (map (\<lambda>c. Cls (\<lambda>d. d = c)) s)"

text \<open>\<^verbatim>\<open>.+?\<close> under \<^verbatim>\<open>re.DOTALL\<close>.\<close>

definition some_lazy :: rx where
  "some_lazy = Cat (Cls (\<lambda>_. True)) (Star False (Cls (\<lambda>_. True)))"

text \<open>A keyword under \<^verbatim>\<open>re.IGNORECASE\<close>, \<^verbatim>\<open>\s\<close>, \<^verbatim>\<open>\S\<close>, \<^verbatim>\<open>\w\<close>, \<^verbatim>\<open>\d\<close>.\<close>

definition kw :: "string \<Rightarrow> rx" where
  "kw s = cats (map (\<lambda>c. Cls (\<lambda>d. lower_char d = lower_char c)) s)"

definition sp :: rx where "sp = Cls py_space"
definition nsp :: rx where "nsp = Cls (\<lambda>c. \<not> py_space c)"
definition wd :: rx where "wd = Cls word_char"
definition dg :: rx where "dg = Cls is_digit"

section \<open>The declarative relation\<close>

text \<open>\<open>rx_match r b u s\<close>: after the (reversed) text \<open>b\<close> and before \<open>s\<close>, \<open>r\<close> can match \<open>u\<close>.\<close>

inductive rx_match :: "rx \<Rightarrow> string \<Rightarrow> string \<Rightarrow> string \<Rightarrow> bool" where
  "rx_match Eps b [] s"
| "p c \<Longrightarrow> rx_match (Cls p) b [c] s"
| "\<lbrakk>rx_match r1 b u (v @ s); rx_match r2 (rev u @ b) v s\<rbrakk> \<Longrightarrow> rx_match (Cat r1 r2) b (u @ v) s"
| "rx_match r1 b u s \<Longrightarrow> rx_match (Alt r1 r2) b u s"
| "rx_match r2 b u s \<Longrightarrow> rx_match (Alt r1 r2) b u s"
| "rx_match (Star g r) b [] s"
| "\<lbrakk>rx_match r b u (v @ s); u \<noteq> []; rx_match (Star g r) (rev u @ b) v s\<rbrakk> \<Longrightarrow> rx_match (Star g r) b (u @ v) s"
| "rx_match r b u s \<Longrightarrow> rx_match (Grp n r) b u s"
| "at_word_edge (b, s) \<Longrightarrow> rx_match Word_Edge b [] s"
| "rx_match r b u v \<Longrightarrow> rx_match (Ahead r) b [] (u @ v)"
| "rx_match Line_Start [] [] s"
| "s = [] \<or> s = newline \<Longrightarrow> rx_match Line_End b [] s"

inductive_cases rx_matchE:
  "rx_match Eps b u s" "rx_match (Cls p) b u s" "rx_match (Cat r1 r2) b u s" "rx_match (Alt r1 r2) b u s"
  "rx_match (Grp n r) b u s" "rx_match Word_Edge b u s" "rx_match (Ahead r) b u s"
  "rx_match Line_Start b u s" "rx_match Line_End b u s"

inductive_cases rx_match_StarE: "rx_match (Star g r) b u s"

definition reaches :: "rx \<Rightarrow> string \<Rightarrow> string \<Rightarrow> place \<Rightarrow> bool" where
  "reaches r b s q = (\<exists>u. s = u @ snd q \<and> fst q = rev u @ b \<and> rx_match r b u (snd q))"

lemma reachesI: "\<lbrakk>rx_match r b u t\<rbrakk> \<Longrightarrow> reaches r b (u @ t) (rev u @ b, t)"
  by (simp add: reaches_def)

lemma star_run_sound:
  assumes f: "\<And>b s g q h. (q, h) \<in> set (f ((b, s), g)) \<Longrightarrow> reaches r b s q"
  shows "(q, h) \<in> set (star_run f greedy n ((b, s), g)) \<Longrightarrow> reaches (Star greedy r) b s q"
proof (induction n arbitrary: b s g)
  case 0
  then show ?case by (auto simp: reaches_def intro: rx_match.intros)
next
  case (Suc n)
  from Suc.prems consider "q = (b, s)"
    | b1 s1 g1 where "((b1, s1), g1) \<in> set (f ((b, s), g))" "length s1 < length s"
        "(q, h) \<in> set (star_run f greedy n ((b1, s1), g1))"
    by (fastforce simp: Let_def split: if_splits)
  then show ?case
  proof cases
    case 1
    then show ?thesis by (auto simp: reaches_def intro: rx_match.intros)
  next
    case 2
    obtain u where u: "s = u @ s1" "b1 = rev u @ b" "rx_match r b u s1"
      using f[OF 2(1)] by (auto simp: reaches_def)
    obtain v where v: "s1 = v @ snd q" "fst q = rev v @ b1" "rx_match (Star greedy r) b1 v (snd q)"
      using Suc.IH[OF 2(3)] by (auto simp: reaches_def)
    have "rx_match (Star greedy r) b (u @ v) (snd q)"
      using u v 2(2) by (intro rx_match.intros(7)) auto
    then show ?thesis using u v by (auto simp: reaches_def)
  qed
qed

lemma rx_run_sound: "(q, h) \<in> set (rx_run r ((b, s), g)) \<Longrightarrow> reaches r b s q"
proof (induction r arbitrary: b s g q h)
  case (Cls p)
  then show ?case by (auto simp: reaches_def intro: rx_match.intros split: list.splits if_splits)
next
  case (Cat r1 r2)
  then obtain b1 s1 g1 where one: "((b1, s1), g1) \<in> set (rx_run r1 ((b, s), g))"
    and two: "(q, h) \<in> set (rx_run r2 ((b1, s1), g1))"
    by auto
  obtain u where u: "s = u @ s1" "b1 = rev u @ b" "rx_match r1 b u s1"
    using Cat.IH(1)[OF one] by (auto simp: reaches_def)
  obtain v where v: "s1 = v @ snd q" "fst q = rev v @ b1" "rx_match r2 b1 v (snd q)"
    using Cat.IH(2)[OF two] by (auto simp: reaches_def)
  have "rx_match (Cat r1 r2) b (u @ v) (snd q)" using u v by (intro rx_match.intros(3)) auto
  then show ?case using u v by (auto simp: reaches_def)
next
  case (Star greedy r)
  then show ?case using star_run_sound[of "rx_run r" r] by simp
next
  case (Ahead r)
  then obtain q0 h0 where "(q0, h0) \<in> set (rx_run r ((b, s), g))" "q = (b, s)"
    by (cases "rx_run r ((b, s), g)") (auto split: if_splits)
  then show ?case using Ahead.IH[of q0 h0 b s g] by (auto simp: reaches_def intro: rx_match.intros)
next
  case (Alt r1 r2)
  then have "(q, h) \<in> set (rx_run r1 ((b, s), g)) \<or> (q, h) \<in> set (rx_run r2 ((b, s), g))" by simp
  then have "reaches r1 b s q \<or> reaches r2 b s q" using Alt.IH by blast
  then show ?case by (auto simp: reaches_def intro: rx_match.intros(4,5))
next
  case (Grp n r)
  then obtain h0 where "(q, h0) \<in> set (rx_run r ((b, s), g))" by auto
  from Grp.IH[OF this] show ?case by (auto simp: reaches_def intro: rx_match.intros(8))
qed (auto simp: reaches_def intro: rx_match.intros split: if_splits)

lemma star_run_complete:
  assumes f: "\<And>b u s g. rx_match r b u s \<Longrightarrow> \<exists>h. ((rev u @ b, s), h) \<in> set (f ((b, u @ s), g))"
  shows "\<lbrakk>rx_match (Star greedy r) b u s; length u \<le> n\<rbrakk> \<Longrightarrow>
    \<exists>h. ((rev u @ b, s), h) \<in> set (star_run f greedy n ((b, u @ s), g))"
proof (induction n arbitrary: b u g)
  case (Suc n)
  from Suc.prems(1) consider (none) "u = []"
    | (more) u1 v where "u = u1 @ v" "rx_match r b u1 (v @ s)" "u1 \<noteq> []" "rx_match (Star greedy r) (rev u1 @ b) v s"
    by (rule rx_match_StarE) blast
  then show ?case
  proof cases
    case none
    then show ?thesis by (cases greedy) (auto simp: Let_def)
  next
    case more
    let ?x = "((b, u @ s), g)"
    obtain h1 where h1: "((rev u1 @ b, v @ s), h1) \<in> set (f ((b, u1 @ v @ s), g))"
      using f[OF more(2)] by blast
    then have step: "((rev u1 @ b, v @ s), h1) \<in> set (filter (\<lambda>y. length (snd (fst y)) < length (snd (fst ?x))) (f ?x))"
      using more by simp
    have "length v \<le> n" using Suc.prems(2) more(1,3) by (cases u1) auto
    then obtain h where h: "((rev v @ rev u1 @ b, s), h) \<in> set (star_run f greedy n ((rev u1 @ b, v @ s), h1))"
      using Suc.IH[OF more(4)] by blast
    have "((rev u @ b, s), h) \<in> set (concat (map (star_run f greedy n)
        (filter (\<lambda>y. length (snd (fst y)) < length (snd (fst ?x))) (f ?x))))"
      unfolding set_concat set_map using step h more(1) by (intro UN_I[OF imageI[OF step]]) simp
    then have "((rev u @ b, s), h) \<in> set (star_run f greedy (Suc n) ?x)"
      by (cases greedy) (simp_all only: star_run.simps Let_def if_True if_False set_append list.set Un_iff insert_iff simp_thms)
    then show ?thesis by blast
  qed
qed auto

lemma rx_run_complete: "rx_match r b u s \<Longrightarrow> \<exists>h. ((rev u @ b, s), h) \<in> set (rx_run r ((b, u @ s), g))"
proof (induction r arbitrary: b u s g)
  case (Cat r1 r2)
  from Cat.prems obtain v w where "u = v @ w" "rx_match r1 b v (w @ s)" "rx_match r2 (rev v @ b) w s"
    by (cases rule: rx_matchE(3)) auto
  then show ?case using Cat.IH(1)[of b v "w @ s" g] Cat.IH(2)[of "rev v @ b" w s] by fastforce
next
  case (Star greedy r)
  then show ?case using star_run_complete[of r "rx_run r"] by simp
next
  case (Ahead r)
  from Ahead.prems show ?case
  proof (rule rx_matchE(7))
    fix v w assume vw: "u = []" "s = v @ w" "rx_match r b v w"
    then have "rx_run r ((b, v @ w), g) \<noteq> []" using Ahead.IH[of b v w g] by auto
    then show ?thesis using vw by simp
  qed
qed (fastforce elim: rx_matchE)+

text \<open>The matcher finds exactly the matches of the relation.\<close>

lemma rx_run_iff: "(\<exists>h. (q, h) \<in> set (rx_run r ((b, s), g))) \<longleftrightarrow> reaches r b s q"
proof
  assume "reaches r b s q"
  then obtain u where "s = u @ snd q" "fst q = rev u @ b" "rx_match r b u (snd q)"
    by (auto simp: reaches_def)
  then show "\<exists>h. (q, h) \<in> set (rx_run r ((b, s), g))"
    using rx_run_complete[of r b u "snd q" g] by (metis prod.collapse)
qed (auto dest: rx_run_sound)

section \<open>Groups\<close>

text \<open>
  What is known of every match's groups: the ones each way through the expression records, and a
  property of their texts that follows from the expressions between their parentheses.
\<close>

primrec sure_groups :: "rx \<Rightarrow> nat set" where
  "sure_groups Eps = {}"
| "sure_groups (Cls p) = {}"
| "sure_groups (Cat r1 r2) = sure_groups r1 \<union> sure_groups r2"
| "sure_groups (Alt r1 r2) = sure_groups r1 \<inter> sure_groups r2"
| "sure_groups (Star greedy r) = {}"
| "sure_groups (Grp n r) = insert n (sure_groups r)"
| "sure_groups Word_Edge = {}"
| "sure_groups (Ahead r) = {}"
| "sure_groups Line_Start = {}"
| "sure_groups Line_End = {}"

primrec groups_ok :: "(nat \<Rightarrow> string \<Rightarrow> bool) \<Rightarrow> rx \<Rightarrow> bool" where
  "groups_ok Q Eps = True"
| "groups_ok Q (Cls p) = True"
| "groups_ok Q (Cat r1 r2) = (groups_ok Q r1 \<and> groups_ok Q r2)"
| "groups_ok Q (Alt r1 r2) = (groups_ok Q r1 \<and> groups_ok Q r2)"
| "groups_ok Q (Star greedy r) = groups_ok Q r"
| "groups_ok Q (Grp n r) = ((\<forall>b u s. rx_match r b u s \<longrightarrow> Q n u) \<and> groups_ok Q r)"
| "groups_ok Q Word_Edge = True"
| "groups_ok Q (Ahead r) = True"
| "groups_ok Q Line_Start = True"
| "groups_ok Q Line_End = True"

definition all_groups :: "(nat \<Rightarrow> string \<Rightarrow> bool) \<Rightarrow> groups \<Rightarrow> bool" where
  "all_groups Q g = list_all (\<lambda>(n, w). Q n w) g"

lemma all_groups_simps [simp]: "all_groups Q []" "all_groups Q ((n, w) # g) \<longleftrightarrow> Q n w \<and> all_groups Q g"
  by (simp_all add: all_groups_def)

lemma all_groupsD: "\<lbrakk>all_groups Q g; map_of g n = Some w\<rbrakk> \<Longrightarrow> Q n w"
  by (induction g) (auto split: if_splits)

lemma star_run_keeps:
  assumes f: "\<And>x y. \<lbrakk>I x; y \<in> set (f x)\<rbrakk> \<Longrightarrow> I y"
  shows "\<lbrakk>I x; y \<in> set (star_run f greedy n x)\<rbrakk> \<Longrightarrow> I y"
  by (induction n arbitrary: x) (auto simp: Let_def dest: f split: if_splits)

lemma rx_run_groups:
  "\<lbrakk>groups_ok Q r; all_groups Q (snd x); y \<in> set (rx_run r x)\<rbrakk> \<Longrightarrow> all_groups Q (snd y)"
proof (induction r arbitrary: x y)
  case (Cat r1 r2)
  from Cat.prems(3) obtain z where "z \<in> set (rx_run r1 x)" "y \<in> set (rx_run r2 z)" by auto
  then show ?case using Cat.IH(1)[of x z] Cat.IH(2)[of z y] Cat.prems(1,2) by simp
next
  case (Alt r1 r2)
  from Alt.prems(3) have "y \<in> set (rx_run r1 x) \<or> y \<in> set (rx_run r2 x)" by simp
  then show ?case using Alt.IH(1)[of x y] Alt.IH(2)[of x y] Alt.prems(1,2) by (elim disjE) simp_all
next
  case (Star greedy r)
  have "all_groups Q (snd z)" if "all_groups Q (snd x)" "z \<in> set (rx_run r x)" for x z
    using Star.IH that Star.prems(1) by simp
  moreover have "y \<in> set (star_run (rx_run r) greedy (length (snd (fst x))) x)" using Star.prems(3) by simp
  ultimately show ?case using star_run_keeps[of "\<lambda>z. all_groups Q (snd z)" "rx_run r" x y] Star.prems(2) by blast
next
  case (Grp n r)
  obtain b s g where x: "x = ((b, s), g)" by (metis prod.collapse)
  from Grp.prems(3) obtain q h where y: "y = (q, (n, captured (b, s) q) # h)" "(q, h) \<in> set (rx_run r ((b, s), g))"
    by (auto simp: x)
  have "all_groups Q h" using Grp.IH[of x "(q, h)"] Grp.prems y(2) by (simp add: x)
  moreover obtain u where "s = u @ snd q" "rx_match r b u (snd q)"
    using rx_run_sound[OF y(2)] by (auto simp: reaches_def)
  then have "Q n (captured (b, s) q)" using Grp.prems(1) by (auto simp: captured_def)
  ultimately show ?case by (simp add: y(1))
next
  case (Cls p)
  then show ?case by (cases x) (auto split: list.splits if_splits)
qed (simp_all split: if_splits)

lemma star_run_grows:
  assumes f: "\<And>x y. y \<in> set (f x) \<Longrightarrow> fst ` set (snd x) \<subseteq> fst ` set (snd y)"
  shows "y \<in> set (star_run f greedy n x) \<Longrightarrow> fst ` set (snd x) \<subseteq> fst ` set (snd y)"
proof (rule star_run_keeps[of "\<lambda>z. fst ` set (snd x) \<subseteq> fst ` set (snd z)" f x y])
  fix z w assume "fst ` set (snd x) \<subseteq> fst ` set (snd z)" "w \<in> set (f z)"
  then show "fst ` set (snd x) \<subseteq> fst ` set (snd w)" using f[of w z] by (meson subset_trans)
qed simp_all

lemma rx_run_sure:
  "y \<in> set (rx_run r x) \<Longrightarrow> fst ` set (snd x) \<union> sure_groups r \<subseteq> fst ` set (snd y)"
proof (induction r arbitrary: x y)
  case (Cat r1 r2)
  then obtain z where "z \<in> set (rx_run r1 x)" "y \<in> set (rx_run r2 z)" by auto
  then have "fst ` set (snd x) \<union> sure_groups r1 \<subseteq> fst ` set (snd z)"
    "fst ` set (snd z) \<union> sure_groups r2 \<subseteq> fst ` set (snd y)" by (auto dest!: Cat.IH)
  then show ?case unfolding sure_groups.simps by (meson Un_subset_iff subset_trans)
next
  case (Alt r1 r2)
  from Alt.prems have "y \<in> set (rx_run r1 x) \<or> y \<in> set (rx_run r2 x)" by simp
  then have "fst ` set (snd x) \<union> sure_groups r1 \<subseteq> fst ` set (snd y) \<or>
    fst ` set (snd x) \<union> sure_groups r2 \<subseteq> fst ` set (snd y)" using Alt.IH by meson
  then show ?case unfolding sure_groups.simps by blast
next
  case (Star greedy r)
  have "fst ` set (snd x) \<subseteq> fst ` set (snd y)"
  proof (rule star_run_grows[of "rx_run r"])
    show "fst ` set (snd z) \<subseteq> fst ` set (snd w)" if "w \<in> set (rx_run r z)" for z w
      using Star.IH[OF that] by (meson Un_subset_iff)
    show "y \<in> set (star_run (rx_run r) greedy (length (snd (fst x))) x)" using Star.prems by simp
  qed
  then show ?case by simp
next
  case (Grp n r)
  then obtain q h where "y = (q, (n, captured (fst x) q) # h)" "(q, h) \<in> set (rx_run r x)" by auto
  then show ?case using Grp.IH[of "(q, h)" x] by auto
next
  case (Cls p)
  then show ?case by (cases x) (auto split: list.splits if_splits)
qed (simp_all split: if_splits)

definition match_of :: "rx \<Rightarrow> rmatch \<Rightarrow> bool" where
  "match_of r m = (\<exists>s. (rm_end m, rm_groups m) \<in> set (rx_run r ((rm_before m, s), [])))"

lemma search_match_of: "rx_search_from r b s = Some m \<Longrightarrow> match_of r m"
proof (induction r b s rule: rx_search_from.induct)
  case (1 r b s)
  show ?case
  proof (cases "rx_run r ((b, s), [])")
    case Nil
    then show ?thesis using 1 by (subst (asm) rx_search_from.simps) (auto split: list.splits)
  next
    case (Cons x xs)
    then have "m = \<lparr>rm_before = b, rm_end = fst x, rm_groups = snd x\<rparr>"
      using 1(2) by (subst (asm) rx_search_from.simps) (simp split: prod.splits)
    then show ?thesis unfolding match_of_def using Cons by (intro exI[of _ s]) simp
  qed
qed

lemma iter_match_of: "m \<in> set (rx_iter r n p) \<Longrightarrow> match_of r m"
proof (induction n arbitrary: p)
  case (Suc n)
  then show ?case
    by (cases "rx_search_from r (fst p) (snd p)") (auto intro: Suc.IH search_match_of split: if_splits)
qed simp

lemma finditer_match_of: "m \<in> set (rx_finditer r s) \<Longrightarrow> match_of r m"
  unfolding rx_finditer_def by (rule iter_match_of)

lemma group_given:
  assumes "match_of r m" "groups_ok Q r" "n \<in> sure_groups r"
  obtains w where "group m n = Some w" "Q n w"
proof -
  obtain s where run: "(rm_end m, rm_groups m) \<in> set (rx_run r ((rm_before m, s), []))"
    using assms(1) by (auto simp: match_of_def)
  have "n \<in> fst ` set (rm_groups m)" using rx_run_sure[OF run] assms(3) by auto
  then obtain w where w: "map_of (rm_groups m) n = Some w"
    using map_of_eq_None_iff[of "rm_groups m" n] by (cases "map_of (rm_groups m) n") auto
  moreover have "Q n w" using rx_run_groups[OF assms(2) _ run] w by (auto intro: all_groupsD)
  ultimately show ?thesis using that by (simp add: group_def)
qed

section \<open>The first choice\<close>

text \<open>\<open>rx_first r x y\<close>: from \<open>x\<close> the engine's first way through \<open>r\<close> ends in \<open>y\<close>.\<close>

definition rx_first :: "rx \<Rightarrow> rx_state \<Rightarrow> rx_state \<Rightarrow> bool" where
  "rx_first r x y = (\<exists>ys. rx_run r x = y # ys)"

named_theorems rx_intros

lemma rx_first_Eps [rx_intros]: "rx_first Eps x x"
  by (simp add: rx_first_def)

lemma rx_first_Cls [rx_intros]: "p c \<Longrightarrow> rx_first (Cls p) ((b, c # s), g) ((c # b, s), g)"
  by (simp add: rx_first_def)

lemma rx_first_Cat [rx_intros]:
  "\<lbrakk>rx_first r1 x y; rx_first r2 y z\<rbrakk> \<Longrightarrow> rx_first (Cat r1 r2) x z"
  by (auto simp: rx_first_def)

lemma rx_first_Alt1: "rx_first r1 x y \<Longrightarrow> rx_first (Alt r1 r2) x y"
  by (auto simp: rx_first_def)

lemma rx_first_Alt2: "\<lbrakk>rx_run r1 x = []; rx_first r2 x y\<rbrakk> \<Longrightarrow> rx_first (Alt r1 r2) x y"
  by (simp add: rx_first_def)

lemma rx_first_Grp:
  "rx_first r ((b, u @ s), g) ((b1, s), h) \<Longrightarrow> rx_first (Grp n r) ((b, u @ s), g) ((b1, s), (n, u) # h)"
  by (auto simp: rx_first_def captured_def)

lemma star_run_step:
  assumes step: "\<And>b c t g. p c \<Longrightarrow> f ((b, c # t), g) = [((c # b, t), g)]"
    and stop: "\<And>b g. f ((b, s), g) = []"
  shows "\<lbrakk>list_all p u; length u + length s \<le> n\<rbrakk> \<Longrightarrow>
    \<exists>ys. star_run f True n ((b, u @ s), g) = ((rev u @ b, s), g) # ys"
proof (induction u arbitrary: n b)
  case Nil
  then show ?case using stop by (cases n) (auto simp: Let_def)
next
  case (Cons c u)
  obtain k where k: "n = Suc k" using Cons.prems(2) by (cases n) auto
  obtain ys where "star_run f True k ((c # b, u @ s), g) = ((rev u @ c # b, s), g) # ys"
    using Cons.IH[of k "c # b"] Cons.prems k by fastforce
  then show ?case using Cons.prems(1) k step by (simp add: Let_def)
qed

text \<open>A greedy class takes everything of the class.\<close>

lemma rx_first_Star:
  "\<lbrakk>list_all p u; s = [] \<or> \<not> p (hd s)\<rbrakk> \<Longrightarrow>
    rx_first (Star True (Cls p)) ((b, u @ s), g) ((rev u @ b, s), g)"
  using star_run_step[of p "rx_run (Cls p)" s u "length u + length s" b g]
  by (cases s) (auto simp: rx_first_def)

lemma rx_first_plus:
  "\<lbrakk>list_all p u; u \<noteq> []; s = [] \<or> \<not> p (hd s)\<rbrakk> \<Longrightarrow>
    rx_first (plus (Cls p)) ((b, u @ s), g) ((rev u @ b, s), g)"
proof (cases u)
  case (Cons c v)
  assume "list_all p u" "s = [] \<or> \<not> p (hd s)"
  then have "rx_first (Cls p) ((b, c # v @ s), g) ((c # b, v @ s), g)"
    and "rx_first (Star True (Cls p)) ((c # b, v @ s), g) ((rev v @ c # b, s), g)"
    using Cons by (auto intro: rx_first_Cls rx_first_Star)
  then show ?thesis unfolding plus_def Cons by (auto intro: rx_first_Cat)
qed simp

lemma rx_first_cats_Nil: "rx_first (cats []) x x"
  by (simp add: cats_def rx_first_Eps)

lemma rx_first_cats: "\<lbrakk>rx_first r x y; rx_first (cats rs) y z\<rbrakk> \<Longrightarrow> rx_first (cats (r # rs)) x z"
  by (simp add: cats_def rx_first_Cat)

lemma rx_first_kw: "map lower_char u = map lower_char w \<Longrightarrow> rx_first (kw w) ((b, u @ s), g) ((rev u @ b, s), g)"
proof (induction w arbitrary: u b)
  case Nil
  then show ?case by (simp add: kw_def rx_first_cats_Nil)
next
  case (Cons c w)
  then obtain d v where "u = d # v" "lower_char d = lower_char c" "map lower_char v = map lower_char w"
    by (cases u) auto
  then show ?case using Cons.IH[of v "d # b"]
    by (auto simp: kw_def intro!: rx_first_cats rx_first_Cls)
qed

text \<open>A search whose expression matches at the start of the text finds that match.\<close>

lemma rx_search_first:
  "rx_first r ((b, s), []) (q, g) \<Longrightarrow> rx_search_from r b s = Some \<lparr>rm_before = b, rm_end = q, rm_groups = g\<rparr>"
  by (auto simp: rx_first_def rx_search_from.simps)

text \<open>A search fails when the relation matches nowhere.\<close>

lemma rx_run_Nil_iff: "rx_run r ((b, s), g) = [] \<longleftrightarrow> (\<forall>u t. s = u @ t \<longrightarrow> \<not> rx_match r b u t)"
proof -
  have "rx_run r ((b, s), g) = [] \<longleftrightarrow> (\<forall>q. \<not> (\<exists>h. (q, h) \<in> set (rx_run r ((b, s), g))))"
    by (cases "rx_run r ((b, s), g)") auto
  then show ?thesis unfolding rx_run_iff reaches_def by force
qed

lemma rx_search_None_iff:
  "rx_search_from r b s = None \<longleftrightarrow> (\<forall>w u t. s = w @ u @ t \<longrightarrow> \<not> rx_match r (rev w @ b) u t)"
proof (induction s arbitrary: b)
  case Nil
  then show ?case using rx_run_Nil_iff[of r b "[]" "[]"]
    by (auto simp: rx_search_from.simps split: list.split)
next
  case (Cons c s)
  have "rx_search_from r b (c # s) = None \<longleftrightarrow>
      rx_run r ((b, c # s), []) = [] \<and> rx_search_from r (c # b) s = None"
    by (subst rx_search_from.simps) (auto split: list.split)
  also have "\<dots> \<longleftrightarrow> (\<forall>w u t. c # s = w @ u @ t \<longrightarrow> \<not> rx_match r (rev w @ b) u t)" (is "?here \<and> ?later \<longleftrightarrow> ?all")
    unfolding rx_run_Nil_iff Cons.IH
  proof (intro iffI allI impI conjI)
    fix w u t
    assume a: "(\<forall>u t. c # s = u @ t \<longrightarrow> \<not> rx_match r b u t) \<and>
      (\<forall>w u t. s = w @ u @ t \<longrightarrow> \<not> rx_match r (rev w @ c # b) u t)" "c # s = w @ u @ t"
    then show "\<not> rx_match r (rev w @ b) u t" by (cases w) auto
  next
    fix u t assume "\<forall>w u t. c # s = w @ u @ t \<longrightarrow> \<not> rx_match r (rev w @ b) u t" "c # s = u @ t"
    then show "\<not> rx_match r b u t" by (metis append_Nil rev.simps(1))
  next
    fix w u t assume "\<forall>w u t. c # s = w @ u @ t \<longrightarrow> \<not> rx_match r (rev w @ b) u t" "s = w @ u @ t"
    then show "\<not> rx_match r (rev w @ c # b) u t"
      by (metis append.assoc append_Cons append_Nil rev.simps(2))
  qed
  finally show ?case .
qed

end
