(* ===== verification/Ddl_Extract.thy ===== *)
theory Ddl_Extract
  imports Complex_Main Py_Regex
begin

text \<open>
  \<^verbatim>\<open>scripts/ddl_extract.py\<close>: reads the schema change topics of Debezium and prints the
  \<^verbatim>\<open>ddl_apply.py\<close> command for each change. The broker's answers to successive polls, the JSON
  library and the formatting of times are parameters; what the code does with a value of the wrong
  JSON type is an error that drops the message, as in the code.
\<close>

section \<open>Types\<close>

definition pg_type_map :: "(string \<times> string) list" where
  "pg_type_map = [(''character varying'', ''STRING''), (''varchar'', ''STRING''), (''text'', ''STRING''),
     (''char'', ''STRING''), (''uuid'', ''STRING''), (''json'', ''STRING''), (''jsonb'', ''STRING''),
     (''xml'', ''STRING''), (''citext'', ''STRING''),
     (''integer'', ''INT''), (''int'', ''INT''), (''int4'', ''INT''),
     (''smallint'', ''SMALLINT''), (''int2'', ''SMALLINT''),
     (''bigint'', ''BIGINT''), (''int8'', ''BIGINT''), (''serial'', ''INT''), (''bigserial'', ''BIGINT''),
     (''real'', ''FLOAT''), (''float4'', ''FLOAT''),
     (''double precision'', ''DOUBLE''), (''float8'', ''DOUBLE''),
     (''numeric'', ''DECIMAL(38,10)''), (''decimal'', ''DECIMAL(38,10)''),
     (''boolean'', ''BOOLEAN''), (''bool'', ''BOOLEAN''),
     (''date'', ''DATE''),
     (''timestamp'', ''TIMESTAMP''),
     (''timestamp without time zone'', ''TIMESTAMP''),
     (''timestamp with time zone'', ''TIMESTAMP''),
     (''time'', ''STRING''), (''bytea'', ''BINARY'')]"

definition ora_type_map :: "(string \<times> string) list" where
  "ora_type_map = [(''varchar2'', ''STRING''), (''varchar'', ''STRING''), (''char'', ''STRING''),
     (''nchar'', ''STRING''), (''nvarchar2'', ''STRING''), (''clob'', ''STRING''),
     (''nclob'', ''STRING''), (''long'', ''STRING''),
     (''number'', ''DECIMAL(38,10)''), (''integer'', ''BIGINT''), (''float'', ''DOUBLE''),
     (''binary_float'', ''FLOAT''), (''binary_double'', ''DOUBLE''),
     (''smallint'', ''SMALLINT''), (''date'', ''TIMESTAMP''), (''timestamp'', ''TIMESTAMP''),
     (''boolean'', ''BOOLEAN''), (''raw'', ''BINARY''), (''blob'', ''BINARY'')]"

definition mgo_type_map :: "(string \<times> string) list" where
  "mgo_type_map = [(''string'', ''STRING''), (''objectid'', ''STRING''), (''bindata'', ''BINARY''),
     (''int32'', ''INT''), (''int64'', ''BIGINT''), (''int'', ''INT''),
     (''double'', ''DOUBLE''), (''decimal128'', ''DECIMAL(38,10)''),
     (''bool'', ''BOOLEAN''), (''date'', ''TIMESTAMP''), (''timestamp'', ''TIMESTAMP''),
     (''array'', ''STRING''), (''object'', ''STRING'')]"

definition get_or :: "(string \<times> string) list \<Rightarrow> string \<Rightarrow> string \<Rightarrow> string" where
  "get_or m k d = (case map_of m k of Some v \<Rightarrow> v | None \<Rightarrow> d)"

fun index_of :: "char \<Rightarrow> string \<Rightarrow> nat option" where
  "index_of c [] = None"
| "index_of c (d # s) = (if d = c then Some 0 else map_option Suc (index_of c s))"

definition digits_part :: "nat \<Rightarrow> string option \<Rightarrow> nat" where
  "digits_part d part = (case part of None \<Rightarrow> d
     | Some t \<Rightarrow> if py_isdigit (py_strip t) then nat_of_digits (py_strip t) else d)"

definition decimal_type :: "string \<Rightarrow> string" where
  "decimal_type inner = (let parts = py_split_on CHR '','' inner;
     p = digits_part 38 (Some (hd parts));
     s = digits_part 10 (if 1 < length parts then Some (parts ! 1) else None)
   in ''DECIMAL('' @ str_of_nat p @ '','' @ str_of_nat s @ '')'')"

definition type_base :: "string \<Rightarrow> string" where
  "type_base type_str = py_strip (hd (py_split_on CHR ''('' (py_strip (py_lower type_str))))"

definition src_type_to_iceberg :: "string \<Rightarrow> string \<Rightarrow> string + string" where
  "src_type_to_iceberg source_key type_str =
     (if type_str = [] then Inr ''STRING''
      else let low = py_strip (py_lower type_str); base = type_base type_str in
        if base \<in> {''decimal'', ''numeric'', ''number''} \<and> CHR ''('' \<in> set low then
          (case (index_of CHR ''('' low, index_of CHR '')'' low) of
             (Some i, Some j) \<Rightarrow> Inr (decimal_type (take (j - Suc i) (drop (Suc i) low)))
           | _ \<Rightarrow> Inl ''ValueError: substring not found'')
        else if source_key = ''postgres'' then Inr (get_or pg_type_map base (get_or pg_type_map low ''STRING''))
        else if source_key = ''oracle'' then Inr (get_or ora_type_map base (get_or ora_type_map low ''STRING''))
        else if source_key = ''mongodb'' then Inr (get_or mgo_type_map base ''STRING'')
        else Inr ''STRING'')"

section \<open>The expressions\<close>

text \<open>\<^verbatim>\<open>ALTER\s+TABLE\s+\S+\s+\<close>, with which all four begin.\<close>

definition alter_table :: "rx list" where
  "alter_table = [kw ''ALTER'', plus sp, kw ''TABLE'', plus sp, plus nsp, plus sp]"

definition column_opt :: rx where
  "column_opt = opt (Cat (kw ''COLUMN'') (plus sp))"

text \<open>\<^verbatim>\<open>([^\s,;]+)\<close>\<close>

definition type_char :: "char \<Rightarrow> bool" where
  "type_char c = (\<not> py_space c \<and> c \<noteq> CHR '','' \<and> c \<noteq> CHR '';'')"

definition re_add_col :: rx where
  "re_add_col = cats (alter_table @ [kw ''ADD'', plus sp, column_opt, Grp 1 (plus wd), plus sp,
     Grp 2 (plus (Cls type_char))])"

definition re_drop_col :: rx where
  "re_drop_col = cats (alter_table @ [kw ''DROP'', plus sp, column_opt, Grp 1 (plus wd)])"

definition re_modify_col :: rx where
  "re_modify_col = cats (alter_table @ [Alt (kw ''MODIFY'') (cats [kw ''ALTER'', plus sp, kw ''COLUMN'']),
     plus sp, Grp 1 (plus wd), plus sp, Grp 2 (plus (Cls type_char))])"

definition re_rename_col :: rx where
  "re_rename_col = cats (alter_table @ [kw ''RENAME'', plus sp, kw ''COLUMN'', plus sp, Grp 1 (plus wd),
     plus sp, kw ''TO'', plus sp, Grp 2 (plus wd)])"

section \<open>Changes\<close>

datatype change =
    Ch_Add string string
  | Ch_Drop string
  | Ch_Modify string string
  | Ch_Rename string string

fun collect :: "('a \<Rightarrow> string + 'b option) \<Rightarrow> 'a list \<Rightarrow> string + 'b list" where
  "collect f [] = Inr []"
| "collect f (x # xs) = (case f x of Inl exc \<Rightarrow> Inl exc
     | Inr y \<Rightarrow> (case collect f xs of Inl exc \<Rightarrow> Inl exc
        | Inr ys \<Rightarrow> Inr ((case y of None \<Rightarrow> [] | Some z \<Rightarrow> [z]) @ ys)))"

definition text_of :: "rmatch \<Rightarrow> nat \<Rightarrow> string" where
  "text_of m n = (case group m n of Some t \<Rightarrow> t | None \<Rightarrow> [])"

definition typed_change :: "(string \<Rightarrow> string \<Rightarrow> change) \<Rightarrow> string \<Rightarrow> rmatch \<Rightarrow> string + change option" where
  "typed_change mk source_key m = (case src_type_to_iceberg source_key (text_of m 2) of
     Inl exc \<Rightarrow> Inl exc | Inr t \<Rightarrow> Inr (Some (mk (py_lower (text_of m 1)) t)))"

definition append_changes :: "string + 'a list \<Rightarrow> string + 'a list \<Rightarrow> string + 'a list" where
  "append_changes x y = (case x of Inl exc \<Rightarrow> Inl exc
     | Inr xs \<Rightarrow> (case y of Inl exc \<Rightarrow> Inl exc | Inr ys \<Rightarrow> Inr (xs @ ys)))"

definition parse_ddl_text :: "string \<Rightarrow> string \<Rightarrow> string + change list" where
  "parse_ddl_text source_key ddl =
     append_changes (collect (typed_change Ch_Add source_key) (rx_finditer re_add_col ddl))
     (append_changes (collect (\<lambda>m. Inr (Some (Ch_Drop (py_lower (text_of m 1))))) (rx_finditer re_drop_col ddl))
     (append_changes (collect (typed_change Ch_Modify source_key) (rx_finditer re_modify_col ddl))
       (collect (\<lambda>m. Inr (Some (Ch_Rename (py_lower (text_of m 1)) (py_lower (text_of m 2)))))
          (rx_finditer re_rename_col ddl))))"

section \<open>JSON values\<close>

datatype json =
    JNull
  | JBool bool
  | JNum rat
  | JStr string
  | JArr "json list"
  | JObj "(string \<times> json) list"

fun truthy :: "json \<Rightarrow> bool" where
  "truthy JNull = False"
| "truthy (JBool b) = b"
| "truthy (JNum n) = (n \<noteq> 0)"
| "truthy (JStr s) = (s \<noteq> [])"
| "truthy (JArr xs) = (xs \<noteq> [])"
| "truthy (JObj kvs) = (kvs \<noteq> [])"

definition json_or :: "json \<Rightarrow> json \<Rightarrow> json" where
  "json_or a b = (if truthy a then a else b)"

fun json_get :: "json \<Rightarrow> string \<Rightarrow> json \<Rightarrow> string + json" where
  "json_get (JObj kvs) k d = Inr (case map_of kvs k of Some v \<Rightarrow> v | None \<Rightarrow> d)"
| "json_get _ k d = Inl ''AttributeError''"

fun json_lower :: "json \<Rightarrow> string + string" where
  "json_lower (JStr s) = Inr (py_lower s)"
| "json_lower _ = Inl ''AttributeError''"

fun json_iter :: "json \<Rightarrow> string + json list" where
  "json_iter (JArr xs) = Inr xs"
| "json_iter (JStr s) = Inr (map (\<lambda>c. JStr [c]) s)"
| "json_iter (JObj kvs) = Inr (map (\<lambda>(k, _). JStr k) kvs)"
| "json_iter _ = Inl ''TypeError''"

definition bind :: "string + 'a \<Rightarrow> ('a \<Rightarrow> string + 'b) \<Rightarrow> string + 'b" where
  "bind x f = (case x of Inl exc \<Rightarrow> Inl exc | Inr y \<Rightarrow> f y)"

definition json_type :: "string \<Rightarrow> json \<Rightarrow> string + string" where
  "json_type source_key t = (if \<not> truthy t then Inr ''STRING''
     else (case t of JStr s \<Rightarrow> src_type_to_iceberg source_key s | _ \<Rightarrow> Inl ''AttributeError''))"

definition field_name :: "json \<Rightarrow> string + string" where
  "field_name fld = bind (json_get fld ''field'' (JStr [])) json_lower"

definition typed_field :: "(string \<Rightarrow> string \<Rightarrow> change) \<Rightarrow> string \<Rightarrow> json \<Rightarrow> string + change option" where
  "typed_field mk source_key fld = bind (field_name fld) (\<lambda>col.
     bind (bind (json_get fld ''type'' (JStr ''string'')) (json_type source_key)) (\<lambda>t.
       Inr (if col = [] then None else Some (mk col t))))"

definition removed_field :: "json \<Rightarrow> string + change option" where
  "removed_field fld = bind (field_name fld) (\<lambda>col. Inr (if col = [] then None else Some (Ch_Drop col)))"

definition field_list :: "json \<Rightarrow> string \<Rightarrow> string + json list" where
  "field_list changes k = bind (json_get changes k (JArr [])) json_iter"

definition parse_mongodb_schema_change :: "string \<Rightarrow> json \<Rightarrow> string + change list" where
  "parse_mongodb_schema_change source_key event =
     bind (json_get event ''schemaChanges'' JNull) (\<lambda>sc.
       let changes = json_or sc (JObj []) in
       append_changes (bind (field_list changes ''added'') (collect (typed_field Ch_Add source_key)))
       (append_changes (bind (field_list changes ''removed'') (collect removed_field))
         (bind (field_list changes ''updated'') (collect (typed_field Ch_Modify source_key)))))"

section \<open>Commands\<close>

definition command_start :: "string \<Rightarrow> string \<Rightarrow> string \<Rightarrow> string \<Rightarrow> string" where
  "command_start source_key tbl op col =
     ''python3 scripts/ddl_apply.py --source '' @ source_key @ '' --table '' @ tbl @
     '' --op '' @ op @ '' --col '' @ col"

fun build_command :: "string \<Rightarrow> string \<Rightarrow> change \<Rightarrow> string" where
  "build_command source_key tbl (Ch_Add col t) = command_start source_key tbl ''add'' col @ '' --type '' @ t"
| "build_command source_key tbl (Ch_Drop col) = command_start source_key tbl ''drop'' col"
| "build_command source_key tbl (Ch_Modify col t) = command_start source_key tbl ''modify'' col @ '' --type '' @ t"
| "build_command source_key tbl (Ch_Rename col new) = command_start source_key tbl ''rename'' col @ '' --new-col '' @ new"

section \<open>The consumer\<close>

record topic_source =
  ts_source_key :: string
  ts_ddl_topic :: string

definition sources :: "topic_source list" where
  "sources =
     [\<lparr>ts_source_key = ''postgres'', ts_ddl_topic = ''schema-changes.postgres''\<rparr>,
      \<lparr>ts_source_key = ''oracle'', ts_ddl_topic = ''schema-changes.oracle''\<rparr>,
      \<lparr>ts_source_key = ''mongodb'', ts_ddl_topic = ''schema-changes.mongodb''\<rparr>]"

datatype poll_result =
    No_Message
  | Partition_Eof
  | Broker_Error
  | Message int "string option"

record broker =
  bk_topic_exists :: "string \<Rightarrow> bool"
  bk_poll :: "string \<Rightarrow> nat \<Rightarrow> poll_result"

record codecs =
  cd_loads :: "string \<Rightarrow> string + json"
  cd_dumps :: "json \<Rightarrow> string"
  cd_utc_iso :: "json \<Rightarrow> string + string"

datatype extracted =
    Raw_Event string string int
  | Ddl_Event string string json "change list" "string list" string int

definition event_table :: "json \<Rightarrow> string + string" where
  "event_table meta = bind (json_get meta ''table'' JNull) (\<lambda>t.
     bind (json_get meta ''collection'' JNull) (\<lambda>c.
       json_lower (json_or t (json_or c (JStr [])))))"

definition parse_changes :: "string \<Rightarrow> json \<Rightarrow> json \<Rightarrow> string + change list" where
  "parse_changes source_key event ddl =
     (if source_key = ''mongodb'' then parse_mongodb_schema_change source_key event
      else (case ddl of JStr s \<Rightarrow> parse_ddl_text source_key s | _ \<Rightarrow> Inl ''TypeError''))"

definition event_time :: "codecs \<Rightarrow> json \<Rightarrow> json \<Rightarrow> string + string" where
  "event_time cd meta event = bind (json_get meta ''ts_ms'' JNull) (\<lambda>a.
     bind (json_get event ''ts_ms'' JNull) (\<lambda>b.
       let ts = json_or a (json_or b (JNum 0)) in
       if truthy ts then cd_utc_iso cd ts else Inr ''unknown''))"

text \<open>The body of the loop's \<^verbatim>\<open>try\<close>: \<open>None\<close> is a \<^verbatim>\<open>continue\<close>, an error drops the message.\<close>

definition handle_message ::
  "codecs \<Rightarrow> bool \<Rightarrow> string \<Rightarrow> int \<Rightarrow> string option \<Rightarrow> string + extracted option" where
  "handle_message cd raw_mode source_key offset value = (case value of
     None \<Rightarrow> Inr None
   | Some bytes \<Rightarrow> bind (cd_loads cd bytes) (\<lambda>event.
       if raw_mode then Inr (Some (Raw_Event source_key (cd_dumps cd event) offset))
       else bind (json_get event ''source'' JNull) (\<lambda>src.
         let meta = json_or src (JObj []) in
         bind (event_table meta) (\<lambda>tbl.
           if tbl = [] then Inr None
           else bind (json_get event ''ddl'' (JStr [])) (\<lambda>ddl.
             bind (parse_changes source_key event ddl) (\<lambda>changes.
               bind (event_time cd meta event) (\<lambda>ts.
                 if changes = [] \<and> \<not> truthy ddl then Inr None
                 else Inr (Some (Ddl_Event source_key tbl ddl changes
                   (map (build_command source_key tbl) changes) ts offset)))))))))"

definition max_empty_polls :: nat where "max_empty_polls = 5"

text \<open>
  The loop over the polls, which a broker that keeps answering with errors keeps going for ever:
  \<open>None\<close> is that it does not return.
\<close>

partial_function (option) consume_loop ::
  "(nat \<Rightarrow> poll_result) \<Rightarrow> (int \<Rightarrow> string option \<Rightarrow> string + extracted option) \<Rightarrow> int \<Rightarrow> nat \<Rightarrow> nat \<Rightarrow> nat \<Rightarrow>
     extracted list \<Rightarrow> extracted list option" where
  "consume_loop poll handle max_messages i polled idle results =
     (if int polled < max_messages \<and> idle < max_empty_polls then
        (case poll i of
           No_Message \<Rightarrow> consume_loop poll handle max_messages (Suc i) polled (Suc idle) results
         | Partition_Eof \<Rightarrow> consume_loop poll handle max_messages (Suc i) polled (Suc idle) results
         | Broker_Error \<Rightarrow> consume_loop poll handle max_messages (Suc i) polled idle results
         | Message offset value \<Rightarrow>
             consume_loop poll handle max_messages (Suc i) (Suc polled) 0
               (case handle offset value of Inr (Some r) \<Rightarrow> results @ [r] | _ \<Rightarrow> results))
      else Some results)"

definition consume_ddl_topic ::
  "broker \<Rightarrow> codecs \<Rightarrow> topic_source \<Rightarrow> int \<Rightarrow> bool \<Rightarrow> extracted list option" where
  "consume_ddl_topic bk cd src max_messages raw_mode =
     (if \<not> bk_topic_exists bk (ts_ddl_topic src) then Some []
      else consume_loop (bk_poll bk (ts_ddl_topic src)) (handle_message cd raw_mode (ts_source_key src))
        max_messages 0 0 0 [])"

end
