(* ===== verification/Ddl_Consume.thy ===== *)
theory Ddl_Consume
  imports Ddl_Extract
begin

text \<open>
  The polling loop of \<^verbatim>\<open>ddl_extract.py\<close>: that it returns, how much it returns, and when it never does.
\<close>

section \<open>One poll\<close>

lemmas loop_step = consume_loop.simps

abbreviation going :: "int \<Rightarrow> nat \<Rightarrow> nat \<Rightarrow> bool" where
  "going mx polled idle \<equiv> int polled < mx \<and> idle < max_empty_polls"

definition appended :: "extracted list \<Rightarrow> string + extracted option \<Rightarrow> extracted list" where
  "appended results x = (case x of Inr (Some r) \<Rightarrow> results @ [r] | _ \<Rightarrow> results)"

lemma loop_stop: "\<not> going mx polled idle \<Longrightarrow> consume_loop poll handle mx i polled idle results = Some results"
  by (subst loop_step) auto

lemma loop_error:
  "poll i = Broker_Error \<Longrightarrow> going mx polled idle \<Longrightarrow>
    consume_loop poll handle mx i polled idle results = consume_loop poll handle mx (Suc i) polled idle results"
  by (subst loop_step) simp

lemma loop_idle:
  "poll i \<in> {No_Message, Partition_Eof} \<Longrightarrow> going mx polled idle \<Longrightarrow>
    consume_loop poll handle mx i polled idle results = consume_loop poll handle mx (Suc i) polled (Suc idle) results"
  by (subst loop_step) auto

lemma loop_message:
  "poll i = Message off val \<Longrightarrow> going mx polled idle \<Longrightarrow>
    consume_loop poll handle mx i polled idle results =
    consume_loop poll handle mx (Suc i) (Suc polled) 0 (appended results (handle off val))"
  by (subst loop_step) (simp add: appended_def)

lemma loop_skip_errors:
  assumes "\<forall>k. i \<le> k \<and> k < j \<longrightarrow> poll k = Broker_Error" and "i \<le> j" and go: "going mx polled idle"
  shows "consume_loop poll handle mx i polled idle results = consume_loop poll handle mx j polled idle results"
  using assms(1,2)
proof (induction "j - i" arbitrary: i)
  case (Suc n)
  then have "poll i = Broker_Error" "Suc i \<le> j" "n = j - Suc i" by auto
  then show ?case using Suc.hyps(1)[of "Suc i"] Suc.prems loop_error[OF _ go] by simp
qed simp

section \<open>The loop as a function of the polls\<close>

text \<open>
  What a sequence of polls amounts to: the messages among them, the empty polls since the last of
  these, and the results of the messages in order.
\<close>

fun messages_after :: "nat \<Rightarrow> poll_result \<Rightarrow> nat" where
  "messages_after n (Message off val) = Suc n"
| "messages_after n _ = n"

fun idle_after :: "nat \<Rightarrow> poll_result \<Rightarrow> nat" where
  "idle_after e (Message off val) = 0"
| "idle_after e Broker_Error = e"
| "idle_after e _ = Suc e"

fun results_after :: "(int \<Rightarrow> string option \<Rightarrow> string + extracted option) \<Rightarrow> extracted list \<Rightarrow> poll_result \<Rightarrow> extracted list" where
  "results_after handle rs (Message off val) = appended rs (handle off val)"
| "results_after handle rs _ = rs"

definition first_polls :: "(nat \<Rightarrow> poll_result) \<Rightarrow> nat \<Rightarrow> poll_result list" where
  "first_polls poll n = map poll [0..<n]"

definition halted :: "(nat \<Rightarrow> poll_result) \<Rightarrow> int \<Rightarrow> nat \<Rightarrow> bool" where
  "halted poll mx n = (mx \<le> int (foldl messages_after 0 (first_polls poll n)) \<or>
     max_empty_polls \<le> foldl idle_after 0 (first_polls poll n))"

lemma first_polls_Suc [simp]: "first_polls poll 0 = []" "first_polls poll (Suc n) = first_polls poll n @ [poll n]"
  by (simp_all add: first_polls_def)

abbreviation loop_from :: "(nat \<Rightarrow> poll_result) \<Rightarrow> (int \<Rightarrow> string option \<Rightarrow> string + extracted option) \<Rightarrow> int \<Rightarrow> nat \<Rightarrow>
    extracted list option" where
  "loop_from poll handle mx n \<equiv> consume_loop poll handle mx n (foldl messages_after 0 (first_polls poll n))
     (foldl idle_after 0 (first_polls poll n)) (foldl (results_after handle) [] (first_polls poll n))"

lemma loop_from_Suc: "\<not> halted poll mx n \<Longrightarrow> loop_from poll handle mx n = loop_from poll handle mx (Suc n)"
  by (cases "poll n") (simp_all add: halted_def not_le loop_idle loop_error loop_message)

lemma loop_from_halted:
  "halted poll mx n \<Longrightarrow> loop_from poll handle mx n = Some (foldl (results_after handle) [] (first_polls poll n))"
  by (rule loop_stop) (auto simp: halted_def)

lemma loop_from_before: "\<forall>m < n. \<not> halted poll mx m \<Longrightarrow> loop_from poll handle mx 0 = loop_from poll handle mx n"
  by (induction n) (simp_all add: loop_from_Suc del: first_polls_Suc)

lemma halted_if_returns:
  assumes "loop_from poll handle mx n = Some r"
  shows "\<exists>m \<ge> n. halted poll mx m"
proof -
  let ?P = "\<lambda>(p :: nat \<Rightarrow> poll_result) (h :: int \<Rightarrow> string option \<Rightarrow> string + extracted option) mx n q e
      (rs :: extracted list) (r :: extracted list).
    q = foldl messages_after 0 (first_polls p n) \<longrightarrow> e = foldl idle_after 0 (first_polls p n) \<longrightarrow> (\<exists>m \<ge> n. halted p mx m)"
  have "?P poll handle mx n q e rs r" if "consume_loop poll handle mx n q e rs = Some r" for q e rs
  proof (rule consume_loop.raw_induct[of ?P, OF _ that], intro impI)
    fix loop p h mx n q e rs and r :: "extracted list"
    assume IH: "\<And>p h mx n q e rs r. loop p h mx n q e rs = Some r \<Longrightarrow> ?P p h mx n q e rs r"
      and body: "(if going mx q e then case p n of
          No_Message \<Rightarrow> loop p h mx (Suc n) q (Suc e) rs | Partition_Eof \<Rightarrow> loop p h mx (Suc n) q (Suc e) rs
        | Broker_Error \<Rightarrow> loop p h mx (Suc n) q e rs
        | Message offset value \<Rightarrow> loop p h mx (Suc n) (Suc q) 0
            (case h offset value of Inl a \<Rightarrow> rs | Inr None \<Rightarrow> rs | Inr (Some r) \<Rightarrow> rs @ [r])
        else Some rs) = Some r"
      and q: "q = foldl messages_after 0 (first_polls p n)" and e: "e = foldl idle_after 0 (first_polls p n)"
    show "\<exists>m \<ge> n. halted p mx m"
    proof (cases "going mx q e")
      case True
      then have "\<exists>m \<ge> Suc n. halted p mx m"
        using body by (cases "p n") (auto dest!: IH simp: q e)
      then show ?thesis by (auto intro: Suc_leD)
    next
      case False
      then have "halted p mx n" by (auto simp: halted_def q e)
      then show ?thesis by blast
    qed
  qed
  then show ?thesis using assms by blast
qed

text \<open>
  C15: reading a topic that exists returns the results of the polls up to the first at which the
  message limit is reached or five polls have been empty since the last message, and does not return
  when there is no such poll.
\<close>

theorem consume_ddl_topic_meaning:
  "consume_ddl_topic bk cd src mx raw_mode =
     (let poll = bk_poll bk (ts_ddl_topic src) in
      if \<not> bk_topic_exists bk (ts_ddl_topic src) then Some []
      else if \<exists>n. halted poll mx n
        then Some (foldl (results_after (handle_message cd raw_mode (ts_source_key src))) []
          (first_polls poll (LEAST n. halted poll mx n)))
        else None)"
proof -
  let ?poll = "bk_poll bk (ts_ddl_topic src)" and ?handle = "handle_message cd raw_mode (ts_source_key src)"
  have start: "consume_loop ?poll ?handle mx 0 0 0 [] = loop_from ?poll ?handle mx 0" by simp
  show ?thesis
  proof (cases "\<exists>n. halted ?poll mx n")
    case True
    define n where "n = (LEAST n. halted ?poll mx n)"
    have "halted ?poll mx n" "\<forall>m < n. \<not> halted ?poll mx m"
      using True unfolding n_def by (auto intro: LeastI_ex dest: not_less_Least)
    then have "loop_from ?poll ?handle mx 0 = Some (foldl (results_after ?handle) [] (first_polls ?poll n))"
      using loop_from_before loop_from_halted by metis
    then show ?thesis using True unfolding consume_ddl_topic_def start n_def by (simp add: Let_def)
  next
    case False
    then have "loop_from ?poll ?handle mx 0 = None"
      using halted_if_returns[of ?poll ?handle mx 0] by (cases "loop_from ?poll ?handle mx 0") blast+
    then show ?thesis using False unfolding consume_ddl_topic_def start by (auto simp: Let_def)
  qed
qed

section \<open>It returns\<close>

text \<open>What the loop may still do: messages first, then empty polls.\<close>

definition budget :: "int \<Rightarrow> nat \<Rightarrow> nat \<Rightarrow> nat" where
  "budget mx polled idle = (nat (mx - int polled)) * Suc max_empty_polls + (max_empty_polls - idle)"

lemma budget_decreases:
  assumes "going mx polled idle"
  shows "budget mx polled (Suc idle) < budget mx polled idle" "budget mx (Suc polled) 0 < budget mx polled idle"
proof -
  have "nat (mx - int polled) = Suc (nat (mx - int (Suc polled)))" using assms by linarith
  then show "budget mx (Suc polled) 0 < budget mx polled idle"
    using assms unfolding budget_def max_empty_polls_def by simp arith
next
  show "budget mx polled (Suc idle) < budget mx polled idle"
    using assms unfolding budget_def by linarith
qed

definition answers :: "(nat \<Rightarrow> poll_result) \<Rightarrow> bool" where
  "answers poll = (\<forall>i. \<exists>j \<ge> i. poll j \<noteq> Broker_Error)"

lemma next_answer:
  assumes "answers poll"
  obtains j where "i \<le> j" "poll j \<noteq> Broker_Error" "\<forall>k. i \<le> k \<and> k < j \<longrightarrow> poll k = Broker_Error"
proof -
  let ?P = "\<lambda>j. i \<le> j \<and> poll j \<noteq> Broker_Error"
  have "\<exists>j. ?P j" using assms by (simp add: answers_def)
  then have "?P (LEAST j. ?P j)" by (rule LeastI_ex)
  then show ?thesis using not_less_Least[of _ ?P] that by blast
qed

lemma loop_returns:
  assumes "answers poll"
  shows "\<exists>r. consume_loop poll handle mx i polled idle results = Some r"
proof (induction "budget mx polled idle" arbitrary: i polled idle results rule: less_induct)
  case less
  show ?case
  proof (cases "going mx polled idle")
    case True
    obtain j where j: "i \<le> j" "poll j \<noteq> Broker_Error" "\<forall>k. i \<le> k \<and> k < j \<longrightarrow> poll k = Broker_Error"
      using next_answer[OF assms] by blast
    note skip = loop_skip_errors[OF j(3,1) True, of handle results]
    note IH = less[OF budget_decreases(1)[OF True]] less[OF budget_decreases(2)[OF True]]
    show ?thesis
    proof (cases "poll j")
      case (Message off val)
      then show ?thesis using IH(2) by (simp add: skip loop_message[where i = j, OF _ True])
    qed (use IH(1) j(2) in \<open>simp_all add: skip loop_idle[where i = j, OF _ True]\<close>)
  qed (simp add: loop_stop)
qed

text \<open>
  as long as the broker never answers with errors only, reading a topic returns, whatever the
  messages hold and however many errors come between them.
\<close>

theorem consume_ddl_topic_returns:
  assumes "answers (bk_poll bk (ts_ddl_topic src))"
  shows "\<exists>r. consume_ddl_topic bk cd src mx raw_mode = Some r"
  using loop_returns[OF assms] by (simp add: consume_ddl_topic_def)

definition demo_codecs :: codecs where
  "demo_codecs = \<lparr>cd_loads = (\<lambda>s. Inr (JStr s)), cd_dumps = (\<lambda>j. ''{}''), cd_utc_iso = (\<lambda>j. Inr ''2024-01-01T00:00:00Z'')\<rparr>"

definition flaky_broker :: broker where
  "flaky_broker = \<lparr>bk_topic_exists = (\<lambda>t. True), bk_poll = (\<lambda>t i. if even i then Broker_Error else No_Message)\<rparr>"

lemma consume_ddl_topic_returns_witness:
  "\<exists>r. consume_ddl_topic flaky_broker demo_codecs (hd sources) 100 False = Some r"
proof (rule consume_ddl_topic_returns)
  have "bk_poll flaky_broker t (2 * i + 1) \<noteq> Broker_Error" for t i by (simp add: flaky_broker_def)
  moreover have "i \<le> 2 * i + 1" for i :: nat by simp
  ultimately show "answers (bk_poll flaky_broker (ts_ddl_topic (hd sources)))"
    unfolding answers_def by blast
qed

section \<open>How much it returns\<close>

lemma length_appended: "length (appended rs x) \<le> Suc (length rs)"
  by (auto simp: appended_def split: sum.split option.split)

lemma length_results: "length (foldl (results_after handle) [] ps) \<le> foldl messages_after 0 ps"
proof (induction ps rule: rev_induct)
  case (snoc p ps)
  then show ?case using length_appended[of "foldl (results_after handle) [] ps"]
    by (cases p) (auto intro: order.trans)
qed simp

lemma messages_at_halt:
  assumes "halted poll mx n" "\<forall>m < n. \<not> halted poll mx m"
  shows "foldl messages_after 0 (first_polls poll n) \<le> nat mx"
proof (cases n)
  case (Suc m)
  then have "int (foldl messages_after 0 (first_polls poll m)) < mx" using assms by (auto simp: halted_def)
  then show ?thesis using Suc by (cases "poll m") auto
qed simp

text \<open>reading a topic returns at most \<^verbatim>\<open>max_messages\<close> results.\<close>

theorem consume_ddl_topic_bound:
  assumes "consume_ddl_topic bk cd src mx raw_mode = Some r"
  shows "length r \<le> nat mx"
proof (cases "bk_topic_exists bk (ts_ddl_topic src)")
  case True
  let ?poll = "bk_poll bk (ts_ddl_topic src)" and ?n = "LEAST n. halted (bk_poll bk (ts_ddl_topic src)) mx n"
  have n: "\<exists>n. halted ?poll mx n"
    and r: "r = foldl (results_after (handle_message cd raw_mode (ts_source_key src))) [] (first_polls ?poll ?n)"
    using assms True unfolding consume_ddl_topic_meaning by (auto simp: Let_def split: if_splits)
  have "foldl messages_after 0 (first_polls ?poll ?n) \<le> nat mx"
    using n by (intro messages_at_halt) (auto intro: LeastI_ex dest: not_less_Least)
  then show ?thesis unfolding r using length_results order.trans by blast
qed (use assms in \<open>simp add: consume_ddl_topic_def\<close>)

definition one_event_broker :: broker where
  "one_event_broker = \<lparr>bk_topic_exists = (\<lambda>t. True),
     bk_poll = (\<lambda>t i. if i = 0 then Message 7 (Some ''{}'') else No_Message)\<rparr>"

lemma consume_ddl_topic_bound_witness: "length [Raw_Event ''postgres'' ''{}'' 7] \<le> nat 100"
proof (rule consume_ddl_topic_bound)
  show "consume_ddl_topic one_event_broker demo_codecs (hd sources) 100 True = Some [Raw_Event ''postgres'' ''{}'' 7]"
    unfolding consume_ddl_topic_def one_event_broker_def
    by (simp add: loop_step max_empty_polls_def handle_message_def demo_codecs_def sources_def bind_def)
qed

section \<open>When it does not return\<close>

lemma foldl_errors:
  assumes "\<forall>j \<ge> i. poll j = Broker_Error"
  shows "halted poll mx (i + k) = halted poll mx i"
  using assms by (induction k) (simp_all add: halted_def)

text \<open>
  a broker that answers only with errors from some poll on, before the message limit or five
  empty polls have been reached, keeps the script in its loop for ever.
\<close>

theorem broker_errors_never_return:
  assumes "bk_topic_exists bk (ts_ddl_topic src)"
    and "\<forall>j \<ge> i. bk_poll bk (ts_ddl_topic src) j = Broker_Error"
    and "\<forall>m \<le> i. \<not> halted (bk_poll bk (ts_ddl_topic src)) mx m"
  shows "consume_ddl_topic bk cd src mx raw_mode = None"
proof -
  have "\<not> halted (bk_poll bk (ts_ddl_topic src)) mx n" for n
    using assms(3) foldl_errors[OF assms(2), of mx "n - i"] by (cases "n \<le> i") auto
  then show ?thesis using assms(1) by (simp add: consume_ddl_topic_meaning Let_def)
qed

definition dead_broker :: broker where
  "dead_broker = \<lparr>bk_topic_exists = (\<lambda>t. True), bk_poll = (\<lambda>t i. Broker_Error)\<rparr>"

lemma broker_errors_never_return_witness:
  "consume_ddl_topic dead_broker demo_codecs (hd sources) 100 False = None"
  by (rule broker_errors_never_return[where i = 0]) (simp_all add: dead_broker_def halted_def max_empty_polls_def)

end
