(* ===== verification/Ddl_Apply.thy ===== *)
theory Ddl_Apply
  imports Py_Text
begin

text \<open>
  The manual DDL executor of the CDC pipeline, \<^verbatim>\<open>scripts/ddl_apply.py\<close>: stop the streaming
  deployments of a source, wait, alter the Iceberg tables with spark-sql, verify, restore
  the replicas, optionally replay Kafka. Everything the script learns about the world comes
  back from a subprocess; a run is a function of \<open>env\<close>, which answers each command from the
  trace of the commands before it and says how long it took. Messages printed for the
  operator are not modelled. The two Python programs the script ships into a pod
  (\<^verbatim>\<open>_FINDER_SCRIPT\<close>, \<^verbatim>\<open>_BACKFILL_SCRIPT\<close>) are commands that carry the values they
  interpolate; the S3 checkpoint and the secrets are read by libraries and are part of \<open>env\<close>.
\<close>

section \<open>Registry\<close>

record source_meta =
  sm_catalog :: string
  sm_default_namespace :: string

definition source_registry :: "(string \<times> source_meta) list" where
  "source_registry =
     [(''oracle'', \<lparr>sm_catalog = ''oracle'', sm_default_namespace = ''cache_testing''\<rparr>),
      (''postgres'', \<lparr>sm_catalog = ''postgres'', sm_default_namespace = ''cache_testing''\<rparr>),
      (''mongodb'', \<lparr>sm_catalog = ''mongodb'', sm_default_namespace = ''cache_testing''\<rparr>)]"

datatype write_mode = Standard | Soft_Delete | History_Tracking

fun mode_suffix :: "write_mode \<Rightarrow> string" where
  "mode_suffix Standard = []"
| "mode_suffix Soft_Delete = ''_sd''"
| "mode_suffix History_Tracking = ''_hist''"

fun mode_k8s :: "write_mode \<Rightarrow> string" where
  "mode_k8s Standard = ''standard''"
| "mode_k8s Soft_Delete = ''soft-delete''"
| "mode_k8s History_Tracking = ''history-tracking''"

definition write_modes :: "write_mode list" where
  "write_modes = [Standard, Soft_Delete, History_Tracking]"

definition deploy_name :: "string \<Rightarrow> write_mode \<Rightarrow> string" where
  "deploy_name source m = ''kafka-to-iceberg-'' @ source @ ''-'' @ mode_k8s m"

section \<open>Commands and the environment\<close>

datatype kube =
    Get_Name string | Get_Spec_Replicas string | Get_Ready string | Get_Total string
  | Get_Any_Pod | Scale string nat

fun kube_args :: "kube \<Rightarrow> string list" where
  "kube_args (Get_Name d) = [''get'', ''deployment/'' @ d, ''-o'', ''jsonpath={.metadata.name}'']"
| "kube_args (Get_Spec_Replicas d) = [''get'', ''deployment/'' @ d, ''-o'', ''jsonpath={.spec.replicas}'']"
| "kube_args (Get_Ready d) = [''get'', ''deployment/'' @ d, ''-o'', ''jsonpath={.status.readyReplicas}'']"
| "kube_args (Get_Total d) = [''get'', ''deployment/'' @ d, ''-o'', ''jsonpath={.status.replicas}'']"
| "kube_args Get_Any_Pod = [''get'', ''pods'', ''-l'', ''app=kafka-to-iceberg'',
     ''--field-selector=status.phase=Running'', ''-o'', ''jsonpath={.items[0].metadata.name}'']"
| "kube_args (Scale d n) = [''scale'', ''deployment/'' @ d, ''--replicas='' @ str_of_nat n]"

type_synonym offsets = "(int \<times> int) list"

record backfill_job =
  bj_topic :: string
  bj_col :: string
  bj_pk :: string
  bj_fqn :: string
  bj_catalog :: string
  bj_warehouse :: string
  bj_start :: offsets
  bj_end :: offsets

datatype cmd =
    Kubectl kube
  | Conf_Builder (cmd_pod: string)
  | Spark_Sql (cmd_pod: string) string string
  | Finder (cmd_pod: string) string string offsets
  | Backfill (cmd_pod: string) backfill_job

datatype run_result = Completed int string string | Run_Failed string

type_synonym trace = "(cmd \<times> run_result) list"

record env =
  env_run :: "trace \<Rightarrow> cmd \<Rightarrow> run_result"
  env_secs :: "trace \<Rightarrow> cmd \<Rightarrow> nat"
  env_checkpoint :: "trace \<Rightarrow> string \<Rightarrow> string + (string \<times> offsets) list"
  env_kafka_secret :: "trace \<Rightarrow> string + unit"
  env_parse_offsets :: "string \<Rightarrow> string + offsets"

record config =
  cf_dry_run :: bool
  cf_spark_pod :: string

record run_state =
  rs_trace :: trace
  rs_clock :: nat

text \<open>An operation of the script: it raises (\<open>Inl\<close>) or returns, and the trace has grown.\<close>

type_synonym 'a op = "run_state \<Rightarrow> (string + 'a) \<times> run_state"

definition ret :: "'a \<Rightarrow> 'a op" where
  "ret x s = (Inr x, s)"

definition raise :: "string \<Rightarrow> 'a op" where
  "raise exc s = (Inl exc, s)"

definition bindE :: "'a op \<Rightarrow> ('a \<Rightarrow> 'b op) \<Rightarrow> 'b op" where
  "bindE m f s = (case m s of (Inl exc, s1) \<Rightarrow> (Inl exc, s1) | (Inr x, s1) \<Rightarrow> f x s1)"

text \<open>\<^verbatim>\<open>try: m except Exception as exc: h\<close>.\<close>

definition try_except :: "'a op \<Rightarrow> (string \<Rightarrow> 'a op) \<Rightarrow> 'a op" where
  "try_except m h s = (case m s of (Inl exc, s1) \<Rightarrow> h exc s1 | (Inr x, s1) \<Rightarrow> (Inr x, s1))"

definition run_cmd :: "env \<Rightarrow> cmd \<Rightarrow> run_result op" where
  "run_cmd e c s = (let r = env_run e (rs_trace s) c in
     (Inr r, s\<lparr>rs_trace := rs_trace s @ [(c, r)], rs_clock := rs_clock s + env_secs e (rs_trace s) c\<rparr>))"

definition sleep :: "nat \<Rightarrow> unit op" where
  "sleep n s = (Inr (), s\<lparr>rs_clock := rs_clock s + n\<rparr>)"

definition kubectl :: "env \<Rightarrow> bool \<Rightarrow> kube \<Rightarrow> string op" where
  "kubectl e check k = bindE (run_cmd e (Kubectl k)) (\<lambda>r. case r of
     Run_Failed exc \<Rightarrow> raise exc
   | Completed rc out err \<Rightarrow> if check \<and> rc \<noteq> 0 then raise ''CalledProcessError'' else ret (py_strip out))"

definition deployment_exists :: "env \<Rightarrow> string \<Rightarrow> bool op" where
  "deployment_exists e d = bindE (kubectl e False (Get_Name d)) (\<lambda>out. ret (py_strip out \<noteq> []))"

definition digits_or :: "nat \<Rightarrow> string \<Rightarrow> nat" where
  "digits_or n out = (if py_isdigit out then nat_of_digits out else n)"

definition deployment_replicas :: "env \<Rightarrow> string \<Rightarrow> nat op" where
  "deployment_replicas e d = bindE (kubectl e False (Get_Spec_Replicas d)) (\<lambda>out. ret (digits_or 1 out))"

section \<open>Scaling and waiting\<close>

definition scale :: "env \<Rightarrow> config \<Rightarrow> string \<Rightarrow> nat \<Rightarrow> unit op" where
  "scale e cf d n = (if cf_dry_run cf then ret ()
     else bindE (kubectl e True (Scale d n)) (\<lambda>_. ret ()))"

text \<open>One poll of a wait loop, then the loop: it ends because each round sleeps five seconds.\<close>

definition poll_stopped :: "env \<Rightarrow> string \<Rightarrow> bool op" where
  "poll_stopped e d = bindE (kubectl e False (Get_Ready d)) (\<lambda>ready.
     bindE (kubectl e False (Get_Total d)) (\<lambda>total.
       ret (digits_or 0 ready = 0 \<and> digits_or 0 total = 0)))"

definition poll_started :: "env \<Rightarrow> string \<Rightarrow> bool op" where
  "poll_started e d = bindE (kubectl e False (Get_Ready d)) (\<lambda>ready. ret (1 \<le> digits_or 0 ready))"

definition poll_secs :: nat where "poll_secs = 5"

lemma run_cmd_clock: "rs_clock s \<le> rs_clock (snd (run_cmd e c s))"
  by (simp add: run_cmd_def Let_def)

lemma kubectl_clock: "rs_clock s \<le> rs_clock (snd (kubectl e check k s))"
  using run_cmd_clock[of s e "Kubectl k"]
  by (auto simp: kubectl_def bindE_def raise_def ret_def split: prod.splits sum.splits run_result.splits)

lemma bindE_clock:
  assumes "rs_clock s \<le> rs_clock (snd (m s))" and "\<And>x s1. rs_clock s1 \<le> rs_clock (snd (f x s1))"
  shows "rs_clock s \<le> rs_clock (snd (bindE m f s))"
  using assms by (auto simp: bindE_def split: prod.splits sum.splits intro: order.trans)

lemma poll_clock:
  "rs_clock s \<le> rs_clock (snd (poll_stopped e d s))" "rs_clock s \<le> rs_clock (snd (poll_started e d s))"
  unfolding poll_stopped_def poll_started_def
  by (intro bindE_clock kubectl_clock, simp add: ret_def)+

function wait_loop :: "bool op \<Rightarrow> nat \<Rightarrow> bool op" where
  "wait_loop poll deadline s =
     (if rs_clock s < deadline \<and> rs_clock s \<le> rs_clock (snd (poll s)) then
        (case poll s of
           (Inl exc, s1) \<Rightarrow> (Inl exc, s1)
         | (Inr True, s1) \<Rightarrow> (Inr True, s1)
         | (Inr False, s1) \<Rightarrow> wait_loop poll deadline (snd (sleep poll_secs s1)))
      else (Inr False, s))"
  by pat_completeness auto
termination
  by (relation "measure (\<lambda>(poll, deadline, s). deadline - rs_clock s)")
    (auto simp: sleep_def poll_secs_def dest!: arg_cong[of _ _ snd])

declare wait_loop.simps [simp del]

definition wait_fully_stopped :: "env \<Rightarrow> config \<Rightarrow> string \<Rightarrow> nat \<Rightarrow> bool op" where
  "wait_fully_stopped e cf d timeout s = (if cf_dry_run cf then (Inr True, s)
     else wait_loop (poll_stopped e d) (rs_clock s + timeout) s)"

definition wait_fully_started :: "env \<Rightarrow> config \<Rightarrow> string \<Rightarrow> nat \<Rightarrow> bool op" where
  "wait_fully_started e cf d timeout s = (if cf_dry_run cf then (Inr True, s)
     else wait_loop (poll_started e d) (rs_clock s + timeout) s)"

section \<open>Spark SQL\<close>

text \<open>
  The statement reaches bash inside single quotes, with its own quotes escaped; a \<open>Spark_Sql\<close>
  command carries the statement as spark-sql receives it.
\<close>

definition all_deploys :: "string list" where
  "all_deploys = concat (map (\<lambda>(src, _). map (deploy_name src) write_modes) source_registry)"

fun find_pod_loop :: "env \<Rightarrow> string list \<Rightarrow> string list \<Rightarrow> string op" where
  "find_pod_loop e exclude [] = raise ''No running streaming pod found to execute spark-sql.''"
| "find_pod_loop e exclude (d # ds) =
     (if d \<in> set exclude then find_pod_loop e exclude ds
      else bindE (deployment_exists e d) (\<lambda>exists.
        if \<not> exists then find_pod_loop e exclude ds
        else bindE (kubectl e False (Get_Ready d)) (\<lambda>ready.
          if 1 \<le> digits_or 0 ready then
            bindE (kubectl e False Get_Any_Pod) (\<lambda>pod. if pod \<noteq> [] then ret pod else find_pod_loop e exclude ds)
          else find_pod_loop e exclude ds)))"

definition find_spark_pod :: "env \<Rightarrow> config \<Rightarrow> string list \<Rightarrow> string op" where
  "find_spark_pod e cf exclude = (if cf_spark_pod cf \<noteq> [] then ret (cf_spark_pod cf)
     else find_pod_loop e exclude all_deploys)"

definition conf_flag :: "string \<Rightarrow> string" where
  "conf_flag line = ''--conf '' @ [CHR 0x27] @ py_strip line @ [CHR 0x27]"

definition get_spark_conf_flags :: "env \<Rightarrow> string \<Rightarrow> string op" where
  "get_spark_conf_flags e pod = bindE (run_cmd e (Conf_Builder pod)) (\<lambda>r. case r of
     Run_Failed exc \<Rightarrow> raise exc
   | Completed rc out err \<Rightarrow> if rc \<noteq> 0 then raise (''Spark conf build failed:'' @ newline @ py_strip err)
       else ret (py_join '' '' (map conf_flag (filter (contains ''='') (py_splitlines (py_strip out))))))"

definition spark_sql :: "env \<Rightarrow> string \<Rightarrow> string \<Rightarrow> string \<Rightarrow> (int \<times> string \<times> string) op" where
  "spark_sql e pod flags sql = bindE (run_cmd e (Spark_Sql pod flags (py_strip sql))) (\<lambda>r. case r of
     Run_Failed exc \<Rightarrow> raise exc
   | Completed rc out err \<Rightarrow> ret (rc, py_strip out, py_strip err))"

section \<open>The statement\<close>

datatype ddl_op = Add | Drop | Modify | Rename

definition set_opt :: "string option \<Rightarrow> bool" where
  "set_opt x = (case x of None \<Rightarrow> False | Some s \<Rightarrow> s \<noteq> [])"

definition bqt :: "string \<Rightarrow> string" where
  "bqt s = CHR 0x60 # s @ [CHR 0x60]"

fun build_ddl :: "ddl_op \<Rightarrow> string \<Rightarrow> string \<Rightarrow> string option \<Rightarrow> string option \<Rightarrow> string + string" where
  "build_ddl Add fqn col typ new = (if \<not> set_opt typ then Inl ''--type is required for ADD COLUMN''
     else Inr (''ALTER TABLE '' @ fqn @ '' ADD COLUMN '' @ bqt col @ '' '' @ py_upper (the typ)))"
| "build_ddl Drop fqn col typ new = Inr (''ALTER TABLE '' @ fqn @ '' DROP COLUMN '' @ bqt col)"
| "build_ddl Modify fqn col typ new = (if \<not> set_opt typ then Inl ''--type is required for MODIFY''
     else Inr (''ALTER TABLE '' @ fqn @ '' ALTER COLUMN '' @ bqt col @ '' TYPE '' @ py_upper (the typ)))"
| "build_ddl Rename fqn col typ new = (if \<not> set_opt new then Inl ''--new-col is required for RENAME''
     else Inr (''ALTER TABLE '' @ fqn @ '' RENAME COLUMN '' @ bqt col @ '' TO '' @ bqt (the new)))"

definition fqn_of :: "string \<Rightarrow> string \<Rightarrow> string \<Rightarrow> write_mode \<Rightarrow> string" where
  "fqn_of cat ns tbl m = bqt cat @ ''.'' @ bqt ns @ ''.'' @ bqt (tbl @ mode_suffix m)"

definition describe_sql :: "string \<Rightarrow> string" where
  "describe_sql fqn = ''DESCRIBE TABLE '' @ fqn"

definition iceberg_has_col :: "env \<Rightarrow> string \<Rightarrow> string \<Rightarrow> string \<Rightarrow> string \<Rightarrow> bool op" where
  "iceberg_has_col e pod flags fqn col = bindE (spark_sql e pod flags (describe_sql fqn))
     (\<lambda>(rc, out, err). ret (contains (py_lower col) (py_lower out)))"

definition col_type_in :: "string \<Rightarrow> string \<Rightarrow> string" where
  "col_type_in out col =
     (case List.find (\<lambda>parts. parts \<noteq> [] \<and> py_lower (hd parts) = py_lower col) (map py_split (py_splitlines out)) of
        None \<Rightarrow> ''NOT_FOUND''
      | Some parts \<Rightarrow> if 1 < length parts then parts ! 1 else ''unknown'')"

definition iceberg_col_type :: "env \<Rightarrow> string \<Rightarrow> string \<Rightarrow> string \<Rightarrow> string \<Rightarrow> string op" where
  "iceberg_col_type e pod flags fqn col = bindE (spark_sql e pod flags (describe_sql fqn))
     (\<lambda>(rc, out, err). ret (col_type_in out col))"

section \<open>The Kafka replay\<close>

definition source_topic_prefix :: "(string \<times> string) list" where
  "source_topic_prefix = [(''postgres'', ''postgres.cache_testing''), (''oracle'', ''oracle.cache_testing''),
     (''mongodb'', ''mongodb.cache_testing'')]"

definition warehouse_of :: "string \<Rightarrow> string" where
  "warehouse_of source = (case map_of [(''postgres'', ''pg_lakehouse''), (''oracle'', ''ora_lakehouse''),
     (''mongodb'', ''mgo_lakehouse'')] source of Some w \<Rightarrow> w | None \<Rightarrow> source @ ''_lakehouse'')"

definition read_checkpoint_offsets :: "env \<Rightarrow> string \<Rightarrow> (string \<times> offsets) list op" where
  "read_checkpoint_offsets e source s = (case env_checkpoint e (rs_trace s) source of
     Inl exc \<Rightarrow> (Inl (''Could not read S3 checkpoint: '' @ exc), s) | Inr offs \<Rightarrow> (Inr offs, s))"

definition read_kafka_secret :: "env \<Rightarrow> unit op" where
  "read_kafka_secret e s = (env_kafka_secret e (rs_trace s), s)"

definition stale_prefix :: string where
  "stale_prefix = ''STALE_START=''"

definition find_stale_window_start ::
  "env \<Rightarrow> string \<Rightarrow> string \<Rightarrow> string \<Rightarrow> offsets \<Rightarrow> offsets option op" where
  "find_stale_window_start e pod topic col ends = bindE (run_cmd e (Finder pod topic col ends)) (\<lambda>r. case r of
     Run_Failed exc \<Rightarrow> raise exc
   | Completed rc out err \<Rightarrow>
      if rc \<noteq> 0 then raise (''Stale-window scan failed:'' @ newline @ py_strip err)
      else (case List.find (\<lambda>l. startswith l stale_prefix) (py_splitlines out) of
         None \<Rightarrow> raise (''Unexpected output from stale-window scan:'' @ newline @ out)
       | Some l \<Rightarrow> (let v = drop (length stale_prefix) l in
           if v = ''NONE'' then ret None
           else (case env_parse_offsets e v of Inl exc \<Rightarrow> raise exc | Inr offs \<Rightarrow> ret (Some offs)))))"

definition result_prefix :: string where
  "result_prefix = ''BACKFILL_RESULT=''"

definition backfill_verdict :: "int \<Rightarrow> string \<Rightarrow> bool" where
  "backfill_verdict rc out = (if rc \<noteq> 0 then False
     else (case List.find (\<lambda>l. startswith l result_prefix) (py_splitlines out) of
        None \<Rightarrow> False
      | Some l \<Rightarrow> l = result_prefix @ ''NO_COL_IN_BATCH'' \<or> l = result_prefix @ ''NO_ROWS'' \<or>
          startswith l (result_prefix @ ''OK'')))"

definition run_backfill ::
  "env \<Rightarrow> string \<Rightarrow> string \<Rightarrow> string \<Rightarrow> string \<Rightarrow> string \<Rightarrow> string \<Rightarrow> string \<Rightarrow> bool op" where
  "run_backfill e source tbl col pk pod ns cat =
     (case map_of source_topic_prefix source of
        None \<Rightarrow> ret False
      | Some prefix \<Rightarrow>
        (let topic = prefix @ ''.'' @ tbl; fqn = bqt cat @ ''.'' @ bqt ns @ ''.'' @ bqt tbl in
         bindE (try_except (bindE (read_checkpoint_offsets e source) (\<lambda>offs. ret (Some offs))) (\<lambda>_. ret None)) (\<lambda>all.
           case all of
             None \<Rightarrow> ret False
           | Some offs \<Rightarrow>
             (case map_of offs topic of
                None \<Rightarrow> ret True
              | Some ends \<Rightarrow> if ends = [] then ret True else
                 bindE (try_except
                   (bindE (read_kafka_secret e) (\<lambda>_. bindE (find_stale_window_start e pod topic col ends)
                      (\<lambda>w. ret (Some w)))) (\<lambda>_. ret None)) (\<lambda>stale.
                   case stale of
                     None \<Rightarrow> ret False
                   | Some None \<Rightarrow> ret True
                   | Some (Some start) \<Rightarrow>
                      bindE (run_cmd e (Backfill pod \<lparr>bj_topic = topic, bj_col = col, bj_pk = pk, bj_fqn = fqn,
                          bj_catalog = cat, bj_warehouse = warehouse_of source, bj_start = start, bj_end = ends\<rparr>)) (\<lambda>r.
                        case r of Run_Failed exc \<Rightarrow> raise exc
                        | Completed rc out err \<Rightarrow> ret (backfill_verdict rc out)))))))"

section \<open>The apply cycle\<close>

record ddl_request =
  dq_source :: string
  dq_table :: string
  dq_op :: ddl_op
  dq_col :: string
  dq_col_type :: "string option"
  dq_new_col :: "string option"
  dq_modes :: "write_mode list"
  dq_namespace :: "string option"
  dq_catalog :: "string option"
  dq_backfill :: bool
  dq_pk_col :: "string option"

definition or_default :: "string option \<Rightarrow> string \<Rightarrow> string" where
  "or_default x d = (if set_opt x then the x else d)"

fun build_targets :: "env \<Rightarrow> config \<Rightarrow> string \<Rightarrow> write_mode list \<Rightarrow> (string \<times> nat) list \<Rightarrow> (string \<times> nat) list op" where
  "build_targets e cf source [] acc = ret acc"
| "build_targets e cf source (m # ms) acc =
     (let d = deploy_name source m in
      bindE (deployment_exists e d) (\<lambda>exists.
        if \<not> exists then build_targets e cf source ms acc
        else bindE (if cf_dry_run cf then ret 1 else deployment_replicas e d) (\<lambda>n.
          build_targets e cf source ms (AList.update d n acc))))"

fun scale_all :: "env \<Rightarrow> config \<Rightarrow> (string \<times> nat) list \<Rightarrow> unit op" where
  "scale_all e cf [] = ret ()"
| "scale_all e cf ((d, n) # ds) = bindE (scale e cf d n) (\<lambda>_. scale_all e cf ds)"

definition stop_timeout :: nat where "stop_timeout = 120"
definition start_timeout :: nat where "start_timeout = 180"

fun stop_all :: "env \<Rightarrow> config \<Rightarrow> string list \<Rightarrow> bool op" where
  "stop_all e cf [] = ret True"
| "stop_all e cf (d # ds) = bindE (wait_fully_stopped e cf d stop_timeout) (\<lambda>ok.
     bindE (stop_all e cf ds) (\<lambda>rest. ret (ok \<and> rest)))"

fun start_all :: "env \<Rightarrow> config \<Rightarrow> (string \<times> nat) list \<Rightarrow> bool op" where
  "start_all e cf [] = ret True"
| "start_all e cf ((d, n) # ds) =
     (if 0 < n then bindE (wait_fully_started e cf d start_timeout) (\<lambda>ok.
        bindE (start_all e cf ds) (\<lambda>rest. ret (ok \<and> rest)))
      else start_all e cf ds)"

text \<open>A failed statement that the script takes for one applied before.\<close>

definition idempotent_failure :: "ddl_op \<Rightarrow> string \<Rightarrow> string \<Rightarrow> bool" where
  "idempotent_failure op out err =
     (let combined = py_lower (err @ newline @ out) in
      case op of
        Add \<Rightarrow> contains ''already exists'' combined \<or> contains ''column already exists'' combined
      | Drop \<Rightarrow> contains ''cannot resolve'' combined \<or> contains ''no such column'' combined \<or>
          contains ''column not found'' combined \<or> contains ''missing'' combined
      | Rename \<Rightarrow> contains ''already exists'' combined
      | Modify \<Rightarrow> False)"

fun apply_modes ::
  "env \<Rightarrow> config \<Rightarrow> ddl_request \<Rightarrow> string \<Rightarrow> string \<Rightarrow> string \<Rightarrow> string \<Rightarrow> write_mode list \<Rightarrow> bool op" where
  "apply_modes e cf q cat ns pod flags [] = ret True"
| "apply_modes e cf q cat ns pod flags (m # ms) =
     (case build_ddl (dq_op q) (fqn_of cat ns (dq_table q) m) (dq_col q) (dq_col_type q) (dq_new_col q) of
        Inl exc \<Rightarrow> raise exc
      | Inr ddl \<Rightarrow>
        if cf_dry_run cf then apply_modes e cf q cat ns pod flags ms
        else bindE (spark_sql e pod flags ddl) (\<lambda>(rc, out, err).
          bindE (apply_modes e cf q cat ns pod flags ms) (\<lambda>rest.
            ret ((rc = 0 \<or> idempotent_failure (dq_op q) out err) \<and> rest))))"

definition verify_mode :: "env \<Rightarrow> ddl_request \<Rightarrow> string \<Rightarrow> string \<Rightarrow> string \<Rightarrow> bool op" where
  "verify_mode e q pod flags fqn = (case dq_op q of
     Drop \<Rightarrow> bindE (iceberg_has_col e pod flags fqn (dq_col q)) (\<lambda>present. ret (\<not> present))
   | Rename \<Rightarrow> bindE (iceberg_has_col e pod flags fqn (the (dq_new_col q))) (\<lambda>new_ok.
       bindE (iceberg_has_col e pod flags fqn (dq_col q)) (\<lambda>old_present. ret (new_ok \<and> \<not> old_present)))
   | Modify \<Rightarrow> bindE (iceberg_col_type e pod flags fqn (dq_col q)) (\<lambda>_. ret True)
   | Add \<Rightarrow> bindE (iceberg_has_col e pod flags fqn (dq_col q)) (\<lambda>present.
       if present then bindE (iceberg_col_type e pod flags fqn (dq_col q)) (\<lambda>_. ret True) else ret False))"

fun verify_modes :: "env \<Rightarrow> ddl_request \<Rightarrow> string \<Rightarrow> string \<Rightarrow> string \<Rightarrow> string \<Rightarrow> write_mode list \<Rightarrow> bool op" where
  "verify_modes e q cat ns pod flags [] = ret True"
| "verify_modes e q cat ns pod flags (m # ms) =
     bindE (verify_mode e q pod flags (fqn_of cat ns (dq_table q) m)) (\<lambda>ok.
       bindE (verify_modes e q cat ns pod flags ms) (\<lambda>rest. ret (ok \<and> rest)))"

text \<open>The \<^verbatim>\<open>try\<close> of step 3: the pod, the conf flags, and whether both were obtained.\<close>

definition exec_pod :: "env \<Rightarrow> config \<Rightarrow> string list \<Rightarrow> (string option \<times> string \<times> bool) op" where
  "exec_pod e cf exclude = bindE
     (try_except (bindE (find_spark_pod e cf exclude) (\<lambda>pod. ret (Some pod))) (\<lambda>_. ret None)) (\<lambda>found.
       case found of
         None \<Rightarrow> ret (None, [], False)
       | Some pod \<Rightarrow> try_except
           (bindE (get_spark_conf_flags e pod) (\<lambda>flags. ret (Some pod, flags, True)))
           (\<lambda>_. ret (Some pod, [], False)))"

definition verify_step ::
  "env \<Rightarrow> config \<Rightarrow> ddl_request \<Rightarrow> string \<Rightarrow> string \<Rightarrow> string option \<Rightarrow> string \<Rightarrow> bool op" where
  "verify_step e cf q cat ns pod flags =
     (if \<not> cf_dry_run cf \<and> set_opt pod \<and> flags \<noteq> []
      then verify_modes e q cat ns (the pod) flags (dq_modes q) else ret True)"

definition restore_step :: "env \<Rightarrow> config \<Rightarrow> (string \<times> nat) list \<Rightarrow> unit op" where
  "restore_step e cf targets = bindE (scale_all e cf targets) (\<lambda>_.
     if cf_dry_run cf then ret () else bindE (start_all e cf targets) (\<lambda>_. ret ()))"

definition backfill_step ::
  "env \<Rightarrow> config \<Rightarrow> ddl_request \<Rightarrow> string \<Rightarrow> string \<Rightarrow> string option \<Rightarrow> string \<Rightarrow> bool op" where
  "backfill_step e cf q cat ns pod flags =
     (if dq_backfill q \<and> dq_op q = Add \<and> \<not> cf_dry_run cf \<and> set_opt pod \<and> flags \<noteq> [] \<and> set_opt (dq_pk_col q)
      then run_backfill e (dq_source q) (dq_table q) (dq_col q) (the (dq_pk_col q)) (the pod) ns cat
      else ret True)"

text \<open>Steps 3 to 6, with the targets already scaled to zero.\<close>

definition alter_cycle ::
  "env \<Rightarrow> config \<Rightarrow> ddl_request \<Rightarrow> string \<Rightarrow> string \<Rightarrow> (string \<times> nat) list \<Rightarrow> bool op" where
  "alter_cycle e cf q cat ns targets =
     bindE (exec_pod e cf (map fst targets)) (\<lambda>(pod, flags, found).
     bindE (if found then apply_modes e cf q cat ns (the pod) flags (dq_modes q) else ret False) (\<lambda>applied.
     bindE (verify_step e cf q cat ns pod flags) (\<lambda>verified.
     bindE (restore_step e cf targets) (\<lambda>_.
     bindE (backfill_step e cf q cat ns pod flags) (\<lambda>filled.
       ret (applied \<and> verified \<and> filled))))))"

definition pause_targets :: "env \<Rightarrow> config \<Rightarrow> (string \<times> nat) list \<Rightarrow> bool op" where
  "pause_targets e cf targets = bindE (scale_all e cf (map (\<lambda>(d, _). (d, 0)) targets)) (\<lambda>_.
     stop_all e cf (map fst targets))"

definition apply_ddl :: "env \<Rightarrow> config \<Rightarrow> ddl_request \<Rightarrow> bool op" where
  "apply_ddl e cf q = (case map_of source_registry (dq_source q) of
     None \<Rightarrow> raise ''KeyError''
   | Some smeta \<Rightarrow>
      (let cat = or_default (dq_catalog q) (sm_catalog smeta);
           ns = or_default (dq_namespace q) (sm_default_namespace smeta) in
       bindE (build_targets e cf (dq_source q) (dq_modes q) []) (\<lambda>targets.
         if targets = [] \<and> \<not> cf_dry_run cf then ret False
         else bindE (pause_targets e cf targets) (\<lambda>_. alter_cycle e cf q cat ns targets))))"

section \<open>The command line\<close>

record cli_args =
  ca_source :: string
  ca_table :: string
  ca_op :: ddl_op
  ca_col :: string
  ca_col_type :: "string option"
  ca_new_col :: "string option"
  ca_modes :: string
  ca_namespace :: "string option"
  ca_catalog :: "string option"
  ca_backfill :: bool
  ca_pk_col :: "string option"

fun mode_of :: "string \<Rightarrow> write_mode option" where
  "mode_of s = (if s = ''standard'' then Some Standard else if s = ''soft_delete'' then Some Soft_Delete
     else if s = ''history_tracking'' then Some History_Tracking else None)"

definition cli_modes :: "string \<Rightarrow> string list" where
  "cli_modes s = filter (\<lambda>m. m \<noteq> []) (map py_strip (py_split_on CHR '','' s))"

text \<open>The checks of \<^verbatim>\<open>main\<close>: \<open>None\<close> is an exit with status 1 before anything has run.\<close>

definition check_args :: "cli_args \<Rightarrow> ddl_request option" where
  "check_args a =
     (if list_ex (\<lambda>m. mode_of m = None) (cli_modes (ca_modes a)) then None
      else if ca_op a = Add \<and> \<not> set_opt (ca_col_type a) then None
      else if ca_op a = Modify \<and> \<not> set_opt (ca_col_type a) then None
      else if ca_op a = Rename \<and> \<not> set_opt (ca_new_col a) then None
      else if ca_backfill a \<and> ca_op a \<noteq> Add then None
      else if ca_backfill a \<and> \<not> set_opt (ca_pk_col a) then None
      else Some \<lparr>dq_source = ca_source a, dq_table = ca_table a, dq_op = ca_op a, dq_col = ca_col a,
        dq_col_type = ca_col_type a, dq_new_col = ca_new_col a,
        dq_modes = map (\<lambda>m. the (mode_of m)) (cli_modes (ca_modes a)),
        dq_namespace = ca_namespace a, dq_catalog = ca_catalog a, dq_backfill = ca_backfill a,
        dq_pk_col = ca_pk_col a\<rparr>)"

end
