(* ===== verification/Ddl_Trace.thy ===== *)
theory Ddl_Trace
  imports Ddl_Apply
begin

text \<open>
  What the operations of \<^verbatim>\<open>scripts/ddl_apply.py\<close> leave on the trace: which classes of
  commands each issues (\<open>emits\<close>), the replica count a trace last set for a deployment, and
  assertions on the trace before and after an operation (\<open>triple\<close>).
\<close>

section \<open>What an operation puts on the trace\<close>

text \<open>
  \<open>emits P Q m\<close>: every entry \<open>m\<close> adds satisfies \<open>P\<close>, and satisfies \<open>Q\<close> when \<open>m\<close> returns
  without raising.
\<close>

type_synonym entry = "cmd \<times> run_result"

definition emits :: "(entry \<Rightarrow> bool) \<Rightarrow> (entry \<Rightarrow> bool) \<Rightarrow> 'a op \<Rightarrow> bool" where
  "emits P Q m = (\<forall>s. \<exists>t. rs_trace (snd (m s)) = rs_trace s @ t \<and> list_all P t \<and>
     (isl (fst (m s)) \<or> list_all Q t))"

named_theorems emit

lemma emits_apply:
  assumes "emits P Q m" and "m s = (r, s1)"
  obtains t where "rs_trace s1 = rs_trace s @ t" "list_all P t" "isl r \<or> list_all Q t"
  using assms unfolding emits_def by (metis fst_conv snd_conv)

lemma emits_intro:
  assumes "\<And>s r s1. m s = (r, s1) \<Longrightarrow> \<exists>t. rs_trace s1 = rs_trace s @ t \<and> list_all P t \<and> (isl r \<or> list_all Q t)"
  shows "emits P Q m"
  using assms unfolding emits_def by (metis prod.collapse)

lemma emits_ret [emit]: "emits P Q (ret x)"
  by (simp add: emits_def ret_def)

lemma emits_raise [emit]: "emits P Q (raise x)"
  by (simp add: emits_def raise_def)

lemma emits_sleep [emit]: "emits P Q (sleep n)"
  by (simp add: emits_def sleep_def)

lemma emits_run_cmd:
  assumes "\<And>r. P (c, r)" and "\<And>r. Q (c, r)"
  shows "emits P Q (run_cmd e c)"
  using assms by (simp add: emits_def run_cmd_def Let_def)

lemma emits_bindE [emit]:
  assumes m: "emits P Q m" and f: "\<And>x. emits P Q (f x)"
  shows "emits P Q (bindE m f)"
proof (rule emits_intro)
  fix s r s2 assume run: "bindE m f s = (r, s2)"
  obtain r1 s1 where one: "m s = (r1, s1)" by force
  obtain t where t: "rs_trace s1 = rs_trace s @ t" "list_all P t" "isl r1 \<or> list_all Q t"
    by (rule emits_apply[OF m one])
  show "\<exists>t. rs_trace s2 = rs_trace s @ t \<and> list_all P t \<and> (isl r \<or> list_all Q t)"
  proof (cases r1)
    case (Inl exc)
    then show ?thesis using run one t by (auto simp: bindE_def)
  next
    case (Inr x)
    then have two: "f x s1 = (r, s2)" using run one by (simp add: bindE_def)
    obtain t' where "rs_trace s2 = rs_trace s1 @ t'" "list_all P t'" "isl r \<or> list_all Q t'"
      by (rule emits_apply[OF f two])
    then show ?thesis using t Inr by (intro exI[of _ "t @ t'"]) auto
  qed
qed

lemma emits_weaken:
  assumes "emits P Q m" and "\<And>x. P x \<Longrightarrow> P' x" and "\<And>x. Q x \<Longrightarrow> Q' x"
  shows "emits P' Q' m"
  using assms unfolding emits_def list_all_iff by meson

lemma emits_try:
  assumes m: "emits R R m" and h: "\<And>x. emits R R (h x)"
  shows "emits R R (try_except m h)"
proof (rule emits_intro)
  fix s r s2 assume run: "try_except m h s = (r, s2)"
  obtain r1 s1 where one: "m s = (r1, s1)" by force
  obtain t where t: "rs_trace s1 = rs_trace s @ t" "list_all R t" "isl r1 \<or> list_all R t"
    by (rule emits_apply[OF m one])
  show "\<exists>t. rs_trace s2 = rs_trace s @ t \<and> list_all R t \<and> (isl r \<or> list_all R t)"
  proof (cases r1)
    case (Inr x)
    then show ?thesis using run one t by (auto simp: try_except_def)
  next
    case (Inl exc)
    then have two: "h exc s1 = (r, s2)" using run one by (simp add: try_except_def)
    obtain t' where "rs_trace s2 = rs_trace s1 @ t'" "list_all R t'" "isl r \<or> list_all R t'"
      by (rule emits_apply[OF h two])
    then show ?thesis using t by (intro exI[of _ "t @ t'"]) auto
  qed
qed

lemma wait_loop_over:
  assumes "\<not> (rs_clock s < deadline \<and> rs_clock s \<le> rs_clock (snd (poll s)))"
  shows "wait_loop poll deadline s = (Inr False, s)"
  unfolding wait_loop.simps[of poll deadline s] by (rule if_not_P[OF assms])

lemma wait_loop_round:
  assumes guard: "rs_clock s < deadline \<and> rs_clock s \<le> rs_clock (snd (poll s))" and one: "poll s = (r1, s1)"
  shows "wait_loop poll deadline s = (case r1 of Inl exc \<Rightarrow> (Inl exc, s1) | Inr b \<Rightarrow>
    if b then (Inr True, s1) else wait_loop poll deadline (snd (sleep poll_secs s1)))"
  using guard one unfolding wait_loop.simps[of poll deadline s] if_P[OF guard]
  by (simp split: sum.split bool.split)

lemma emits_wait_loop:
  assumes poll: "emits P Q poll"
  shows "emits P Q (wait_loop poll deadline)"
proof (rule emits_intro)
  fix s r s2 assume "wait_loop poll deadline s = (r, s2)"
  then show "\<exists>t. rs_trace s2 = rs_trace s @ t \<and> list_all P t \<and> (isl r \<or> list_all Q t)"
    using poll
  proof (induction poll deadline s arbitrary: r s2 rule: wait_loop.induct)
    case (1 poll deadline s)
    show ?case
    proof (cases "rs_clock s < deadline \<and> rs_clock s \<le> rs_clock (snd (poll s))")
      case False
      then have "r = Inr False \<and> s2 = s" using "1.prems"(1) wait_loop_over[where poll = poll, OF False] by simp
      then show ?thesis by simp
    next
      case True
      obtain r1 s1 where one: "poll s = (r1, s1)" by force
      obtain t where t: "rs_trace s1 = rs_trace s @ t" "list_all P t" "isl r1 \<or> list_all Q t"
        by (rule emits_apply[OF "1.prems"(2) one])
      have unfolded: "(r, s2) = (case r1 of Inl exc \<Rightarrow> (Inl exc, s1) | Inr b \<Rightarrow>
          if b then (Inr True, s1) else wait_loop poll deadline (snd (sleep poll_secs s1)))"
        using "1.prems"(1) wait_loop_round[where poll = poll, OF True one] by simp
      show ?thesis
      proof (cases "r1 = Inr False")
        case False
        then show ?thesis using unfolded t by (auto split: sum.splits if_splits)
      next
        case again: True
        have "\<exists>t'. rs_trace s2 = rs_trace (snd (sleep poll_secs s1)) @ t' \<and> list_all P t' \<and> (isl r \<or> list_all Q t')"
          by (rule "1.IH"[OF True]) (use one again unfolded "1.prems"(2) in auto)
        then show ?thesis using t again by (auto simp: sleep_def)
      qed
    qed
  qed
qed

section \<open>Commands that change nothing\<close>

fun read_only :: "entry \<Rightarrow> bool" where
  "read_only (Kubectl (Scale d n), r) = False"
| "read_only (Spark_Sql pod flags sql, r) = False"
| "read_only (Backfill pod job, r) = False"
| "read_only (c, r) = True"

fun is_sql :: "entry \<Rightarrow> bool" where
  "is_sql (Spark_Sql pod flags sql, r) = True"
| "is_sql (c, r) = False"

fun sql_failed :: "entry \<Rightarrow> bool" where
  "sql_failed (Spark_Sql pod flags sql, Run_Failed exc) = True"
| "sql_failed (c, r) = False"

fun is_scale :: "entry \<Rightarrow> bool" where
  "is_scale (Kubectl (Scale d n), r) = True"
| "is_scale (c, r) = False"

lemma read_only_cases: "read_only x \<Longrightarrow> \<not> is_sql x \<and> \<not> sql_failed x \<and> \<not> is_scale x"
  by (cases x rule: read_only.cases) auto

lemma sql_failed_sql: "sql_failed x \<Longrightarrow> is_sql x"
  by (cases x rule: sql_failed.cases) auto

lemma is_sql_not_scale: "is_sql x \<Longrightarrow> \<not> is_scale x"
  by (cases x rule: is_sql.cases) auto

lemma emits_run_read_only [emit]:
  "(\<And>r. read_only (c, r)) \<Longrightarrow> emits read_only read_only (run_cmd e c)"
  by (rule emits_run_cmd)

lemma emits_kubectl:
  assumes "\<And>r. P (Kubectl k, r)" and "\<And>r. Q (Kubectl k, r)"
  shows "emits P Q (kubectl e check k)"
  unfolding kubectl_def using assms
  by (intro emits_bindE emits_run_cmd) (auto intro: emit split: run_result.split)

lemma emits_kubectl_read_only [emit]:
  "(\<And>r. read_only (Kubectl k, r)) \<Longrightarrow> emits read_only read_only (kubectl e check k)"
  by (rule emits_kubectl)

lemma emits_deployment [emit]:
  "emits read_only read_only (deployment_exists e d)" "emits read_only read_only (deployment_replicas e d)"
  unfolding deployment_exists_def deployment_replicas_def by (intro emit; simp)+

lemma emits_wait [emit]:
  "emits read_only read_only (wait_fully_stopped e cf d n)" "emits read_only read_only (wait_fully_started e cf d n)"
proof -
  have "emits read_only read_only (poll_stopped e d)" "emits read_only read_only (poll_started e d)"
    unfolding poll_stopped_def poll_started_def by (intro emit; simp)+
  note loops = this[THEN emits_wait_loop]
  have skip: "emits read_only read_only (\<lambda>s. (Inr True :: string + bool, s))"
    by (simp add: emits_def)
  show "emits read_only read_only (wait_fully_stopped e cf d n)"
    using loops(1) skip by (cases "cf_dry_run cf") (simp_all add: emits_def wait_fully_stopped_def)
  show "emits read_only read_only (wait_fully_started e cf d n)"
    using loops(2) skip by (cases "cf_dry_run cf") (simp_all add: emits_def wait_fully_started_def)
qed

lemma emits_stop_all [emit]: "emits read_only read_only (stop_all e cf ds)"
  by (induction ds) (auto intro!: emit)

lemma emits_start_all [emit]: "emits read_only read_only (start_all e cf ds)"
  by (induction ds) (auto intro!: emit)

lemma emits_build_targets [emit]: "emits read_only read_only (build_targets e cf source ms acc)"
  by (induction ms arbitrary: acc) (auto simp: Let_def intro!: emit)

lemma emits_find_pod_loop [emit]: "emits read_only read_only (find_pod_loop e exclude ds)"
  by (induction ds) (auto intro!: emit)

lemma emits_find_spark_pod [emit]: "emits read_only read_only (find_spark_pod e cf exclude)"
  by (auto simp: find_spark_pod_def intro!: emit)

lemma emits_get_spark_conf_flags [emit]: "emits read_only read_only (get_spark_conf_flags e pod)"
  unfolding get_spark_conf_flags_def by (rule emits_bindE) (auto intro!: emit split: run_result.split)

lemma emits_exec_pod [emit]: "emits read_only read_only (exec_pod e cf exclude)"
  unfolding exec_pod_def
  by (intro emits_bindE) (auto intro!: emit emits_try split: option.split)

text \<open>
  A class of entries that admits every reading command, \<open>P\<close> for a run that raises and \<open>Q\<close>
  for one that returns, admits every operation that only reads.
\<close>

locale entry_class =
  fixes P Q :: "entry \<Rightarrow> bool"
  assumes reads: "read_only x \<Longrightarrow> P x" and reads_done: "read_only x \<Longrightarrow> Q x"
begin

lemma of_read_only: "emits read_only read_only m \<Longrightarrow> emits P Q m"
  by (erule emits_weaken) (auto intro: reads reads_done)

lemma finding_pod: "emits P Q (exec_pod e cf exclude)"
  by (intro of_read_only emit)

lemma waiting: "emits P Q (stop_all e cf ds)" "emits P Q (start_all e cf ts)"
  by (intro of_read_only emit)+

end

section \<open>Commands that change the world\<close>

text \<open>spark-sql runs without scaling anything, and an operation that met a timeout has raised.\<close>

definition sql_step :: "entry \<Rightarrow> bool" where
  "sql_step x = (read_only x \<or> is_sql x)"

definition sql_done :: "entry \<Rightarrow> bool" where
  "sql_done x = (sql_step x \<and> \<not> sql_failed x)"

lemma read_only_sql_done: "read_only x \<Longrightarrow> sql_done x" "read_only x \<Longrightarrow> sql_step x"
  by (auto simp: sql_done_def sql_step_def dest: read_only_cases)

interpretation sql_class: entry_class sql_step sql_done
  by unfold_locales (auto intro: read_only_sql_done)

lemma emits_spark_sql [emit]: "emits sql_step sql_done (spark_sql e pod flags sql)"
  by (simp add: emits_def spark_sql_def bindE_def run_cmd_def Let_def raise_def ret_def sql_step_def
      sql_done_def split: run_result.split)

lemma emits_apply_modes [emit]: "emits sql_step sql_done (apply_modes e cf q cat ns pod flags ms)"
  by (induction ms) (auto intro!: emit split: sum.split)

lemma emits_verify_mode [emit]: "emits sql_step sql_done (verify_mode e q pod flags fqn)"
  unfolding verify_mode_def iceberg_has_col_def iceberg_col_type_def
  by (auto intro!: emit split: ddl_op.split)

lemma emits_verify_modes [emit]: "emits sql_step sql_done (verify_modes e q cat ns pod flags ms)"
  by (induction ms) (auto intro!: emit)

lemma emits_verify_step [emit]: "emits sql_step sql_done (verify_step e cf q cat ns pod flags)"
  by (auto simp: verify_step_def intro!: emit)

text \<open>Neither scaling nor the replay runs spark-sql; the replay scales nothing.\<close>

definition no_sql :: "entry \<Rightarrow> bool" where
  "no_sql x = (\<not> is_sql x)"

definition still :: "entry \<Rightarrow> bool" where
  "still x = (\<not> is_sql x \<and> \<not> is_scale x)"

lemma read_only_still: "read_only x \<Longrightarrow> still x" "read_only x \<Longrightarrow> no_sql x"
  by (auto simp: still_def no_sql_def dest: read_only_cases)

interpretation still_class: entry_class still still
  by unfold_locales (auto intro: read_only_still)

interpretation no_sql_class: entry_class no_sql no_sql
  by unfold_locales (auto intro: read_only_still)

lemma emits_scale: "emits no_sql no_sql (scale e cf d n)"
  unfolding scale_def by (auto intro!: emit emits_kubectl simp: no_sql_def)

lemma emits_scale_all: "emits no_sql no_sql (scale_all e cf ds)"
  by (induction ds rule: scale_all.induct) (auto intro!: emits_bindE emit emits_scale)

lemma emits_run_backfill: "emits still still (run_backfill e source tbl col pk pod ns cat)"
proof -
  have reads: "emits still still (read_checkpoint_offsets e source)" "emits still still (read_kafka_secret e)"
    by (simp_all add: emits_def read_checkpoint_offsets_def read_kafka_secret_def split: sum.split)
  have scan: "emits still still (find_stale_window_start e pod topic col ends)" for topic ends
    unfolding find_stale_window_start_def
    by (intro emits_bindE emits_run_cmd)
      (auto simp: still_def Let_def intro!: emit split: run_result.split option.split sum.split)
  show ?thesis
    unfolding run_backfill_def Let_def using reads scan
    by (auto intro!: emits_bindE emits_run_cmd emits_try emit simp: still_def
        split: option.split run_result.split)
qed

lemma emits_backfill_step: "emits still still (backfill_step e cf q cat ns pod flags)"
  by (auto simp: backfill_step_def intro!: emit emits_run_backfill)

section \<open>The replica count last set\<close>

fun scale_step :: "string \<Rightarrow> nat option \<Rightarrow> entry \<Rightarrow> nat option" where
  "scale_step d acc (Kubectl (Scale d' n), Completed rc out err) = (if d' = d \<and> rc = 0 then Some n else acc)"
| "scale_step d acc x = acc"

definition last_scale :: "string \<Rightarrow> trace \<Rightarrow> nat option" where
  "last_scale d tr = foldl (scale_step d) None tr"

definition all_down :: "string set \<Rightarrow> trace \<Rightarrow> bool" where
  "all_down ds tr = (\<forall>d \<in> ds. last_scale d tr = Some 0)"

lemma scale_step_still: "\<not> is_scale x \<Longrightarrow> scale_step d acc x = acc"
  by (cases "(d, acc, x)" rule: scale_step.cases) auto

lemma last_scale_append_still:
  "list_all (\<lambda>x. \<not> is_scale x) t \<Longrightarrow> last_scale d (tr @ t) = last_scale d tr"
proof (induction t arbitrary: tr)
  case (Cons x t)
  then show ?case using Cons.IH[of "tr @ [x]"] by (simp add: last_scale_def scale_step_still)
qed simp

lemma all_down_append_still:
  "\<lbrakk>all_down ds tr; list_all (\<lambda>x. \<not> is_scale x) t\<rbrakk> \<Longrightarrow> all_down ds (tr @ t)"
  by (simp add: all_down_def last_scale_append_still)

text \<open>Every spark-sql statement on the trace found all of \<open>ds\<close> scaled to zero.\<close>

definition sql_when_down :: "string set \<Rightarrow> trace \<Rightarrow> bool" where
  "sql_when_down ds tr = (\<forall>i < length tr. is_sql (tr ! i) \<longrightarrow> all_down ds (take i tr))"

lemma sql_when_down_append:
  assumes ok: "sql_when_down ds tr"
    and step: "(all_down ds tr \<and> list_all (\<lambda>x. \<not> is_scale x) t) \<or> list_all (\<lambda>x. \<not> is_sql x) t"
  shows "sql_when_down ds (tr @ t)"
  unfolding sql_when_down_def
proof (intro allI impI)
  fix i assume i: "i < length (tr @ t)" "is_sql ((tr @ t) ! i)"
  show "all_down ds (take i (tr @ t))"
  proof (cases "i < length tr")
    case True
    then show ?thesis using ok i by (simp add: sql_when_down_def nth_append)
  next
    case False
    then have "t ! (i - length tr) \<in> set t" "is_sql (t ! (i - length tr))"
      using i by (simp_all add: nth_append)
    then have down: "all_down ds tr" "list_all (\<lambda>x. \<not> is_scale x) t"
      using step by (auto simp: list_all_iff)
    then have "list_all (\<lambda>x. \<not> is_scale x) (take (i - length tr) t)"
      by (auto simp: list_all_iff dest: in_set_takeD)
    then show ?thesis using all_down_append_still[OF down(1)] False by simp
  qed
qed

section \<open>Assertions on the trace\<close>

definition triple ::
  "(trace \<Rightarrow> bool) \<Rightarrow> 'a op \<Rightarrow> ('a \<Rightarrow> trace \<Rightarrow> bool) \<Rightarrow> (trace \<Rightarrow> bool) \<Rightarrow> bool" where
  "triple pre m post exn = (\<forall>s. pre (rs_trace s) \<longrightarrow>
     (case m s of (Inl _, s1) \<Rightarrow> exn (rs_trace s1) | (Inr x, s1) \<Rightarrow> post x (rs_trace s1)))"

lemma triple_ret: "(\<And>tr. pre tr \<Longrightarrow> post x tr) \<Longrightarrow> triple pre (ret x) post exn"
  by (simp add: triple_def ret_def)

lemma triple_bindE:
  assumes m: "triple pre m mid exn" and f: "\<And>x. triple (mid x) (f x) post exn"
  shows "triple pre (bindE m f) post exn"
  unfolding triple_def
proof (intro allI impI)
  fix s :: run_state assume "pre (rs_trace s)"
  then have one: "case m s of (Inl _, s1) \<Rightarrow> exn (rs_trace s1) | (Inr x, s1) \<Rightarrow> mid x (rs_trace s1)"
    using m by (simp add: triple_def)
  obtain r1 s1 where run: "m s = (r1, s1)" by force
  show "case bindE m f s of (Inl _, s1) \<Rightarrow> exn (rs_trace s1) | (Inr x, s1) \<Rightarrow> post x (rs_trace s1)"
    using one f run by (cases r1) (simp_all add: bindE_def triple_def)
qed

lemma triple_of_emits:
  assumes m: "emits P Q m"
    and exn: "\<And>tr t. \<lbrakk>pre tr; list_all P t\<rbrakk> \<Longrightarrow> exn (tr @ t)"
    and post: "\<And>tr t x. \<lbrakk>pre tr; list_all P t; list_all Q t\<rbrakk> \<Longrightarrow> post x (tr @ t)"
  shows "triple pre m post exn"
  unfolding triple_def
proof (intro allI impI)
  fix s :: run_state assume pre: "pre (rs_trace s)"
  obtain r s1 where run: "m s = (r, s1)" by force
  obtain t where "rs_trace s1 = rs_trace s @ t" "list_all P t" "isl r \<or> list_all Q t"
    by (rule emits_apply[OF m run])
  then show "case m s of (Inl _, s1) \<Rightarrow> exn (rs_trace s1) | (Inr x, s1) \<Rightarrow> post x (rs_trace s1)"
    using run exn[OF pre] post[OF pre] by (cases r) simp_all
qed

lemma triple_use:
  assumes "triple pre m post exn" and "pre (rs_trace s)" and "m s = (r, s1)"
  shows "case r of Inl _ \<Rightarrow> exn (rs_trace s1) | Inr x \<Rightarrow> post x (rs_trace s1)"
  using assms unfolding triple_def by (cases r) fastforce+

lemma triple_scale:
  assumes "\<not> cf_dry_run cf"
  shows "triple (\<lambda>tr. pre tr) (scale e cf d n)
    (\<lambda>_ tr. \<exists>tr0 out err. pre tr0 \<and> tr = tr0 @ [(Kubectl (Scale d n), Completed 0 out err)]) (\<lambda>_. True)"
  using assms by (auto simp: triple_def scale_def kubectl_def bindE_def run_cmd_def Let_def raise_def ret_def
      split: run_result.split)

lemma scale_all_sets:
  assumes live: "\<not> cf_dry_run cf" and run: "scale_all e cf ds s = (Inr u, s1)" and dist: "distinct (map fst ds)"
  shows "last_scale d (rs_trace s1) =
    (case map_of ds d of Some n \<Rightarrow> Some n | None \<Rightarrow> last_scale d (rs_trace s))"
  using run dist
proof (induction ds arbitrary: s)
  case Nil
  then show ?case by (simp add: ret_def)
next
  case (Cons a ds)
  obtain d0 n0 where a: "a = (d0, n0)" by force
  obtain r1 s2 where one: "scale e cf d0 n0 s = (r1, s2)" by force
  have r1: "r1 = Inr ()" and rest: "scale_all e cf ds s2 = (Inr u, s1)"
    using Cons.prems(1) one a by (auto simp: bindE_def split: sum.splits)
  have "last_scale d (rs_trace s2) = (if d = d0 then Some n0 else last_scale d (rs_trace s))"
    using triple_use[OF triple_scale[OF live, where pre = "\<lambda>tr. tr = rs_trace s"] _ one] r1
    by (auto simp: last_scale_def)
  then show ?case using Cons.IH[OF rest] Cons.prems(2) a
    by (auto simp: map_of_eq_None_iff[THEN iffD2] split: option.split)
qed

end
