(* ===== verification/Ddl_Cycle.thy ===== *)
theory Ddl_Cycle
  imports Ddl_Trace
begin

text \<open>
  The properties of the DDL cycle: the statements run only on stopped deployments, the
  replicas come back when the cycle returns, a dry run changes nothing, success means the
  statements were applied; and where it fails, a timeout of spark-sql and a rename to a
  longer name. The witnesses run the model on a cluster with one deployment.
\<close>

section \<open>The cycle\<close>

definition sql_free :: "trace \<Rightarrow> bool" where
  "sql_free tr = list_all (\<lambda>x. \<not> is_sql x) tr"

definition no_timeout :: "trace \<Rightarrow> bool" where
  "no_timeout tr = list_all (\<lambda>x. \<not> sql_failed x) tr"

text \<open>
  What a run may raise with: spark-sql only ran on stopped targets, and if it is spark-sql that
  raised then the targets are still stopped.
\<close>

definition raised_ok :: "string set \<Rightarrow> trace \<Rightarrow> bool" where
  "raised_ok ds tr = (sql_when_down ds tr \<and> (no_timeout tr \<or> all_down ds tr))"

definition restored :: "(string \<times> nat) list \<Rightarrow> trace \<Rightarrow> bool" where
  "restored ts tr = (\<forall>(d, n) \<in> set ts. last_scale d tr = Some n)"

lemma sql_free_facts:
  assumes "sql_free tr"
  shows "no_timeout tr" and "sql_when_down ds tr"
  using assms unfolding sql_free_def no_timeout_def sql_when_down_def list_all_iff
  by (auto dest: sql_failed_sql)

lemma sql_free_append: "\<lbrakk>sql_free tr; list_all no_sql t\<rbrakk> \<Longrightarrow> sql_free (tr @ t)"
  by (simp add: sql_free_def no_sql_def[abs_def])

lemma no_timeout_append: "\<lbrakk>no_timeout tr; list_all no_sql t\<rbrakk> \<Longrightarrow> no_timeout (tr @ t)"
  by (auto simp: no_timeout_def no_sql_def list_all_iff dest: sql_failed_sql)

lemma build_targets_distinct:
  "\<lbrakk>build_targets e cf source ms acc s = (Inr ts, s1); distinct (map fst acc)\<rbrakk> \<Longrightarrow> distinct (map fst ts)"
proof (induction ms arbitrary: acc s)
  case (Cons m ms)
  then show ?case
    by (auto simp: bindE_def Let_def ret_def distinct_update split: sum.splits prod.splits if_splits)
qed (simp add: ret_def)

lemma sql_step_keeps:
  assumes "all_down ds tr \<and> sql_when_down ds tr" and "list_all sql_step t"
  shows "all_down ds (tr @ t) \<and> sql_when_down ds (tr @ t)"
proof -
  have "list_all (\<lambda>x. \<not> is_scale x) t"
    using assms(2) by (auto simp: list_all_iff sql_step_def dest: read_only_cases is_sql_not_scale)
  then show ?thesis using assms(1) by (simp add: all_down_append_still sql_when_down_append)
qed

abbreviation paused :: "string set \<Rightarrow> trace \<Rightarrow> bool" where
  "paused ds tr \<equiv> (all_down ds tr \<and> sql_when_down ds tr) \<and> no_timeout tr"

lemma triple_sql:
  assumes "emits sql_step sql_done m"
  shows "triple (paused ds) m (\<lambda>_. paused ds) (raised_ok ds)"
proof (rule triple_of_emits[OF assms])
  fix tr t assume pre: "paused ds tr" and t: "list_all sql_step t"
  show "raised_ok ds (tr @ t)"
    using sql_step_keeps[of ds tr t] pre t by (simp add: raised_ok_def)
next
  fix tr t assume pre: "paused ds tr" and t: "list_all sql_step t" "list_all sql_done t"
  then have "no_timeout (tr @ t)" by (auto simp: no_timeout_def sql_done_def list_all_iff)
  then show "paused ds (tr @ t)" using sql_step_keeps[of ds tr t] pre t by simp
qed

lemma still_keeps:
  assumes "emits still still m"
  shows "triple (\<lambda>tr. sql_when_down ds tr \<and> no_timeout tr \<and> restored ts tr) m
     (\<lambda>_ tr. sql_when_down ds tr \<and> no_timeout tr \<and> restored ts tr) (raised_ok ds)"
proof (rule triple_of_emits[OF assms])
  fix tr t assume pre: "sql_when_down ds tr \<and> no_timeout tr \<and> restored ts tr" and t: "list_all still t"
  have parts: "list_all no_sql t" "list_all (\<lambda>x. \<not> is_scale x) t"
    using t by (auto simp: still_def no_sql_def list_all_iff)
  show kept: "sql_when_down ds (tr @ t) \<and> no_timeout (tr @ t) \<and> restored ts (tr @ t)"
    using pre parts
    by (simp add: sql_when_down_append no_timeout_append no_sql_def[abs_def] restored_def last_scale_append_still)
  then show "raised_ok ds (tr @ t)" by (simp add: raised_ok_def)
qed

lemma triple_restore:
  assumes live: "\<not> cf_dry_run cf" and dist: "distinct (map fst ts)"
  shows "triple (paused ds) (restore_step e cf ts)
    (\<lambda>_ tr. sql_when_down ds tr \<and> no_timeout tr \<and> restored ts tr) (raised_ok ds)"
  unfolding restore_step_def if_not_P[OF live]
proof (rule triple_bindE)
  show "triple (paused ds) (scale_all e cf ts)
    (\<lambda>_ tr. sql_when_down ds tr \<and> no_timeout tr \<and> restored ts tr) (raised_ok ds)"
    unfolding triple_def
  proof (intro allI impI)
    fix s :: run_state assume pre: "paused ds (rs_trace s)"
    obtain r s1 where run: "scale_all e cf ts s = (r, s1)" by force
    obtain t where t: "rs_trace s1 = rs_trace s @ t" "list_all no_sql t"
      by (rule emits_apply[OF emits_scale_all run])
    have "sql_when_down ds (rs_trace s1) \<and> no_timeout (rs_trace s1)"
      using pre t by (simp add: no_timeout_append sql_when_down_append no_sql_def[abs_def])
    moreover have "restored ts (rs_trace s1)" if "r = Inr u" for u
      using scale_all_sets[OF live _ dist, of e s u s1] run that dist
      by (auto simp: restored_def)
    ultimately show "case scale_all e cf ts s of (Inl _, s1) \<Rightarrow> raised_ok ds (rs_trace s1)
      | (Inr x, s1) \<Rightarrow> sql_when_down ds (rs_trace s1) \<and> no_timeout (rs_trace s1) \<and> restored ts (rs_trace s1)"
      using run by (cases r) (auto simp: raised_ok_def)
  qed
next
  fix u
  show "triple (\<lambda>tr. sql_when_down ds tr \<and> no_timeout tr \<and> restored ts tr)
     (bindE (start_all e cf ts) (\<lambda>_. ret ()))
     (\<lambda>_ tr. sql_when_down ds tr \<and> no_timeout tr \<and> restored ts tr) (raised_ok ds)"
    by (rule still_keeps) (intro emits_bindE still_class.waiting emits_ret)
qed

definition finished_ok :: "(string \<times> nat) list \<Rightarrow> trace \<Rightarrow> bool" where
  "finished_ok ts tr = (sql_when_down (fst ` set ts) tr \<and> no_timeout tr \<and> restored ts tr)"

lemma triple_alter_cycle:
  assumes live: "\<not> cf_dry_run cf" and dist: "distinct (map fst ts)"
  shows "triple (paused (fst ` set ts)) (alter_cycle e cf q cat ns ts) (\<lambda>_. finished_ok ts)
    (raised_ok (fst ` set ts))"
  unfolding alter_cycle_def
proof (rule triple_bindE)
  let ?D = "fst ` set ts"
  show "triple (paused ?D) (exec_pod e cf (map fst ts)) (\<lambda>_. paused ?D) (raised_ok ?D)"
    by (intro triple_sql sql_class.finding_pod)
  fix x :: "string option \<times> string \<times> bool"
  obtain pod flags found where x: "x = (pod, flags, found)" by (cases x)
  have modes: "triple (paused ?D)
      (if found then apply_modes e cf q cat ns (the pod) flags (dq_modes q) else ret False)
      (\<lambda>_. paused ?D) (raised_ok ?D)"
    by (rule triple_sql) (auto intro!: emit)
  have verify: "triple (paused ?D) (verify_step e cf q cat ns pod flags) (\<lambda>_. paused ?D) (raised_ok ?D)"
    by (intro triple_sql emit)
  have last: "triple (finished_ok ts) (bindE (backfill_step e cf q cat ns pod flags) (\<lambda>filled. ret (a \<and> b \<and> filled)))
      (\<lambda>_. finished_ok ts) (raised_ok ?D)" for a b
    unfolding finished_ok_def[abs_def] by (intro still_keeps emits_bindE emits_backfill_step emit)
  show "triple (paused ?D) (case x of (pod, flags, found) \<Rightarrow>
      bindE (if found then apply_modes e cf q cat ns (the pod) flags (dq_modes q) else ret False) (\<lambda>applied.
      bindE (verify_step e cf q cat ns pod flags) (\<lambda>verified.
      bindE (restore_step e cf ts) (\<lambda>_.
      bindE (backfill_step e cf q cat ns pod flags) (\<lambda>filled.
        ret (applied \<and> verified \<and> filled))))))
     (\<lambda>_. finished_ok ts) (raised_ok ?D)"
    unfolding x prod.case finished_ok_def[abs_def]
    by (rule triple_bindE[OF modes], rule triple_bindE[OF verify],
        rule triple_bindE[OF triple_restore[OF live dist]])
      (rule last[unfolded finished_ok_def[abs_def]])
qed

text \<open>The state a run starts in.\<close>

definition start_at :: "nat \<Rightarrow> run_state" where
  "start_at t = \<lparr>rs_trace = [], rs_clock = t\<rparr>"

lemma map_of_zero: "d \<in> fst ` set ts \<Longrightarrow> map_of (map (\<lambda>(d, _). (d, 0)) ts) d = Some 0"
  by (induction ts) auto

lemma pause_targets_down:
  assumes live: "\<not> cf_dry_run cf" and dist: "distinct (map fst ts)" and free: "sql_free (rs_trace s)"
    and run: "pause_targets e cf ts s = (r, s1)"
  shows "sql_free (rs_trace s1) \<and> (isl r \<or> all_down (fst ` set ts) (rs_trace s1))"
proof -
  let ?zero = "map (\<lambda>(d, _). (d, 0::nat)) ts"
  obtain r1 s2 where one: "scale_all e cf ?zero s = (r1, s2)" by force
  obtain t where t: "rs_trace s2 = rs_trace s @ t" "list_all no_sql t"
    by (rule emits_apply[OF emits_scale_all one])
  have free2: "sql_free (rs_trace s2)" using free t by (simp add: sql_free_append)
  show ?thesis
  proof (cases r1)
    case (Inl exc)
    then show ?thesis using run one free2 by (auto simp: pause_targets_def bindE_def)
  next
    case (Inr u)
    then have two: "stop_all e cf (map fst ts) s2 = (r, s1)" using run one by (simp add: pause_targets_def bindE_def)
    obtain t' where t': "rs_trace s1 = rs_trace s2 @ t'" "list_all read_only t'"
      by (rule emits_apply[OF emits_stop_all two])
    have quiet: "list_all no_sql t'" "list_all (\<lambda>x. \<not> is_scale x) t'"
      using t'(2) by (auto simp: list_all_iff no_sql_def dest: read_only_cases)
    have "map fst ?zero = map fst ts" by (simp add: case_prod_unfold)
    then have "last_scale d (rs_trace s2) = (case map_of ?zero d of Some n \<Rightarrow> Some n | None \<Rightarrow> last_scale d (rs_trace s))" for d
      using scale_all_sets[OF live, of e ?zero s u s2 d] one Inr dist by metis
    moreover have "map_of ?zero d = Some 0" if "d \<in> fst ` set ts" for d
      using that by (rule map_of_zero)
    ultimately have "last_scale d (rs_trace s2) = Some 0" if "d \<in> fst ` set ts" for d
      using that by simp
    then show ?thesis using t' quiet free2
      by (simp add: sql_free_append all_down_def last_scale_append_still)
  qed
qed

lemma apply_ddl_outcome:
  assumes live: "\<not> cf_dry_run cf"
    and targets: "build_targets e cf (dq_source q) (dq_modes q) [] (start_at t) = (Inr ts, s1)"
    and run: "apply_ddl e cf q (start_at t) = (r, s2)"
  shows "case r of Inl _ \<Rightarrow> raised_ok (fst ` set ts) (rs_trace s2)
    | Inr _ \<Rightarrow> sql_when_down (fst ` set ts) (rs_trace s2) \<and> no_timeout (rs_trace s2) \<and>
        (map_of source_registry (dq_source q) \<noteq> None \<longrightarrow> restored ts (rs_trace s2))"
proof (cases "map_of source_registry (dq_source q)")
  case None
  then have "sql_free (rs_trace s2)" using run by (auto simp: apply_ddl_def raise_def start_at_def sql_free_def)
  then show ?thesis using sql_free_facts None by (auto simp: raised_ok_def split: sum.split)
next
  case (Some smeta)
  have dist: "distinct (map fst ts)" using build_targets_distinct[OF targets] by simp
  obtain t1 where "rs_trace s1 = rs_trace (start_at t) @ t1" "list_all read_only t1"
    by (rule emits_apply[OF emits_build_targets targets])
  then have free: "sql_free (rs_trace s1)"
    by (auto simp: start_at_def sql_free_def list_all_iff dest: read_only_cases)
  show ?thesis
  proof (cases "ts = []")
    case True
    then have "s2 = s1" "r = Inr False"
      using run Some targets live by (auto simp: apply_ddl_def bindE_def ret_def Let_def)
    then show ?thesis using sql_free_facts[OF free] True by (simp add: restored_def)
  next
    case False
    obtain r1 s3 where pause: "pause_targets e cf ts s1 = (r1, s3)" by force
    note down = pause_targets_down[OF live dist free pause]
    show ?thesis
    proof (cases r1)
      case (Inl exc)
      then have "s2 = s3" "r = Inl exc"
        using run Some targets False pause by (auto simp: apply_ddl_def bindE_def Let_def)
      then show ?thesis using sql_free_facts down by (simp add: raised_ok_def)
    next
      case (Inr b)
      let ?cat = "or_default (dq_catalog q) (sm_catalog smeta)" and ?ns = "or_default (dq_namespace q) (sm_default_namespace smeta)"
      have rest: "alter_cycle e cf q ?cat ?ns ts s3 = (r, s2)"
        using run Some targets False pause Inr by (simp add: apply_ddl_def bindE_def Let_def)
      have "paused (fst ` set ts) (rs_trace s3)" using down sql_free_facts Inr by simp
      then show ?thesis
        using triple_use[OF triple_alter_cycle[OF live dist] _ rest]
        by (auto simp: finished_ok_def split: sum.splits)
    qed
  qed
qed

text \<open>C6: spark-sql is only ever run while every target deployment's last scale command set it to zero.\<close>

theorem alter_only_while_scaled_down:
  assumes "\<not> cf_dry_run cf"
    and "build_targets e cf (dq_source q) (dq_modes q) [] (start_at t) = (Inr ts, s1)"
    and "apply_ddl e cf q (start_at t) = (r, s2)"
    and "i < length (rs_trace s2)" and "rs_trace s2 ! i = (Spark_Sql pod flags sql, res)"
    and "(d, n) \<in> set ts"
  shows "last_scale d (take i (rs_trace s2)) = Some 0"
proof -
  have "sql_when_down (fst ` set ts) (rs_trace s2)"
    using apply_ddl_outcome[OF assms(1-3)] by (auto simp: raised_ok_def split: sum.splits)
  then show ?thesis using assms(4-6) by (force simp: sql_when_down_def all_down_def)
qed

text \<open>C7: when the cycle returns, whatever it returns, every target is back at its original replica count.\<close>

theorem replicas_restored_on_return:
  assumes "\<not> cf_dry_run cf"
    and "build_targets e cf (dq_source q) (dq_modes q) [] (start_at t) = (Inr ts, s1)"
    and "apply_ddl e cf q (start_at t) = (Inr b, s2)"
    and "(d, n) \<in> set ts"
  shows "last_scale d (rs_trace s2) = Some n"
proof -
  have "map_of source_registry (dq_source q) \<noteq> None"
    using assms(3) by (auto simp: apply_ddl_def raise_def split: option.splits)
  then show ?thesis using apply_ddl_outcome[OF assms(1-3)] assms(4) by (auto simp: restored_def)
qed

text \<open>when spark-sql times out the cycle raises, and leaves every target scaled to zero.\<close>

theorem spark_timeout_leaves_targets_down:
  assumes "\<not> cf_dry_run cf"
    and "build_targets e cf (dq_source q) (dq_modes q) [] (start_at t) = (Inr ts, s1)"
    and "apply_ddl e cf q (start_at t) = (r, s2)"
    and "(Spark_Sql pod flags sql, Run_Failed exc) \<in> set (rs_trace s2)"
  shows "isl r \<and> (\<forall>d \<in> fst ` set ts. last_scale d (rs_trace s2) = Some 0)"
proof -
  have "\<not> no_timeout (rs_trace s2)" using assms(4) by (force simp: no_timeout_def list_all_iff)
  then show ?thesis using apply_ddl_outcome[OF assms(1-3)]
    by (auto simp: raised_ok_def all_down_def split: sum.splits)
qed

section \<open>A dry run\<close>

lemma emits_apply_modes_dry:
  "cf_dry_run cf \<Longrightarrow> emits read_only read_only (apply_modes e cf q cat ns pod flags ms)"
  by (induction ms) (auto intro!: emit split: sum.split)

lemma emits_scale_all_dry: "cf_dry_run cf \<Longrightarrow> emits read_only read_only (scale_all e cf ds)"
  by (induction ds rule: scale_all.induct) (auto simp: scale_def intro!: emit)

lemma emits_apply_ddl_dry:
  assumes dry: "cf_dry_run cf"
  shows "emits read_only read_only (apply_ddl e cf q)"
proof -
  note quiet = emits_apply_modes_dry[OF dry] emits_scale_all_dry[OF dry] emit
  have cycle: "emits read_only read_only (alter_cycle e cf q cat ns ts)" for cat ns ts
    unfolding alter_cycle_def verify_step_def restore_step_def backfill_step_def
    using dry by (auto intro!: quiet)
  have pause: "emits read_only read_only (pause_targets e cf ts)" for ts
    unfolding pause_targets_def by (intro quiet)
  show ?thesis
    unfolding apply_ddl_def Let_def by (auto intro!: emit cycle pause split: option.split)
qed

lemma emits_from_start:
  assumes "emits P P m" "x \<in> set (rs_trace (snd (m (start_at t))))"
  shows "P x"
proof -
  obtain tr where "rs_trace (snd (m (start_at t))) = tr" "list_all P tr"
    using emits_apply[OF assms(1), of "start_at t"]
    by (metis (no_types, lifting) append_Nil prod.collapse run_state.select_convs(1) start_at_def)
  then show ?thesis using assms(2) by (simp add: list_all_iff)
qed

text \<open>a dry run scales nothing, runs no spark-sql and no replay, whatever the cluster answers.\<close>

theorem dry_run_is_read_only:
  assumes dry: "cf_dry_run cf" and entry: "x \<in> set (rs_trace (snd (apply_ddl e cf q (start_at t))))"
  shows "read_only x"
  using emits_from_start[OF emits_apply_ddl_dry[OF dry] entry] .

section \<open>What success means\<close>

lemma emits_grows: "\<lbrakk>emits P Q m; m s = (r, s1)\<rbrakk> \<Longrightarrow> set (rs_trace s) \<subseteq> set (rs_trace s1)"
  by (erule emits_apply) auto

lemma bindE_returns:
  assumes "bindE m f s = (Inr y, s2)"
  obtains x s1 where "m s = (Inr x, s1)" "f x s1 = (Inr y, s2)"
  using assms by (auto simp: bindE_def split: prod.splits sum.splits)

lemma ret_returns: "ret x s = (Inr y, s1) \<longleftrightarrow> x = y \<and> s = s1"
  by (auto simp: ret_def)

lemma spark_sql_returns:
  assumes "spark_sql e pod flags sql s = (Inr (rc, out, err), s1)"
  obtains out0 err0 where "out = py_strip out0" "err = py_strip err0"
    "rs_trace s1 = rs_trace s @ [(Spark_Sql pod flags (py_strip sql), Completed rc out0 err0)]"
  using assms by (auto simp: spark_sql_def bindE_def run_cmd_def Let_def raise_def ret_def split: run_result.splits)

definition statement_done :: "ddl_request \<Rightarrow> string \<Rightarrow> string \<Rightarrow> string \<Rightarrow> trace \<Rightarrow> bool" where
  "statement_done q pod flags fqn tr = (\<exists>ddl rc out err.
     build_ddl (dq_op q) fqn (dq_col q) (dq_col_type q) (dq_new_col q) = Inr ddl \<and>
     (Spark_Sql pod flags (py_strip ddl), Completed rc out err) \<in> set tr \<and>
     (rc = 0 \<or> idempotent_failure (dq_op q) (py_strip out) (py_strip err)))"

definition described_with :: "string \<Rightarrow> string \<Rightarrow> string \<Rightarrow> string \<Rightarrow> trace \<Rightarrow> bool" where
  "described_with pod flags fqn col tr = (\<exists>rc out err.
     (Spark_Sql pod flags (py_strip (describe_sql fqn)), Completed rc out err) \<in> set tr \<and>
     contains (py_lower col) (py_lower (py_strip out)))"

lemma statement_done_mono: "\<lbrakk>statement_done q pod flags fqn tr; set tr \<subseteq> set tr'\<rbrakk> \<Longrightarrow> statement_done q pod flags fqn tr'"
  unfolding statement_done_def by blast

lemma described_mono: "\<lbrakk>described_with pod flags fqn col tr; set tr \<subseteq> set tr'\<rbrakk> \<Longrightarrow> described_with pod flags fqn col tr'"
  unfolding described_with_def by blast

lemma apply_modes_done:
  "\<lbrakk>apply_modes e cf q cat ns pod flags ms s = (Inr True, s1); \<not> cf_dry_run cf; m \<in> set ms\<rbrakk>
   \<Longrightarrow> statement_done q pod flags (fqn_of cat ns (dq_table q) m) (rs_trace s1)"
proof (induction ms arbitrary: s)
  case (Cons m0 ms)
  obtain ddl where ddl: "build_ddl (dq_op q) (fqn_of cat ns (dq_table q) m0) (dq_col q) (dq_col_type q) (dq_new_col q) = Inr ddl"
    using Cons.prems(1) by (auto simp: raise_def split: sum.splits)
  obtain rc out err s2 rest s3 where sql: "spark_sql e pod flags ddl s = (Inr (rc, out, err), s2)"
    and rest: "apply_modes e cf q cat ns pod flags ms s2 = (Inr rest, s3)"
    and both: "(rc = 0 \<or> idempotent_failure (dq_op q) out err) \<and> rest" "s3 = s1"
    using Cons.prems(1,2) ddl by (auto simp: ret_returns elim!: bindE_returns)
  show ?case
  proof (cases "m = m0")
    case True
    obtain out0 err0 where "out = py_strip out0" "err = py_strip err0"
      "(Spark_Sql pod flags (py_strip ddl), Completed rc out0 err0) \<in> set (rs_trace s2)"
      by (rule spark_sql_returns[OF sql]) auto
    then have "statement_done q pod flags (fqn_of cat ns (dq_table q) m0) (rs_trace s2)"
      using ddl both unfolding statement_done_def by blast
    then show ?thesis
      using True both(2) statement_done_mono emits_grows[OF emits_apply_modes rest] by blast
  next
    case False
    then show ?thesis using Cons.IH[of s2] Cons.prems rest both by simp
  qed
qed simp

lemma iceberg_has_col_returns:
  assumes "iceberg_has_col e pod flags fqn col s = (Inr b, s1)"
  obtains rc out err where "b = contains (py_lower col) (py_lower (py_strip out))"
    "rs_trace s1 = rs_trace s @ [(Spark_Sql pod flags (py_strip (describe_sql fqn)), Completed rc out err)]"
  using assms by (auto simp: iceberg_has_col_def ret_returns elim!: bindE_returns spark_sql_returns)

lemma verify_modes_added:
  "\<lbrakk>verify_modes e q cat ns pod flags ms s = (Inr True, s1); dq_op q = Add; m \<in> set ms\<rbrakk>
   \<Longrightarrow> described_with pod flags (fqn_of cat ns (dq_table q) m) (dq_col q) (rs_trace s1)"
proof (induction ms arbitrary: s)
  case (Cons m0 ms)
  let ?fqn = "fqn_of cat ns (dq_table q) m0"
  obtain s2 where one: "verify_mode e q pod flags ?fqn s = (Inr True, s2)"
    and rest: "verify_modes e q cat ns pod flags ms s2 = (Inr True, s1)"
    using Cons.prems(1) by (auto simp: ret_returns elim!: bindE_returns)
  obtain b s3 where has: "iceberg_has_col e pod flags ?fqn (dq_col q) s = (Inr b, s3)"
    and after: "(if b then bindE (iceberg_col_type e pod flags ?fqn (dq_col q)) (\<lambda>_. ret True) else ret False) s3 = (Inr True, s2)"
    using one Cons.prems(2) by (auto simp: verify_mode_def elim!: bindE_returns)
  show ?case
  proof (cases "m = m0")
    case True
    have b: b using after by (auto simp: ret_returns split: if_splits)
    have "described_with pod flags ?fqn (dq_col q) (rs_trace s3)"
      using b by (rule_tac iceberg_has_col_returns[OF has]) (auto simp: described_with_def)
    moreover have "set (rs_trace s3) \<subseteq> set (rs_trace s2)"
      using after by (rule emits_grows[where s = s3 and P = sql_step and Q = sql_done, rotated])
        (auto simp: iceberg_col_type_def intro!: emit)
    moreover have "set (rs_trace s2) \<subseteq> set (rs_trace s1)"
      by (rule emits_grows[OF emits_verify_modes rest])
    ultimately show ?thesis using True described_mono by blast
  next
    case False
    then show ?thesis using Cons.IH[OF rest] Cons.prems by simp
  qed
qed simp

lemma exec_pod_found: "exec_pod e cf exclude s = (Inr (pod, flags, True), s1) \<Longrightarrow> pod \<noteq> None"
  by (auto simp: exec_pod_def try_except_def ret_returns elim!: bindE_returns
      split: option.splits prod.splits sum.splits)

lemma emits_restore_step: "emits no_sql no_sql (restore_step e cf ts)"
  by (auto simp: restore_step_def intro!: emits_bindE emits_scale_all no_sql_class.waiting emits_ret)

text \<open>The table of a request in a write mode, as the cycle names it.\<close>

definition target_table :: "ddl_request \<Rightarrow> write_mode \<Rightarrow> string" where
  "target_table q m = (case map_of source_registry (dq_source q) of
     None \<Rightarrow> []
   | Some smeta \<Rightarrow> fqn_of (or_default (dq_catalog q) (sm_catalog smeta))
       (or_default (dq_namespace q) (sm_default_namespace smeta)) (dq_table q) m)"

text \<open>
  C8: success means that each mode's statement ran and returned 0 or was taken for already
  applied, and that an added column was seen in its table unless the conf flags were empty.
\<close>

theorem success_means_applied:
  assumes live: "\<not> cf_dry_run cf"
    and run: "apply_ddl e cf q s = (Inr True, s2)"
    and m: "m \<in> set (dq_modes q)"
  shows "\<exists>pod flags. statement_done q pod flags (target_table q m) (rs_trace s2) \<and>
    (dq_op q = Add \<longrightarrow> pod \<noteq> [] \<longrightarrow> flags \<noteq> [] \<longrightarrow>
      described_with pod flags (target_table q m) (dq_col q) (rs_trace s2))"
proof -
  obtain smeta where smeta: "map_of source_registry (dq_source q) = Some smeta"
    using run by (auto simp: apply_ddl_def raise_def split: option.splits)
  let ?cat = "or_default (dq_catalog q) (sm_catalog smeta)" and ?ns = "or_default (dq_namespace q) (sm_default_namespace smeta)"
  have table: "target_table q m = fqn_of ?cat ?ns (dq_table q) m" by (simp add: target_table_def smeta)
  obtain ts s3 where cycle: "alter_cycle e cf q ?cat ?ns ts s3 = (Inr True, s2)"
    using run smeta by (auto simp: apply_ddl_def Let_def ret_returns elim!: bindE_returns split: if_splits)
  obtain pod flags found s4 s5 s6 s7 u where exec: "exec_pod e cf (map fst ts) s3 = (Inr (pod, flags, found), s4)"
    and modes: "(if found then apply_modes e cf q ?cat ?ns (the pod) flags (dq_modes q) else ret False) s4 = (Inr True, s5)"
    and verify: "verify_step e cf q ?cat ?ns pod flags s5 = (Inr True, s6)"
    and restore: "restore_step e cf ts s6 = (Inr u, s7)"
    and fill: "backfill_step e cf q ?cat ?ns pod flags s7 = (Inr True, s2)"
    using cycle by (auto simp: alter_cycle_def ret_returns elim!: bindE_returns)
  have found: found using modes by (cases found) (simp_all add: ret_returns)
  obtain p where p: "pod = Some p" using exec_pod_found[of e cf "map fst ts" s3 pod flags s4] exec found by auto
  have "statement_done q p flags (target_table q m) (rs_trace s5)"
    using apply_modes_done[OF _ live m] modes found p table by simp
  moreover have "set (rs_trace s5) \<subseteq> set (rs_trace s6)" by (rule emits_grows[OF emits_verify_step verify])
  moreover have "described_with p flags (target_table q m) (dq_col q) (rs_trace s6)"
    if "dq_op q = Add" "p \<noteq> []" "flags \<noteq> []"
    using verify_modes_added[OF _ that(1) m] verify that live p table by (simp add: verify_step_def set_opt_def)
  moreover have "set (rs_trace s6) \<subseteq> set (rs_trace s7)" by (rule emits_grows[OF emits_restore_step restore])
  moreover have "set (rs_trace s7) \<subseteq> set (rs_trace s2)" by (rule emits_grows[OF emits_backfill_step fill])
  ultimately show ?thesis using statement_done_mono described_mono by (intro exI[of _ p] exI[of _ flags]) meson
qed

section \<open>Renaming to a longer name\<close>

text \<open>A table described twice in a row reads the same; the conf builder prints some setting.\<close>

definition stable_describe :: "env \<Rightarrow> bool" where
  "stable_describe e = (\<forall>tr pod flags fqn r. env_run e tr (Spark_Sql pod flags (py_strip (describe_sql fqn))) = r \<longrightarrow>
     env_run e (tr @ [(Spark_Sql pod flags (py_strip (describe_sql fqn)), r)]) (Spark_Sql pod flags (py_strip (describe_sql fqn))) = r)"

definition conf_given :: "env \<Rightarrow> bool" where
  "conf_given e = (\<forall>tr pod rc out err. env_run e tr (Conf_Builder pod) = Completed rc out err \<longrightarrow>
     list_ex (contains ''='') (py_splitlines (py_strip out)))"

lemma find_pod_loop_nonempty: "find_pod_loop e exclude ds s = (Inr pod, s1) \<Longrightarrow> pod \<noteq> []"
proof (induction ds arbitrary: s)
  case (Cons d ds)
  then show ?case by (auto simp: ret_returns elim!: bindE_returns split: if_splits)
qed (simp add: raise_def)

lemma py_join_nonempty: "\<lbrakk>xs \<noteq> []; [] \<notin> set xs\<rbrakk> \<Longrightarrow> py_join sep xs \<noteq> []"
  by (cases "(sep, xs)" rule: py_join.cases) auto

lemma get_spark_conf_flags_nonempty:
  assumes given: "conf_given e" and run: "get_spark_conf_flags e pod s = (Inr flags, s1)"
  shows "flags \<noteq> []"
proof -
  obtain rc out err where "env_run e (rs_trace s) (Conf_Builder pod) = Completed rc out err"
    and flags: "flags = py_join '' '' (map conf_flag (filter (contains ''='') (py_splitlines (py_strip out))))"
    using run by (auto simp: get_spark_conf_flags_def bindE_def run_cmd_def Let_def raise_def ret_def
        split: run_result.splits if_splits)
  then have "list_ex (contains ''='') (py_splitlines (py_strip out))"
    using given unfolding conf_given_def by blast
  then have "filter (contains ''='') (py_splitlines (py_strip out)) \<noteq> []"
    by (auto simp: list_ex_iff filter_empty_conv)
  then show ?thesis unfolding flags
    by (intro py_join_nonempty) (auto simp: conf_flag_def)
qed

lemma exec_pod_ready:
  assumes "conf_given e" and "exec_pod e cf exclude s = (Inr (pod, flags, True), s1)"
  shows "set_opt pod \<and> flags \<noteq> []"
proof -
  obtain p s0 s2 where "find_spark_pod e cf exclude s0 = (Inr p, s2)" "pod = Some p"
    and "get_spark_conf_flags e p s2 = (Inr flags, s1)"
    using assms(2) by (auto simp: exec_pod_def try_except_def ret_returns elim!: bindE_returns
        split: option.splits prod.splits sum.splits)
  then show ?thesis
    using get_spark_conf_flags_nonempty[OF assms(1)] find_pod_loop_nonempty
    by (auto simp: set_opt_def find_spark_pod_def ret_returns split: if_splits)
qed

lemma iceberg_has_col_twice:
  assumes stable: "stable_describe e" and sub: "contains (py_lower old) (py_lower new)"
    and one: "iceberg_has_col e pod flags fqn new s = (Inr True, s1)"
    and two: "iceberg_has_col e pod flags fqn old s1 = (Inr b, s2)"
  shows b
proof -
  obtain rc out err where first: "env_run e (rs_trace s) (Spark_Sql pod flags (py_strip (describe_sql fqn))) = Completed rc out err"
    and s1: "rs_trace s1 = rs_trace s @ [(Spark_Sql pod flags (py_strip (describe_sql fqn)), Completed rc out err)]"
    and new: "contains (py_lower new) (py_lower (py_strip out))"
    using one by (auto simp: iceberg_has_col_def spark_sql_def bindE_def run_cmd_def Let_def raise_def ret_def
        split: run_result.splits)
  have "env_run e (rs_trace s1) (Spark_Sql pod flags (py_strip (describe_sql fqn))) = Completed rc out err"
    using stable first unfolding stable_describe_def s1 by blast
  then have "b = contains (py_lower old) (py_lower (py_strip out))"
    using two by (auto simp: iceberg_has_col_def spark_sql_def bindE_def run_cmd_def Let_def raise_def ret_def)
  then show ?thesis using contains_trans[OF sub new] by simp
qed

text \<open>
  a rename whose new name contains the old one (\<^verbatim>\<open>credit_score\<close> to \<^verbatim>\<open>credit_score_v2\<close>) never
  reports success: the check that the old name is gone is a substring test on the description.
\<close>

theorem rename_to_extension_never_succeeds:
  assumes live: "\<not> cf_dry_run cf" and rename: "dq_op q = Rename" "dq_new_col q = Some new"
    and sub: "contains (py_lower (dq_col q)) (py_lower new)" and modes: "dq_modes q \<noteq> []"
    and stable: "stable_describe e" and given: "conf_given e"
  shows "fst (apply_ddl e cf q s) \<noteq> Inr True"
proof
  assume "fst (apply_ddl e cf q s) = Inr True"
  then obtain s2 where run: "apply_ddl e cf q s = (Inr True, s2)" by (metis prod.collapse)
  then obtain cat ns ts s3 where cycle: "alter_cycle e cf q cat ns ts s3 = (Inr True, s2)"
    by (auto simp: apply_ddl_def Let_def ret_returns raise_def elim!: bindE_returns split: if_splits option.splits)
  obtain pod flags found s4 s5 s6 where exec: "exec_pod e cf (map fst ts) s3 = (Inr (pod, flags, found), s4)"
    and applied: "(if found then apply_modes e cf q cat ns (the pod) flags (dq_modes q) else ret False) s4 = (Inr True, s5)"
    and verify: "verify_step e cf q cat ns pod flags s5 = (Inr True, s6)"
    using cycle by (auto simp: alter_cycle_def ret_returns elim!: bindE_returns)
  have "found" using applied by (cases found) (simp_all add: ret_returns)
  then have "set_opt pod \<and> flags \<noteq> []" using exec_pod_ready[OF given, of cf "map fst ts" s3 pod flags s4] exec by simp
  then have "verify_modes e q cat ns (the pod) flags (dq_modes q) s5 = (Inr True, s6)"
    using verify live by (simp add: verify_step_def)
  then obtain m s7 where "verify_mode e q (the pod) flags (fqn_of cat ns (dq_table q) m) s5 = (Inr True, s7)"
    using modes by (cases "dq_modes q") (auto simp: ret_returns elim!: bindE_returns)
  then obtain s8 where "iceberg_has_col e (the pod) flags (fqn_of cat ns (dq_table q) m) new s5 = (Inr True, s8)"
    and "iceberg_has_col e (the pod) flags (fqn_of cat ns (dq_table q) m) (dq_col q) s8 = (Inr False, s7)"
    using rename by (auto simp: verify_mode_def ret_returns elim!: bindE_returns)
  then show False using iceberg_has_col_twice[OF stable sub] by blast
qed

section \<open>The wait\<close>

lemma wait_loop_true:
  "wait_loop poll deadline s = (Inr True, s1) \<Longrightarrow> \<exists>s0. rs_clock s0 < deadline \<and> poll s0 = (Inr True, s1)"
proof (induction poll deadline s rule: wait_loop.induct)
  case (1 poll deadline s)
  obtain r2 s2 where one: "poll s = (r2, s2)" by force
  have guard: "rs_clock s < deadline \<and> rs_clock s \<le> rs_clock (snd (poll s))"
    using "1.prems" wait_loop_over[where poll = poll and s = s and deadline = deadline] by fastforce
  then show ?case
    using "1.prems" "1.IH"[OF guard] one wait_loop_round[where poll = poll, OF guard one]
    by (auto split: sum.splits if_splits)
qed

lemma poll_stopped_true:
  assumes "poll_stopped e d s = (Inr True, s1)"
  shows "\<exists>rc1 out1 err1 rc2 out2 err2. rs_trace s1 = rs_trace s @
    [(Kubectl (Get_Ready d), Completed rc1 out1 err1), (Kubectl (Get_Total d), Completed rc2 out2 err2)] \<and>
    digits_or 0 (py_strip out1) = 0 \<and> digits_or 0 (py_strip out2) = 0"
  using assms
  by (auto simp: poll_stopped_def kubectl_def bindE_def run_cmd_def Let_def raise_def ret_def
      split: run_result.splits)

text \<open>
  a stop is confirmed only by two readings taken before the deadline, neither of which is a
  positive number; an empty reading, which a failed kubectl also gives, counts as zero.
\<close>

theorem stop_confirmed_by_readings:
  assumes "\<not> cf_dry_run cf" and "wait_fully_stopped e cf d timeout s = (Inr True, s2)"
  shows "\<exists>(s1 :: run_state) rc1 out1 err1 rc2 out2 err2. rs_clock s1 < rs_clock s + timeout \<and>
    rs_trace s2 = rs_trace s1 @ [(Kubectl (Get_Ready d), Completed rc1 out1 err1),
      (Kubectl (Get_Total d), Completed rc2 out2 err2)] \<and>
    digits_or 0 (py_strip out1) = 0 \<and> digits_or 0 (py_strip out2) = 0"
proof -
  have "wait_loop (poll_stopped e d) (rs_clock s + timeout) s = (Inr True, s2)"
    using assms by (simp add: wait_fully_stopped_def)
  from wait_loop_true[OF this]
  obtain s1 where "rs_clock s1 < rs_clock s + timeout" and "poll_stopped e d s1 = (Inr True, s2)" by blast
  then show ?thesis using poll_stopped_true by blast
qed

section \<open>Accepted arguments\<close>

text \<open>Arguments that \<^verbatim>\<open>main\<close> accepts never make \<open>build_ddl\<close> raise in the middle of a cycle.\<close>

theorem accepted_arguments_build:
  assumes "check_args a = Some q"
  shows "\<exists>ddl. build_ddl (dq_op q) fqn (dq_col q) (dq_col_type q) (dq_new_col q) = Inr ddl"
  using assms by (cases "ca_op a") (auto simp: check_args_def split: if_splits)

section \<open>A cluster with one oracle deployment\<close>

definition demo_deploy :: string where
  "demo_deploy = ''kafka-to-iceberg-oracle-standard''"

fun demo_answer :: "bool \<Rightarrow> trace \<Rightarrow> cmd \<Rightarrow> run_result" where
  "demo_answer slow tr (Kubectl (Get_Name d)) =
     (if d = demo_deploy then Completed 0 d [] else Completed 1 [] ''NotFound'')"
| "demo_answer slow tr (Kubectl (Get_Spec_Replicas d)) = Completed 0 ''2'' []"
| "demo_answer slow tr (Kubectl (Get_Ready d)) = Completed 0 (if last_scale d tr = Some 0 then [] else ''2'') []"
| "demo_answer slow tr (Kubectl (Get_Total d)) = Completed 0 (if last_scale d tr = Some 0 then [] else ''2'') []"
| "demo_answer slow tr (Kubectl Get_Any_Pod) = Completed 0 ''pod-1'' []"
| "demo_answer slow tr (Kubectl (Scale d n)) = Completed 0 ''scaled'' []"
| "demo_answer slow tr (Conf_Builder pod) = Completed 0 ''a=1'' []"
| "demo_answer slow tr (Spark_Sql pod flags sql) =
     (if startswith sql ''DESCRIBE'' then Completed 0 ''cs_v2 int'' []
      else if slow then Run_Failed ''TimeoutExpired'' else Completed 0 [] [])"
| "demo_answer slow tr (Finder pod topic col ends) = Completed 0 ''STALE_START=NONE'' []"
| "demo_answer slow tr (Backfill pod job) = Completed 0 ''BACKFILL_RESULT=NO_ROWS'' []"

definition demo_env :: "bool \<Rightarrow> env" where
  "demo_env slow = \<lparr>env_run = demo_answer slow, env_secs = \<lambda>_ _. 1, env_checkpoint = \<lambda>_ _. Inr [],
     env_kafka_secret = \<lambda>_. Inr (), env_parse_offsets = \<lambda>_. Inr []\<rparr>"

definition demo_config :: config where
  "demo_config = \<lparr>cf_dry_run = False, cf_spark_pod = ''pod-0''\<rparr>"

definition demo_request :: "ddl_op \<Rightarrow> ddl_request" where
  "demo_request op = \<lparr>dq_source = ''oracle'', dq_table = ''t'', dq_op = op, dq_col = ''cs'',
     dq_col_type = Some ''int'', dq_new_col = Some ''cs_v2'', dq_modes = [Standard], dq_namespace = None,
     dq_catalog = None, dq_backfill = False, dq_pk_col = None\<rparr>"

lemma demo_facts:
  "\<not> cf_dry_run demo_config"
  "fst (build_targets (demo_env slow) demo_config (dq_source (demo_request op)) (dq_modes (demo_request op)) [] (start_at 0))
     = Inr [(demo_deploy, 2)]"
  by (simp add: demo_config_def) (cases slow; cases op; code_simp)

lemma demo_added: "fst (apply_ddl (demo_env False) demo_config (demo_request Add) (start_at 0)) = Inr True"
  by code_simp

abbreviation demo_run :: "bool \<Rightarrow> ddl_op \<Rightarrow> (string + bool) \<times> run_state" where
  "demo_run slow op \<equiv> apply_ddl (demo_env slow) demo_config (demo_request op) (start_at 0)"

abbreviation demo_targets :: "bool \<Rightarrow> ddl_op \<Rightarrow> (string + (string \<times> nat) list) \<times> run_state" where
  "demo_targets slow op \<equiv> build_targets (demo_env slow) demo_config (dq_source (demo_request op))
     (dq_modes (demo_request op)) [] (start_at 0)"

lemma demo_targets_eq: "demo_targets slow op = (Inr [(demo_deploy, 2)], snd (demo_targets slow op))"
  by (rule prod_eqI) (simp_all add: demo_facts)

lemma alter_only_while_scaled_down_witness:
  "last_scale demo_deploy (take 6 (rs_trace (snd (demo_run False Add)))) = Some 0"
proof -
  have at: "(6 < length (rs_trace (snd (demo_run False Add)))) \<and>
    rs_trace (snd (demo_run False Add)) ! 6 =
      (Spark_Sql ''pod-0'' (conf_flag ''a=1'') (''ALTER TABLE '' @ fqn_of ''oracle'' ''cache_testing'' ''t'' Standard @
        '' ADD COLUMN '' @ bqt ''cs'' @ '' INT''), Completed 0 [] [])"
    by code_simp
  show ?thesis
    by (rule alter_only_while_scaled_down[where n = 2, OF demo_facts(1) demo_targets_eq prod.collapse[symmetric]
        conjunct1[OF at] conjunct2[OF at]]) simp
qed

lemma replicas_restored_on_return_witness:
  "last_scale demo_deploy (rs_trace (snd (demo_run False Add))) = Some 2"
proof -
  have "demo_run False Add = (Inr True, snd (demo_run False Add))"
    by (rule prod_eqI) (simp_all add: demo_added)
  then show ?thesis
    by (rule replicas_restored_on_return[OF demo_facts(1) demo_targets_eq, where b = True]) simp
qed

lemma spark_timeout_leaves_targets_down_witness:
  "isl (fst (demo_run True Add)) \<and> last_scale demo_deploy (rs_trace (snd (demo_run True Add))) = Some 0"
proof -
  have "(Spark_Sql ''pod-0'' (conf_flag ''a=1'') (''ALTER TABLE '' @ fqn_of ''oracle'' ''cache_testing'' ''t'' Standard @
      '' ADD COLUMN '' @ bqt ''cs'' @ '' INT''), Run_Failed ''TimeoutExpired'') \<in> set (rs_trace (snd (demo_run True Add)))"
    by code_simp
  then show ?thesis
    using spark_timeout_leaves_targets_down[OF demo_facts(1) demo_targets_eq[of True Add] prod.collapse[symmetric]]
    by simp
qed

lemma dry_run_is_read_only_witness:
  "read_only (Conf_Builder ''pod-0'', Completed 0 ''a=1'' [])"
proof (rule dry_run_is_read_only)
  show "cf_dry_run \<lparr>cf_dry_run = True, cf_spark_pod = ''pod-0''\<rparr>" by simp
  show "(Conf_Builder ''pod-0'', Completed 0 ''a=1'' []) \<in> set (rs_trace (snd (apply_ddl (demo_env False)
      \<lparr>cf_dry_run = True, cf_spark_pod = ''pod-0''\<rparr> (demo_request Add) (start_at 0))))"
    by code_simp
qed

lemma success_means_applied_witness:
  "\<exists>pod flags. statement_done (demo_request Add) pod flags (target_table (demo_request Add) Standard)
       (rs_trace (snd (demo_run False Add))) \<and>
     (dq_op (demo_request Add) = Add \<longrightarrow> pod \<noteq> [] \<longrightarrow> flags \<noteq> [] \<longrightarrow>
       described_with pod flags (target_table (demo_request Add) Standard) (dq_col (demo_request Add))
         (rs_trace (snd (demo_run False Add))))"
proof (rule success_means_applied[OF demo_facts(1)])
  show "demo_run False Add = (Inr True, snd (demo_run False Add))"
    by (rule prod_eqI) (simp_all add: demo_added)
  show "Standard \<in> set (dq_modes (demo_request Add))" by (simp add: demo_request_def)
qed

lemma demo_describe_stable: "stable_describe (demo_env slow)"
  by (simp add: stable_describe_def demo_env_def describe_sql_def startswith_def)

lemma demo_conf_given: "conf_given (demo_env slow)"
proof -
  have "list_ex (contains ''='') (py_splitlines (py_strip ''a=1''))" by code_simp
  then show ?thesis by (simp add: conf_given_def demo_env_def)
qed

lemma rename_to_extension_never_succeeds_witness: "fst (demo_run False Rename) \<noteq> Inr True"
  by (rule rename_to_extension_never_succeeds[where new = "''cs_v2''", OF demo_facts(1) _ _ _ _ demo_describe_stable demo_conf_given])
    (code_simp)+

lemma stop_confirmed_by_readings_witness:
  "\<exists>(s1 :: run_state) rc1 out1 err1 rc2 out2 err2. rs_clock s1 < 0 + 120 \<and>
    rs_trace (snd (wait_fully_stopped (demo_env False) demo_config ''x'' 120
        \<lparr>rs_trace = [(Kubectl (Scale ''x'' 0), Completed 0 [] [])], rs_clock = 0\<rparr>)) =
      rs_trace s1 @ [(Kubectl (Get_Ready ''x''), Completed rc1 out1 err1),
        (Kubectl (Get_Total ''x''), Completed rc2 out2 err2)] \<and>
    digits_or 0 (py_strip out1) = 0 \<and> digits_or 0 (py_strip out2) = 0"
proof -
  let ?s = "\<lparr>rs_trace = [(Kubectl (Scale ''x'' 0), Completed 0 [] [])], rs_clock = 0\<rparr>"
  have "fst (wait_fully_stopped (demo_env False) demo_config ''x'' 120 ?s) = Inr True" by code_simp
  then have "wait_fully_stopped (demo_env False) demo_config ''x'' 120 ?s =
      (Inr True, snd (wait_fully_stopped (demo_env False) demo_config ''x'' 120 ?s))"
    by (metis prod.collapse)
  from stop_confirmed_by_readings[OF demo_facts(1) this] show ?thesis by simp
qed

end
