(* ===== verification/Py_Search.thy ===== *)
theory Py_Search
  imports Py_Regex
begin

text \<open>
  Where a search finds its first match: how it passes over text in which no match begins, which
  text a keyword can begin at, what a lazy group takes, and what a substitution leaves.
\<close>

section \<open>Matches of the building blocks\<close>

lemma match_cats_Nil: "rx_match (cats []) b u s \<longleftrightarrow> u = []"
  by (auto simp: cats_def intro: rx_match.intros elim: rx_matchE)

lemma match_cats_Cons:
  "rx_match (cats (r # rs)) b u s \<longleftrightarrow>
     (\<exists>v w. u = v @ w \<and> rx_match r b v (w @ s) \<and> rx_match (cats rs) (rev v @ b) w s)"
  unfolding cats_def foldr.simps comp_def by (metis rx_match.intros(3) rx_matchE(3))

lemma match_kw: "rx_match (kw w) b u s \<longleftrightarrow> py_lower u = py_lower w"
proof (induction w arbitrary: b u)
  case Nil
  then show ?case by (simp add: kw_def match_cats_Nil py_lower_def)
next
  case (Cons c w)
  have "rx_match (Cls (\<lambda>d. lower_char d = lower_char c)) b v t \<longleftrightarrow> (\<exists>d. v = [d] \<and> lower_char d = lower_char c)" for b v t
    by (auto intro: rx_match.intros elim: rx_matchE)
  then have "rx_match (kw (c # w)) b u s \<longleftrightarrow>
      (\<exists>d v. u = d # v \<and> lower_char d = lower_char c \<and> py_lower v = py_lower w)"
    unfolding kw_def list.map match_cats_Cons using Cons.IH[unfolded kw_def]
    by (simp, metis append_Cons append_Nil)
  then show ?case by (cases u) (auto simp: py_lower_def)
qed

lemma match_star_class: "rx_match (Star g (Cls p)) b u s \<Longrightarrow> list_all p u"
proof (induction "Star g (Cls p)" b u s rule: rx_match.induct)
  case (7 b u v s)
  then show ?case by (auto elim: rx_matchE)
qed simp

lemma match_plus_class:
  assumes "rx_match (plus (Cls p)) b u s"
  shows "u \<noteq> [] \<and> list_all p u"
proof -
  obtain v w where u: "u = v @ w" and v: "rx_match (Cls p) b v (w @ s)"
    and w: "rx_match (Star True (Cls p)) (rev v @ b) w s"
    using assms unfolding plus_def by (rule rx_matchE(3)) blast
  obtain c where "v = [c]" "p c" using v by (rule rx_matchE(2)) blast
  then show ?thesis using u match_star_class[OF w] by simp
qed

section \<open>Letter case\<close>

lemma of_char_lower:
  "(of_char (lower_char c) :: nat) = (if 65 \<le> (of_char c :: nat) \<and> (of_char c :: nat) \<le> 90
     then of_char c + 32 else of_char c)"
  by (simp add: lower_char_def)

lemma space_code: "c = CHR '' '' \<longleftrightarrow> (of_char c :: nat) = 32"
proof -
  have "(of_char (CHR '' '') :: nat) = 32" by simp
  then show ?thesis by (metis of_char_eq_iff)
qed

lemma space_lower [simp]: "py_space (lower_char c) = py_space c"
  unfolding py_space_def space_code of_char_lower by auto

lemma no_space_lower: "py_lower u = py_lower w \<Longrightarrow> no_space u = no_space w"
proof -
  have "no_space (py_lower x) = no_space x" for x
    by (simp add: no_space_def py_lower_def list.pred_map comp_def)
  then show "py_lower u = py_lower w \<Longrightarrow> no_space u = no_space w" by metis
qed

abbreviation sp1 :: string where "sp1 \<equiv> '' ''"

section \<open>Literals\<close>

lemma match_lit: "rx_match (lit w) b u s \<longleftrightarrow> u = w"
proof (induction w arbitrary: b u)
  case Nil
  then show ?case by (simp add: lit_def match_cats_Nil)
next
  case (Cons c w)
  have "rx_match (Cls (\<lambda>d. d = c)) b v t \<longleftrightarrow> v = [c]" for b v t
    by (auto intro: rx_match.intros elim: rx_matchE)
  then show ?case using Cons.IH unfolding lit_def list.map match_cats_Cons by (simp add: lit_def[symmetric])
qed

lemma rx_first_lit: "rx_first (lit w) ((b, w @ s), g) ((rev w @ b, s), g)"
proof (induction w arbitrary: b)
  case (Cons c w)
  have "rx_first (Cls (\<lambda>d. d = c)) ((b, c # w @ s), g) ((c # b, w @ s), g)" by (rule rx_first_Cls) simp
  then show ?case using Cons[of "c # b"] unfolding lit_def list.map by (auto intro: rx_first_cats)
qed (simp add: lit_def rx_first_cats_Nil)

lemma groups_cats [simp]:
  "groups_ok Q (cats rs) = list_all (groups_ok Q) rs" "sure_groups (cats rs) = (\<Union>r \<in> set rs. sure_groups r)"
  by (induction rs) (simp_all add: cats_def)

lemma groups_leaf [simp]:
  "groups_ok Q (lit w)" "sure_groups (lit w) = {}"
  "groups_ok Q (kw w)" "sure_groups (kw w) = {}" "groups_ok Q sp" "groups_ok Q nsp" "groups_ok Q wd"
  "groups_ok Q (plus r) = groups_ok Q r" "sure_groups (plus r) = sure_groups r"
  "groups_ok Q (opt r) = groups_ok Q r" "sure_groups (opt r) = {}"
  by (auto simp: kw_def lit_def sp_def nsp_def wd_def plus_def opt_def list_all_iff)

section \<open>Words\<close>

definition is_word :: "string \<Rightarrow> bool" where
  "is_word w = (w \<noteq> [] \<and> list_all word_char w)"

lemma word_not_space: "word_char c \<Longrightarrow> \<not> py_space c"
  by (auto simp: word_char_def py_space_def Let_def)

lemma first_sp: "\<lbrakk>s = [] \<or> \<not> py_space (hd s)\<rbrakk> \<Longrightarrow> rx_first (plus sp) ((b, sp1 @ s), g) ((rev sp1 @ b, s), g)"
  unfolding sp_def by (rule rx_first_plus) (auto simp: py_space_def)

lemma rx_first_word:
  "\<lbrakk>is_word w; s = [] \<or> \<not> word_char (hd s)\<rbrakk> \<Longrightarrow>
    rx_first (Grp n (plus wd)) ((b, w @ s), g) ((rev w @ b, s), (n, w) # g)"
  unfolding wd_def by (intro rx_first_Grp rx_first_plus) (auto simp: is_word_def)

lemma rx_first_word_end: "is_word w \<Longrightarrow> rx_first (Grp n (plus wd)) ((b, w), g) ((rev w @ b, []), (n, w) # g)"
  using rx_first_word[of w "[]" n b g] by simp

lemma space_not_word: "\<not> word_char CHR '' ''"
  by (simp add: word_char_def)

section \<open>Passing over text\<close>

lemma search_skip:
  assumes "\<And>u1 u2. \<lbrakk>u = u1 @ u2; u2 \<noteq> []\<rbrakk> \<Longrightarrow> rx_run r ((rev u1 @ b, u2 @ s), []) = []"
  shows "rx_search_from r b (u @ s) = rx_search_from r (rev u @ b) s"
  using assms
proof (induction u arbitrary: b)
  case (Cons c u)
  have "rx_run r ((b, (c # u) @ s), []) = []" using Cons.prems[of "[]" "c # u"] by simp
  moreover have "rx_search_from r (c # b) (u @ s) = rx_search_from r (rev u @ c # b) s"
  proof (rule Cons.IH)
    fix u1 u2 assume "u = u1 @ u2" "u2 \<noteq> []"
    then show "rx_run r ((rev u1 @ c # b, u2 @ s), []) = []" using Cons.prems[of "c # u1" u2] by simp
  qed
  ultimately show ?case by (subst rx_search_from.simps) simp
qed simp

lemma search_none:
  assumes "\<And>u1 u2. u = u1 @ u2 \<Longrightarrow> rx_run r ((rev u1 @ b, u2), []) = []"
  shows "rx_search_from r b u = None"
proof -
  have "rx_search_from r b (u @ []) = rx_search_from r (rev u @ b) []"
    by (rule search_skip) (use assms in simp)
  moreover have "rx_search_from r (rev u @ b) [] = None"
    using assms[of u "[]"] by (subst rx_search_from.simps) simp
  ultimately show ?thesis by simp
qed

section \<open>Where a keyword can begin\<close>

definition first_word :: "string \<Rightarrow> string" where
  "first_word z = takeWhile (\<lambda>c. \<not> py_space c) z"

lemma spaced_keyword:
  assumes "rx_match (cats (kw w # plus sp # rs)) b u t" and "no_space w"
  shows "py_lower (first_word (u @ t)) = py_lower w"
proof -
  obtain k s1 v where u: "u = k @ s1 @ v" and k: "py_lower k = py_lower w"
    and s1: "rx_match (plus sp) (rev k @ b) s1 (v @ t)"
    using assms(1) unfolding match_cats_Cons match_kw by fastforce
  obtain c s2 where "s1 = c # s2" "py_space c"
    using match_plus_class[OF s1[unfolded sp_def]] by (cases s1) auto
  moreover have "no_space k" using assms(2) no_space_lower[OF k] by simp
  ultimately have "first_word (u @ t) = k"
    by (simp add: u first_word_def takeWhile_append no_space_def list_all_iff)
  then show ?thesis using k by simp
qed

lemma spaced_keyword_space: "rx_match (cats (kw w # plus sp # rs)) b u t \<Longrightarrow> \<not> no_space u"
proof
  assume "rx_match (cats (kw w # plus sp # rs)) b u t" "no_space u"
  then obtain k s1 v where "u = k @ s1 @ v" "rx_match (plus sp) (rev k @ b) s1 (v @ t)"
    unfolding match_cats_Cons by fastforce
  then show False using match_plus_class[of py_space "rev k @ b" s1 "v @ t"] \<open>no_space u\<close>
    unfolding sp_def by (cases s1) (auto simp: no_space_def)
qed

lemma edge_keyword:
  "rx_match (cats (Word_Edge # rs)) b u t \<Longrightarrow> rx_match (cats rs) b u t"
  unfolding match_cats_Cons by (auto elim: rx_matchE(6))

text \<open>An expression that starts with a keyword and a space.\<close>

definition keyword_first :: "string \<Rightarrow> rx \<Rightarrow> bool" where
  "keyword_first w r = (no_space w \<and> (\<exists>rs. r = cats (kw w # plus sp # rs) \<or> r = cats (Word_Edge # kw w # plus sp # rs)))"

lemma keyword_begins:
  "\<lbrakk>keyword_first w r; rx_match r b u t\<rbrakk> \<Longrightarrow> py_lower (first_word (u @ t)) = py_lower w"
  unfolding keyword_first_def using spaced_keyword edge_keyword by blast

lemma keyword_none:
  assumes "keyword_first w r" "no_space s"
  shows "rx_search_from r b s = None"
proof (rule search_none, unfold rx_run_Nil_iff, intro allI impI notI)
  fix u1 u2 u t assume "s = u1 @ u2" "u2 = u @ t" and m: "rx_match r (rev u1 @ b) u t"
  then have "no_space u" using assms(2) by (simp add: no_space_def)
  then show False using assms(1) m spaced_keyword_space edge_keyword unfolding keyword_first_def by metis
qed

text \<open>A text of words each followed by a space.\<close>

definition spaced :: "string list \<Rightarrow> string" where
  "spaced ps = concat (map (\<lambda>p. p @ sp1) ps)"

lemma first_word_in_spaced:
  "\<lbrakk>spaced ps = u1 @ u2; u2 \<noteq> []; list_all no_space ps\<rbrakk> \<Longrightarrow> \<exists>p \<in> set ps. \<exists>v. p = v @ first_word (u2 @ s)"
proof (induction ps arbitrary: u1)
  case (Cons p ps)
  then have eq: "p @ sp1 @ spaced ps = u1 @ u2" by (simp add: spaced_def)
  show ?case
  proof (cases "length u1 \<le> length p")
    case True
    then obtain v where v: "p = u1 @ v" "u2 = v @ sp1 @ spaced ps"
      using eq by (auto simp: append_eq_append_conv2)
    have "no_space v" using Cons.prems(3) v(1) by (simp add: no_space_def)
    then have "first_word (u2 @ s) = v"
      by (simp add: v(2) first_word_def takeWhile_append no_space_def list_all_iff py_space_def)
    then show ?thesis using v(1) by auto
  next
    case False
    then obtain us where us: "u1 = p @ us" "us \<noteq> []" "sp1 @ spaced ps = us @ u2"
      using eq by (auto simp: append_eq_append_conv2)
    then obtain x where "u1 = (p @ sp1) @ x" "spaced ps = x @ u2" by (cases us) auto
    then show ?thesis using Cons.IH[of x] Cons.prems by auto
  qed
qed (simp add: spaced_def)

lemma skip_keyword:
  assumes "keyword_first w r" "list_all no_space ps" "\<forall>p \<in> set ps. \<not> endswith (py_lower p) (py_lower w)"
  shows "rx_search_from r b (spaced ps @ s) = rx_search_from r (rev (spaced ps) @ b) s"
proof (rule search_skip, unfold rx_run_Nil_iff, intro allI impI notI)
  fix u1 u2 u t
  assume u: "spaced ps = u1 @ u2" "u2 \<noteq> []" and ut: "u2 @ s = u @ t" and m: "rx_match r (rev u1 @ b) u t"
  have "py_lower (first_word (u2 @ s)) = py_lower w" using keyword_begins[OF assms(1) m] ut by simp
  moreover obtain p v where "p \<in> set ps" "p = v @ first_word (u2 @ s)"
    using first_word_in_spaced[OF u assms(2)] by blast
  ultimately show False using assms(3) by (auto simp: endswith_iff py_lower_def)
qed

lemma keyword_absent:
  assumes "keyword_first w r" "list_all no_space ps" "\<forall>p \<in> set ps. \<not> endswith (py_lower p) (py_lower w)" "no_space s"
  shows "rx_search_from r b (spaced ps @ s) = None"
  using skip_keyword[OF assms(1-3), of b s] keyword_none[OF assms(1,4)] by simp

section \<open>What a lazy group takes\<close>

abbreviation after_taking :: "string \<Rightarrow> string \<Rightarrow> groups \<Rightarrow> nat \<Rightarrow> rx_state" where
  "after_taking b z g k \<equiv> ((rev (take k z) @ b, drop k z), g)"

lemma lazy_star_run:
  "star_run (rx_run (Cls (\<lambda>_. True))) False (length z) ((b, z), g) = map (after_taking b z g) [0..<Suc (length z)]"
proof (induction z arbitrary: b)
  case (Cons c z)
  have "[0..<Suc (length (c # z))] = 0 # map Suc [0..<Suc (length z)]"
    unfolding map_Suc_upt length_Cons by (rule upt_conv_Cons) simp
  then show ?case using Cons.IH[of "c # b"] by (simp add: Let_def comp_def del: upt_Suc)
qed simp

lemma some_lazy_run:
  "rx_run some_lazy ((b, z), g) = map (after_taking b z g) [1..<Suc (length z)]"
proof (cases z)
  case (Cons c y)
  have "[1..<Suc (length z)] = map Suc [0..<Suc (length y)]" by (simp only: map_Suc_upt Cons length_Cons One_nat_def)
  then show ?thesis using lazy_star_run[of y "c # b" g]
    by (simp add: some_lazy_def Cons comp_def del: upt_Suc)
qed (simp add: some_lazy_def)

lemma lazy_group_run:
  "rx_run (cats (Grp n some_lazy # rs)) ((b, z), g) =
     concat (map (\<lambda>k. rx_run (cats rs) ((rev (take k z) @ b, drop k z), (n, take k z) # g)) [1..<Suc (length z)])"
proof -
  have "captured (b, z) (rev (take k z) @ b, drop k z) = take k z" if "k \<in> set [1..<Suc (length z)]" for k
  proof -
    have "k \<le> length z" using that by (auto simp del: upt_Suc)
    then show ?thesis by (simp add: captured_def)
  qed
  then show ?thesis
    unfolding cats_def foldr.simps comp_def rx_run.simps(3) rx_run.simps(6) some_lazy_run map_map
    by (intro arg_cong[where f = concat] map_cong) (simp_all del: upt_Suc)
qed

lemma ahead_cats_run: "rx_run (cats [Ahead r]) x = (if rx_run r x = [] then [] else [x])"
  by (simp add: cats_def)

lemma run_empty_groups: "rx_run r ((b, s), g) = [] \<longleftrightarrow> rx_run r ((b, s), h) = []"
  unfolding rx_run_Nil_iff ..

lemma first_lazy_until:
  assumes "u \<noteq> []" and stop: "rx_run r ((rev u @ b, s), []) \<noteq> []"
    and goes: "\<And>v w. \<lbrakk>u = v @ w; v \<noteq> []; w \<noteq> []\<rbrakk> \<Longrightarrow> rx_run r ((rev v @ b, w @ s), []) = []"
  shows "rx_first (cats [Grp n some_lazy, Ahead r]) ((b, u @ s), g) ((rev u @ b, s), (n, u) # g)"
proof -
  define F where "F k = rx_run (cats [Ahead r]) ((rev (take k (u @ s)) @ b, drop k (u @ s)), (n, take k (u @ s)) # g)" for k
  have run: "rx_run (cats [Grp n some_lazy, Ahead r]) ((b, u @ s), g) = concat (map F [1..<Suc (length (u @ s))])"
    unfolding F_def by (rule lazy_group_run)
  have split: "[1..<Suc (length (u @ s))] = [1..<length u] @ length u # [Suc (length u)..<Suc (length (u @ s))]"
    using assms(1) upt_add_eq_append[of 1 "length u" "Suc (length s)"] by (cases u) (simp_all add: upt_conv_Cons del: upt_Suc)
  have "F k = []" if "1 \<le> k" "k < length u" for k
  proof -
    have "rx_run r ((rev (take k u) @ b, drop k u @ s), []) = []"
      using goes[of "take k u" "drop k u"] that assms(1) by simp
    then have "rx_run r ((rev (take k u) @ b, drop k u @ s), (n, take k u) # g) = []"
      by (rule iffD1[OF run_empty_groups])
    then show ?thesis using that by (simp add: ahead_cats_run F_def)
  qed
  then have skipped: "concat (map F [1..<length u]) = []" by auto
  have here: "F (length u) = [((rev u @ b, s), (n, u) # g)]"
    using stop run_empty_groups[of r "rev u @ b" s "[]"] by (simp add: ahead_cats_run F_def)
  show ?thesis unfolding rx_first_def run split map_append concat_append list.map concat.simps skipped here by simp
qed

section \<open>What matches\<close>

lemma match_simps:
  "rx_match (Grp n r) b u s \<longleftrightarrow> rx_match r b u s"
  "rx_match (Alt r1 r2) b u s \<longleftrightarrow> rx_match r1 b u s \<or> rx_match r2 b u s"
  "rx_match Word_Edge b u s \<longleftrightarrow> u = [] \<and> at_word_edge (b, s)"
  "rx_match Line_End b u s \<longleftrightarrow> u = [] \<and> (s = [] \<or> s = newline)"
  "rx_match Line_Start b u s \<longleftrightarrow> u = [] \<and> b = []"
  "rx_match Eps b u s \<longleftrightarrow> u = []"
  by (auto intro: rx_match.intros elim: rx_matchE)

lemma match_catsE:
  assumes "rx_match (cats (r # rs)) b u s"
  obtains v w where "u = v @ w" "rx_match r b v (w @ s)" "rx_match (cats rs) (rev v @ b) w s"
  using assms unfolding match_cats_Cons by blast

lemma match_opt: "rx_match (opt r) b u s \<longleftrightarrow> rx_match r b u s \<or> u = []"
  by (simp add: opt_def match_simps)

lemma match_spaces: "rx_match (Star True sp) b u s \<Longrightarrow> spaces u"
  using match_star_class[of True py_space b u s] by (simp add: sp_def spaces_def)

text \<open>A maximal word at the start of two equal texts is the same word.\<close>

lemma word_exact:
  assumes "v @ x = a @ y" "list_all word_char v" "list_all word_char a" "x = [] \<or> \<not> word_char (hd x)" "y = [] \<or> \<not> word_char (hd y)"
  shows "v = a \<and> x = y"
proof -
  have "takeWhile word_char (w @ z) = w" if "list_all word_char w" "z = [] \<or> \<not> word_char (hd z)" for w z
    using that by (induction w) (cases z, auto)
  from this[OF assms(2,4)] this[OF assms(3,5)] have "v = a" using assms(1) by simp
  then show ?thesis using assms(1) by auto
qed

end
