(* ===== verification/Ddl_Parse.thy ===== *)
theory Ddl_Parse
  imports Ddl_Extract Py_Search
begin

text \<open>
  What the expressions of \<^verbatim>\<open>ddl_extract.py\<close> find: each statement the script is written for is parsed
  back into the change it makes, and the forms that its sources also emit and that it gets wrong.
\<close>

section \<open>Words of a text that a statement matches\<close>

lemma words_from_suffix:
  assumes "no_space al" "al \<noteq> []" "spaces s1" "s1 \<noteq> []"
  shows "\<exists>ps a. words_from acc (w @ al @ s1 @ rest) = ps @ (a @ al) # words_from [] rest"
proof (induction w arbitrary: acc)
  case Nil
  have "words_from acc (al @ s1 @ rest) = (rev acc @ al) # words_from [] rest"
    using assms by (simp add: words_from_word words_from_spaces)
  then show ?case by (intro exI[of _ "[]"] exI[of _ "rev acc"]) simp
next
  case (Cons c w)
  show ?case
  proof (cases "py_space c \<and> acc \<noteq> []")
    case True
    obtain ps a where "words_from [] (w @ al @ s1 @ rest) = ps @ (a @ al) # words_from [] rest"
      using Cons.IH by blast
    then show ?thesis using True by (intro exI[of _ "rev acc # ps"]) auto
  next
    case False
    then show ?thesis using Cons.IH by auto
  qed
qed

lemma words_from_pending: "acc \<noteq> [] \<Longrightarrow> \<exists>v qs. words_from acc z = (rev acc @ v) # qs"
proof (induction z arbitrary: acc)
  case (Cons c z)
  show ?case
  proof (cases "py_space c")
    case False
    obtain v qs where "words_from (c # acc) z = (rev (c # acc) @ v) # qs" using Cons.IH by blast
    then show ?thesis using False by simp
  qed (use Cons.prems in simp)
qed simp

lemma words_from_prefix:
  assumes "no_space k" and "k \<noteq> []"
  shows "\<exists>v qs. words_from [] (k @ z) = (k @ v) # qs"
  using words_from_pending[of "rev k" z] assms by (simp add: words_from_word)

lemma words_from_next:
  assumes "no_space w" "w \<noteq> []" "spaces s1" "s1 \<noteq> []"
  shows "words_from [] (w @ s1 @ rest) = w # words_from [] rest"
  using assms by (simp add: words_from_word words_from_spaces)

text \<open>The keyword after the table name starts with one of \<open>Ks\<close>.\<close>

definition starts_keyword :: "rx \<Rightarrow> string set \<Rightarrow> bool" where
  "starts_keyword r Ks = (\<forall>b k s. rx_match r b k s \<longrightarrow>
     (\<exists>k1 k2. k = k1 @ k2 \<and> no_space k1 \<and> k1 \<noteq> [] \<and> py_lower k1 \<in> Ks))"

lemma alter_words:
  assumes m: "rx_match (cats (alter_table @ r # rs)) b u t" and ddl: "ddl = w @ u @ t"
    and kwd: "starts_keyword r Ks"
  shows "\<exists>i. i + 3 < length (py_split ddl) \<and> endswith (py_lower (py_split ddl ! i)) ''alter'' \<and>
    py_lower (py_split ddl ! Suc i) = ''table'' \<and>
    (\<exists>k \<in> Ks. startswith (py_lower (py_split ddl ! (i + 3))) k)"
proof -
  obtain al s1 tb s2 n s3 k u' where u: "u = al @ s1 @ tb @ s2 @ n @ s3 @ k @ u'"
    and al: "py_lower al = py_lower ''ALTER''" and tb: "py_lower tb = py_lower ''TABLE''"
    and s: "s1 \<noteq> [] \<and> spaces s1" "s2 \<noteq> [] \<and> spaces s2" "s3 \<noteq> [] \<and> spaces s3"
    and n: "n \<noteq> [] \<and> no_space n" and k: "\<exists>b s. rx_match r b k s"
    using m unfolding alter_table_def append.simps match_cats_Cons match_kw sp_def nsp_def
    by (fastforce dest!: match_plus_class simp: spaces_def no_space_def)
  obtain k1 k2 where k12: "k = k1 @ k2" "no_space k1" "k1 \<noteq> []" "py_lower k1 \<in> Ks"
    using kwd k unfolding starts_keyword_def by blast
  have fixed: "no_space al \<and> al \<noteq> []" "no_space tb \<and> tb \<noteq> []"
    using no_space_lower[OF al] no_space_lower[OF tb] al tb
    by (auto simp: no_space_def py_space_def py_lower_def)
  obtain ps a where "words_from [] (w @ al @ s1 @ tb @ s2 @ n @ s3 @ k @ u' @ t) =
      ps @ (a @ al) # words_from [] (tb @ s2 @ n @ s3 @ k @ u' @ t)"
    using words_from_suffix[of al s1 "[]" w "tb @ s2 @ n @ s3 @ k @ u' @ t"] fixed s by auto
  moreover obtain v qs where "words_from [] (k @ u' @ t) = (k1 @ v) # qs"
    using words_from_prefix[of k1 "k2 @ u' @ t"] k12 by auto
  ultimately have split: "py_split ddl = ps @ (a @ al) # tb # n # (k1 @ v) # qs"
    using fixed s n by (simp add: py_split_def ddl u words_from_next)
  have "py_lower ''ALTER'' = ''alter''" "py_lower ''TABLE'' = ''table''" by code_simp+
  then have "py_lower al = ''alter''" "py_lower tb = ''table''" using al tb by simp_all
  then show ?thesis
    using k12(4) by (intro exI[of _ "length ps"])
      (auto simp: split nth_append endswith_iff startswith_iff py_lower_def intro!: bexI[of _ "py_lower k1"])
qed

section \<open>Statements\<close>

text \<open>The statements the expressions are written for.\<close>

datatype ddl_stmt =
    Add_Stmt string string string
  | Drop_Stmt string string
  | Modify_Stmt string string string
  | Rename_Stmt string string string

definition alter_text :: "string \<Rightarrow> string \<Rightarrow> string" where
  "alter_text tbl rest = ''ALTER'' @ sp1 @ ''TABLE'' @ sp1 @ tbl @ sp1 @ rest"

fun print_stmt :: "ddl_stmt \<Rightarrow> string" where
  "print_stmt (Add_Stmt tbl col ty) = alter_text tbl (''ADD'' @ sp1 @ (''COLUMN'' @ sp1) @ col @ sp1 @ ty)"
| "print_stmt (Drop_Stmt tbl col) = alter_text tbl (''DROP'' @ sp1 @ (''COLUMN'' @ sp1) @ col)"
| "print_stmt (Modify_Stmt tbl col ty) = alter_text tbl (''MODIFY'' @ sp1 @ col @ sp1 @ ty)"
| "print_stmt (Rename_Stmt tbl col new) =
     alter_text tbl (''RENAME'' @ sp1 @ ''COLUMN'' @ sp1 @ col @ sp1 @ ''TO'' @ sp1 @ new)"

definition is_type :: "string \<Rightarrow> bool" where
  "is_type w = (w \<noteq> [] \<and> list_all type_char w)"

definition is_name :: "string \<Rightarrow> bool" where
  "is_name w = (w \<noteq> [] \<and> no_space w)"

fun stmt_ok :: "ddl_stmt \<Rightarrow> bool" where
  "stmt_ok (Add_Stmt tbl col ty) = (is_name tbl \<and> is_word col \<and> is_type ty)"
| "stmt_ok (Drop_Stmt tbl col) = (is_name tbl \<and> is_word col)"
| "stmt_ok (Modify_Stmt tbl col ty) = (is_name tbl \<and> is_word col \<and> is_type ty)"
| "stmt_ok (Rename_Stmt tbl col new) = (is_name tbl \<and> is_word col \<and> is_word new)"

fun change_of :: "string \<Rightarrow> ddl_stmt \<Rightarrow> string + change" where
  "change_of k (Add_Stmt tbl col ty) = bind (src_type_to_iceberg k ty) (\<lambda>t. Inr (Ch_Add (py_lower col) t))"
| "change_of k (Drop_Stmt tbl col) = Inr (Ch_Drop (py_lower col))"
| "change_of k (Modify_Stmt tbl col ty) = bind (src_type_to_iceberg k ty) (\<lambda>t. Inr (Ch_Modify (py_lower col) t))"
| "change_of k (Rename_Stmt tbl col new) = Inr (Ch_Rename (py_lower col) (py_lower new))"

lemma words_no_space: "is_word w \<Longrightarrow> no_space w" "is_type w \<Longrightarrow> no_space w"
  by (auto simp: is_word_def is_type_def no_space_def type_char_def list_all_iff word_not_space)

section \<open>One match\<close>

definition finds :: "rx \<Rightarrow> string \<Rightarrow> groups \<Rightarrow> bool" where
  "finds r s g = (\<exists>b. rx_first r (([], s), []) ((b, []), g))"

lemma finds_finditer: "finds r s g \<Longrightarrow> \<exists>m. rx_finditer r s = [m] \<and> rm_groups m = g"
  by (auto simp: finds_def rx_finditer_def dest!: rx_search_first)

lemma first_name: "is_name w \<Longrightarrow> rx_first (plus nsp) ((b, w @ sp1 @ s), g) ((rev w @ b, sp1 @ s), g)"
  unfolding nsp_def by (rule rx_first_plus) (auto simp: is_name_def no_space_def py_space_def)

lemma first_type:
  "is_type w \<Longrightarrow> rx_first (Grp n (plus (Cls type_char))) ((b, w @ []), g) ((rev w @ b, []), (n, w) # g)"
  by (intro rx_first_Grp rx_first_plus) (auto simp: is_type_def)

lemma first_column:
  "s = [] \<or> \<not> py_space (hd s) \<Longrightarrow>
    rx_first column_opt ((b, (''COLUMN'' @ sp1) @ s), g) ((rev sp1 @ rev ''COLUMN'' @ b, s), g)"
  unfolding column_opt_def opt_def append_assoc
  by (rule rx_first_Alt1, rule rx_first_Cat[OF rx_first_kw], simp, rule first_sp)

lemma not_space_hd:
  "is_word w \<Longrightarrow> \<not> py_space (hd (w @ s))" "is_type w \<Longrightarrow> \<not> py_space (hd (w @ s))" "is_name w \<Longrightarrow> \<not> py_space (hd (w @ s))"
  using words_no_space[of w] by (cases w; auto simp: is_word_def is_type_def is_name_def no_space_def)+

lemma alter_table_append:
  "alter_table @ rs = kw ''ALTER'' # plus sp # kw ''TABLE'' # plus sp # plus nsp # plus sp # rs"
  by (simp add: alter_table_def)

lemma finds_alter:
  assumes "is_name tbl" and "rest \<noteq> []" "\<not> py_space (hd rest)"
    and "\<exists>b'. rx_first (cats rs) ((rev sp1 @ rev tbl @ rev sp1 @ rev ''TABLE'' @ rev sp1 @ rev ''ALTER'', rest), []) ((b', []), g)"
  shows "finds (cats (alter_table @ rs)) (alter_text tbl rest) g"
proof -
  obtain b' where last: "rx_first (cats rs)
      ((rev sp1 @ rev tbl @ rev sp1 @ rev ''TABLE'' @ rev sp1 @ rev ''ALTER'' @ [], rest), []) ((b', []), g)"
    using assms(4) by auto
  have "rx_first (cats (alter_table @ rs)) (([], alter_text tbl rest), []) ((b', []), g)"
    unfolding alter_table_append alter_text_def
    by (rule rx_first_cats[OF rx_first_kw], simp, rule rx_first_cats[OF first_sp], simp add: py_space_def,
        rule rx_first_cats[OF rx_first_kw], simp, rule rx_first_cats[OF first_sp], simp add: not_space_hd assms,
        rule rx_first_cats[OF first_name[OF assms(1)]], rule rx_first_cats[OF first_sp], simp add: assms,
        rule last)
  then show ?thesis by (auto simp: finds_def)
qed

lemma first_type_end:
  "is_type w \<Longrightarrow> rx_first (Grp n (plus (Cls type_char))) ((b, w), g) ((rev w @ b, []), (n, w) # g)"
  using first_type[of w n b g] by simp

lemma finds_add:
  assumes "is_name tbl" "is_word col" "is_type ty"
  shows "finds re_add_col (print_stmt (Add_Stmt tbl col ty)) [(2, ty), (1, col)]"
  unfolding re_add_col_def print_stmt.simps
  by (rule finds_alter[OF assms(1)], simp, simp add: py_space_def, rule exI,
      rule rx_first_cats[OF rx_first_kw], simp, rule rx_first_cats[OF first_sp], simp add: py_space_def,
      rule rx_first_cats[OF first_column], simp add: not_space_hd assms,
      rule rx_first_cats[OF rx_first_word[OF assms(2)]], simp add: space_not_word,
      rule rx_first_cats[OF first_sp], simp add: not_space_hd(2)[OF assms(3), of "[]", simplified],
      rule rx_first_cats[OF first_type_end[OF assms(3)]], rule rx_first_cats_Nil)

lemma finds_drop:
  assumes "is_name tbl" "is_word col"
  shows "finds re_drop_col (print_stmt (Drop_Stmt tbl col)) [(1, col)]"
  unfolding re_drop_col_def print_stmt.simps
  by (rule finds_alter[OF assms(1)], simp, simp add: py_space_def, rule exI,
      rule rx_first_cats[OF rx_first_kw], simp, rule rx_first_cats[OF first_sp], simp add: py_space_def,
      rule rx_first_cats[OF first_column], simp add: not_space_hd(1)[OF assms(2), of "[]", simplified],
      rule rx_first_cats[OF rx_first_word_end[OF assms(2)]], rule rx_first_cats_Nil)

lemma finds_modify:
  assumes "is_name tbl" "is_word col" "is_type ty"
  shows "finds re_modify_col (print_stmt (Modify_Stmt tbl col ty)) [(2, ty), (1, col)]"
  unfolding re_modify_col_def print_stmt.simps
  by (rule finds_alter[OF assms(1)], simp, simp add: py_space_def, rule exI,
      rule rx_first_cats[OF rx_first_Alt1[OF rx_first_kw]], simp,
      rule rx_first_cats[OF first_sp], simp add: not_space_hd assms,
      rule rx_first_cats[OF rx_first_word[OF assms(2)]], simp add: space_not_word,
      rule rx_first_cats[OF first_sp], simp add: not_space_hd(2)[OF assms(3), of "[]", simplified],
      rule rx_first_cats[OF first_type_end[OF assms(3)]], rule rx_first_cats_Nil)

lemma finds_rename:
  assumes "is_name tbl" "is_word col" "is_word new"
  shows "finds re_rename_col (print_stmt (Rename_Stmt tbl col new)) [(2, new), (1, col)]"
  unfolding re_rename_col_def print_stmt.simps
  by (rule finds_alter[OF assms(1)], simp, simp add: py_space_def, rule exI,
      rule rx_first_cats[OF rx_first_kw], simp, rule rx_first_cats[OF first_sp], simp add: py_space_def,
      rule rx_first_cats[OF rx_first_kw], simp, rule rx_first_cats[OF first_sp], simp add: not_space_hd assms,
      rule rx_first_cats[OF rx_first_word[OF assms(2)]], simp add: space_not_word,
      rule rx_first_cats[OF first_sp], simp add: py_space_def,
      rule rx_first_cats[OF rx_first_kw], simp,
      rule rx_first_cats[OF first_sp], simp add: not_space_hd(1)[OF assms(3), of "[]", simplified],
      rule rx_first_cats[OF rx_first_word_end[OF assms(3)]], rule rx_first_cats_Nil)

section \<open>No other match\<close>

lemma kw_starts: "\<lbrakk>no_space w; w \<noteq> []\<rbrakk> \<Longrightarrow> starts_keyword (kw w) {py_lower w}"
  unfolding starts_keyword_def match_kw
  by (metis append_Nil2 insertI1 length_greater_0_conv length_py_lower no_space_lower)

lemma starts_Alt: "\<lbrakk>starts_keyword r1 Ks; starts_keyword r2 Ls\<rbrakk> \<Longrightarrow> starts_keyword (Alt r1 r2) (Ks \<union> Ls)"
  unfolding starts_keyword_def
proof (intro allI impI, erule rx_matchE(4))
  fix b k s
  assume r1: "\<forall>b k s. rx_match r1 b k s \<longrightarrow>
      (\<exists>k1 k2. k = k1 @ k2 \<and> no_space k1 \<and> k1 \<noteq> [] \<and> py_lower k1 \<in> Ks)"
  assume "rx_match r1 b k s"
  then show "\<exists>k1 k2. k = k1 @ k2 \<and> no_space k1 \<and> k1 \<noteq> [] \<and> py_lower k1 \<in> Ks \<union> Ls" using r1 by blast
next
  fix b k s
  assume r2: "\<forall>b k s. rx_match r2 b k s \<longrightarrow>
      (\<exists>k1 k2. k = k1 @ k2 \<and> no_space k1 \<and> k1 \<noteq> [] \<and> py_lower k1 \<in> Ls)"
  assume "rx_match r2 b k s"
  then show "\<exists>k1 k2. k = k1 @ k2 \<and> no_space k1 \<and> k1 \<noteq> [] \<and> py_lower k1 \<in> Ks \<union> Ls" using r2 by blast
qed

lemma starts_cats: "starts_keyword r Ks \<Longrightarrow> starts_keyword (cats (r # rs)) Ks"
  unfolding starts_keyword_def match_cats_Cons
proof (intro allI impI, elim exE conjE)
  fix b k s v w
  assume r: "\<forall>b k s. rx_match r b k s \<longrightarrow>
      (\<exists>k1 k2. k = k1 @ k2 \<and> no_space k1 \<and> k1 \<noteq> [] \<and> py_lower k1 \<in> Ks)"
    and k: "k = v @ w" and v: "rx_match r b v (w @ s)"
  obtain k1 k2 where "v = k1 @ k2" "no_space k1 \<and> k1 \<noteq> [] \<and> py_lower k1 \<in> Ks" using r v by blast
  then show "\<exists>k1 k2. k = k1 @ k2 \<and> no_space k1 \<and> k1 \<noteq> [] \<and> py_lower k1 \<in> Ks"
    unfolding k by (intro exI[of _ k1] exI[of _ "k2 @ w"]) simp
qed

lemma starts_op:
  "starts_keyword (kw ''ADD'') {''add''}" "starts_keyword (kw ''DROP'') {''drop''}"
  "starts_keyword (kw ''RENAME'') {''rename''}"
  "starts_keyword (Alt (kw ''MODIFY'') (cats [kw ''ALTER'', plus sp, kw ''COLUMN''])) {''modify'', ''alter''}"
proof -
  have low: "py_lower ''ADD'' = ''add''" "py_lower ''DROP'' = ''drop''" "py_lower ''RENAME'' = ''rename''"
    "py_lower ''MODIFY'' = ''modify''" "py_lower ''ALTER'' = ''alter''" by code_simp+
  note one = kw_starts[of "''ADD''", unfolded low] kw_starts[of "''DROP''", unfolded low]
    kw_starts[of "''RENAME''", unfolded low] kw_starts[of "''MODIFY''", unfolded low]
    kw_starts[of "''ALTER''", unfolded low]
  show "starts_keyword (kw ''ADD'') {''add''}" "starts_keyword (kw ''DROP'') {''drop''}"
    "starts_keyword (kw ''RENAME'') {''rename''}"
    using one by (simp_all add: no_space_def py_space_def)
  show "starts_keyword (Alt (kw ''MODIFY'') (cats [kw ''ALTER'', plus sp, kw ''COLUMN''])) {''modify'', ''alter''}"
    using starts_Alt[OF one(4) starts_cats[OF one(5)]] by (simp add: no_space_def py_space_def insert_commute)
qed

text \<open>Where a statement could start in a text of words, and what would follow.\<close>

definition could_start :: "string list \<Rightarrow> string set \<Rightarrow> bool" where
  "could_start ws Ks = (\<exists>i. i + 3 < length ws \<and> endswith (py_lower (ws ! i)) ''alter'' \<and>
     py_lower (ws ! Suc i) = ''table'' \<and> (\<exists>k \<in> Ks. startswith (py_lower (ws ! (i + 3))) k))"

lemma finds_none:
  assumes "starts_keyword r Ks" and "\<not> could_start (py_split ddl) Ks"
  shows "rx_finditer (cats (alter_table @ r # rs)) ddl = []"
proof -
  have "rx_search_from (cats (alter_table @ r # rs)) [] ddl = None"
    unfolding rx_search_None_iff using alter_words[OF _ _ assms(1)] assms(2) unfolding could_start_def by blast
  then show ?thesis by (simp add: rx_finditer_def)
qed


lemma split_step:
  "\<lbrakk>no_space w; w \<noteq> []\<rbrakk> \<Longrightarrow> py_split (w @ sp1 @ s) = w # py_split s"
  unfolding py_split_def by (rule words_from_next) (auto simp: spaces_def py_space_def)

lemma split_alter:
  assumes "is_name tbl"
  shows "py_split (alter_text tbl rest) = ''ALTER'' # ''TABLE'' # tbl # py_split rest"
proof -
  have "no_space ''ALTER''" "no_space ''TABLE''" by (simp_all add: no_space_def py_space_def)
  then show ?thesis using assms unfolding alter_text_def is_name_def by (simp only: split_step list.distinct simp_thms)
qed

lemma is_word_name: "is_word w \<Longrightarrow> no_space w \<and> w \<noteq> []" "is_type w \<Longrightarrow> no_space w \<and> w \<noteq> []"
  using words_no_space by (auto simp: is_word_def is_type_def)

lemma split_stmt:
  assumes "stmt_ok st"
  shows "py_split (print_stmt st) = (case st of
     Add_Stmt tbl col ty \<Rightarrow> [''ALTER'', ''TABLE'', tbl, ''ADD'', ''COLUMN'', col, ty]
   | Drop_Stmt tbl col \<Rightarrow> [''ALTER'', ''TABLE'', tbl, ''DROP'', ''COLUMN'', col]
   | Modify_Stmt tbl col ty \<Rightarrow> [''ALTER'', ''TABLE'', tbl, ''MODIFY'', col, ty]
   | Rename_Stmt tbl col new \<Rightarrow> [''ALTER'', ''TABLE'', tbl, ''RENAME'', ''COLUMN'', col, ''TO'', new])"
proof -
  have lits: "no_space ''ADD''" "no_space ''DROP''" "no_space ''MODIFY''" "no_space ''RENAME''" "no_space ''COLUMN''" "no_space ''TO''"
    by (simp_all add: no_space_def py_space_def)
  show ?thesis
    using assms is_word_name
    by (cases st) (simp_all only: print_stmt.simps stmt_ok.simps append_assoc split_alter ddl_stmt.case
        split_step[OF lits(1)] split_step[OF lits(2)] split_step[OF lits(3)] split_step[OF lits(4)]
        split_step[OF lits(5)] split_step[OF lits(6)] split_step py_split_word list.distinct simp_thms)
qed

lemma could_start_short: "length ws < 4 \<Longrightarrow> \<not> could_start ws Ks"
  by (auto simp: could_start_def)

lemma could_start_Cons:
  "could_start (a # b # n # k # ws) Ks \<longleftrightarrow>
     (endswith (py_lower a) ''alter'' \<and> py_lower b = ''table'' \<and> (\<exists>w \<in> Ks. startswith (py_lower k) w)) \<or>
     could_start (b # n # k # ws) Ks" (is "?l \<longleftrightarrow> ?here \<or> ?later")
proof
  assume ?l
  then obtain i where "i + 3 < length (a # b # n # k # ws)" "endswith (py_lower ((a # b # n # k # ws) ! i)) ''alter''"
    "py_lower ((a # b # n # k # ws) ! Suc i) = ''table''"
    "\<exists>w \<in> Ks. startswith (py_lower ((a # b # n # k # ws) ! (i + 3))) w"
    unfolding could_start_def by blast
  then show "?here \<or> ?later" unfolding could_start_def by (cases i) (auto intro!: exI[of _ "i - 1"])
next
  assume "?here \<or> ?later"
  then show ?l
  proof
    assume ?here
    then show ?l unfolding could_start_def by (intro exI[of _ 0]) (simp add: eval_nat_numeral)
  next
    assume ?later
    then obtain i where "i + 3 < length (b # n # k # ws)" "endswith (py_lower ((b # n # k # ws) ! i)) ''alter''"
      "py_lower ((b # n # k # ws) ! Suc i) = ''table''"
      "\<exists>w \<in> Ks. startswith (py_lower ((b # n # k # ws) ! (i + 3))) w"
      unfolding could_start_def by blast
    then show ?l unfolding could_start_def by (intro exI[of _ "Suc i"]) simp
  qed
qed

lemma not_could_start:
  assumes "stmt_ok st"
  shows "st = Add_Stmt tbl col ty \<Longrightarrow> \<not> could_start (py_split (print_stmt st)) ({''drop'', ''rename'', ''modify'', ''alter''})"
    "st = Drop_Stmt tbl col \<Longrightarrow> \<not> could_start (py_split (print_stmt st)) ({''add'', ''rename'', ''modify'', ''alter''})"
    "st = Modify_Stmt tbl col ty \<Longrightarrow> \<not> could_start (py_split (print_stmt st)) ({''add'', ''drop'', ''rename''})"
    "st = Rename_Stmt tbl col ty \<Longrightarrow> \<not> could_start (py_split (print_stmt st)) ({''add'', ''drop'', ''modify'', ''alter''})"
proof -
  have low: "py_lower ''ALTER'' = ''alter''" "py_lower ''TABLE'' = ''table''" "py_lower ''ADD'' = ''add''"
    "py_lower ''DROP'' = ''drop''" "py_lower ''MODIFY'' = ''modify''" "py_lower ''RENAME'' = ''rename''"
    "py_lower ''COLUMN'' = ''column''" "py_lower ''TO'' = ''to''" by code_simp+
  show "st = Add_Stmt tbl col ty \<Longrightarrow> \<not> could_start (py_split (print_stmt st)) ({''drop'', ''rename'', ''modify'', ''alter''})"
    "st = Drop_Stmt tbl col \<Longrightarrow> \<not> could_start (py_split (print_stmt st)) ({''add'', ''rename'', ''modify'', ''alter''})"
    "st = Modify_Stmt tbl col ty \<Longrightarrow> \<not> could_start (py_split (print_stmt st)) ({''add'', ''drop'', ''rename''})"
    "st = Rename_Stmt tbl col ty \<Longrightarrow> \<not> could_start (py_split (print_stmt st)) ({''add'', ''drop'', ''modify'', ''alter''})"
    unfolding split_stmt[OF assms]
    by (simp_all add: could_start_Cons could_start_short low endswith_def startswith_def)
qed

section \<open>Parsing what was printed\<close>

lemma one_match: "finds r s g \<Longrightarrow> \<exists>m. rx_finditer r s = [m] \<and>
    text_of m 1 = (case map_of g 1 of Some t \<Rightarrow> t | None \<Rightarrow> []) \<and> text_of m 2 = (case map_of g 2 of Some t \<Rightarrow> t | None \<Rightarrow> [])"
  using finds_finditer[of r s g] by (auto simp: text_of_def group_def)

lemma could_start_mono: "\<lbrakk>\<not> could_start ws Ls; Ks \<subseteq> Ls\<rbrakk> \<Longrightarrow> \<not> could_start ws Ks"
  by (auto simp: could_start_def)

lemma no_other:
  "\<lbrakk>\<not> could_start (py_split ddl) Ls; {''add''} \<subseteq> Ls\<rbrakk> \<Longrightarrow> rx_finditer re_add_col ddl = []"
  "\<lbrakk>\<not> could_start (py_split ddl) Ls; {''drop''} \<subseteq> Ls\<rbrakk> \<Longrightarrow> rx_finditer re_drop_col ddl = []"
  "\<lbrakk>\<not> could_start (py_split ddl) Ls; {''modify'', ''alter''} \<subseteq> Ls\<rbrakk> \<Longrightarrow> rx_finditer re_modify_col ddl = []"
  "\<lbrakk>\<not> could_start (py_split ddl) Ls; {''rename''} \<subseteq> Ls\<rbrakk> \<Longrightarrow> rx_finditer re_rename_col ddl = []"
  unfolding re_add_col_def re_drop_col_def re_modify_col_def re_rename_col_def
  by (rule finds_none, rule starts_op, erule could_start_mono, assumption)+

lemma parse_of_print:
  assumes ok: "stmt_ok st"
  shows "parse_ddl_text k (print_stmt st) = bind (change_of k st) (\<lambda>c. Inr [c])"
proof (cases st)
  case (Add_Stmt tbl col ty)
  note none = not_could_start(1)[OF ok Add_Stmt]
  obtain m where "rx_finditer re_add_col (print_stmt st) = [m]" "text_of m 1 = col" "text_of m 2 = ty"
    using one_match[OF finds_add[of tbl col ty]] ok Add_Stmt by auto
  moreover have "change_of k st = bind (src_type_to_iceberg k ty) (\<lambda>t. Inr (Ch_Add (py_lower col) t))"
    using Add_Stmt by simp
  ultimately show ?thesis
    by (simp add: parse_ddl_text_def no_other[OF none] typed_change_def append_changes_def bind_def split: sum.split)
next
  case (Drop_Stmt tbl col)
  note none = not_could_start(2)[OF ok Drop_Stmt]
  obtain m where "rx_finditer re_drop_col (print_stmt st) = [m]" "text_of m 1 = col"
    using one_match[OF finds_drop[of tbl col]] ok Drop_Stmt by auto
  moreover have "change_of k st = Inr (Ch_Drop (py_lower col))" using Drop_Stmt by simp
  ultimately show ?thesis
    by (simp add: parse_ddl_text_def no_other[OF none] append_changes_def bind_def)
next
  case (Modify_Stmt tbl col ty)
  note none = not_could_start(3)[OF ok Modify_Stmt]
  obtain m where "rx_finditer re_modify_col (print_stmt st) = [m]" "text_of m 1 = col" "text_of m 2 = ty"
    using one_match[OF finds_modify[of tbl col ty]] ok Modify_Stmt by auto
  moreover have "change_of k st = bind (src_type_to_iceberg k ty) (\<lambda>t. Inr (Ch_Modify (py_lower col) t))"
    using Modify_Stmt by simp
  ultimately show ?thesis
    by (simp add: parse_ddl_text_def no_other[OF none] typed_change_def append_changes_def bind_def split: sum.split)
next
  case (Rename_Stmt tbl col new)
  note none = not_could_start(4)[OF ok Rename_Stmt]
  obtain m where "rx_finditer re_rename_col (print_stmt st) = [m]" "text_of m 1 = col" "text_of m 2 = new"
    using one_match[OF finds_rename[of tbl col new]] ok Rename_Stmt by auto
  moreover have "change_of k st = Inr (Ch_Rename (py_lower col) (py_lower new))" using Rename_Stmt by simp
  ultimately show ?thesis
    by (simp add: parse_ddl_text_def no_other[OF none] append_changes_def bind_def)
qed

text \<open>
  C20: parsing inverts printing: each of the four statements the expressions are written for, with
  any table name, column name and type of the characters they admit, is read back as its one change.
\<close>

theorem parse_ddl_inverts_print:
  assumes "stmt_ok st"
  shows "parse_ddl_text k (print_stmt st) = bind (change_of k st) (\<lambda>c. Inr [c])"
  using parse_of_print[OF assms] .

lemma parse_ddl_inverts_print_witness:
  "parse_ddl_text ''postgres'' (print_stmt (Add_Stmt ''public.t'' ''Credit_Score'' ''bigint''))
     = Inr [Ch_Add ''credit_score'' ''BIGINT'']"
proof -
  have "stmt_ok (Add_Stmt ''public.t'' ''Credit_Score'' ''bigint'')" by code_simp
  then have "parse_ddl_text ''postgres'' (print_stmt (Add_Stmt ''public.t'' ''Credit_Score'' ''bigint'')) =
      bind (change_of ''postgres'' (Add_Stmt ''public.t'' ''Credit_Score'' ''bigint'')) (\<lambda>c. Inr [c])"
    by (rule parse_ddl_inverts_print)
  also have "\<dots> = Inr [Ch_Add ''credit_score'' ''BIGINT'']" by code_simp
  finally show ?thesis .
qed

section \<open>Forms it gets wrong\<close>

definition pg_alter_type :: "string \<Rightarrow> string \<Rightarrow> string \<Rightarrow> string" where
  "pg_alter_type tbl col ty =
     alter_text tbl (''ALTER'' @ sp1 @ ''COLUMN'' @ sp1 @ col @ sp1 @ ''TYPE'' @ sp1 @ ty)"

lemma split_pg_alter_type:
  assumes "is_name tbl" "is_word col" "is_type ty"
  shows "py_split (pg_alter_type tbl col ty) = [''ALTER'', ''TABLE'', tbl, ''ALTER'', ''COLUMN'', col, ''TYPE'', ty]"
proof -
  have lits: "no_space ''ALTER''" "no_space ''COLUMN''" "no_space ''TYPE''" by (simp_all add: no_space_def py_space_def)
  show ?thesis using assms is_word_name unfolding pg_alter_type_def
    by (simp only: split_alter split_step[OF lits(1)] split_step[OF lits(2)] split_step[OF lits(3)]
        split_step py_split_word list.distinct simp_thms)
qed

lemma type_is_type: "is_type ''TYPE''"
  by (simp add: is_type_def type_char_def py_space_def)

lemma first_type_word:
  "is_type w \<Longrightarrow> rx_first (Grp n (plus (Cls type_char))) ((b, w @ sp1 @ s), g) ((rev w @ b, sp1 @ s), (n, w) # g)"
  by (intro rx_first_Grp rx_first_plus) (auto simp: is_type_def type_char_def py_space_def)

lemma first_pg_alter:
  assumes "is_name tbl" "is_word col" "is_type ty"
  shows "\<exists>b. rx_first re_modify_col (([], pg_alter_type tbl col ty), [])
    ((b, sp1 @ ty), [(2, ''TYPE''), (1, col)])"
proof -
  have run: "rx_run (kw ''MODIFY'') ((b, ''ALTER'' @ s), g) = []" for b s g
    unfolding rx_run_Nil_iff match_kw
  proof (intro allI impI notI)
    fix u t assume u: "''ALTER'' @ s = u @ t" "py_lower u = py_lower ''MODIFY''"
    have low: "py_lower ''MODIFY'' = ''modify''" "lower_char CHR ''A'' = CHR ''a''" by code_simp+
    then obtain c v where "u = c # v" "lower_char c = CHR ''m''" using u(2) by (cases u) (auto simp: py_lower_def)
    then show False using u(1) low(2) by simp
  qed
  show ?thesis
    unfolding pg_alter_type_def alter_text_def re_modify_col_def alter_table_append
    by (rule exI, rule rx_first_cats[OF rx_first_kw], simp, rule rx_first_cats[OF first_sp], simp add: py_space_def,
        rule rx_first_cats[OF rx_first_kw], simp, rule rx_first_cats[OF first_sp], simp add: not_space_hd assms,
        rule rx_first_cats[OF first_name[OF assms(1)]], rule rx_first_cats[OF first_sp], simp add: py_space_def,
        rule rx_first_cats[OF rx_first_Alt2[OF run]], rule rx_first_cats[OF rx_first_kw], simp,
        rule rx_first_cats[OF first_sp], simp add: py_space_def,
        rule rx_first_cats[OF rx_first_kw], simp, rule rx_first_cats_Nil,
        rule rx_first_cats[OF first_sp], simp add: not_space_hd assms,
        rule rx_first_cats[OF rx_first_word[OF assms(2)]], simp add: space_not_word,
        rule rx_first_cats[OF first_sp], simp add: py_space_def,
        rule rx_first_cats[OF first_type_word[OF type_is_type]], rule rx_first_cats_Nil)
qed

lemma rx_first_length: "rx_first r ((b, s), g) ((b1, s1), h) \<Longrightarrow> length b1 + length s1 = length b + length s"
  using rx_run_sound[of "(b1, s1)" h r b s g] by (auto simp: rx_first_def reaches_def)

lemma rx_iter_None: "rx_search_from r b t = None \<Longrightarrow> rx_iter r n (b, t) = []"
  by (cases n) simp_all

lemma finditer_one_then_none:
  assumes first: "rx_first (cats (alter_table @ r # rs)) (([], s), []) ((b, t), g)"
    and short: "length t < length s" and kwd: "starts_keyword r Ks" and none: "length (py_split t) < 4"
  shows "\<exists>m. rx_finditer (cats (alter_table @ r # rs)) s = [m] \<and> rm_groups m = g"
proof -
  let ?r = "cats (alter_table @ r # rs)"
  have b: "b \<noteq> []" using rx_first_length[OF first] short by auto
  have "rx_search_from ?r b t = None"
    unfolding rx_search_None_iff using alter_words[OF _ _ kwd, of _ _ _ _ t] none by fastforce
  then have rest: "rx_iter ?r n (b, t) = []" for n by (rule rx_iter_None)
  show ?thesis
    using rx_search_first[OF first] b by (simp add: rx_finditer_def rm_stop_def rest)
qed

lemma split_last_word: "is_type ty \<Longrightarrow> py_split (sp1 @ ty) = [ty]"
  using py_split_word[of ty] is_word_name(2)[of ty] by (simp add: py_split_def py_space_def)

text \<open>
  PostgreSQL's form of a type change is always read as a change to STRING: what stands where the
  expression looks for the type is the word TYPE.
\<close>

theorem postgres_type_change_becomes_string:
  assumes "is_name tbl" "is_word col" "is_type ty"
  shows "parse_ddl_text ''postgres'' (pg_alter_type tbl col ty) = Inr [Ch_Modify (py_lower col) ''STRING'']"
proof -
  have low: "py_lower ''ALTER'' = ''alter''" "py_lower ''TABLE'' = ''table''" "py_lower ''COLUMN'' = ''column''"
    "py_lower ''TYPE'' = ''type''" by code_simp+
  have none: "\<not> could_start (py_split (pg_alter_type tbl col ty)) {''add'', ''drop'', ''rename''}"
    unfolding split_pg_alter_type[OF assms]
    by (simp add: could_start_Cons could_start_short low endswith_def startswith_def)
  obtain b where first: "rx_first re_modify_col (([], pg_alter_type tbl col ty), [])
      ((b, sp1 @ ty), [(2, ''TYPE''), (1, col)])"
    using first_pg_alter[OF assms] by blast
  have "length (sp1 @ ty) < length (pg_alter_type tbl col ty)" by (simp add: pg_alter_type_def alter_text_def)
  then obtain m where m: "rx_finditer re_modify_col (pg_alter_type tbl col ty) = [m]"
      "rm_groups m = [(2, ''TYPE''), (1, col)]"
    using finditer_one_then_none[OF first[unfolded re_modify_col_def] _ starts_op(4)] split_last_word[OF assms(3)]
    unfolding re_modify_col_def by auto
  have "text_of m 1 = col" "text_of m 2 = ''TYPE''" using m(2) by (simp_all add: text_of_def group_def)
  moreover have "src_type_to_iceberg ''postgres'' ''TYPE'' = Inr ''STRING''" by code_simp
  ultimately show ?thesis
    by (simp add: parse_ddl_text_def no_other[OF none] m(1) typed_change_def append_changes_def)
qed

lemma postgres_type_change_becomes_string_witness:
  "parse_ddl_text ''postgres'' (pg_alter_type ''public.t'' ''age'' ''bigint'') = Inr [Ch_Modify (py_lower ''age'') ''STRING'']"
  by (rule postgres_type_change_becomes_string) (code_simp)+

section \<open>Numeric types\<close>

lemma split_on_absent: "c \<notin> set u \<Longrightarrow> split_on_from c acc u = [rev acc @ u]"
  by (induction u arbitrary: acc) auto

lemma split_on_first: "c \<notin> set u \<Longrightarrow> split_on_from c acc (u @ c # v) = (rev acc @ u) # split_on_from c [] v"
  by (induction u arbitrary: acc) auto

lemma index_of_first: "c \<notin> set u \<Longrightarrow> index_of c (u @ c # v) = Some (length u)"
  by (induction u) auto

lemma index_of_absent: "c \<notin> set u \<Longrightarrow> index_of c u = None"
  by (induction u) auto

lemma strip_no_space: "no_space u \<Longrightarrow> py_strip u = u"
proof -
  have "no_space u \<Longrightarrow> dropWhile py_space u = u" for u by (cases u) (auto simp: no_space_def)
  moreover have "no_space u \<Longrightarrow> no_space (rev u)" by (simp add: no_space_def)
  ultimately show "no_space u \<Longrightarrow> py_strip u = u" by (simp add: py_strip_def)
qed

definition numeric_name :: "string \<Rightarrow> bool" where
  "numeric_name nm = (py_lower nm \<in> {''decimal'', ''numeric'', ''number''})"

definition digits :: "string \<Rightarrow> bool" where
  "digits p = (p \<noteq> [] \<and> list_all is_digit p)"

lemma digit_facts:
  assumes "digits p"
  shows "py_lower p = p" "no_space p" "CHR '','' \<notin> set p" "CHR ''('' \<notin> set p" "CHR '')'' \<notin> set p" "py_isdigit p"
proof -
  have "lower_char c = c \<and> \<not> py_space c \<and> c \<noteq> CHR '','' \<and> c \<noteq> CHR ''('' \<and> c \<noteq> CHR '')''" if "c \<in> set p" for c
    using assms that by (auto simp: digits_def list_all_iff is_digit_def lower_char_def py_space_def)
  then show "py_lower p = p" "no_space p" "CHR '','' \<notin> set p" "CHR ''('' \<notin> set p" "CHR '')'' \<notin> set p"
    by (auto simp: py_lower_def no_space_def list_all_iff intro: map_idI)
  show "py_isdigit p" using assms by (simp add: digits_def py_isdigit_def)
qed

lemma numeric_lower: "numeric_name nm \<Longrightarrow> no_space (py_lower nm) \<and> CHR ''('' \<notin> set (py_lower nm) \<and> CHR '')'' \<notin> set (py_lower nm) \<and> nm \<noteq> []"
  by (auto simp: numeric_name_def no_space_def py_space_def py_lower_def)

lemma lower_append: "py_lower (u @ v) = py_lower u @ py_lower v"
  by (simp add: py_lower_def)

lemma numeric_base:
  assumes "numeric_name nm" "digits p" "no_space v" "py_lower v = v"
  shows "py_strip (py_lower (nm @ ''('' @ p @ v)) = py_lower nm @ CHR ''('' # p @ v"
    and "type_base (nm @ ''('' @ p @ v) = py_lower nm"
proof -
  have paren: "lower_char CHR ''('' = CHR ''(''" by code_simp
  have low: "py_lower (nm @ ''('' @ p @ v) = py_lower nm @ CHR ''('' # p @ v"
    using digit_facts(1)[OF assms(2)] assms(4) by (simp add: py_lower_def paren)
  have "no_space (py_lower nm @ CHR ''('' # p @ v)"
    using numeric_lower[OF assms(1)] digit_facts(2)[OF assms(2)] assms(3) by (simp add: no_space_def py_space_def)
  then show strip: "py_strip (py_lower (nm @ ''('' @ p @ v)) = py_lower nm @ CHR ''('' # p @ v"
    unfolding low by (rule strip_no_space)
  show "type_base (nm @ ''('' @ p @ v) = py_lower nm"
    unfolding type_base_def strip py_split_on_def
    using numeric_lower[OF assms(1)] by (simp add: split_on_first strip_no_space)
qed

lemma numeric_cut:
  assumes "numeric_name nm" "digits p"
  shows "src_type_to_iceberg k (nm @ ''('' @ p) = Inl ''ValueError: substring not found''"
proof -
  note base = numeric_base[OF assms, of "[]", unfolded append_Nil2]
  have "no_space ([] :: string)" "py_lower [] = []" by (simp_all add: no_space_def py_lower_def)
  note base = base[OF this]
  have "py_lower nm \<in> {''decimal'', ''numeric'', ''number''}" using assms(1) by (simp add: numeric_name_def)
  moreover have "index_of CHR '')'' (py_lower nm @ CHR ''('' # p) = None"
    using numeric_lower[OF assms(1)] digit_facts[OF assms(2)] by (intro index_of_absent) auto
  ultimately show ?thesis
    unfolding src_type_to_iceberg_def base Let_def by (auto split: option.split)
qed

text \<open>
  a type \<^verbatim>\<open>NUMBER(p)\<close> becomes a decimal with p digits, ten of them after the point, where the
  source has p digits before it.
\<close>

theorem number_precision_takes_scale_ten:
  assumes "numeric_name nm" "digits p"
  shows "src_type_to_iceberg k (nm @ ''('' @ p @ '')'') =
    Inr (''DECIMAL('' @ str_of_nat (nat_of_digits p) @ '','' @ str_of_nat 10 @ '')'')"
proof -
  have "no_space '')''" "py_lower '')'' = '')''" by (simp add: no_space_def py_space_def) code_simp
  note base = numeric_base[OF assms this]
  have name: "py_lower nm \<in> {''decimal'', ''numeric'', ''number''}" using assms(1) by (simp add: numeric_name_def)
  have "index_of CHR ''('' (py_lower nm @ CHR ''('' # p @ '')'') = Some (length (py_lower nm))"
    using numeric_lower[OF assms(1)] by (intro index_of_first) auto
  moreover have "index_of CHR '')'' ((py_lower nm @ CHR ''('' # p) @ CHR '')'' # []) = Some (length (py_lower nm @ CHR ''('' # p))"
    using numeric_lower[OF assms(1)] digit_facts[OF assms(2)] by (intro index_of_first) auto
  moreover have "decimal_type p = ''DECIMAL('' @ str_of_nat (nat_of_digits p) @ '','' @ str_of_nat 10 @ '')''"
    using digit_facts[OF assms(2)]
    by (simp add: decimal_type_def py_split_on_def split_on_absent digits_part_def strip_no_space Let_def)
  ultimately show ?thesis
    unfolding src_type_to_iceberg_def base Let_def using name by auto
qed

lemma number_precision_takes_scale_ten_witness:
  "src_type_to_iceberg ''oracle'' (''NUMBER'' @ ''('' @ ''10'' @ '')'') =
     Inr (''DECIMAL('' @ str_of_nat (nat_of_digits ''10'') @ '','' @ str_of_nat 10 @ '')'')"
  by (rule number_precision_takes_scale_ten) (code_simp)+

text \<open>An ADD statement whose type has a comma in it: the expression stops at the comma.\<close>

definition scaled_add :: "string \<Rightarrow> string \<Rightarrow> string \<Rightarrow> string \<Rightarrow> string \<Rightarrow> string" where
  "scaled_add tbl col nm p rest =
     alter_text tbl (''ADD'' @ sp1 @ (''COLUMN'' @ sp1) @ col @ sp1 @ (nm @ ''('' @ p) @ '','' @ rest)"

lemma cut_type_is_type:
  assumes "numeric_name nm" "digits p"
  shows "is_type (nm @ ''('' @ p)"
proof -
  have "no_space nm" "CHR '','' \<notin> set nm" "CHR '';'' \<notin> set nm"
  proof -
    have fixed: "lower_char CHR '','' = CHR '',''" "lower_char CHR '';'' = CHR '';''" by code_simp+
    show "no_space nm" using numeric_lower[OF assms(1)] no_space_lower[of "py_lower nm" nm] by (simp add: py_lower_def comp_def)
    have "CHR '','' \<notin> set (py_lower nm)" "CHR '';'' \<notin> set (py_lower nm)"
      using assms(1) by (auto simp: numeric_name_def)
    then show "CHR '','' \<notin> set nm" "CHR '';'' \<notin> set nm"
      using fixed by (metis image_eqI py_lower_def set_map)+
  qed
  moreover have "CHR '';'' \<notin> set p" using assms(2) by (auto simp: digits_def list_all_iff is_digit_def)
  ultimately show ?thesis
    using digit_facts[OF assms(2)]
    by (auto simp: is_type_def type_char_def list_all_iff no_space_def py_space_def)
qed

lemma first_type_comma:
  "is_type w \<Longrightarrow> rx_first (Grp n (plus (Cls type_char))) ((b, w @ '','' @ s), g) ((rev w @ b, '','' @ s), (n, w) # g)"
  by (intro rx_first_Grp rx_first_plus) (auto simp: is_type_def type_char_def)

lemma first_scaled_add:
  assumes "is_name tbl" "is_word col" "is_type ty"
  shows "\<exists>b. rx_first re_add_col
    (([], alter_text tbl (''ADD'' @ sp1 @ (''COLUMN'' @ sp1) @ col @ sp1 @ ty @ '','' @ rest)), [])
    ((b, '','' @ rest), [(2, ty), (1, col)])"
  unfolding alter_text_def re_add_col_def alter_table_append
  by (rule exI, rule rx_first_cats[OF rx_first_kw], simp, rule rx_first_cats[OF first_sp], simp add: py_space_def,
      rule rx_first_cats[OF rx_first_kw], simp, rule rx_first_cats[OF first_sp], simp add: not_space_hd assms,
      rule rx_first_cats[OF first_name[OF assms(1)]], rule rx_first_cats[OF first_sp], simp add: py_space_def,
      rule rx_first_cats[OF rx_first_kw], simp, rule rx_first_cats[OF first_sp], simp add: py_space_def,
      rule rx_first_cats[OF first_column], simp add: not_space_hd assms,
      rule rx_first_cats[OF rx_first_word[OF assms(2)]], simp add: space_not_word,
      rule rx_first_cats[OF first_sp], simp add: not_space_hd assms,
      rule rx_first_cats[OF first_type_comma[OF assms(3)]], rule rx_first_cats_Nil)

text \<open>
  a statement that adds a column of type \<^verbatim>\<open>NUMERIC(p,s)\<close> raises an error, whatever else the text
  holds, so that its event is dropped.
\<close>

theorem scaled_numeric_is_lost:
  assumes "is_name tbl" "is_word col" "numeric_name nm" "digits p"
  shows "parse_ddl_text k (scaled_add tbl col nm p rest) = Inl ''ValueError: substring not found''"
proof -
  obtain b where "rx_first re_add_col (([], scaled_add tbl col nm p rest), [])
      ((b, '','' @ rest), [(2, nm @ ''('' @ p), (1, col)])"
    using first_scaled_add[OF assms(1,2) cut_type_is_type[OF assms(3,4)], of rest] unfolding scaled_add_def by blast
  from rx_search_first[OF this] obtain m ms where
    "rx_finditer re_add_col (scaled_add tbl col nm p rest) = m # ms"
    "rm_groups m = [(2, nm @ ''('' @ p), (1, col)]"
    by (auto simp: rx_finditer_def)
  moreover from this(2) have "text_of m 2 = nm @ ''('' @ p" by (simp add: text_of_def group_def)
  then have "typed_change Ch_Add k m = Inl ''ValueError: substring not found''"
    unfolding typed_change_def by (simp only: numeric_cut[OF assms(3,4)] sum.case)
  ultimately show ?thesis
    by (simp add: parse_ddl_text_def append_changes_def)
qed

lemma scaled_numeric_is_lost_witness:
  "parse_ddl_text ''postgres'' (scaled_add ''t'' ''amount'' ''numeric'' ''12'' ''2);'') = Inl ''ValueError: substring not found''"
  by (rule scaled_numeric_is_lost) (code_simp)+

end
