(* ===== verification/Ddl_Types.thy ===== *)
theory Ddl_Types
  imports Ddl_Parse
begin

text \<open>
  What the changes that \<^verbatim>\<open>ddl_extract.py\<close> reads look like: their columns are lower case and not empty,
  and their types are types of Iceberg.
\<close>

section \<open>The groups of the expressions\<close>

definition group_shape :: "bool \<Rightarrow> nat \<Rightarrow> string \<Rightarrow> bool" where
  "group_shape typed n u = (if n = 1 \<or> \<not> typed then is_word u else is_type u)"

lemma shape_match:
  "rx_match (plus wd) b u s \<Longrightarrow> is_word u" "rx_match (plus (Cls type_char)) b u s \<Longrightarrow> is_type u"
  using match_plus_class[of word_char b u s] match_plus_class[of type_char b u s]
  by (simp_all add: wd_def is_word_def is_type_def)

lemma shaped_groups:
  "groups_ok (group_shape b) (Grp 1 (plus wd))" "groups_ok (group_shape False) (Grp n (plus wd))"
  "groups_ok (group_shape True) (Grp 2 (plus (Cls type_char)))"
  using shape_match by (simp_all add: group_shape_def)

lemma column_groups:
  "groups_ok (group_shape True) re_add_col" "groups_ok (group_shape True) re_modify_col"
  "groups_ok (group_shape False) re_drop_col" "groups_ok (group_shape False) re_rename_col"
  unfolding re_add_col_def re_modify_col_def re_drop_col_def re_rename_col_def alter_table_def column_opt_def
  by (simp_all add: shaped_groups shaped_groups(1)[unfolded One_nat_def] del: groups_ok.simps(6))

lemma column_sure:
  "{1, 2} \<subseteq> sure_groups re_add_col" "{1, 2} \<subseteq> sure_groups re_modify_col"
  "1 \<in> sure_groups re_drop_col" "{1, 2} \<subseteq> sure_groups re_rename_col"
  unfolding re_add_col_def re_modify_col_def re_drop_col_def re_rename_col_def by simp_all

lemma text_shape:
  assumes "m \<in> set (rx_finditer r s)" "groups_ok (group_shape b) r" "n \<in> sure_groups r"
  shows "group_shape b n (text_of m n)"
proof -
  obtain w where "group m n = Some w" "group_shape b n w"
    by (rule group_given[OF finditer_match_of[OF assms(1)] assms(2,3)])
  then show ?thesis by (simp add: text_of_def)
qed

lemma collect_mem: "\<lbrakk>collect f xs = Inr ys; y \<in> set ys\<rbrakk> \<Longrightarrow> \<exists>x \<in> set xs. f x = Inr (Some y)"
  by (induction xs arbitrary: ys) (auto split: sum.splits option.splits)

lemma append_changes_mem:
  "append_changes x y = Inr cs \<Longrightarrow> \<exists>xs ys. x = Inr xs \<and> y = Inr ys \<and> set cs = set xs \<union> set ys"
  by (auto simp: append_changes_def split: sum.splits)

text \<open>What holds of every change that can be made from words and types holds of all that are read.\<close>

lemma parsed_changes:
  assumes parsed: "parse_ddl_text k ddl = Inr cs" and "c \<in> set cs"
    and Add: "\<And>w u t. \<lbrakk>is_word w; is_type u; src_type_to_iceberg k u = Inr t\<rbrakk> \<Longrightarrow> P (Ch_Add (py_lower w) t)"
    and Drop: "\<And>w. is_word w \<Longrightarrow> P (Ch_Drop (py_lower w))"
    and Modify: "\<And>w u t. \<lbrakk>is_word w; is_type u; src_type_to_iceberg k u = Inr t\<rbrakk> \<Longrightarrow> P (Ch_Modify (py_lower w) t)"
    and Rename: "\<And>v w. \<lbrakk>is_word v; is_word w\<rbrakk> \<Longrightarrow> P (Ch_Rename (py_lower v) (py_lower w))"
  shows "P c"
proof -
  obtain as ds ms rs where parts: "collect (typed_change Ch_Add k) (rx_finditer re_add_col ddl) = Inr as"
      "collect (\<lambda>m. Inr (Some (Ch_Drop (py_lower (text_of m 1))))) (rx_finditer re_drop_col ddl) = Inr ds"
      "collect (typed_change Ch_Modify k) (rx_finditer re_modify_col ddl) = Inr ms"
      "collect (\<lambda>m. Inr (Some (Ch_Rename (py_lower (text_of m 1)) (py_lower (text_of m 2)))))
          (rx_finditer re_rename_col ddl) = Inr rs"
    and c: "c \<in> set as \<union> set ds \<union> set ms \<union> set rs"
    using parsed \<open>c \<in> set cs\<close> unfolding parse_ddl_text_def by (auto dest!: append_changes_mem)
  have typed: "is_word (text_of m 1) \<and> (\<exists>t. src_type_to_iceberg k (text_of m 2) = Inr t \<and> c = mk (py_lower (text_of m 1)) t) \<and>
      is_type (text_of m 2)"
    if "typed_change mk k m = Inr (Some c)" "m \<in> set (rx_finditer r ddl)" "groups_ok (group_shape True) r" "{1, 2} \<subseteq> sure_groups r"
    for mk m r
    using that text_shape[OF that(2,3), of 1] text_shape[OF that(2,3), of 2]
    by (auto simp: typed_change_def group_shape_def split: sum.splits)
  from c consider "c \<in> set as" | "c \<in> set ds" | "c \<in> set ms" | "c \<in> set rs" by blast
  then show ?thesis
  proof cases
    case 1
    then show ?thesis using collect_mem[OF parts(1)] typed[OF _ _ column_groups(1) column_sure(1)] Add by blast
  next
    case 2
    from collect_mem[OF parts(2) this] obtain m where "m \<in> set (rx_finditer re_drop_col ddl)"
      "c = Ch_Drop (py_lower (text_of m 1))" by auto
    then show ?thesis using Drop text_shape[OF _ column_groups(3) column_sure(3)] by (simp add: group_shape_def)
  next
    case 3
    then show ?thesis using collect_mem[OF parts(3)] typed[OF _ _ column_groups(2) column_sure(2)] Modify by blast
  next
    case 4
    from collect_mem[OF parts(4) this] obtain m where m: "m \<in> set (rx_finditer re_rename_col ddl)"
      "c = Ch_Rename (py_lower (text_of m 1)) (py_lower (text_of m 2))" by auto
    have "1 \<in> sure_groups re_rename_col" "2 \<in> sure_groups re_rename_col" using column_sure(4) by auto
    then show ?thesis using m text_shape[OF m(1) column_groups(4)] Rename by (simp add: group_shape_def)
  qed
qed

section \<open>Types\<close>

definition iceberg_names :: "string list" where
  "iceberg_names = [''STRING'', ''INT'', ''SMALLINT'', ''BIGINT'', ''FLOAT'', ''DOUBLE'', ''BOOLEAN'', ''DATE'', ''TIMESTAMP'', ''BINARY'']"

definition iceberg_type :: "string \<Rightarrow> bool" where
  "iceberg_type t = (t \<in> set iceberg_names \<or> (\<exists>p s. t = ''DECIMAL('' @ str_of_nat p @ '','' @ str_of_nat s @ '')''))"

fun change_ok :: "change \<Rightarrow> bool" where
  "change_ok (Ch_Add col ty) = (col \<noteq> [] \<and> py_lower col = col \<and> iceberg_type ty)"
| "change_ok (Ch_Drop col) = (col \<noteq> [] \<and> py_lower col = col)"
| "change_ok (Ch_Modify col ty) = (col \<noteq> [] \<and> py_lower col = col \<and> iceberg_type ty)"
| "change_ok (Ch_Rename col new) = (col \<noteq> [] \<and> py_lower col = col \<and> new \<noteq> [] \<and> py_lower new = new)"

lemma default_decimal: "''DECIMAL(38,10)'' = ''DECIMAL('' @ str_of_nat 38 @ '','' @ str_of_nat 10 @ '')''"
  by code_simp

lemma mapped_names:
  "list_all (\<lambda>(k, t). t \<in> set (''DECIMAL(38,10)'' # iceberg_names)) (pg_type_map @ ora_type_map @ mgo_type_map)"
  by code_simp

lemma get_or_type:
  assumes "m \<in> {pg_type_map, ora_type_map, mgo_type_map}" "iceberg_type d"
  shows "iceberg_type (get_or m k d)"
proof (cases "map_of m k")
  case (Some t)
  then have "t \<in> set (''DECIMAL(38,10)'' # iceberg_names)"
    using assms(1) mapped_names by (force simp: list_all_iff dest: map_of_SomeD)
  then show ?thesis using Some default_decimal by (auto simp: get_or_def iceberg_type_def)
qed (simp add: get_or_def assms(2))

lemma string_type: "iceberg_type ''STRING''"
  by (simp add: iceberg_type_def iceberg_names_def)

lemma src_type_iceberg:
  assumes "src_type_to_iceberg k s = Inr t"
  shows "iceberg_type t"
proof -
  have "iceberg_type (decimal_type inner)" for inner
    by (auto simp: decimal_type_def Let_def iceberg_type_def)
  moreover have "iceberg_type (get_or pg_type_map b (get_or pg_type_map l ''STRING''))"
    "iceberg_type (get_or ora_type_map b (get_or ora_type_map l ''STRING''))"
    "iceberg_type (get_or mgo_type_map b ''STRING'')" for b l
    by (simp_all add: get_or_type string_type)
  ultimately show ?thesis using assms string_type
    by (auto simp: src_type_to_iceberg_def Let_def split: if_splits option.splits)
qed

lemma json_type_iceberg: "json_type k j = Inr t \<Longrightarrow> iceberg_type t"
  using string_type src_type_iceberg by (cases j) (auto simp: json_type_def split: if_splits)

section \<open>Changes\<close>

lemma word_column: "is_word w \<Longrightarrow> py_lower w \<noteq> []"
  by (cases w) (auto simp: is_word_def py_lower_def)

lemma parse_ddl_text_ok: "parse_ddl_text k ddl = Inr cs \<Longrightarrow> c \<in> set cs \<Longrightarrow> change_ok c"
  by (erule (1) parsed_changes) (simp_all add: word_column src_type_iceberg)

lemma field_name_lower: "field_name fld = Inr col \<Longrightarrow> py_lower col = col"
  by (cases fld) (auto simp: field_name_def bind_def split: sum.splits option.splits elim: json_lower.elims)

lemma typed_field_ok:
  assumes "typed_field mk k fld = Inr (Some c)"
  obtains col t where "c = mk col t" "col \<noteq> []" "py_lower col = col" "iceberg_type t"
  using assms field_name_lower json_type_iceberg
  by (auto simp: typed_field_def bind_def split: sum.splits if_splits)

lemma parse_mongodb_ok:
  assumes "parse_mongodb_schema_change k event = Inr cs" "c \<in> set cs"
  shows "change_ok c"
proof -
  obtain changes as ds ms where parts: "bind (field_list changes ''added'') (collect (typed_field Ch_Add k)) = Inr as"
      "bind (field_list changes ''removed'') (collect removed_field) = Inr ds"
      "bind (field_list changes ''updated'') (collect (typed_field Ch_Modify k)) = Inr ms"
    and c: "c \<in> set as \<union> set ds \<union> set ms"
    using assms unfolding parse_mongodb_schema_change_def bind_def[of "json_get _ _ _"]
    by (auto simp: Let_def dest!: append_changes_mem split: sum.splits)
  have mem: "\<exists>fld. f fld = Inr (Some c)" if "bind x (collect f) = Inr ys" "c \<in> set ys" for f ys and x :: "string + json list"
    using that by (auto simp: bind_def split: sum.splits dest: collect_mem)
  from c consider "c \<in> set as" | "c \<in> set ds" | "c \<in> set ms" by blast
  then show ?thesis
  proof cases
    case 1
    then show ?thesis using mem[OF parts(1)] by (auto elim: typed_field_ok)
  next
    case 2
    from mem[OF parts(2) this] obtain fld where "removed_field fld = Inr (Some c)" by blast
    then show ?thesis using field_name_lower[of fld]
      by (cases "field_name fld") (auto simp: removed_field_def bind_def split: if_splits)
  next
    case 3
    then show ?thesis using mem[OF parts(3)] by (auto elim: typed_field_ok)
  qed
qed



end
