(* ===== verification/Py_Argparse.thy ===== *)
theory Py_Argparse
  imports Ddl_Extract
begin

text \<open>
  \<^verbatim>\<open>argparse\<close> for long options, over the table of a parser's options: an option may be given in full,
  with its value after an equals sign, or by a prefix that only one option has. A bare \<^verbatim>\<open>--\<close> and
  clustered short flags, which nothing writes, are refused here. Also \<^verbatim>\<open>int\<close> as an option's type.
\<close>

datatype opt_kind = Takes_Value | Is_Flag | Is_Help

definition before_eq :: "string \<Rightarrow> string \<times> string option" where
  "before_eq t = (case index_of CHR ''='' t of None \<Rightarrow> (t, None)
     | Some i \<Rightarrow> (take i t, Some (drop (Suc i) t)))"

definition find_option :: "(string \<times> opt_kind) list \<Rightarrow> string \<Rightarrow> (string \<times> string option) option" where
  "find_option opts t =
     (if t \<in> set (map fst opts) then Some (t, None)
      else let (nm, val) = before_eq t in
        if val \<noteq> None \<and> nm \<in> set (map fst opts) then Some (nm, val)
        else if startswith t ''--''
          then (case filter (\<lambda>oname. startswith oname nm) (map fst opts) of [oname] \<Rightarrow> Some (oname, val) | _ \<Rightarrow> None)
          else None)"

text \<open>Whether a word can be a value: a negative number can, another word with a dash cannot.\<close>

definition negative_number :: "string \<Rightarrow> bool" where
  "negative_number t = (t \<noteq> [] \<and> hd t = CHR ''-'' \<and>
     (py_isdigit (tl t) \<or>
      (case index_of CHR ''.'' (tl t) of None \<Rightarrow> False
       | Some i \<Rightarrow> list_all is_digit (take i (tl t)) \<and> py_isdigit (drop (Suc i) (tl t)))))"

definition is_value :: "(string \<times> opt_kind) list \<Rightarrow> string \<Rightarrow> bool" where
  "is_value opts t = (t = [] \<or> hd t \<noteq> CHR ''-'' \<or> t = ''-'' \<or>
     (find_option opts t = None \<and> t \<noteq> ''--'' \<and> (negative_number t \<or> CHR '' '' \<in> set t)))"

fun parse_options :: "(string \<times> opt_kind) list \<Rightarrow> string list \<Rightarrow> (string \<times> string) list \<Rightarrow> (string \<times> string) list option" where
  "parse_options opts [] acc = Some acc"
| "parse_options opts (t # ts) acc =
     (if is_value opts t then None
      else (case find_option opts t of None \<Rightarrow> None
        | Some (oname, given) \<Rightarrow>
           (case map_of opts oname of
              Some Takes_Value \<Rightarrow>
                (case given of Some v \<Rightarrow> parse_options opts ts ((oname, v) # acc)
                 | None \<Rightarrow> (case ts of [] \<Rightarrow> None
                     | v # us \<Rightarrow> if is_value opts v then parse_options opts us ((oname, v) # acc) else None))
            | Some Is_Flag \<Rightarrow> (if given = None then parse_options opts ts ((oname, []) # acc) else None)
            | _ \<Rightarrow> None)))"

text \<open>\<^verbatim>\<open>int(s)\<close>: blanks around, a sign, and digits with single underscores between them.\<close>

definition py_nat :: "string \<Rightarrow> nat option" where
  "py_nat s = (if list_all py_isdigit (py_split_on CHR ''_'' s) then Some (nat_of_digits (filter is_digit s)) else None)"

definition py_int :: "string \<Rightarrow> int option" where
  "py_int s = (case py_strip s of [] \<Rightarrow> None
     | c # r \<Rightarrow> if c = CHR ''-'' then map_option (\<lambda>n. - int n) (py_nat r)
         else if c = CHR ''+'' then map_option int (py_nat r) else map_option int (py_nat (c # r)))"

end
