(* ===== verification/Ddl_Cli.thy ===== *)
theory Ddl_Cli
  imports Ddl_Cycle Ddl_Types Py_Argparse
begin

text \<open>
  The command line of \<^verbatim>\<open>ddl_apply.py\<close> from the words of the shell to the exit status, and its
  composition with \<^verbatim>\<open>ddl_extract.py\<close>, which prints such command lines.
\<close>

section \<open>Options\<close>

text \<open>The options of \<^verbatim>\<open>_parse_args\<close>.\<close>

definition cli_options :: "(string \<times> opt_kind) list" where
  "cli_options = [(''--source'', Takes_Value), (''--table'', Takes_Value), (''--op'', Takes_Value),
     (''--col'', Takes_Value), (''--type'', Takes_Value), (''--new-col'', Takes_Value),
     (''--modes'', Takes_Value), (''--namespace'', Takes_Value), (''--catalog'', Takes_Value),
     (''--backfill'', Is_Flag), (''--pk'', Takes_Value), (''--dry-run'', Is_Flag),
     (''--yes'', Is_Flag), (''-y'', Is_Flag), (''--help'', Is_Help), (''-h'', Is_Help)]"

definition op_of :: "string \<Rightarrow> ddl_op option" where
  "op_of s = (if s = ''add'' then Some Add else if s = ''drop'' then Some Drop
     else if s = ''modify'' then Some Modify else if s = ''rename'' then Some Rename else None)"

record parsed =
  pr_args :: cli_args
  pr_dry_run :: bool
  pr_yes :: bool

text \<open>\<open>None\<close>: the parser prints its message and exits.\<close>

definition parse_args :: "string list \<Rightarrow> parsed option" where
  "parse_args argv = (case parse_options cli_options argv [] of None \<Rightarrow> None
     | Some given \<Rightarrow>
        (case (map_of given ''--source'', map_of given ''--table'', map_of given ''--op'', map_of given ''--col'') of
           (Some source, Some tbl, Some opname, Some col) \<Rightarrow>
             (case op_of opname of None \<Rightarrow> None
              | Some oper \<Rightarrow>
                 if source \<notin> set (map fst source_registry) then None
                 else Some \<lparr>pr_args = \<lparr>ca_source = source, ca_table = tbl, ca_op = oper, ca_col = col,
                     ca_col_type = map_of given ''--type'', ca_new_col = map_of given ''--new-col'',
                     ca_modes = (case map_of given ''--modes'' of Some m \<Rightarrow> m
                       | None \<Rightarrow> ''standard,soft_delete,history_tracking''),
                     ca_namespace = map_of given ''--namespace'', ca_catalog = map_of given ''--catalog'',
                     ca_backfill = (map_of given ''--backfill'' \<noteq> None), ca_pk_col = map_of given ''--pk''\<rparr>,
                   pr_dry_run = (map_of given ''--dry-run'' \<noteq> None),
                   pr_yes = (map_of given ''--yes'' \<noteq> None \<or> map_of given ''-y'' \<noteq> None)\<rparr>)
         | _ \<Rightarrow> None))"

section \<open>The program\<close>

text \<open>How a run ends: the parser's own exit, or \<^verbatim>\<open>sys.exit\<close> with a status.\<close>

datatype exit = Parser_Exit | Status nat

text \<open>The banner asks the cluster whether each deployment exists.\<close>

fun show_deployments :: "env \<Rightarrow> config \<Rightarrow> string \<Rightarrow> write_mode list \<Rightarrow> unit op" where
  "show_deployments e cf source [] = ret ()"
| "show_deployments e cf source (m # ms) =
     bindE (if cf_dry_run cf then ret True else deployment_exists e (deploy_name source m))
       (\<lambda>_. show_deployments e cf source ms)"

text \<open>The answer to the prompt; \<open>None\<close> is end of input or an interrupt.\<close>

definition confirmed :: "string option \<Rightarrow> bool" where
  "confirmed answer = (case answer of None \<Rightarrow> False | Some a \<Rightarrow> py_lower (py_strip a) = ''yes'')"

definition main :: "env \<Rightarrow> string \<Rightarrow> string option \<Rightarrow> string list \<Rightarrow> exit op" where
  "main e spark_pod answer argv = (case parse_args argv of None \<Rightarrow> ret Parser_Exit
     | Some p \<Rightarrow>
        let cf = \<lparr>cf_dry_run = pr_dry_run p, cf_spark_pod = spark_pod\<rparr> in
        (case check_args (pr_args p) of None \<Rightarrow> ret (Status 1)
         | Some q \<Rightarrow> bindE (show_deployments e cf (dq_source q) (dq_modes q)) (\<lambda>_.
             if \<not> cf_dry_run cf \<and> \<not> pr_yes p \<and> \<not> confirmed answer then ret (Status 0)
             else bindE (apply_ddl e cf q) (\<lambda>ok. ret (Status (if ok then 0 else 1))))))"

section \<open>Nothing happens unasked\<close>

lemma emits_show_deployments [emit]: "emits read_only read_only (show_deployments e cf source ms)"
  by (induction ms) (auto intro!: emit)

text \<open>
  C22: without a confirmation, given by \<^verbatim>\<open>--yes\<close> or typed at the prompt, and on a dry run, a run of the
  program issues only reading commands, whatever its other options and the cluster's answers.
\<close>

theorem unconfirmed_run_is_read_only:
  assumes "\<And>p. parse_args argv = Some p \<Longrightarrow> pr_dry_run p \<or> (\<not> pr_yes p \<and> \<not> confirmed answer)"
    and "x \<in> set (rs_trace (snd (main e spark_pod answer argv (start_at t))))"
  shows "read_only x"
proof (rule emits_from_start[where m = "main e spark_pod answer argv", OF _ assms(2)])
  show "emits read_only read_only (main e spark_pod answer argv)"
    using assms(1) unfolding main_def Let_def
    by (cases "parse_args argv") (auto intro!: emit emits_apply_ddl_dry split: option.split)
qed

section \<open>Printed commands are accepted\<close>

definition arg_word :: "string \<Rightarrow> bool" where
  "arg_word s = (s \<noteq> [] \<and> no_space s \<and> hd s \<noteq> CHR ''-'')"

fun change_args :: "change \<Rightarrow> string list" where
  "change_args (Ch_Add col ty) = [col, ty]"
| "change_args (Ch_Drop col) = [col]"
| "change_args (Ch_Modify col ty) = [col, ty]"
| "change_args (Ch_Rename col new) = [col, new]"

definition request_for :: "string \<Rightarrow> string \<Rightarrow> ddl_op \<Rightarrow> string \<Rightarrow> string option \<Rightarrow> string option \<Rightarrow> ddl_request" where
  "request_for source tbl oper col ty new = \<lparr>dq_source = source, dq_table = tbl, dq_op = oper, dq_col = col,
     dq_col_type = ty, dq_new_col = new, dq_modes = write_modes, dq_namespace = None, dq_catalog = None,
     dq_backfill = False, dq_pk_col = None\<rparr>"

fun request_of :: "string \<Rightarrow> string \<Rightarrow> change \<Rightarrow> ddl_request" where
  "request_of source tbl (Ch_Add col ty) = request_for source tbl Add col (Some ty) None"
| "request_of source tbl (Ch_Drop col) = request_for source tbl Drop col None None"
| "request_of source tbl (Ch_Modify col ty) = request_for source tbl Modify col (Some ty) None"
| "request_of source tbl (Ch_Rename col new) = request_for source tbl Rename col None (Some new)"

lemma arg_word_facts: "arg_word s \<Longrightarrow> no_space s" "arg_word s \<Longrightarrow> s \<noteq> []" "arg_word s \<Longrightarrow> is_value cli_options s" "arg_word s \<Longrightarrow> set_opt (Some s)"
  by (auto simp: arg_word_def is_value_def set_opt_def)

lemma option_words:
  "\<not> is_value cli_options ''--source'' \<and> find_option cli_options ''--source'' = Some (''--source'', None) \<and> map_of cli_options ''--source'' = Some Takes_Value"
  "\<not> is_value cli_options ''--table'' \<and> find_option cli_options ''--table'' = Some (''--table'', None) \<and> map_of cli_options ''--table'' = Some Takes_Value"
  "\<not> is_value cli_options ''--op'' \<and> find_option cli_options ''--op'' = Some (''--op'', None) \<and> map_of cli_options ''--op'' = Some Takes_Value"
  "\<not> is_value cli_options ''--col'' \<and> find_option cli_options ''--col'' = Some (''--col'', None) \<and> map_of cli_options ''--col'' = Some Takes_Value"
  "\<not> is_value cli_options ''--type'' \<and> find_option cli_options ''--type'' = Some (''--type'', None) \<and> map_of cli_options ''--type'' = Some Takes_Value"
  "\<not> is_value cli_options ''--new-col'' \<and> find_option cli_options ''--new-col'' = Some (''--new-col'', None) \<and> map_of cli_options ''--new-col'' = Some Takes_Value"
  by code_simp+

lemma parse_option_value:
  "\<lbrakk>\<not> is_value cli_options oname \<and> find_option cli_options oname = Some (oname, None) \<and> map_of cli_options oname = Some Takes_Value; is_value cli_options v\<rbrakk> \<Longrightarrow>
    parse_options cli_options (oname # v # ts) acc = parse_options cli_options ts ((oname, v) # acc)"
  by simp

lemma default_modes:
  "cli_modes ''standard,soft_delete,history_tracking'' = [''standard'', ''soft_delete'', ''history_tracking'']"
  by code_simp

lemma registered: "source \<in> {''postgres'', ''oracle'', ''mongodb''} \<Longrightarrow> source \<in> set (map fst source_registry) \<and> arg_word source"
  by (auto simp: source_registry_def arg_word_def no_space_def py_space_def)

lemma split_command_start:
  assumes "no_space source" "source \<noteq> []" "no_space tbl" "tbl \<noteq> []" "no_space opname" "opname \<noteq> []"
  shows "py_split (command_start source tbl opname (col @ rest)) =
    [''python3'', ''scripts/ddl_apply.py'', ''--source'', source, ''--table'', tbl, ''--op'', opname, ''--col''] @ py_split (col @ rest)"
proof -
  have lits: "no_space ''python3''" "no_space ''scripts/ddl_apply.py''" "no_space ''--source''" "no_space ''--table''"
    "no_space ''--op''" "no_space ''--col''" by (simp_all add: no_space_def py_space_def)
  have "command_start source tbl opname (col @ rest) = ''python3'' @ sp1 @ ''scripts/ddl_apply.py'' @ sp1 @ ''--source'' @ sp1 @ source @ sp1 @
      ''--table'' @ sp1 @ tbl @ sp1 @ ''--op'' @ sp1 @ opname @ sp1 @ ''--col'' @ sp1 @ col @ rest"
    by (simp add: command_start_def)
  then show ?thesis
    using assms by (simp only: split_step[OF lits(1)] split_step[OF lits(2)] split_step[OF lits(3)] split_step[OF lits(4)]
      split_step[OF lits(5)] split_step[OF lits(6)] split_step list.distinct simp_thms) simp
qed

lemma command_append: "command_start source tbl opname col @ rest = command_start source tbl opname (col @ rest)"
  by (simp add: command_start_def)

lemma command_words:
  assumes "source \<in> {''postgres'', ''oracle'', ''mongodb''}" "arg_word tbl" "list_all arg_word (change_args c)"
  shows "drop 2 (py_split (build_command source tbl c)) = [''--source'', source, ''--table'', tbl, ''--op''] @
    (case c of Ch_Add col ty \<Rightarrow> [''add'', ''--col'', col, ''--type'', ty] | Ch_Drop col \<Rightarrow> [''drop'', ''--col'', col]
      | Ch_Modify col ty \<Rightarrow> [''modify'', ''--col'', col, ''--type'', ty]
      | Ch_Rename col new \<Rightarrow> [''rename'', ''--col'', col, ''--new-col'', new])"
proof -
  have words: "py_split (s @ '' --type '' @ t) = [s, ''--type'', t]" "py_split (s @ '' --new-col '' @ t) = [s, ''--new-col'', t]"
    if "arg_word s" "arg_word t" for s t
    using split_step[of s "''--type'' @ sp1 @ t"] split_step[of "''--type''" t]
      split_step[of s "''--new-col'' @ sp1 @ t"] split_step[of "''--new-col''" t] py_split_word[of t] arg_word_facts that
    by (simp_all add: no_space_def py_space_def)
  have ops: "no_space ''add''" "no_space ''drop''" "no_space ''modify''" "no_space ''rename''"
    by (simp_all add: no_space_def py_space_def)
  note src = registered[OF assms(1), THEN conjunct2]
  note start = split_command_start[OF arg_word_facts(1,2)[OF src] arg_word_facts(1,2)[OF assms(2)]]
  show ?thesis
  proof (cases c)
    case (Ch_Drop col)
    then have "py_split (col @ []) = [col]" using assms(3) arg_word_facts py_split_word by simp
    then show ?thesis using start[OF ops(2), of col "[]"] Ch_Drop by simp
  qed (use assms(3) in \<open>simp_all add: command_append start[OF ops(1)] start[OF ops(3)] start[OF ops(4)] words[simplified]\<close>)
qed

definition parsed_args :: "string \<Rightarrow> string \<Rightarrow> ddl_op \<Rightarrow> string \<Rightarrow> string option \<Rightarrow> string option \<Rightarrow> parsed" where
  "parsed_args source tbl oper col ty new = \<lparr>pr_args = \<lparr>ca_source = source, ca_table = tbl, ca_op = oper, ca_col = col,
     ca_col_type = ty, ca_new_col = new, ca_modes = ''standard,soft_delete,history_tracking'', ca_namespace = None,
     ca_catalog = None, ca_backfill = False, ca_pk_col = None\<rparr>, pr_dry_run = False, pr_yes = False\<rparr>"

lemma parse_printed:
  assumes "source \<in> set (map fst source_registry)" "is_value cli_options source" "is_value cli_options tbl" "op_of opname = Some oper" "is_value cli_options opname" "is_value cli_options col"
  shows "parse_args [''--source'', source, ''--table'', tbl, ''--op'', opname, ''--col'', col] =
      Some (parsed_args source tbl oper col None None)"
    and "is_value cli_options v \<Longrightarrow> parse_args [''--source'', source, ''--table'', tbl, ''--op'', opname, ''--col'', col, ''--type'', v] =
      Some (parsed_args source tbl oper col (Some v) None)"
    and "is_value cli_options v \<Longrightarrow> parse_args [''--source'', source, ''--table'', tbl, ''--op'', opname, ''--col'', col, ''--new-col'', v] =
      Some (parsed_args source tbl oper col None (Some v))"
  using assms(1,4) unfolding parse_args_def parsed_args_def
  by (simp_all only: option_words[THEN parse_option_value] assms parse_options.simps(1))
    (use assms in simp_all)

lemma check_printed:
  "set_opt ty \<Longrightarrow> check_args (pr_args (parsed_args source tbl Add col ty new)) = Some (request_for source tbl Add col ty new)"
  "check_args (pr_args (parsed_args source tbl Drop col ty new)) = Some (request_for source tbl Drop col ty new)"
  "set_opt ty \<Longrightarrow> check_args (pr_args (parsed_args source tbl Modify col ty new)) = Some (request_for source tbl Modify col ty new)"
  "set_opt new \<Longrightarrow> check_args (pr_args (parsed_args source tbl Rename col ty new)) = Some (request_for source tbl Rename col ty new)"
  by (simp_all add: check_args_def parsed_args_def request_for_def default_modes write_modes_def)

definition accepted :: "string \<Rightarrow> string \<Rightarrow> change \<Rightarrow> bool" where
  "accepted source tbl c = (\<exists>p. parse_args (drop 2 (py_split (build_command source tbl c))) = Some p \<and>
     check_args (pr_args p) = Some (request_of source tbl c))"

lemma printed_command_accepted:
  assumes "source \<in> {''postgres'', ''oracle'', ''mongodb''}" "arg_word tbl" "list_all arg_word (change_args c)"
  shows "accepted source tbl c"
proof -
  have ops: "is_value cli_options ''add''" "is_value cli_options ''drop''" "is_value cli_options ''modify''" "is_value cli_options ''rename''" by (simp_all add: is_value_def)
  have names: "op_of ''add'' = Some Add" "op_of ''drop'' = Some Drop" "op_of ''modify'' = Some Modify"
    "op_of ''rename'' = Some Rename" by (simp_all add: op_of_def)
  note src = registered[OF assms(1)]
  note parse = parse_printed[OF src[THEN conjunct1] arg_word_facts(3)[OF src[THEN conjunct2]] arg_word_facts(3)[OF assms(2)]]
  show ?thesis unfolding accepted_def command_words[OF assms]
    using assms(3) ops names
    by (cases c) (auto simp: parse check_printed arg_word_facts)
qed

section \<open>What parsing gives\<close>

lemma word_arg: "is_word w \<Longrightarrow> arg_word (py_lower w)"
proof -
  have "word_char c \<Longrightarrow> lower_char c \<noteq> CHR ''-''" for c
  proof -
    assume "word_char c"
    then have "(of_char (lower_char c) :: nat) \<noteq> 45" unfolding of_char_lower by (auto simp: word_char_def Let_def)
    then show "lower_char c \<noteq> CHR ''-''" by auto
  qed
  then show "is_word w \<Longrightarrow> arg_word (py_lower w)"
    using words_no_space(1)[of w] by (cases w) (auto simp: is_word_def arg_word_def no_space_def py_lower_def list.pred_map comp_def)
qed

lemma numeral_no_space: "no_space (str_of_nat n) "
proof (induction n rule: str_of_nat.induct)
  case (1 n)
  have "\<not> py_space (''0123456789'' ! i)" if "i < 10" for i
    using that by (auto simp: py_space_def less_Suc_eq numeral_eq_Suc)
  then show ?case using 1 by (subst str_of_nat.simps) (simp add: no_space_def)
qed

lemma mapped_types:
  "list_all (\<lambda>(k, t). arg_word t) pg_type_map" "list_all (\<lambda>(k, t). arg_word t) ora_type_map"
  "list_all (\<lambda>(k, t). arg_word t) mgo_type_map" "arg_word ''STRING''"
  by code_simp+

lemma get_or_arg: "\<lbrakk>list_all (\<lambda>(k, t). arg_word t) m; arg_word d\<rbrakk> \<Longrightarrow> arg_word (get_or m k d)"
  by (auto simp: get_or_def list_all_iff dest!: map_of_SomeD split: option.split)

lemma iceberg_type_arg: "src_type_to_iceberg k s = Inr t \<Longrightarrow> arg_word t"
proof -
  have "arg_word (decimal_type inner)" for inner
    using numeral_no_space by (simp add: decimal_type_def Let_def arg_word_def no_space_def py_space_def)
  then show "src_type_to_iceberg k s = Inr t \<Longrightarrow> arg_word t"
    using mapped_types get_or_arg
    by (auto simp: src_type_to_iceberg_def Let_def split: if_splits option.splits)
qed

lemma parsed_change_args:
  assumes "parse_ddl_text k ddl = Inr cs" "c \<in> set cs"
  shows "list_all arg_word (change_args c)"
  using assms by (rule parsed_changes) (simp_all add: word_arg iceberg_type_arg)



lemma unconfirmed_run_is_read_only_witness:
  "read_only (Kubectl (Get_Name (deploy_name ''oracle'' Standard)), Completed 0 ''x'' [])"
proof (rule unconfirmed_run_is_read_only)
  let ?argv = "[''--source'', ''oracle'', ''--table'', ''t'', ''--op'', ''drop'', ''--col'', ''c'', ''--modes'', ''standard'']"
  let ?e = "\<lparr>env_run = \<lambda>tr c. Completed 0 ''x'' [], env_secs = \<lambda>tr c. 1, env_checkpoint = \<lambda>tr s. Inl [],
    env_kafka_secret = \<lambda>tr. Inl [], env_parse_offsets = \<lambda>s. Inl []\<rparr>"
  have args: "parse_args ?argv = Some \<lparr>pr_args = \<lparr>ca_source = ''oracle'', ca_table = ''t'', ca_op = Drop, ca_col = ''c'',
     ca_col_type = None, ca_new_col = None, ca_modes = ''standard'', ca_namespace = None,
     ca_catalog = None, ca_backfill = False, ca_pk_col = None\<rparr>, pr_dry_run = False, pr_yes = False\<rparr>"
    by code_simp
  show "pr_dry_run p \<or> \<not> pr_yes p \<and> \<not> confirmed (Some ''no'')" if "parse_args ?argv = Some p" for p
  proof -
    have "\<not> confirmed (Some ''no'')" by code_simp
    then show ?thesis using that args by auto
  qed
  show "(Kubectl (Get_Name (deploy_name ''oracle'' Standard)), Completed 0 ''x'' []) \<in>
      set (rs_trace (snd (main ?e [] (Some ''no'') ?argv (start_at 0))))"
    by code_simp
qed

end
