(* ===== verification/Py_Textwrap.thy ===== *)
theory Py_Textwrap
  imports Py_Text
begin

text \<open>
  \<^verbatim>\<open>textwrap.wrap\<close> with long words and hyphens left whole: tabs are expanded, all whitespace becomes
  blanks, and the runs of blanks and of other characters are packed into lines. The widths of the
  first line and of the others, less their indents, are parameters. No word is lost or cut, and
  only a single word can be longer than a line.
\<close>

section \<open>Whitespace\<close>

fun expand_tabs :: "nat \<Rightarrow> string \<Rightarrow> string" where
  "expand_tabs n [] = []"
| "expand_tabs n (c # s) =
     (if c = CHR 0x09 then replicate (8 - n mod 8) CHR '' '' @ expand_tabs 0 s
      else if c = CHR 0x0A \<or> c = CHR 0x0D then c # expand_tabs 0 s
      else c # expand_tabs (Suc n) s)"

definition wrap_space :: "char \<Rightarrow> bool" where
  "wrap_space c = (c = CHR '' '' \<or> (9 \<le> (of_char c :: nat) \<and> (of_char c :: nat) \<le> 13))"

definition munge :: "string \<Rightarrow> string" where
  "munge s = map (\<lambda>c. if wrap_space c then CHR '' '' else c) (expand_tabs 0 s)"

section \<open>Packing\<close>

function chunks :: "string \<Rightarrow> string list" where
  "chunks [] = []"
| "chunks (c # s) = (c # takeWhile (\<lambda>d. wrap_space d = wrap_space c) s) #
     chunks (dropWhile (\<lambda>d. wrap_space d = wrap_space c) s)"
  by pat_completeness auto
termination by (relation "measure length") (auto simp: less_Suc_eq_le length_dropWhile_le)

definition is_blank :: "string \<Rightarrow> bool" where
  "is_blank s = (py_strip s = [])"

fun take_fit :: "nat \<Rightarrow> nat \<Rightarrow> string list \<Rightarrow> string list \<times> string list" where
  "take_fit w n [] = ([], [])"
| "take_fit w n (c # cs) = (if n + length c \<le> w
     then (case take_fit w (n + length c) cs of (line, rest) \<Rightarrow> (c # line, rest)) else ([], c # cs))"

text \<open>One round of the loop: the pieces of the line, and those that are left.\<close>

definition drop_lead :: "bool \<Rightarrow> string list \<Rightarrow> string list" where
  "drop_lead started cs = (if started \<and> cs \<noteq> [] \<and> is_blank (hd cs) then tl cs else cs)"

definition long_word :: "nat \<Rightarrow> string list \<times> string list \<Rightarrow> string list \<times> string list" where
  "long_word w lr = (if snd lr \<noteq> [] \<and> w < length (hd (snd lr)) \<and> fst lr = []
     then ([hd (snd lr)], tl (snd lr)) else lr)"

definition drop_trail :: "string list \<Rightarrow> string list" where
  "drop_trail line = (if line \<noteq> [] \<and> is_blank (last line) then butlast line else line)"

definition wrap_line :: "nat \<Rightarrow> bool \<Rightarrow> string list \<Rightarrow> string list \<times> string list" where
  "wrap_line w started cs =
     (case long_word w (take_fit w 0 (drop_lead started cs)) of (line, rest) \<Rightarrow> (drop_trail line, rest))"

lemma take_fit_append: "take_fit w n cs = (line, rest) \<Longrightarrow> line @ rest = cs"
  by (induction cs arbitrary: n line) (auto split: if_splits prod.splits)

lemma long_word_append: "long_word w (line, rest) = (line', rest') \<Longrightarrow> line' @ rest' = line @ rest"
  by (cases rest) (auto simp: long_word_def split: if_splits)

lemma take_fit_stuck: "take_fit w 0 cs = ([], rest) \<Longrightarrow> cs \<noteq> [] \<Longrightarrow> rest = cs \<and> w < length (hd cs)"
  by (cases cs) (auto split: if_splits prod.splits)

lemma wrap_line_parts:
  obtains line where "fst (wrap_line w started cs) = drop_trail line"
    and "line @ snd (wrap_line w started cs) = drop_lead started cs"
    and "(line, snd (wrap_line w started cs)) = long_word w (take_fit w 0 (drop_lead started cs))"
proof -
  obtain l r where fit: "take_fit w 0 (drop_lead started cs) = (l, r)" by fastforce
  obtain l' r' where long: "long_word w (l, r) = (l', r')" by fastforce
  show ?thesis
    using that[of l'] take_fit_append[OF fit] long_word_append[OF long] by (simp add: wrap_line_def fit long)
qed

lemma wrap_line_shorter: "length (snd (wrap_line w started (c # cs))) < length (c # cs)"
proof -
  obtain line where line: "line @ snd (wrap_line w started (c # cs)) = drop_lead started (c # cs)"
    and long: "(line, snd (wrap_line w started (c # cs))) = long_word w (take_fit w 0 (drop_lead started (c # cs)))"
    by (rule wrap_line_parts)
  have "line = [] \<Longrightarrow> drop_lead started (c # cs) = []"
  proof (rule ccontr)
    assume empty: "line = []" and some: "drop_lead started (c # cs) \<noteq> []"
    obtain l r where fit: "take_fit w 0 (drop_lead started (c # cs)) = (l, r)" by fastforce
    have "l = []" using long empty unfolding fit by (auto simp: long_word_def split: if_splits)
    with take_fit_stuck[of w _ r, OF fit[unfolded this] some] have "long_word w (l, r) = ([hd r], tl r)"
      using some by (simp add: long_word_def)
    then show False using long empty unfolding fit by simp
  qed
  then show ?thesis using arg_cong[OF line, of length] by (cases line) (auto simp: drop_lead_def split: if_splits)
qed

function wrap_chunks :: "nat \<Rightarrow> nat \<Rightarrow> bool \<Rightarrow> string list \<Rightarrow> string list" where
  "wrap_chunks w1 w2 started [] = []"
| "wrap_chunks w1 w2 started (c # cs) =
     (case wrap_line (if started then w2 else w1) started (c # cs) of (line, rest) \<Rightarrow>
        if line = [] then wrap_chunks w1 w2 started rest
        else concat line # wrap_chunks w1 w2 True rest)"
  by pat_completeness auto
termination
  by (relation "measure (\<lambda>(w1, w2, started, cs). length cs)")
    (use wrap_line_shorter in \<open>auto, (metis length_Cons snd_conv)+\<close>)

definition wrap_text :: "nat \<Rightarrow> nat \<Rightarrow> string \<Rightarrow> string list" where
  "wrap_text w1 w2 s = wrap_chunks w1 w2 False (chunks (munge s))"

section \<open>No word is lost\<close>

lemma wrap_space_is_space: "wrap_space c \<Longrightarrow> py_space c"
  by (auto simp: wrap_space_def py_space_def)

lemma words_from_blanks: "0 < n \<Longrightarrow> words_from acc (replicate n CHR '' '' @ s) = (if acc = [] then [] else [rev acc]) @ words_from [] s"
  by (rule words_from_spaces) (auto simp: spaces_def py_space_def list_all_iff)

lemma words_from_expand: "words_from acc (expand_tabs n s) = words_from acc s"
proof (induction n s arbitrary: acc rule: expand_tabs.induct)
  case (2 n c s)
  have "py_space CHR 0x09" "0 < 8 - n mod 8" by (simp_all add: py_space_def)
  then show ?case using 2 words_from_blanks[of "8 - n mod 8"] by simp
qed simp

lemma words_from_munge: "words_from acc (map (\<lambda>c. if wrap_space c then CHR '' '' else c) s) = words_from acc s"
proof -
  have "py_space CHR '' ''" by (simp add: py_space_def)
  then show ?thesis using wrap_space_is_space by (induction s arbitrary: acc) auto
qed

lemma split_munge: "py_split (munge s) = py_split s"
  by (simp add: py_split_def munge_def words_from_munge words_from_expand)

lemma split_gap: "\<lbrakk>spaces w; w \<noteq> []\<rbrakk> \<Longrightarrow> py_split (x @ w @ y) = py_split x @ py_split y"
proof -
  assume w: "spaces w" "w \<noteq> []"
  have "words_from acc (x @ w @ y) = words_from acc x @ words_from [] y" for acc
    using w by (induction x arbitrary: acc) (auto simp: words_from_spaces)
  then show ?thesis by (simp add: py_split_def)
qed

lemma split_spaces: "spaces w \<Longrightarrow> py_split (w @ y) = py_split y" "spaces w \<Longrightarrow> py_split (x @ w) = py_split x"
  using split_gap[of w "[]" y] split_gap[of w x "[]"] by (cases "w = []"; simp add: py_split_def)+

lemma blank_spaces: "is_blank s = spaces s"
proof
  assume "is_blank s"
  then have "\<forall>c \<in> set (dropWhile py_space s). py_space c" by (simp add: is_blank_def py_strip_def)
  then have "dropWhile py_space s = []" using hd_dropWhile[of py_space s] by (metis hd_in_set)
  then show "spaces s" by (simp add: spaces_def list_all_iff)
qed (auto simp: spaces_def list_all_iff is_blank_def py_strip_def dest: set_dropWhileD)

text \<open>Of two pieces side by side one is a run of blanks, so that lines only break at a gap.\<close>

definition pieces :: "string list \<Rightarrow> bool" where
  "pieces cs = (successively (\<lambda>a b. spaces a \<or> spaces b) cs \<and> [] \<notin> set cs)"

lemma pieces_append: "pieces (xs @ ys) \<Longrightarrow> pieces xs \<and> pieces ys"
  by (auto simp: pieces_def successively_append_iff)

lemma pieces_cut: "pieces (xs @ ys) \<Longrightarrow> py_split (concat (xs @ ys)) = py_split (concat xs) @ py_split (concat ys)"
proof (cases "xs = [] \<or> ys = []")
  case False
  assume "pieces (xs @ ys)"
  then have gap: "spaces (last xs) \<or> spaces (hd ys)" and "[] \<notin> set xs" "[] \<notin> set ys"
    using False by (auto simp: pieces_def successively_append_iff)
  then have ne: "last xs \<noteq> []" "hd ys \<noteq> []" using False last_in_set[of xs] hd_in_set[of ys] by metis+
  have x: "concat xs = concat (butlast xs) @ last xs" using False by (cases xs rule: rev_cases) simp_all
  have y: "concat ys = hd ys @ concat (tl ys)" using False by (cases ys) simp_all
  from gap show ?thesis
  proof
    assume "spaces (last xs)"
    then show ?thesis using split_gap[OF _ ne(1), of "concat (butlast xs)" "concat ys"] split_spaces(2) by (simp add: x)
  next
    assume "spaces (hd ys)"
    then show ?thesis using split_gap[OF _ ne(2), of "concat xs" "concat (tl ys)"] split_spaces(1) by (simp add: y)
  qed
qed (auto simp: py_split_def)

lemma split_drop_lead: "py_split (concat (drop_lead started cs)) = py_split (concat cs)"
  by (cases cs) (simp_all add: drop_lead_def blank_spaces split_spaces)

lemma split_drop_trail: "py_split (concat (drop_trail line)) = py_split (concat line)"
  by (cases line rule: rev_cases) (simp_all add: drop_trail_def blank_spaces split_spaces)

lemma pieces_drop_lead: "pieces cs \<Longrightarrow> pieces (drop_lead started cs)"
  by (cases cs) (auto simp: drop_lead_def pieces_def successively_Cons)

lemma wrap_line_words:
  assumes "pieces cs" and "wrap_line w started cs = (line, rest)"
  shows "py_split (concat cs) = py_split (concat line) @ py_split (concat rest)" "pieces rest"
proof -
  obtain l where l: "line = drop_trail l" "l @ rest = drop_lead started cs"
    using wrap_line_parts[of w started cs] unfolding assms(2) fst_conv snd_conv by metis
  have p: "pieces (l @ rest)" unfolding l(2) by (rule pieces_drop_lead) fact
  then show "pieces rest" using pieces_append by blast
  show "py_split (concat cs) = py_split (concat line) @ py_split (concat rest)"
    unfolding l(1) split_drop_trail pieces_cut[OF p, symmetric] l(2) split_drop_lead ..
qed

lemma wrap_chunks_words: "pieces cs \<Longrightarrow> concat (map py_split (wrap_chunks w1 w2 started cs)) = py_split (concat cs)"
proof (induction w1 w2 started cs rule: wrap_chunks.induct)
  case (2 w1 w2 started c cs)
  obtain line rest where step: "wrap_line (if started then w2 else w1) started (c # cs) = (line, rest)" by fastforce
  note words = wrap_line_words[OF "2.prems" step]
  then show ?case using "2.IH"[OF step[symmetric]] by (cases "line = []") (simp_all add: step, simp add: py_split_def)
qed (simp add: py_split_def)

lemma concat_chunks: "concat (chunks s) = s"
  by (induction s rule: chunks.induct) simp_all

lemma hd_chunks: "s \<noteq> [] \<Longrightarrow> chunks s \<noteq> [] \<and> hd (chunks s) \<noteq> [] \<and> hd (hd (chunks s)) = hd s"
  by (cases s) simp_all

lemma chunk_uniform: "c \<in> set (chunks s) \<Longrightarrow> c \<noteq> [] \<and> (list_all wrap_space c \<or> list_all (\<lambda>d. \<not> wrap_space d) c)"
  by (induction s rule: chunks.induct) (auto simp: list_all_iff dest!: set_takeWhileD)

lemma pieces_chunks: "pieces (chunks s)"
proof -
  have "successively (\<lambda>a b. wrap_space (hd a) \<or> wrap_space (hd b)) (chunks s)"
  proof (induction s rule: chunks.induct)
    case (2 c s)
    let ?r = "dropWhile (\<lambda>d. wrap_space d = wrap_space c) s"
    show ?case
    proof (cases "?r = []")
      case True
      show ?thesis unfolding chunks.simps True by simp
    next
      case False
      then have "wrap_space (hd ?r) \<noteq> wrap_space c" by (rule hd_dropWhile)
      then show ?thesis using 2 hd_chunks[OF False] by (simp only: chunks.simps successively_Cons list.sel) blast
    qed
  qed simp
  moreover have "a \<in> set (chunks s) \<Longrightarrow> wrap_space (hd a) \<Longrightarrow> spaces a" for a
    using chunk_uniform[of a s] wrap_space_is_space by (cases a) (auto simp: spaces_def list_all_iff)
  ultimately show ?thesis
    using chunk_uniform by (auto simp: pieces_def intro: successively_mono)
qed

lemma wrap_text_words: "concat (map py_split (wrap_text w1 w2 s)) = py_split s"
  unfolding wrap_text_def wrap_chunks_words[OF pieces_chunks] concat_chunks split_munge ..

section \<open>Widths\<close>

definition long_words :: "string list \<Rightarrow> string set" where
  "long_words cs = {c \<in> set cs. \<not> is_blank c}"

definition line_ok :: "nat \<Rightarrow> string set \<Rightarrow> string \<Rightarrow> bool" where
  "line_ok w ws l = (length l \<le> w \<or> l \<in> ws)"

lemma take_fit_width: "take_fit w n cs = (line, rest) \<Longrightarrow> line = [] \<or> n + length (concat line) \<le> w"
proof (induction cs arbitrary: n line)
  case (Cons c cs)
  then show ?case by (cases "take_fit w (n + length c) cs") (fastforce split: if_splits)
qed simp

lemma wrap_line_width:
  assumes "wrap_line w started cs = (line, rest)"
  shows "line_ok w (long_words cs) (concat line)" "long_words rest \<subseteq> long_words cs"
proof -
  obtain l where l: "line = drop_trail l" "l @ rest = drop_lead started cs"
    and long: "(l, rest) = long_word w (take_fit w 0 (drop_lead started cs))"
    using wrap_line_parts[of w started cs] unfolding assms fst_conv snd_conv by metis
  have sub: "set (l @ rest) \<subseteq> set cs" unfolding l(2) by (cases cs) (auto simp: drop_lead_def)
  then show "long_words rest \<subseteq> long_words cs" by (auto simp: long_words_def)
  obtain l' r' where fit: "take_fit w 0 (drop_lead started cs) = (l', r')" by fastforce
  have "length (concat l) \<le> w \<or> (\<exists>c. l = [c])"
    using long take_fit_width[OF fit] unfolding fit by (auto simp: long_word_def split: if_splits)
  moreover have "length (concat (drop_trail l)) \<le> length (concat l)"
    by (cases l rule: rev_cases) (simp_all add: drop_trail_def)
  ultimately consider "length (concat line) \<le> w" | c where "l = [c]" "line = drop_trail [c]"
    unfolding l(1) by fastforce
  then show "line_ok w (long_words cs) (concat line)"
    by cases (use sub in \<open>auto simp: line_ok_def long_words_def drop_trail_def\<close>)
qed

lemma line_ok_mono: "\<lbrakk>line_ok w ws l; ws \<subseteq> ws'\<rbrakk> \<Longrightarrow> line_ok w ws' l"
  by (auto simp: line_ok_def)

lemma wrap_chunks_width:
  "list_all (line_ok w2 (long_words cs)) (if started then wrap_chunks w1 w2 started cs else tl (wrap_chunks w1 w2 started cs)) \<and>
   (\<not> started \<and> wrap_chunks w1 w2 started cs \<noteq> [] \<longrightarrow> line_ok w1 (long_words cs) (hd (wrap_chunks w1 w2 started cs)))"
proof (induction w1 w2 started cs rule: wrap_chunks.induct)
  case (2 w1 w2 started c cs)
  obtain line rest where step: "wrap_line (if started then w2 else w1) started (c # cs) = (line, rest)" by fastforce
  note width = wrap_line_width[OF step]
  note mono = line_ok_mono[OF _ width(2)]
  have unfold: "wrap_chunks w1 w2 started (c # cs) = (if line = [] then wrap_chunks w1 w2 started rest
      else concat line # wrap_chunks w1 w2 True rest)" by (simp add: step)
  note IH = "2.IH"[OF step[symmetric]]
  show ?case
  proof (cases "line = []")
    case True
    then show ?thesis unfolding unfold using IH(1) mono by (auto simp: list_all_iff split: if_splits)
  next
    case False
    then show ?thesis unfolding unfold using IH(2) mono width(1) by (auto simp: list_all_iff split: if_splits)
  qed
qed simp

lemma wrap_text_width:
  assumes "i < length (wrap_text w1 w2 s)"
  shows "length (wrap_text w1 w2 s ! i) \<le> (if i = 0 then w1 else w2) \<or> CHR '' '' \<notin> set (wrap_text w1 w2 s ! i)"
proof -
  let ?l = "wrap_text w1 w2 s"
  have line: "line_ok (if i = 0 then w1 else w2) (long_words (chunks (munge s))) (?l ! i)"
    using assms wrap_chunks_width[of w2 "chunks (munge s)" False w1]
    by (cases ?l) (auto simp: wrap_text_def list_all_length nth_Cons' hd_conv_nth)
  have "CHR '' '' \<notin> set c" if "c \<in> long_words (chunks (munge s))" for c
  proof -
    have "list_all (\<lambda>d. \<not> wrap_space d) c"
      using that chunk_uniform[of c "munge s"] wrap_space_is_space
      by (auto simp: long_words_def blank_spaces spaces_def list_all_iff)
    then show ?thesis by (auto simp: list_all_iff wrap_space_def)
  qed
  then show ?thesis using line by (auto simp: line_ok_def)
qed

section \<open>No line is blank\<close>

text \<open>Without the separators that only \<^verbatim>\<open>str.strip\<close> takes for whitespace, blanks and words alternate.\<close>

definition plain_spaces :: "string \<Rightarrow> bool" where
  "plain_spaces s = list_all (\<lambda>c. py_space c \<longrightarrow> wrap_space c) s"

definition alternating :: "string list \<Rightarrow> bool" where
  "alternating cs = (successively (\<lambda>a b. is_blank a \<noteq> is_blank b) cs \<and> [] \<notin> set cs)"

lemma alternating_append: "alternating (xs @ ys) \<Longrightarrow> alternating xs \<and> alternating ys"
  by (auto simp: alternating_def successively_append_iff)

lemma alternating_drop_lead: "alternating cs \<Longrightarrow> alternating (drop_lead started cs)"
  by (cases cs) (auto simp: drop_lead_def alternating_def successively_Cons)

lemma last_not_blank: "\<lbrakk>alternating l; drop_trail l \<noteq> []\<rbrakk> \<Longrightarrow> \<not> is_blank (last (drop_trail l))"
proof (cases l rule: rev_cases)
  case (snoc k c)
  assume "alternating l" "drop_trail l \<noteq> []"
  then show ?thesis unfolding snoc
    by (cases k rule: rev_cases) (auto simp: alternating_def drop_trail_def successively_append_iff butlast_append)
qed (simp add: drop_trail_def)

lemma wrap_chunks_nonblank: "\<lbrakk>alternating cs; l \<in> set (wrap_chunks w1 w2 started cs)\<rbrakk> \<Longrightarrow> \<not> is_blank l"
proof (induction w1 w2 started cs rule: wrap_chunks.induct)
  case (2 w1 w2 started c cs)
  let ?w = "if started then w2 else w1"
  obtain line rest where step: "wrap_line ?w started (c # cs) = (line, rest)" by fastforce
  obtain k where k: "line = drop_trail k" "k @ rest = drop_lead started (c # cs)"
    using wrap_line_parts[of ?w started "c # cs"] unfolding step fst_conv snd_conv by metis
  have alt: "alternating k" "alternating rest"
    using alternating_append[of k rest] alternating_drop_lead[OF "2.prems"(1), of started] unfolding k(2)[symmetric] by auto
  have "line \<noteq> [] \<Longrightarrow> \<not> is_blank (concat line)"
    using last_not_blank[OF alt(1)] by (cases line rule: rev_cases) (auto simp: k(1)[symmetric] blank_spaces spaces_def)
  then show ?case
    using "2.IH"[OF step[symmetric]] "2.prems"(2) alt(2) by (cases "line = []") (auto simp: step)
qed simp

lemma alternating_chunks:
  assumes "list_all (\<lambda>c. py_space c = wrap_space c) s"
  shows "alternating (chunks s)"
  using assms
proof (induction s rule: chunks.induct)
  case (2 c s)
  let ?r = "dropWhile (\<lambda>d. wrap_space d = wrap_space c) s" and ?h = "c # takeWhile (\<lambda>d. wrap_space d = wrap_space c) s"
  have blank: "is_blank u = wrap_space (hd u)" if "u \<in> set (chunks t)" "list_all (\<lambda>c. py_space c = wrap_space c) t" for u t
  proof -
    have "set u \<subseteq> set t" using that(1) concat_chunks[of t] by (metis UN_upper set_concat)
    then show ?thesis using that(2) chunk_uniform[OF that(1)]
      by (cases u) (auto simp: blank_spaces spaces_def list_all_iff)
  qed
  have rest: "list_all (\<lambda>c. py_space c = wrap_space c) ?r" using "2.prems" by (auto simp: list_all_iff dest: set_dropWhileD)
  have h: "is_blank ?h = wrap_space c" using blank[OF _ "2.prems", of ?h] by simp
  show ?case
  proof (cases "?r = []")
    case True
    show ?thesis unfolding chunks.simps True by (simp add: alternating_def)
  next
    case False
    then have "wrap_space (hd ?r) \<noteq> wrap_space c" by (rule hd_dropWhile)
    moreover have "is_blank (hd (chunks ?r)) = wrap_space (hd ?r)"
      using blank[OF _ rest] hd_chunks[OF False] by (metis hd_in_set)
    ultimately show ?thesis
      using "2.IH"[OF rest] h by (simp only: chunks.simps alternating_def successively_Cons list.sel list.set) blast
  qed
qed (simp add: alternating_def)

lemma expand_tabs_chars: "c \<in> set (expand_tabs n s) \<Longrightarrow> c = CHR '' '' \<or> c \<in> set s"
  by (induction n s rule: expand_tabs.induct) (auto split: if_splits)

lemma wrap_text_nonblank: "\<lbrakk>plain_spaces s; l \<in> set (wrap_text w1 w2 s)\<rbrakk> \<Longrightarrow> \<not> is_blank l"
proof -
  assume s: "plain_spaces s" "l \<in> set (wrap_text w1 w2 s)"
  have blank: "wrap_space CHR '' ''" by (simp add: wrap_space_def)
  have "\<forall>c \<in> set (expand_tabs 0 s). py_space c \<longrightarrow> wrap_space c"
    using s(1) blank expand_tabs_chars by (fastforce simp: plain_spaces_def list_all_iff)
  then have "list_all (\<lambda>c. py_space c = wrap_space c) (munge s)"
    using blank wrap_space_is_space by (auto simp: munge_def list_all_iff)
  then show ?thesis using alternating_chunks wrap_chunks_nonblank s(2) unfolding wrap_text_def by blast
qed

lemma split_nonblank: "\<not> is_blank s \<Longrightarrow> py_split s \<noteq> []"
proof -
  have "acc \<noteq> [] \<or> \<not> spaces s \<Longrightarrow> words_from acc s \<noteq> []" for acc
    by (induction s arbitrary: acc) (auto simp: spaces_def)
  then show "\<not> is_blank s \<Longrightarrow> py_split s \<noteq> []" by (auto simp: blank_spaces py_split_def)
qed

end
