(* ===== verification/Ddl_Report.thy ===== *)
theory Ddl_Report
  imports Ddl_Consume Ddl_Cli Py_Textwrap
begin

text \<open>
  What \<^verbatim>\<open>ddl_extract.py\<close> prints and how a run of it goes: \<^verbatim>\<open>_print_results\<close>, the credentials,
  \<^verbatim>\<open>_parse_args\<close> and \<^verbatim>\<open>main\<close>. A printed line is its text, the box drawing characters at its start
  being a constructor; printing stops where an exception is raised. The commands of the report are
  those of the changes, word for word, but a command that does not fit on a line is broken without a
  continuation: then the part that a shell runs is refused by \<^verbatim>\<open>ddl_apply.py\<close>.
\<close>

section \<open>Lines\<close>

text \<open>\<open>Top s\<close> is a corner and \<open>s\<close>, \<open>Bar s\<close> a bar (three columns) and \<open>s\<close>, \<open>Bottom\<close> the closing rule.\<close>

datatype line = Plain string | Top string | Bar string | Bottom

type_synonym printed = "line list \<times> string option"

definition say :: "line list \<Rightarrow> printed" where
  "say ls = (ls, None)"

definition then_print :: "printed \<Rightarrow> printed \<Rightarrow> printed" where
  "then_print p q = (case p of (ls, Some exc) \<Rightarrow> (ls, Some exc) | (ls, None) \<Rightarrow> (ls @ fst q, snd q))"

fun print_all :: "('a \<Rightarrow> printed) \<Rightarrow> 'a list \<Rightarrow> printed" where
  "print_all f [] = say []"
| "print_all f (x # xs) = then_print (f x) (print_all f xs)"

section \<open>The report\<close>

definition arrow :: string where
  "arrow = [CHR 0xE2, CHR 0x86, CHR 0x92]"

definition detail :: "string \<Rightarrow> string \<Rightarrow> string \<Rightarrow> string \<Rightarrow> string" where
  "detail oper col tp new_col = oper @ '' COLUMN '' @ col @ (if tp = [] then [] else '' '' @ tp) @
     (if new_col = [] then [] else '' '' @ arrow @ '' '' @ new_col)"

fun change_detail :: "change \<Rightarrow> string" where
  "change_detail (Ch_Add col t) = detail ''ADD'' col t []"
| "change_detail (Ch_Drop col) = detail ''DROP'' col [] []"
| "change_detail (Ch_Modify col t) = detail ''MODIFY'' col t []"
| "change_detail (Ch_Rename col new) = detail ''RENAME'' col [] new"

text \<open>The DDL text is whatever the event holds: a value that is not a string has no \<^verbatim>\<open>strip\<close>.\<close>

definition with_ddl :: "json \<Rightarrow> (string \<Rightarrow> line list) \<Rightarrow> printed" where
  "with_ddl ddl f = (case ddl of JStr s \<Rightarrow> say (f s) | _ \<Rightarrow> ([], Some ''AttributeError''))"

definition source_ddl :: "json \<Rightarrow> printed" where
  "source_ddl ddl = (if truthy ddl
     then with_ddl ddl (\<lambda>s. [Bar (''  Source DDL  : '' @ take 120 (replace_char CHR 0x0A CHR '' '' (py_strip s)))])
     else say [])"

text \<open>\<^verbatim>\<open>textwrap.fill\<close> at width 90, the indent of the following lines taking nine columns.\<close>

definition command_lines :: "string \<Rightarrow> string list" where
  "command_lines cmd = wrap_text 90 81 cmd"

definition restart_hint :: string where
  "restart_hint = ''    kubectl rollout restart deployment/kafka-to-iceberg-standard  (or soft-delete / history-tracking) -n prod''"

definition command_part :: "string \<Rightarrow> line list" where
  "command_part cmd = (if cmd = [] then []
     else Bar ''  Command     :'' #
       (case command_lines cmd of [] \<Rightarrow> [Bar ''    '']
        | l # ls \<Rightarrow> Bar (''    '' @ l) # map (\<lambda>k. Bar (''      '' @ k)) ls) @
       [Bar [], Bar ''  After running the command, restart the pipeline:'', Bar restart_hint])"

definition change_part :: "string \<Rightarrow> string \<Rightarrow> json \<Rightarrow> string \<Rightarrow> int \<Rightarrow> change \<Rightarrow> string \<Rightarrow> printed" where
  "change_part src tbl ddl ts offset chg cmd =
     then_print (say [Plain [], Top (''['' @ src @ ''/'' @ tbl @ ''] '' @ change_detail chg),
         Bar (''  Detected at : '' @ ts @ ''  (offset='' @ str_of_int offset @ '')'')])
      (then_print (source_ddl ddl) (say (command_part cmd @ [Bottom])))"

definition command_at :: "string list \<Rightarrow> nat \<Rightarrow> string" where
  "command_at cmds i = (if i < length cmds then cmds ! i else [])"

definition unrecognised_part :: "string \<Rightarrow> string \<Rightarrow> json \<Rightarrow> string \<Rightarrow> int \<Rightarrow> printed" where
  "unrecognised_part src tbl ddl ts offset =
     then_print (say [Plain [], Top (''['' @ src @ ''/'' @ tbl @ ''] DDL (unrecognised pattern '' @ em_dash @ '' manual review needed)''),
         Bar (''  Detected at : '' @ ts @ ''  (offset='' @ str_of_int offset @ '')'')])
      (then_print (with_ddl ddl (\<lambda>s. [Bar (''  DDL         : '' @ take 200 (py_strip s))])) (say [Bottom]))"

fun print_result :: "bool \<Rightarrow> extracted \<Rightarrow> printed" where
  "print_result raw_mode (Raw_Event src raw offset) = (if raw_mode
     then say [Plain [], Plain (''[offset='' @ str_of_int offset @ ''] raw event:''), Plain raw]
     else ([], Some ''KeyError''))"
| "print_result raw_mode (Ddl_Event src tbl ddl chgs cmds ts offset) = (if raw_mode
     then ([Plain [], Plain (''[offset='' @ str_of_int offset @ ''] raw event:'')], Some ''KeyError'')
     else then_print
       (print_all (\<lambda>(i, chg). change_part src tbl ddl ts offset chg (command_at cmds i)) (enumerate 0 chgs))
       (if chgs = [] \<and> truthy ddl then unrecognised_part src tbl ddl ts offset else say []))"

definition print_results :: "bool \<Rightarrow> extracted list \<Rightarrow> printed" where
  "print_results raw_mode results = (if results = [] then say [Plain ''  (no DDL events found)'']
     else print_all (print_result raw_mode) results)"

section \<open>Credentials\<close>

text \<open>The subprocess that reads the token, base64 and the HTTP request are parameters.\<close>

record vault =
  va_env_token :: "string option"
  va_kubectl :: "string + string"
  va_b64decode :: "string \<Rightarrow> string + string"
  va_get :: "string \<Rightarrow> string \<Rightarrow> string + json"

definition bao_token :: "vault \<Rightarrow> string + string" where
  "bao_token v = (case va_env_token v of
     Some t \<Rightarrow> if t \<noteq> [] then Inr t else bind (va_kubectl v) (\<lambda>out. va_b64decode v (py_strip out))
   | None \<Rightarrow> bind (va_kubectl v) (\<lambda>out. va_b64decode v (py_strip out)))"

fun json_item :: "json \<Rightarrow> string \<Rightarrow> string + json" where
  "json_item (JObj kvs) k = (case map_of kvs k of Some x \<Rightarrow> Inr x | None \<Rightarrow> Inl ''KeyError'')"
| "json_item _ k = Inl ''TypeError''"

definition bao_read :: "vault \<Rightarrow> string \<Rightarrow> string \<Rightarrow> string + json" where
  "bao_read v addr path = bind (bao_token v) (\<lambda>tok.
     bind (va_get v (addr @ ''/v1/'' @ path) tok) (\<lambda>body.
       bind (json_item body ''data'') (\<lambda>d. json_item d ''data'')))"

definition kafka_credentials :: "vault \<Rightarrow> string \<Rightarrow> string + json \<times> json" where
  "kafka_credentials v addr = bind (bao_read v addr ''secret/data/platform/kafka'') (\<lambda>secret.
     bind (json_get secret ''debezium_user'' (JStr ''debezium-user'')) (\<lambda>user.
       bind (json_get secret ''debezium_password'' (JStr [])) (\<lambda>pass. Inr (user, pass))))"

section \<open>The command line\<close>

definition extract_options :: "(string \<times> opt_kind) list" where
  "extract_options = [(''--source'', Takes_Value), (''--max-messages'', Takes_Value), (''--from-offset'', Takes_Value),
     (''--raw'', Is_Flag), (''--yes'', Is_Flag), (''-y'', Is_Flag), (''--help'', Is_Help), (''-h'', Is_Help)]"

record extract_args =
  xa_source :: "string option"
  xa_max_messages :: int
  xa_from_offset :: int
  xa_raw :: bool
  xa_yes :: bool

definition int_option :: "(string \<times> string) list \<Rightarrow> string \<Rightarrow> int \<Rightarrow> int option" where
  "int_option given oname d = (case map_of given oname of None \<Rightarrow> Some d | Some s \<Rightarrow> py_int s)"

definition parse_extract_args :: "string list \<Rightarrow> extract_args option" where
  "parse_extract_args argv = (case parse_options extract_options argv [] of None \<Rightarrow> None
     | Some given \<Rightarrow>
        (case (int_option given ''--max-messages'' 10000, int_option given ''--from-offset'' 0) of
           (Some mx, Some off) \<Rightarrow>
             (if map_of given ''--source'' \<in> {None, Some ''postgres'', Some ''oracle'', Some ''mongodb''}
              then Some \<lparr>xa_source = map_of given ''--source'', xa_max_messages = mx, xa_from_offset = off,
                  xa_raw = (map_of given ''--raw'' \<noteq> None),
                  xa_yes = (map_of given ''--yes'' \<noteq> None \<or> map_of given ''-y'' \<noteq> None)\<rparr>
              else None)
         | _ \<Rightarrow> None))"

definition chosen_sources :: "extract_args \<Rightarrow> topic_source list" where
  "chosen_sources a = (case xa_source a of None \<Rightarrow> sources
     | Some k \<Rightarrow> filter (\<lambda>s. ts_source_key s = k) sources)"

section \<open>A run\<close>

text \<open>
  The world of a run: whether the prompt is answered (it can be interrupted), the vault, and the
  broker as it answers to a user, a password and the offset the partitions are read from.
\<close>

record extract_world =
  wo_answered :: bool
  wo_vault :: vault
  wo_addr :: string
  wo_broker :: "json \<Rightarrow> json \<Rightarrow> int \<Rightarrow> broker"
  wo_codecs :: codecs

datatype extract_outcome =
    Usage_Exit
  | Aborted
  | No_Credentials
  | Crashed "line list" string
  | Finished "line list" nat

definition source_header :: "topic_source \<Rightarrow> line list" where
  "source_header s = [Plain [], Plain (''Source: '' @ ts_source_key s @ ''  topic: '' @ ts_ddl_topic s)]"

text \<open>The loop over the sources: \<open>None\<close> when a topic is never read to its end.\<close>

fun read_sources :: "broker \<Rightarrow> codecs \<Rightarrow> extract_args \<Rightarrow> topic_source list \<Rightarrow> nat \<Rightarrow> (printed \<times> nat) option" where
  "read_sources bk cd a [] found = Some (say [], found)"
| "read_sources bk cd a (s # ss) found =
     (case consume_ddl_topic bk cd s (xa_max_messages a) (xa_raw a) of None \<Rightarrow> None
      | Some results \<Rightarrow>
         (case then_print (say (source_header s)) (print_results (xa_raw a) results) of
            (ls, Some exc) \<Rightarrow> Some ((ls, Some exc), found)
          | (ls, None) \<Rightarrow>
             (case read_sources bk cd a ss (found + length results) of None \<Rightarrow> None
              | Some (p, n) \<Rightarrow> Some (then_print (say ls) p, n))))"

definition summary :: "nat \<Rightarrow> line list" where
  "summary found = Plain (''  Total DDL events found: '' @ str_of_nat found) #
     (if found = 0 then
        [Plain [], Plain ''  No pending DDL events detected.'',
         Plain ''  If the pipeline is still failing with SCHEMA MISMATCH, the'',
         Plain ''  DDL may have been applied BEFORE the Debezium connector was'',
         Plain ''  configured.  In that case, run ddl_apply.py manually:'', Plain [],
         Plain (''    python3 scripts/ddl_apply.py '' @ [CHR 0x5C]),
         Plain (''        --source <source> --table <table> '' @ [CHR 0x5C]),
         Plain ''        --op add --col <new_column> --type <TYPE>'']
      else
        [Plain [], Plain ''  Copy the command(s) above and execute them in order.'',
         Plain ''  After each command, watch the pipeline logs:'',
         Plain ''    kubectl logs -n prod -l app=kafka-to-iceberg -f''])"

definition extract_main :: "extract_world \<Rightarrow> string list \<Rightarrow> extract_outcome option" where
  "extract_main w argv = (case parse_extract_args argv of None \<Rightarrow> Some Usage_Exit
     | Some a \<Rightarrow>
        if \<not> xa_yes a \<and> \<not> wo_answered w then Some Aborted
        else (case kafka_credentials (wo_vault w) (wo_addr w) of Inl exc \<Rightarrow> Some No_Credentials
          | Inr (user, pass) \<Rightarrow>
             (case read_sources (wo_broker w user pass (xa_from_offset a)) (wo_codecs w) a (chosen_sources a) 0 of
                None \<Rightarrow> None
              | Some ((ls, Some exc), n) \<Rightarrow> Some (Crashed ls exc)
              | Some ((ls, None), n) \<Rightarrow> Some (Finished (ls @ summary n) n))))"

section \<open>Every change is printed with its command\<close>

lemma build_command_nonempty: "build_command k tbl c \<noteq> []"
  by (cases c) (simp_all add: command_start_def)

lemma event_commands:
  assumes "handle_message cd raw source offset val = Inr (Some (Ddl_Event src tbl ddl chgs cmds ts off))"
  shows "cmds = map (build_command src tbl) chgs \<and> src = source \<and> off = offset \<and> \<not> raw"
  using assms build_command_nonempty
  by (auto simp: handle_message_def bind_def Let_def filter_id_conv split: option.splits sum.splits if_splits)

lemma print_all_ok: "\<forall>x \<in> set xs. snd (f x) = None \<Longrightarrow> print_all f xs = (concat (map (fst \<circ> f) xs), None)"
  by (induction xs) (auto simp: say_def then_print_def split: prod.split)

definition part_lines :: "string \<Rightarrow> string \<Rightarrow> string \<Rightarrow> string \<Rightarrow> int \<Rightarrow> change \<Rightarrow> line list" where
  "part_lines src tbl ddl ts offset chg = fst (change_part src tbl (JStr ddl) ts offset chg (build_command src tbl chg))"

lemma change_part_ok: "snd (change_part src tbl (JStr ddl) ts offset chg cmd) = None"
  by (simp add: change_part_def then_print_def say_def source_ddl_def with_ddl_def)

lemma print_event:
  assumes "chgs \<noteq> []"
  shows "print_result False (Ddl_Event src tbl (JStr ddl) chgs (map (build_command src tbl) chgs) ts off) =
    (concat (map (part_lines src tbl ddl ts off) chgs), None)"
proof -
  let ?f = "\<lambda>(i, chg). change_part src tbl (JStr ddl) ts off chg (command_at (map (build_command src tbl) chgs) i)"
  have "map (fst \<circ> ?f) (enumerate 0 chgs) = map (part_lines src tbl ddl ts off) chgs"
    by (rule nth_equalityI) (simp_all add: nth_enumerate_eq command_at_def part_lines_def)
  moreover have "\<forall>x \<in> set (enumerate 0 chgs). snd (?f x) = None" by (auto simp: change_part_ok)
  ultimately show ?thesis
    using print_all_ok[of "enumerate 0 chgs" ?f] assms by (simp add: then_print_def say_def)
qed

lemma bar_in_part:
  "set (command_part (build_command src tbl chg)) \<subseteq> set (part_lines src tbl ddl ts off chg)"
  by (auto simp: part_lines_def change_part_def then_print_def say_def source_ddl_def with_ddl_def)

section \<open>The words of a command\<close>

lemma command_lines_words: "concat (map py_split (command_lines cmd)) = py_split cmd"
  by (simp add: command_lines_def wrap_text_words)

text \<open>
  the lines under a printed command hold exactly the words of the command, in order, whatever
  the names in it are; no line is longer than its width unless it is a single word.
\<close>

theorem printed_words_are_the_command:
  fixes source tbl c
  defines "ls \<equiv> command_lines (build_command source tbl c)"
  shows "concat (map py_split ls) = py_split (build_command source tbl c) \<and>
    list_all (\<lambda>i. length (ls ! i) \<le> (if i = 0 then 90 else 81) \<or> CHR '' '' \<notin> set (ls ! i)) [0..<length ls]"
  unfolding ls_def using command_lines_words wrap_text_width[of _ 90 81]
  by (simp add: list_all_iff command_lines_def)

section \<open>A broken command is not run half\<close>

definition refused :: "string list \<Rightarrow> bool" where
  "refused argv = (case parse_args argv of None \<Rightarrow> True | Some p \<Rightarrow> check_args (pr_args p) = None)"

lemma lone_option: "\<not> is_value cli_options oname \<and> find_option cli_options oname = Some (oname, None) \<and>
    map_of cli_options oname = Some Takes_Value \<Longrightarrow> parse_options cli_options [oname] acc = None"
  by simp

lemmas parse_command = option_words[THEN parse_option_value] option_words[THEN lone_option]

lemma given_up_args:
  assumes "is_value cli_options source" "is_value cli_options tbl" "is_value cli_options opname" "is_value cli_options col"
    and "n < 8" and "words = [''--source'', source, ''--table'', tbl, ''--op'', opname, ''--col'', col] @ tail"
  shows "parse_args (take n words) = None"
proof -
  have "n = 0 \<or> n = 1 \<or> n = 2 \<or> n = 3 \<or> n = 4 \<or> n = 5 \<or> n = 6 \<or> n = 7" using assms(5) by arith
  then show ?thesis
    unfolding assms(6) parse_args_def
    by (elim disjE) (simp_all add: parse_command assms del: parse_options.simps(2) split: option.split)
qed

lemma untyped_args:
  assumes "source \<in> set (map fst source_registry)" "is_value cli_options source" "is_value cli_options tbl"
    "op_of opname = Some oper" "is_value cli_options opname" "is_value cli_options col" "oper \<noteq> Drop"
    and "oname \<in> {''--type'', ''--new-col''}"
  shows "refused [''--source'', source, ''--table'', tbl, ''--op'', opname, ''--col'', col]"
    "refused [''--source'', source, ''--table'', tbl, ''--op'', opname, ''--col'', col, oname]"
proof -
  have none: "check_args (pr_args (parsed_args source tbl oper col None None)) = None"
    using assms(7) by (cases oper) (simp_all add: check_args_def parsed_args_def set_opt_def default_modes)
  show "refused [''--source'', source, ''--table'', tbl, ''--op'', opname, ''--col'', col]"
    unfolding refused_def parse_printed(1)[OF assms(1-6)] using none by simp
  show "refused [''--source'', source, ''--table'', tbl, ''--op'', opname, ''--col'', col, oname]"
    using assms(8) unfolding refused_def parse_args_def
    by (auto simp only: insert_iff empty_iff parse_command assms(1-6) option.case)
qed

lemma refused_prefix:
  assumes "source \<in> {''postgres'', ''oracle'', ''mongodb''}" "arg_word tbl" "list_all arg_word (change_args c)"
    and "n < length (drop 2 (py_split (build_command source tbl c)))"
  shows "refused (take n (drop 2 (py_split (build_command source tbl c))))"
proof -
  note src = registered[OF assms(1)]
  note vals = arg_word_facts(3)[OF src[THEN conjunct2]] arg_word_facts(3)[OF assms(2)]
  have ops: "is_value cli_options ''add''" "is_value cli_options ''drop''" "is_value cli_options ''modify''" "is_value cli_options ''rename''"
    by (simp_all add: is_value_def)
  have names: "op_of ''add'' = Some Add" "op_of ''drop'' = Some Drop" "op_of ''modify'' = Some Modify"
    "op_of ''rename'' = Some Rename" by (simp_all add: op_of_def)
  obtain opname oper col tail where words: "drop 2 (py_split (build_command source tbl c)) =
      [''--source'', source, ''--table'', tbl, ''--op'', opname, ''--col'', col] @ tail"
    and o: "is_value cli_options opname" "op_of opname = Some oper" "is_value cli_options col"
    and tail: "tail = [] \<or> (\<exists>oname v. tail = [oname, v] \<and> oname \<in> {''--type'', ''--new-col''} \<and> oper \<noteq> Drop)"
    using assms(3) ops names command_words[OF assms(1-3)] arg_word_facts(3) by (cases c) fastforce+
  show ?thesis
  proof (cases "n < 8")
    case True
    then show ?thesis using given_up_args[OF vals o(1,3) True words] by (simp add: refused_def)
  next
    case False
    then obtain oname v where m: "tail = [oname, v]" "oname \<in> {''--type'', ''--new-col''}" "oper \<noteq> Drop"
      using tail assms(4) unfolding words by auto
    have "n = 8 \<or> n = 9" using assms(4) False unfolding words m by (simp; arith)
    then show ?thesis
      using untyped_args[OF src[THEN conjunct1] vals o(2) o(1) o(3) m(3) m(2)] by (auto simp: words m)
  qed
qed

lemma command_plain:
  assumes "source \<in> {''postgres'', ''oracle'', ''mongodb''}" "arg_word tbl" "list_all arg_word (change_args c)"
  shows "plain_spaces (build_command source tbl c)"
proof -
  have "plain_spaces s" if "arg_word s" for s using that by (auto simp: arg_word_def plain_spaces_def no_space_def list_all_iff)
  moreover have "plain_spaces s" if "source = s" "s \<in> {''postgres'', ''oracle'', ''mongodb''}" for s
    using that by (auto simp: plain_spaces_def py_space_def)
  ultimately show ?thesis using assms
    by (cases c) (auto simp: command_start_def plain_spaces_def py_space_def wrap_space_def)
qed

lemma refused_changes_nothing: "refused argv \<Longrightarrow> fst (main e pod answer argv s) \<in> {Inr Parser_Exit, Inr (Status 1)} \<and> snd (main e pod answer argv s) = s"
  by (auto simp: refused_def main_def ret_def Let_def split: option.splits)

text \<open>
  C33: a command that the report of a PostgreSQL or Oracle statement breaks over several lines is
  never carried out in part: the words of its first line, which is what a shell runs when the lines
  are pasted, are refused by \<^verbatim>\<open>ddl_apply.py\<close> before it issues any command.
\<close>

theorem broken_command_does_nothing:
  assumes "source \<in> {''postgres'', ''oracle''}" "arg_word tbl" "parse_ddl_text source ddl = Inr cs" "c \<in> set cs"
    and "1 < length (command_lines (build_command source tbl c))"
  shows "fst (main e pod answer (drop 2 (py_split (hd (command_lines (build_command source tbl c))))) s)
      \<in> {Inr Parser_Exit, Inr (Status 1)} \<and>
    snd (main e pod answer (drop 2 (py_split (hd (command_lines (build_command source tbl c))))) s) = s"
proof -
  let ?cmd = "build_command source tbl c"
  have src: "source \<in> {''postgres'', ''oracle'', ''mongodb''}" using assms(1) by auto
  note args = parsed_change_args[OF assms(3,4)]
  obtain l1 l2 ls where ls: "command_lines ?cmd = l1 # l2 # ls"
    using assms(5) by (cases "command_lines ?cmd" rule: remdups_adj.cases) auto
  have "py_split l2 \<noteq> []"
    using wrap_text_nonblank[OF command_plain[OF src assms(2) args]] ls
    by (intro split_nonblank) (metis command_lines_def list.set_intros)
  moreover have "py_split ?cmd = py_split l1 @ py_split l2 @ concat (map py_split ls)"
    using command_lines_words[of ?cmd] by (simp add: ls)
  ultimately obtain n where n: "py_split l1 = take n (py_split ?cmd)" "n < length (py_split ?cmd)"
    using that[of "length (py_split l1)"] by (cases "py_split l2") auto
  have "drop 2 (py_split ?cmd) \<noteq> []"
    using command_words[OF src assms(2) args] by simp
  then have long: "2 < length (py_split ?cmd)" by simp
  have "drop 2 (py_split l1) = take (n - 2) (drop 2 (py_split ?cmd))" unfolding n(1) by (simp add: drop_take)
  then show ?thesis
    using refused_changes_nothing refused_prefix[OF src assms(2) args, of "n - 2"] n(2) long by (simp add: ls)
qed

definition pasted :: run_state where
  "pasted = \<lparr>rs_trace = [], rs_clock = 0\<rparr>"

lemma broken_command_does_nothing_witness:
  "fst (main (demo_env True) [] None (drop 2 (py_split (hd (command_lines (build_command ''postgres'' ''customers'' (Ch_Add ''shipped_at'' ''TIMESTAMP'')))))) pasted)
      \<in> {Inr Parser_Exit, Inr (Status 1)} \<and>
    snd (main (demo_env True) [] None (drop 2 (py_split (hd (command_lines (build_command ''postgres'' ''customers'' (Ch_Add ''shipped_at'' ''TIMESTAMP'')))))) pasted) = pasted"
proof (rule broken_command_does_nothing)
  have "stmt_ok (Add_Stmt ''customers'' ''shipped_at'' ''TIMESTAMP'')" "py_lower ''shipped_at'' = ''shipped_at''"
    "src_type_to_iceberg ''postgres'' ''TIMESTAMP'' = Inr ''TIMESTAMP''" by code_simp+
  then show "parse_ddl_text ''postgres'' (print_stmt (Add_Stmt ''customers'' ''shipped_at'' ''TIMESTAMP'')) = Inr [Ch_Add ''shipped_at'' ''TIMESTAMP'']"
    by (simp only: parse_of_print change_of.simps bind_def sum.case)
  show "1 < length (command_lines (build_command ''postgres'' ''customers'' (Ch_Add ''shipped_at'' ''TIMESTAMP'')))"
    by code_simp
qed (simp_all add: arg_word_def no_space_def py_space_def)

section \<open>A run ends\<close>

lemma results_handled:
  assumes "consume_ddl_topic bk cd src mx raw = Some rs" "r \<in> set rs"
  shows "\<exists>off val. handle_message cd raw (ts_source_key src) off val = Inr (Some r)"
proof -
  let ?h = "handle_message cd raw (ts_source_key src)"
  have step: "r \<in> set (results_after ?h rs0 p) \<Longrightarrow> r \<notin> set rs0 \<Longrightarrow> \<exists>off val. ?h off val = Inr (Some r)" for rs0 p
    by (cases p) (auto simp: appended_def split: sum.splits option.splits)
  have "r \<in> set (foldl (results_after ?h) [] ps) \<Longrightarrow> \<exists>off val. ?h off val = Inr (Some r)" for ps
  proof (induction ps rule: rev_induct)
    case (snoc p ps)
    then show ?case using step[of "foldl (results_after ?h) [] ps" p] by (cases "r \<in> set (foldl (results_after ?h) [] ps)") auto
  qed simp
  then show ?thesis
    using assms by (auto simp: consume_ddl_topic_meaning Let_def split: if_splits)
qed

lemma relational_result_printed:
  assumes "handle_message cd raw source off val = Inr (Some r)" "source \<noteq> ''mongodb''"
  shows "snd (print_result raw r) = None"
proof (cases r)
  case (Raw_Event k t i)
  then show ?thesis using assms
    by (auto simp: handle_message_def bind_def Let_def say_def split: option.splits sum.splits if_splits)
next
  case (Ddl_Event src tbl ddl chgs cmds ts i)
  note cmds = event_commands[OF assms(1)[unfolded Ddl_Event]]
  have "\<exists>s. ddl = JStr s"
    using assms unfolding Ddl_Event
    by (auto simp: handle_message_def bind_def Let_def parse_changes_def split: option.splits sum.splits if_splits json.splits)
  then obtain s where s: "ddl = JStr s" ..
  show ?thesis
  proof (cases "chgs = []")
    case True
    then show ?thesis using cmds s
      by (simp add: Ddl_Event then_print_def say_def unrecognised_part_def with_ddl_def)
  next
    case False
    then show ?thesis using print_event[OF False] cmds by (simp add: Ddl_Event s)
  qed
qed

lemma results_printed: "\<forall>r \<in> set rs. snd (print_result raw r) = None \<Longrightarrow> snd (print_results raw rs) = None"
  by (simp add: print_results_def say_def print_all_ok)

lemma read_sources_returns:
  assumes "\<And>s. s \<in> set ss \<Longrightarrow> answers (bk_poll bk (ts_ddl_topic s))"
  shows "\<exists>p n. read_sources bk cd a ss found = Some (p, n) \<and>
    ((\<forall>s \<in> set ss. ts_source_key s \<noteq> ''mongodb'') \<longrightarrow> snd p = None)"
  using assms
proof (induction ss arbitrary: found)
  case (Cons s ss)
  obtain rs where rs: "consume_ddl_topic bk cd s (xa_max_messages a) (xa_raw a) = Some rs"
    using consume_ddl_topic_returns[OF Cons.prems[of s], of cd "xa_max_messages a" "xa_raw a"] by auto
  let ?p = "then_print (say (source_header s)) (print_results (xa_raw a) rs)"
  obtain p n where rest: "read_sources bk cd a ss (found + length rs) = Some (p, n)"
    "(\<forall>s \<in> set ss. ts_source_key s \<noteq> ''mongodb'') \<longrightarrow> snd p = None" using Cons by fastforce
  have clean: "ts_source_key s \<noteq> ''mongodb'' \<Longrightarrow> snd ?p = None"
    using results_printed[of rs "xa_raw a"] relational_result_printed results_handled[OF rs]
    by (fastforce simp: then_print_def say_def)
  show ?case
    using rest clean by (cases ?p; cases "snd ?p") (auto simp: rs then_print_def say_def split: prod.splits option.splits)
qed (simp add: say_def)


definition demo_extract_world :: extract_world where
  "demo_extract_world = \<lparr>wo_answered = False,
     wo_vault = \<lparr>va_env_token = Some ''root'', va_kubectl = Inl ''CalledProcessError'', va_b64decode = Inr,
       va_get = (\<lambda>url tok. Inr (JObj [(''data'', JObj [(''data'', JObj [(''debezium_password'', JStr ''pw'')])])]))\<rparr>,
     wo_addr = ''http://vault'', wo_broker = (\<lambda>user pass offset. flaky_broker), wo_codecs = demo_codecs\<rparr>"


text \<open>An event of MongoDB whose DDL is an object ends the report, and the run, with an exception.\<close>

lemma object_ddl_ends_report:
  "handle_message \<lparr>cd_loads = (\<lambda>s. Inr (JObj [(''source'', JObj [(''collection'', JStr ''c'')]), (''ddl'', JObj [(''create'', JStr ''c'')])])),
      cd_dumps = (\<lambda>j. []), cd_utc_iso = (\<lambda>j. Inr [])\<rparr> False ''mongodb'' 7 (Some ''{}'') =
    Inr (Some (Ddl_Event ''mongodb'' ''c'' (JObj [(''create'', JStr ''c'')]) [] [] ''unknown'' 7))"
  "snd (print_results False [Ddl_Event ''mongodb'' ''c'' (JObj [(''create'', JStr ''c'')]) [] [] ''unknown'' 7]) = Some ''AttributeError''"
  by code_simp+

end
