(* ===== verification/Test_Shell.thy ===== *)
theory Test_Shell
  imports Ddl_Apply Py_Argparse "HOL-Library.AList"
begin

text \<open>
  What the end-to-end tests of the CDC pipeline (\<^verbatim>\<open>scripts/ddl_rename_test.py\<close>, \<^verbatim>\<open>scripts/ddl_e2e_test.py\<close>)
  have in common: every step is a subprocess, answered by the record \<open>host\<close> from the commands before
  it, and the run keeps those answers, the clock, and the results recorded for the final report. The
  programs sent into a pod are commands that carry the values they interpolate. What is printed on the
  way is left out.
\<close>

section \<open>Commands\<close>

record customer_row =
  cu_id :: int
  cu_name :: string
  cu_last :: string
  cu_email :: string
  cu_credit :: nat
  cu_tier :: string
  cu_value :: "int option"

datatype pod_program =
    Conf_Program
  | Creds_Program
  | Pg_Insert string "string option" "customer_row list"
  | Mgo_Set_Null string string
  | Mgo_Rename string string string
  | Mgo_Unset string string
  | Mgo_Insert string "string option" "customer_row list"

datatype test_cmd =
    Kube "string list"
  | Psql string
  | Sqlplus string string string
  | Pod_Python string pod_program
  | Pod_Spark string string string

record host =
  ho_run :: "(test_cmd \<times> run_result) list \<Rightarrow> test_cmd \<Rightarrow> run_result"
  ho_secs :: "(test_cmd \<times> run_result) list \<Rightarrow> test_cmd \<Rightarrow> nat"

type_synonym check = "string \<times> bool \<times> string"

record test_session =
  se_trace :: "(test_cmd \<times> run_result) list"
  se_clock :: nat
  se_results :: "check list"
  se_flags :: string

section \<open>Steps\<close>

text \<open>A step raises (\<open>Inl\<close>) or returns, and leaves a new session.\<close>

type_synonym 'a step = "test_session \<Rightarrow> (string + 'a) \<times> test_session"

definition yield :: "'a \<Rightarrow> 'a step" where
  "yield x s = (Inr x, s)"

definition throw :: "string \<Rightarrow> 'a step" where
  "throw exc s = (Inl exc, s)"

definition chain :: "'a step \<Rightarrow> ('a \<Rightarrow> 'b step) \<Rightarrow> 'b step" where
  "chain m f s = (case m s of (Inl exc, s1) \<Rightarrow> (Inl exc, s1) | (Inr x, s1) \<Rightarrow> f x s1)"

text \<open>\<^verbatim>\<open>try: m except Exception: h\<close>.\<close>

definition rescue :: "'a step \<Rightarrow> 'a step \<Rightarrow> 'a step" where
  "rescue m h s = (case m s of (Inl exc, s1) \<Rightarrow> h s1 | (Inr x, s1) \<Rightarrow> (Inr x, s1))"

text \<open>The value, or \<open>None\<close> when the step raised.\<close>

definition attempted :: "'a step \<Rightarrow> 'a option step" where
  "attempted m = rescue (chain m (\<lambda>x. yield (Some x))) (yield None)"

fun each :: "('a \<Rightarrow> unit step) \<Rightarrow> 'a list \<Rightarrow> unit step" where
  "each f [] = yield ()"
| "each f (x # xs) = chain (f x) (\<lambda>_. each f xs)"

definition proc :: "host \<Rightarrow> test_cmd \<Rightarrow> (int \<times> string \<times> string) step" where
  "proc h c s = (let r = ho_run h (se_trace s) c in
     ((case r of Completed rc out err \<Rightarrow> Inr (rc, out, err) | Run_Failed exc \<Rightarrow> Inl exc),
      s\<lparr>se_trace := se_trace s @ [(c, r)], se_clock := se_clock s + ho_secs h (se_trace s) c\<rparr>))"

definition pause :: "nat \<Rightarrow> unit step" where
  "pause n s = (Inr (), s\<lparr>se_clock := se_clock s + n\<rparr>)"

definition now :: "nat step" where
  "now s = (Inr (se_clock s), s)"

definition record_check :: "string \<Rightarrow> bool \<Rightarrow> string \<Rightarrow> unit step" where
  "record_check label passed detail s = (Inr (), s\<lparr>se_results := se_results s @ [(label, passed, detail)]\<rparr>)"

section \<open>Connection strings\<close>

text \<open>
  What \<^verbatim>\<open>_bao_secret\<close> answers for a path is a parameter. An override from the environment wins, and then
  the user and the password are not asked for.
\<close>

definition secret_item :: "(string \<times> string) list \<Rightarrow> string \<Rightarrow> string + string" where
  "secret_item d k = (case map_of d k of Some v \<Rightarrow> Inr v | None \<Rightarrow> Inl ''KeyError'')"

definition or_built :: "string option \<Rightarrow> string + string \<Rightarrow> string + string" where
  "or_built given built = (case given of Some g \<Rightarrow> if g \<noteq> [] then Inr g else built | None \<Rightarrow> built)"

definition user_and_password :: "(string \<times> string) list \<Rightarrow> string \<Rightarrow> string \<Rightarrow> string \<Rightarrow> string + string" where
  "user_and_password d user sep password = bind (secret_item d user) (\<lambda>u. bind (secret_item d password) (\<lambda>p. Inr (u @ sep @ p)))"

definition pg_dsn_of :: "(string \<times> string) list \<Rightarrow> string + string" where
  "pg_dsn_of pg = bind (user_and_password pg ''user'' '':'' ''password'') (\<lambda>up.
     Inr (''postgresql://'' @ up @ ''@'' @ get_or pg ''host'' ''postgresql.prod.svc.cluster.local'' @ '':'' @
       get_or pg ''port'' ''5432'' @ ''/'' @ get_or pg ''database'' ''cache_testing''))"

definition mgo_uri_of :: "(string \<times> string) list \<Rightarrow> string + string" where
  "mgo_uri_of mgo = bind (user_and_password mgo ''user'' '':'' ''password'') (\<lambda>up.
     Inr (''mongodb://'' @ up @ ''@'' @ get_or mgo ''host'' ''mongodb.prod.svc.cluster.local'' @ '':'' @ get_or mgo ''port'' ''27017'' @
       ''/?authSource='' @ get_or mgo ''auth_source'' ''admin'' @ ''&replicaSet=rs0''))"

definition resolve_dsns ::
  "(string \<Rightarrow> string + (string \<times> string) list) \<Rightarrow> string option \<Rightarrow> string option \<Rightarrow> string + string \<times> string" where
  "resolve_dsns secret env_pg env_mgo = bind (secret ''secret/data/platform/postgres'') (\<lambda>pg.
     bind (secret ''secret/data/platform/mongodb'') (\<lambda>mgo.
       bind (or_built env_pg (pg_dsn_of pg)) (\<lambda>d. bind (or_built env_mgo (mgo_uri_of mgo)) (\<lambda>u. Inr (d, u)))))"

definition ora_dsn :: "(string \<Rightarrow> string + (string \<times> string) list) \<Rightarrow> string + string" where
  "ora_dsn secret = bind (secret ''secret/data/platform/oracle'') (\<lambda>ora.
     bind (user_and_password ora ''app_user'' ''/'' ''app_password'') (\<lambda>up.
       Inr (up @ ''@'' @ get_or ora ''host'' ''oracle-xe.prod.svc.cluster.local'' @ '':'' @ get_or ora ''port'' ''1521'' @
         ''/'' @ get_or ora ''service'' ''XEPDB1'')))"

section \<open>kubectl and pods\<close>

definition test_kubectl :: "host \<Rightarrow> bool \<Rightarrow> string list \<Rightarrow> string step" where
  "test_kubectl h check args = chain (proc h (Kube args)) (\<lambda>(rc, out, err).
     if check \<and> rc \<noteq> 0 then throw ''CalledProcessError'' else yield (py_strip out))"

definition get_db_pod :: "host \<Rightarrow> string step" where
  "get_db_pod h = chain (test_kubectl h True
       [''get'', ''pods'', ''-l'', ''app=kafka-to-iceberg,pipeline.write-mode=standard,pipeline.source=postgres'',
        ''--field-selector=status.phase=Running'', ''-o'', ''jsonpath={.items[0].metadata.name}''])
     (\<lambda>pod. if pod = [] then throw ''No running postgres-standard streaming pod.'' else yield pod)"

text \<open>The exception carries the error output, or what was printed when that is empty.\<close>

definition or_raise :: "int \<times> string \<times> string \<Rightarrow> string step" where
  "or_raise r = (case r of (rc, out, err) \<Rightarrow>
     if rc \<noteq> 0 then throw (if py_strip err \<noteq> [] then py_strip err else py_strip out) else yield (py_strip out))"

definition pod_exec :: "host \<Rightarrow> pod_program \<Rightarrow> string step" where
  "pod_exec h p = chain (get_db_pod h) (\<lambda>pod. chain (proc h (Pod_Python pod p)) or_raise)"

definition pg_ddl :: "host \<Rightarrow> string \<Rightarrow> unit step" where
  "pg_ddl h sql = chain (proc h (Psql sql)) (\<lambda>r. chain (or_raise r) (\<lambda>_. yield ()))"

section \<open>Oracle\<close>

definition apos :: string where
  "apos = [CHR 0x27]"

definition in_apos :: "string \<Rightarrow> string" where
  "in_apos s = apos @ s @ apos"

definition ora_errors :: "string \<Rightarrow> string list" where
  "ora_errors out = filter (\<lambda>l. startswith (py_strip l) ''ORA-'') (py_splitlines out)"

definition ora_run :: "host \<Rightarrow> string \<Rightarrow> string \<Rightarrow> string step" where
  "ora_run h dsn script = chain (test_kubectl h True [''get'', ''pods'', ''-l'', ''app=oracle-xe'', ''-o'', ''jsonpath={.items[0].metadata.name}''])
     (\<lambda>pod. if pod = [] then throw ''No oracle-xe pod found.''
       else chain (proc h (Sqlplus pod dsn (py_strip script @ newline @ ''EXIT;'' @ newline))) (\<lambda>(rc, out, err).
         let text = py_strip (out @ err) in
         if rc \<noteq> 0 \<or> ora_errors text \<noteq> [] then throw text else yield text))"

text \<open>A block that runs a statement when the number of columns of that name is as it must be.\<close>

definition ora_block :: "string \<Rightarrow> string \<Rightarrow> string \<Rightarrow> string" where
  "ora_block col cond stmt = py_join newline
     [[], ''DECLARE v NUMBER;'', ''BEGIN'', ''  SELECT COUNT(*) INTO v FROM all_tab_columns'',
      ''  WHERE owner='' @ in_apos ''CACHE_TESTING'' @ '' AND table_name='' @ in_apos ''CUSTOMERS'',
      ''    AND column_name='' @ in_apos (py_upper col) @ '';'',
      ''  IF v '' @ cond @ '' THEN'', ''    EXECUTE IMMEDIATE '' @ in_apos (''ALTER TABLE CUSTOMERS '' @ stmt) @ '';'',
      ''  END IF;'', ''END;'', ''/'']"

definition discard :: "'a step \<Rightarrow> unit step" where
  "discard m = chain m (\<lambda>_. yield ())"

section \<open>Spark\<close>

text \<open>The flags are built by a program in the pod, and kept; empty ones are built again.\<close>

definition conf_flags :: "string \<Rightarrow> string" where
  "conf_flags out = py_join '' '' (map (\<lambda>l. ''--conf '' @ in_apos (py_strip l)) (filter (\<lambda>l. CHR ''='' \<in> set l) (py_splitlines (py_strip out))))"

definition kept_flags :: "string step" where
  "kept_flags s = (Inr (se_flags s), s)"

definition keep_flags :: "string \<Rightarrow> string step" where
  "keep_flags flags s = (Inr flags, s\<lparr>se_flags := flags\<rparr>)"

definition test_spark_flags :: "host \<Rightarrow> string step" where
  "test_spark_flags h = chain kept_flags (\<lambda>kept. if kept \<noteq> [] then yield kept
     else chain (get_db_pod h) (\<lambda>pod. chain (proc h (Pod_Python pod Conf_Program)) (\<lambda>(rc, out, err).
       if rc \<noteq> 0 then throw (''Spark conf build failed:'' @ newline @ py_strip err) else keep_flags (conf_flags out))))"

definition test_spark_sql :: "host \<Rightarrow> string \<Rightarrow> string step" where
  "test_spark_sql h sql = chain (get_db_pod h) (\<lambda>pod. chain (test_spark_flags h) (\<lambda>flags.
     chain (proc h (Pod_Spark pod flags (py_strip sql))) (\<lambda>(rc, out, err). yield (py_strip out))))"

type_synonym ice_table = "string \<times> string \<times> string"

definition table_sql :: "ice_table \<Rightarrow> string" where
  "table_sql t = (case t of (cat, ns, tbl) \<Rightarrow> ''`'' @ cat @ ''`.`'' @ ns @ ''`.`'' @ tbl @ ''`'')"

definition table_has_col :: "host \<Rightarrow> ice_table \<Rightarrow> string \<Rightarrow> bool step" where
  "table_has_col h t col = chain (test_spark_sql h (''DESCRIBE TABLE '' @ table_sql t))
     (\<lambda>out. yield (contains (py_lower col) (py_lower out)))"

definition count_of :: "string \<Rightarrow> int" where
  "count_of out = (case py_splitlines (py_strip out) of [] \<Rightarrow> 0
     | ls \<Rightarrow> (case py_int (last ls) of None \<Rightarrow> 0 | Some n \<Rightarrow> n))"

definition iceberg_count :: "host \<Rightarrow> ice_table \<Rightarrow> string \<Rightarrow> int list \<Rightarrow> string \<Rightarrow> int step" where
  "iceberg_count h t pk ids cond =
     chain (test_spark_sql h (''SELECT COUNT(*) FROM '' @ table_sql t @ '' WHERE `'' @ pk @ ''` IN ('' @
       py_join '', '' (map str_of_int ids) @ '') AND '' @ cond)) (\<lambda>out. yield (count_of out))"

definition type_in :: "string \<Rightarrow> string \<Rightarrow> string" where
  "type_in out col =
     (case List.find (\<lambda>parts. parts \<noteq> [] \<and> py_lower (hd parts) = py_lower col) (map py_split (py_splitlines out)) of
        None \<Rightarrow> ''not_found''
      | Some parts \<Rightarrow> if 1 < length parts then py_lower (parts ! 1) else ''unknown'')"

definition table_col_type :: "host \<Rightarrow> ice_table \<Rightarrow> string \<Rightarrow> string step" where
  "table_col_type h t col = chain (test_spark_sql h (''DESCRIBE TABLE '' @ table_sql t)) (\<lambda>out. yield (type_in out col))"

definition ice_tables :: "ice_table list" where
  "ice_tables = [(''postgres'', ''cache_testing'', ''customers''), (''postgres'', ''cache_testing'', ''customers_sd''),
     (''oracle'', ''cache_testing'', ''customers''), (''oracle'', ''cache_testing'', ''customers_sd''),
     (''mongodb'', ''cache_testing'', ''customers''), (''mongodb'', ''cache_testing'', ''customers_sd''),
     (''mongodb'', ''cache_testing'', ''customers_hist'')]"

definition table_name :: "ice_table \<Rightarrow> string" where
  "table_name t = (case t of (cat, ns, tbl) \<Rightarrow> cat @ ''.'' @ ns @ ''.'' @ tbl)"

section \<open>Restarts of the streaming pods\<close>

definition restart_counts :: "string list \<Rightarrow> (string \<times> int) list" where
  "restart_counts ls = fold (\<lambda>l d.
     let parts = py_split_on CHR '':'' l in
     if length parts < 2 then d
     else (let n = py_strip (last parts) in
       case (if n = [] then Some 0 else py_int n) of None \<Rightarrow> d
       | Some k \<Rightarrow> AList.update (py_strip (py_join '':'' (butlast parts))) k d)) ls []"

definition snapshot_restarts :: "host \<Rightarrow> (string \<times> int) list step" where
  "snapshot_restarts h = chain (test_kubectl h False
       [''get'', ''pods'', ''-l'', ''app=kafka-to-iceberg'', ''-o'',
        ''jsonpath={range .items[*]}{.metadata.name}{'' @ in_apos '':'' @ ''}{.status.containerStatuses[0].restartCount}{'' @
          in_apos [CHR 0x5C, CHR ''n''] @ ''}{end}''])
     (\<lambda>out. yield (restart_counts (py_splitlines out)))"

definition crashed_pods :: "(string \<times> int) list \<Rightarrow> (string \<times> int) list \<Rightarrow> (string \<times> int \<times> int) list" where
  "crashed_pods earlier after = concat (map (\<lambda>(p, b).
     let a = (case map_of after p of Some a \<Rightarrow> a | None \<Rightarrow> b) in if b < a then [(p, b, a)] else []) earlier)"

definition check_restarts :: "host \<Rightarrow> (string \<times> int) list \<Rightarrow> unit step" where
  "check_restarts h earlier = chain (snapshot_restarts h) (\<lambda>after.
     let crashed = crashed_pods earlier after in
     if crashed \<noteq> [] then record_check ''Zero pod restarts'' False (str_of_nat (length crashed) @ '' pods restarted'')
     else record_check ''Zero pod restarts'' True [])"

definition check_login_type :: "host \<Rightarrow> ice_table \<Rightarrow> unit step" where
  "check_login_type h t = chain (table_col_type h t ''last_login_at'') (\<lambda>ty.
     record_check (''last_login_at BIGINT '' @ em_dash @ '' '' @ table_name t) (ty \<in> {''bigint'', ''long'', ''int8''}) ty)"

section \<open>The final report\<close>

text \<open>The exit status: 0 only when every recorded check passed.\<close>

definition exit_status :: "check list \<Rightarrow> nat" where
  "exit_status checks = (if list_all (\<lambda>(label, ok, detail). ok) checks then 0 else 1)"

definition final_report :: "nat step" where
  "final_report s = (Inr (exit_status (se_results s)), s)"

section \<open>What steps do to a session\<close>

text \<open>A step keeps a relation when it relates every session to the one it leaves.\<close>

definition keeps :: "(test_session \<Rightarrow> test_session \<Rightarrow> bool) \<Rightarrow> 'a step \<Rightarrow> bool" where
  "keeps R m = (\<forall>s. R s (snd (m s)))"

lemma keeps_apply: "\<lbrakk>keeps R m; m s = (r, s1)\<rbrakk> \<Longrightarrow> R s s1"
  unfolding keeps_def by (metis snd_conv)

locale session_order =
  fixes R :: "test_session \<Rightarrow> test_session \<Rightarrow> bool"
  assumes refl: "R s s"
    and trans: "\<lbrakk>R s s1; R s1 s2\<rbrakk> \<Longrightarrow> R s s2"
begin

lemma keeps_yield: "keeps R (yield x)" "keeps R (throw exc)" "keeps R now"
  by (simp_all add: keeps_def yield_def throw_def now_def refl)

lemma keeps_chain:
  assumes "keeps R m" "\<And>x. keeps R (f x)"
  shows "keeps R (chain m f)"
  unfolding keeps_def
proof
  fix s
  obtain r s1 where one: "m s = (r, s1)" by force
  show "R s (snd (chain m f s))"
  proof (cases r)
    case (Inr x)
    obtain r2 s2 where two: "f x s1 = (r2, s2)" by force
    show ?thesis using trans keeps_apply[OF assms(1) one] keeps_apply[OF assms(2) two] by (simp add: chain_def one two Inr)
  qed (use keeps_apply[OF assms(1) one] in \<open>simp add: chain_def one\<close>)
qed

lemma keeps_rescue:
  assumes "keeps R m" "keeps R g"
  shows "keeps R (rescue m g)"
  unfolding keeps_def
proof
  fix s
  obtain r s1 where one: "m s = (r, s1)" by force
  obtain r2 s2 where two: "g s1 = (r2, s2)" by force
  show "R s (snd (rescue m g s))"
    using trans[OF keeps_apply[OF assms(1) one] keeps_apply[OF assms(2) two]] keeps_apply[OF assms(1) one]
    by (cases r) (simp_all add: rescue_def one two)
qed

lemma keeps_each: "(\<And>x. x \<in> set xs \<Longrightarrow> keeps R (f x)) \<Longrightarrow> keeps R (each f xs)"
  by (induction xs) (auto intro: keeps_yield keeps_chain)

lemmas keeps_rules = keeps_yield keeps_chain keeps_rescue keeps_each

end

text \<open>Time only passes.\<close>

abbreviation later :: "test_session \<Rightarrow> test_session \<Rightarrow> bool" where
  "later s s1 \<equiv> se_clock s \<le> se_clock s1"

interpretation clock: session_order later
  by unfold_locales auto

named_theorems on_time

lemmas on_time_rules [on_time] = clock.keeps_rules

lemma later_basic [on_time]: "keeps later (pause n)" "keeps later (record_check l b d)" "keeps later (proc h c)"
  "keeps later kept_flags" "keeps later (keep_flags flags)"
  by (simp_all add: keeps_def pause_def record_check_def proc_def Let_def kept_flags_def keep_flags_def)

lemma later_spark [on_time]: "keeps later (test_spark_sql h sql)" "keeps later (table_has_col h t col)"
  unfolding test_spark_sql_def table_has_col_def get_db_pod_def test_kubectl_def test_spark_flags_def
  by (auto intro!: on_time simp: split_beta)

text \<open>Answers and checks are only added.\<close>

definition grown :: "test_session \<Rightarrow> test_session \<Rightarrow> bool" where
  "grown s s1 = (\<exists>ts rs. se_trace s1 = se_trace s @ ts \<and> se_results s1 = se_results s @ rs)"

interpretation growth: session_order grown
  by unfold_locales (auto simp: grown_def)

named_theorems grow

lemmas grow_rules [grow] = growth.keeps_rules

lemma grown_sets: "grown s s1 \<Longrightarrow> set (se_trace s) \<subseteq> set (se_trace s1) \<and> set (se_results s) \<subseteq> set (se_results s1)"
  by (auto simp: grown_def)

lemma grown_basic [grow]: "keeps grown (pause n)" "keeps grown (record_check l b d)" "keeps grown (proc h c)"
  "keeps grown kept_flags" "keeps grown (keep_flags flags)"
  by (simp_all add: keeps_def grown_def pause_def record_check_def proc_def Let_def kept_flags_def keep_flags_def)

lemma grown_kubectl [grow]: "keeps grown (test_kubectl h check args)" "keeps grown (get_db_pod h)" "keeps grown (or_raise r)"
  unfolding test_kubectl_def get_db_pod_def or_raise_def by (auto intro!: grow simp: split_beta)

lemma grown_exec [grow]: "keeps grown (pod_exec h p)" "keeps grown (pg_ddl h sql)" "keeps grown (ora_run h dsn script)"
  "keeps grown (test_spark_flags h)" "keeps grown (test_spark_sql h sql)"
  unfolding pod_exec_def pg_ddl_def ora_run_def test_spark_flags_def test_spark_sql_def Let_def
  by (auto intro!: grow simp: split_beta)

lemma grown_iceberg [grow]: "keeps grown (table_has_col h t col)" "keeps grown (iceberg_count h t pk ids cond)"
  "keeps grown (table_col_type h t col)" "keeps grown (snapshot_restarts h)"
  unfolding table_has_col_def iceberg_count_def table_col_type_def snapshot_restarts_def
  by (auto intro!: grow)

lemma grown_checks [grow]: "keeps grown (check_restarts h earlier)" "keeps grown (check_login_type h t)" "keeps grown final_report"
  unfolding check_restarts_def check_login_type_def Let_def
  by (auto intro!: grow simp: keeps_def[of _ final_report] final_report_def growth.refl)

lemma grown_discard [grow]: "keeps grown m \<Longrightarrow> keeps grown (discard m)"
  unfolding discard_def by (intro grow)

section \<open>Runs that return\<close>

lemma chain_Inr: "chain m f s = (Inr y, s2) \<longleftrightarrow> (\<exists>x s1. m s = (Inr x, s1) \<and> f x s1 = (Inr y, s2))"
  by (auto simp: chain_def split: prod.splits sum.splits)

lemma each_Inr:
  assumes "each f xs s = (Inr (), s2)" "x \<in> set xs" "\<And>x. keeps grown (f x)"
  shows "\<exists>s' s1. f x s' = (Inr (), s1) \<and> grown s s' \<and> grown s1 s2"
  using assms(1,2)
proof (induction xs arbitrary: s)
  case (Cons y ys)
  obtain s1 where one: "f y s = (Inr (), s1)" and rest: "each f ys s1 = (Inr (), s2)"
    using Cons.prems(1) by (auto simp: chain_Inr)
  have every: "keeps grown (each f ys)" using assms(3) by (intro grow)
  have "grown s s1" "grown s1 s2"
    using keeps_apply[OF assms(3) one] keeps_apply[OF every rest] by auto
  then show ?case using Cons.IH[OF rest] Cons.prems(2) one growth.refl[of s] growth.trans by (metis set_ConsD)
qed simp

text \<open>What a passed check of a type rests on: an answer of Spark with that type.\<close>

definition type_seen :: "test_session \<Rightarrow> ice_table \<Rightarrow> bool" where
  "type_seen s t = (\<exists>pod flags rc out err.
     (Pod_Spark pod flags (py_strip (''DESCRIBE TABLE '' @ table_sql t)), Completed rc out err) \<in> set (se_trace s) \<and>
     type_in (py_strip out) ''last_login_at'' \<in> {''bigint'', ''long'', ''int8''})"

lemma type_seen_grown: "\<lbrakk>type_seen s t; grown s s1\<rbrakk> \<Longrightarrow> type_seen s1 t"
  unfolding type_seen_def using grown_sets by blast

lemma proc_Inr: "proc h c s = (Inr (rc, out, err), s1) \<Longrightarrow> (c, Completed rc out err) \<in> set (se_trace s1)"
  by (auto simp: proc_def Let_def split: run_result.splits)

text \<open>A statement that returns has its answer in the trace.\<close>

lemma spark_answer:
  assumes "test_spark_sql h sql s = (Inr out, s1)"
  obtains pod flags rc out' err where "(Pod_Spark pod flags (py_strip sql), Completed rc out' err) \<in> set (se_trace s1)" "out = py_strip out'"
  using assms unfolding test_spark_sql_def chain_Inr by (auto simp: chain_Inr yield_def dest!: proc_Inr)

lemma login_type_seen:
  assumes "check_login_type h t s = (Inr (), s1)" "list_all (\<lambda>(label, ok, detail). ok) (se_results s1)"
  shows "type_seen s1 t"
proof -
  obtain ty s0 where ty: "table_col_type h t ''last_login_at'' s = (Inr ty, s0)"
    and check: "record_check (''last_login_at BIGINT '' @ em_dash @ '' '' @ table_name t) (ty \<in> {''bigint'', ''long'', ''int8''}) ty s0 = (Inr (), s1)"
    using assms(1) by (auto simp: check_login_type_def chain_Inr)
  obtain out where sql: "test_spark_sql h (''DESCRIBE TABLE '' @ table_sql t) s = (Inr out, s0)" and read: "ty = type_in out ''last_login_at''"
    using ty by (auto simp: table_col_type_def chain_Inr yield_def)
  obtain pod flags rc out' err where "(Pod_Spark pod flags (py_strip (''DESCRIBE TABLE '' @ table_sql t)), Completed rc out' err) \<in> set (se_trace s0)"
    "out = py_strip out'"
    using spark_answer[OF sql] by blast
  moreover have "ty \<in> {''bigint'', ''long'', ''int8''}" "grown s0 s1"
    using check assms(2) by (auto simp: record_check_def grown_def)
  ultimately show ?thesis unfolding type_seen_def using grown_sets[of s0 s1] read by blast
qed

end
