(* ===== verification/Rename_Test.thy ===== *)
theory Rename_Test
  imports Test_Shell
begin

text \<open>
  \<^verbatim>\<open>scripts/ddl_rename_test.py\<close>: five columns are added, renamed three times and dropped in each source,
  with rows written in between, and the Iceberg tables are checked for what should have arrived. The
  steps, the test of a column, the test of \<^verbatim>\<open>MODIFY\<close>, the polling of a column, and \<^verbatim>\<open>main\<close>. Connection
  strings and the settings read from the environment are the record \<open>test_params\<close>.
\<close>

record test_params =
  su_pg_dsn :: string
  su_mgo_uri :: string
  su_ora_dsn :: string
  su_poll_secs :: nat
  su_dml_rows :: nat
  su_settle :: nat
  su_epoch :: int
  su_sources :: "string list"

section \<open>PostgreSQL\<close>

definition pg_add_col :: "host \<Rightarrow> string \<Rightarrow> unit step" where
  "pg_add_col h col = pg_ddl h (''ALTER TABLE customers ADD COLUMN IF NOT EXISTS '' @ col @ '' SMALLINT'')"

definition pg_rename_sql :: "string \<Rightarrow> string \<Rightarrow> string" where
  "pg_rename_sql old new = py_join newline
     [[], ''DO $$'', ''BEGIN'', ''  IF EXISTS ('', ''    SELECT 1 FROM information_schema.columns'',
      ''    WHERE table_schema='' @ in_apos ''public'' @ '' AND table_name='' @ in_apos ''customers'' @ '' AND column_name='' @ in_apos old,
      ''  ) THEN'', ''    ALTER TABLE customers RENAME COLUMN '' @ old @ '' TO '' @ new @ '';'', ''  END IF;'', ''END $$;'', []]"

definition pg_rename_col :: "host \<Rightarrow> string \<Rightarrow> string \<Rightarrow> unit step" where
  "pg_rename_col h old new = pg_ddl h (pg_rename_sql old new)"

definition pg_drop_col :: "host \<Rightarrow> string \<Rightarrow> unit step" where
  "pg_drop_col h col = pg_ddl h (''ALTER TABLE customers DROP COLUMN IF EXISTS '' @ col)"

text \<open>A block of consecutive keys, each with its position in the block.\<close>

definition id_block :: "int \<Rightarrow> nat \<Rightarrow> int list" where
  "id_block base n = map (\<lambda>i. base + int i) [0..<n]"

definition rows_of :: "(nat \<Rightarrow> int \<Rightarrow> 'a) \<Rightarrow> int list \<Rightarrow> 'a list" where
  "rows_of f ids = map (\<lambda>(i, cid). f i cid) (enumerate 0 ids)"

definition pg_dml :: "host \<Rightarrow> test_params \<Rightarrow> int \<Rightarrow> string \<Rightarrow> int \<Rightarrow> int list step" where
  "pg_dml h su base col val =
     (let ids = id_block base (su_dml_rows su);
          rows = rows_of (\<lambda>i cid. \<lparr>cu_id = cid, cu_name = ''RenameTestPG'' @ str_of_int cid, cu_last = [],
            cu_email = ''rt'' @ str_of_int cid @ ''@pg.test'', cu_credit = 0, cu_tier = ''gold'', cu_value = Some (val + int i)\<rparr>) ids
      in chain (pod_exec h (Pg_Insert (su_pg_dsn su) (Some col) rows)) (\<lambda>_. yield ids))"

section \<open>Oracle\<close>

definition ora_add_col :: "host \<Rightarrow> test_params \<Rightarrow> string \<Rightarrow> unit step" where
  "ora_add_col h su col = discard (ora_run h (su_ora_dsn su) (ora_block col ''= 0'' (''ADD ('' @ py_upper col @ '' SMALLINT)'')))"

definition ora_rename_sql :: "string \<Rightarrow> string \<Rightarrow> string" where
  "ora_rename_sql old new = py_join newline
     [[], ''DECLARE'', ''  v_old NUMBER;'', ''  v_new NUMBER;'', ''BEGIN'',
      ''  SELECT COUNT(*) INTO v_old FROM all_tab_columns'',
      ''  WHERE owner='' @ in_apos ''CACHE_TESTING'' @ '' AND table_name='' @ in_apos ''CUSTOMERS'',
      ''    AND column_name='' @ in_apos (py_upper old) @ '';'',
      ''  SELECT COUNT(*) INTO v_new FROM all_tab_columns'',
      ''  WHERE owner='' @ in_apos ''CACHE_TESTING'' @ '' AND table_name='' @ in_apos ''CUSTOMERS'',
      ''    AND column_name='' @ in_apos (py_upper new) @ '';'',
      ''  IF v_old > 0 AND v_new = 0 THEN'',
      ''    EXECUTE IMMEDIATE '' @ in_apos (''ALTER TABLE CUSTOMERS RENAME COLUMN '' @ py_upper old @ '' TO '' @ py_upper new) @ '';'',
      ''  END IF;'', ''END;'', ''/'']"

definition ora_rename_col :: "host \<Rightarrow> test_params \<Rightarrow> string \<Rightarrow> string \<Rightarrow> unit step" where
  "ora_rename_col h su old new = discard (ora_run h (su_ora_dsn su) (ora_rename_sql old new))"

definition ora_drop_col :: "host \<Rightarrow> test_params \<Rightarrow> string \<Rightarrow> unit step" where
  "ora_drop_col h su col = discard (ora_run h (su_ora_dsn su) (ora_block col ''> 0'' (''DROP COLUMN '' @ py_upper col)))"

definition ora_modify_col_number :: "host \<Rightarrow> test_params \<Rightarrow> string \<Rightarrow> string \<Rightarrow> unit step" where
  "ora_modify_col_number h su col ty = discard (ora_run h (su_ora_dsn su) (ora_block col ''> 0'' (''MODIFY ('' @ py_upper col @ '' '' @ ty @ '')'')))"

definition ora_modify_col_varchar :: "host \<Rightarrow> test_params \<Rightarrow> string \<Rightarrow> nat \<Rightarrow> unit step" where
  "ora_modify_col_varchar h su col n =
     discard (ora_run h (su_ora_dsn su) (ora_block col ''> 0'' (''MODIFY ('' @ py_upper col @ '' VARCHAR2('' @ str_of_nat n @ ''))'')))"

definition ora_add_str :: "host \<Rightarrow> test_params \<Rightarrow> string \<Rightarrow> unit step" where
  "ora_add_str h su col = discard (ora_run h (su_ora_dsn su) (ora_block col ''= 0'' (''ADD ('' @ py_upper col @ '' VARCHAR2(50))'')))"

text \<open>A row is deleted and inserted again, so that the redo log has it whatever the table held.\<close>

definition ora_row :: "string \<Rightarrow> string \<Rightarrow> string \<Rightarrow> string \<Rightarrow> int \<Rightarrow> string" where
  "ora_row first_name mail col val cid =
     ''DELETE FROM CUSTOMERS WHERE CUSTOMER_ID='' @ str_of_int cid @ '';'' @ newline @
     ''INSERT INTO CUSTOMERS(CUSTOMER_ID,FIRST_NAME,LAST_NAME,EMAIL,'' @
     ''CITY,COUNTRY_CODE,TIER,CREDIT_LIMIT,IS_ACTIVE,'' @ py_upper col @ '') '' @
     ''VALUES('' @ str_of_int cid @ '','' @ in_apos (first_name @ str_of_int cid) @ '','' @ in_apos ''Test'' @ '','' @
     in_apos (mail @ str_of_int cid @ ''@ora.test'') @ '','' @ in_apos ''TestCity'' @ '','' @ in_apos ''US'' @ '','' @
     in_apos ''GOLD'' @ '',5000,'' @ in_apos ''Y'' @ '','' @ val @ '');''"

definition ora_write :: "host \<Rightarrow> test_params \<Rightarrow> string list \<Rightarrow> int list \<Rightarrow> int list step" where
  "ora_write h su stmts ids = chain (ora_run h (su_ora_dsn su) (py_join newline stmts @ newline @ ''COMMIT;'')) (\<lambda>_. yield ids)"

definition ora_dml :: "host \<Rightarrow> test_params \<Rightarrow> int \<Rightarrow> string \<Rightarrow> int \<Rightarrow> int list step" where
  "ora_dml h su base col val = (let ids = id_block base (su_dml_rows su) in
     ora_write h su (rows_of (\<lambda>i cid. ora_row ''RenameORA'' ''rt'' col (str_of_int (val + int i)) cid) ids) ids)"

definition ora_str_dml :: "host \<Rightarrow> test_params \<Rightarrow> int \<Rightarrow> string \<Rightarrow> string \<Rightarrow> int list step" where
  "ora_str_dml h su base col prefix = (let ids = id_block base (su_dml_rows su) in
     ora_write h su (map (\<lambda>cid. ora_row ''ModStrORA'' ''mods'' col (in_apos (prefix @ str_of_int cid)) cid) ids) ids)"

section \<open>MongoDB\<close>

definition mgo_add_col :: "host \<Rightarrow> test_params \<Rightarrow> string \<Rightarrow> unit step" where
  "mgo_add_col h su col = discard (pod_exec h (Mgo_Set_Null (su_mgo_uri su) col))"

definition mgo_rename_col :: "host \<Rightarrow> test_params \<Rightarrow> string \<Rightarrow> string \<Rightarrow> unit step" where
  "mgo_rename_col h su old new = discard (pod_exec h (Mgo_Rename (su_mgo_uri su) old new))"

definition mgo_drop_col :: "host \<Rightarrow> test_params \<Rightarrow> string \<Rightarrow> unit step" where
  "mgo_drop_col h su col = discard (pod_exec h (Mgo_Unset (su_mgo_uri su) col))"

definition mgo_dml :: "host \<Rightarrow> test_params \<Rightarrow> int \<Rightarrow> string \<Rightarrow> int \<Rightarrow> int list step" where
  "mgo_dml h su base col val =
     (let ids = id_block base (su_dml_rows su);
          docs = rows_of (\<lambda>i cid. \<lparr>cu_id = cid, cu_name = ''Rename'' @ str_of_nat i, cu_last = ''MGO'',
            cu_email = ''rt'' @ str_of_int cid @ ''@mgo.test'', cu_credit = 5000, cu_tier = ''gold'', cu_value = Some (val + int i)\<rparr>) ids
      in chain (pod_exec h (Mgo_Insert (su_mgo_uri su) (Some col) docs)) (\<lambda>_. yield ids))"

section \<open>The test of a column\<close>

record source_ops =
  op_add :: "string \<Rightarrow> unit step"
  op_rename :: "string \<Rightarrow> string \<Rightarrow> unit step"
  op_drop :: "string \<Rightarrow> unit step"
  op_dml :: "int \<Rightarrow> string \<Rightarrow> int \<Rightarrow> int list step"

type_synonym phases = "(string \<times> int list) list"

text \<open>Rows with the column set; a failure is only printed.\<close>

definition dml_phase :: "source_ops \<Rightarrow> int \<Rightarrow> string \<Rightarrow> int \<Rightarrow> phases \<Rightarrow> phases step" where
  "dml_phase ops base col val done_phases =
     rescue (chain (op_dml ops base col val) (\<lambda>ids. yield (done_phases @ [(col, ids)]))) (yield done_phases)"

text \<open>The name to go on with: the old one when the renaming fails.\<close>

definition rename_phase :: "source_ops \<Rightarrow> string \<Rightarrow> string \<Rightarrow> string step" where
  "rename_phase ops old new = rescue (chain (op_rename ops old new) (\<lambda>_. yield new)) (yield old)"

definition rename_and_write :: "test_params \<Rightarrow> source_ops \<Rightarrow> int \<Rightarrow> string \<Rightarrow> string \<Rightarrow> int \<Rightarrow> phases \<Rightarrow> (string \<times> phases) step" where
  "rename_and_write su ops base old new val done_phases =
     chain (pause (su_settle su)) (\<lambda>_. chain (rename_phase ops old new) (\<lambda>col.
       chain (pause (su_settle su)) (\<lambda>_. chain (dml_phase ops base col val done_phases) (\<lambda>ph. yield (col, ph)))))"

definition add_column :: "source_ops \<Rightarrow> string \<Rightarrow> bool step" where
  "add_column ops col = rescue (chain (op_add ops col) (\<lambda>_. yield True)) (yield False)"

definition run_column_rename_test :: "test_params \<Rightarrow> source_ops \<Rightarrow> string \<Rightarrow> int \<Rightarrow> (phases \<times> int) step" where
  "run_column_rename_test su ops col id_start =
     (let n = int (su_dml_rows su) in
      chain (add_column ops col) (\<lambda>added.
        if \<not> added then yield ([], id_start + n * 4)
        else chain (pause (su_settle su)) (\<lambda>_. chain (dml_phase ops id_start col 10 []) (\<lambda>p1.
          chain (rename_and_write su ops (id_start + n) col (col @ ''_r1'') 20 p1) (\<lambda>(c1, p2).
            chain (rename_and_write su ops (id_start + n + n) c1 (col @ ''_r2'') 30 p2) (\<lambda>(c2, p3).
              chain (rename_and_write su ops (id_start + n + n + n) c2 (col @ ''_r3'') 40 p3) (\<lambda>(c3, p4).
                chain (pause (su_settle su)) (\<lambda>_. chain (rescue (op_drop ops c3) (yield ())) (\<lambda>_.
                  yield (p4, id_start + n + n + n + n))))))))))"

section \<open>The test of MODIFY\<close>

type_synonym id_map = "(string \<times> int list) list"

definition extend_ids :: "string \<Rightarrow> int list \<Rightarrow> id_map \<Rightarrow> id_map" where
  "extend_ids col ids m = (case map_of m col of None \<Rightarrow> m @ [(col, ids)] | Some xs \<Rightarrow> AList.update col (xs @ ids) m)"

definition write_ids :: "int list step \<Rightarrow> string \<Rightarrow> id_map \<Rightarrow> id_map step" where
  "write_ids m col ids_map = rescue (chain m (\<lambda>ids. yield (extend_ids col ids ids_map))) (yield ids_map)"

definition tried :: "unit step \<Rightarrow> unit step" where
  "tried m = rescue m (yield ())"

definition run_ora_modify_test :: "host \<Rightarrow> test_params \<Rightarrow> int \<Rightarrow> (id_map \<times> int) step" where
  "run_ora_modify_test h su ora_id =
     (let n = int (su_dml_rows su); num_col = ''test_mod_num''; str_col = ''test_mod_str''; settle = pause (su_settle su) in
      chain (tried (ora_add_col h su num_col)) (\<lambda>_. chain settle (\<lambda>_.
      chain (write_ids (ora_dml h su ora_id num_col 50) num_col []) (\<lambda>m1. chain settle (\<lambda>_.
      chain (tried (ora_modify_col_number h su num_col ''NUMBER(18,4)'')) (\<lambda>_. chain settle (\<lambda>_.
      chain (write_ids (ora_dml h su (ora_id + n) num_col 60) num_col m1) (\<lambda>m2. chain settle (\<lambda>_.
      chain (tried (ora_drop_col h su num_col)) (\<lambda>_. chain settle (\<lambda>_.
      chain (tried (ora_add_str h su str_col)) (\<lambda>_. chain settle (\<lambda>_.
      chain (write_ids (ora_str_dml h su (ora_id + n + n) str_col ''short_'') str_col m2) (\<lambda>m3. chain settle (\<lambda>_.
      chain (tried (ora_modify_col_varchar h su str_col 200)) (\<lambda>_. chain settle (\<lambda>_.
      chain (write_ids (ora_str_dml h su (ora_id + n + n + n) str_col ''this_is_a_longer_value_'') str_col m3) (\<lambda>m4. chain settle (\<lambda>_.
      chain (tried (ora_drop_col h su str_col)) (\<lambda>_.
        yield (m4, ora_id + n + n + n + n)))))))))))))))))))))"

end
