(* ===== verification/Test_Polling.thy ===== *)
theory Test_Polling
  imports Test_Shell
begin

text \<open>
  How the tests wait for a column: all tables are asked in rounds until each shows it or the time is
  over. It ends because every round that leaves a table sleeps, and no command moves the clock back.
\<close>

section \<open>Polling\<close>

text \<open>
  One round: the tables that show the column, and those that do not yet. Where the test records a check
  for a table as soon as it is seen, \<open>on_seen\<close> gives its label.
\<close>

definition seen_check :: "(ice_table \<Rightarrow> string) option \<Rightarrow> ice_table \<Rightarrow> unit step" where
  "seen_check on_seen t = (case on_seen of None \<Rightarrow> yield () | Some label \<Rightarrow> record_check (label t) True [])"

lemma seen_check_keeps [on_time, grow]: "keeps later (seen_check on_seen t)" "keeps grown (seen_check on_seen t)"
  by (auto simp: seen_check_def intro: on_time grow split: option.split)

fun poll_round :: "(ice_table \<Rightarrow> string) option \<Rightarrow> host \<Rightarrow> string \<Rightarrow> ice_table list \<Rightarrow> (ice_table list \<times> ice_table list) step" where
  "poll_round on_seen h col [] = yield ([], [])"
| "poll_round on_seen h col (t # ts) = chain (table_has_col h t col) (\<lambda>visible.
     chain (if visible then seen_check on_seen t else yield ()) (\<lambda>_. chain (poll_round on_seen h col ts) (\<lambda>(seen, missing).
       yield (if visible then (t # seen, missing) else (seen, t # missing)))))"

lemma later_round [on_time]: "keeps later (poll_round on_seen h col ts)"
  by (induction ts) (auto intro!: on_time simp: split_beta)

function poll_loop :: "(ice_table \<Rightarrow> string) option \<Rightarrow> host \<Rightarrow> string \<Rightarrow> nat \<Rightarrow> ice_table list \<Rightarrow> ice_table list \<Rightarrow> (ice_table list \<times> ice_table list) step" where
  "poll_loop on_seen h col deadline remaining found s =
     (if remaining \<noteq> [] \<and> se_clock s < deadline
      then (case poll_round on_seen h col remaining s of
          (Inl exc, s1) \<Rightarrow> (Inl exc, s1)
        | (Inr (seen, missing), s1) \<Rightarrow>
            if missing = [] then (Inr (found @ seen, []), s1)
            else poll_loop on_seen h col deadline missing (found @ seen) (snd (pause 15 s1)))
      else (Inr (found, remaining), s))"
  by pat_completeness auto
termination
proof (relation "measure (\<lambda>(on_seen, h, col, deadline, remaining, found, s). deadline - se_clock s)", goal_cases)
  case (2 on_seen h col deadline remaining found s r s1 y seen missing)
  have "se_clock s \<le> se_clock s1" using keeps_apply[OF later_round 2(2)[symmetric]] .
  then have "deadline - (se_clock s1 + 15) < deadline - se_clock s" using 2(1) by linarith
  then show ?case by (simp add: pause_def)
qed simp

declare poll_loop.simps [simp del]

lemma grown_round [grow]: "keeps grown (poll_round on_seen h col ts)"
  by (induction ts) (auto intro!: grow simp: split_beta)

lemma grown_loop [grow]: "keeps grown (poll_loop on_seen h col deadline remaining found)"
  unfolding keeps_def
proof
  fix s show "grown s (snd (poll_loop on_seen h col deadline remaining found s))"
  proof (induction on_seen h col deadline remaining found s rule: poll_loop.induct)
    case (1 on_seen h col deadline remaining found s)
    obtain r s1 where one: "poll_round on_seen h col remaining s = (r, s1)" by force
    have first: "grown s s1" "grown s (snd (pause 15 s1))"
      using keeps_apply[OF grown_round one] by (auto simp: grown_def pause_def)
    show ?case
      using "1.IH"[OF _ one[symmetric]] first growth.trans growth.refl
      by (subst poll_loop.simps) (auto simp: one split: sum.split)
  qed
qed

end
