(* ===== verification/Rename_Main.thy ===== *)
theory Rename_Main
  imports Rename_Test Test_Polling
begin

text \<open>
  The checks and \<^verbatim>\<open>main\<close> of \<^verbatim>\<open>scripts/ddl_rename_test.py\<close>.
\<close>

section \<open>The sources\<close>

definition test_cols :: "string list" where
  "test_cols = [''test_col_a'', ''test_col_b'', ''test_col_c'', ''test_col_d'', ''test_col_e'']"

definition pg_ops :: "host \<Rightarrow> test_params \<Rightarrow> source_ops" where
  "pg_ops h su = \<lparr>op_add = pg_add_col h, op_rename = pg_rename_col h, op_drop = pg_drop_col h, op_dml = pg_dml h su\<rparr>"

definition ora_ops :: "host \<Rightarrow> test_params \<Rightarrow> source_ops" where
  "ora_ops h su = \<lparr>op_add = ora_add_col h su, op_rename = ora_rename_col h su, op_drop = ora_drop_col h su, op_dml = ora_dml h su\<rparr>"

definition mgo_ops :: "host \<Rightarrow> test_params \<Rightarrow> source_ops" where
  "mgo_ops h su = \<lparr>op_add = mgo_add_col h su, op_rename = mgo_rename_col h su, op_drop = mgo_drop_col h su, op_dml = mgo_dml h su\<rparr>"

definition collect_phases :: "phases \<Rightarrow> id_map \<Rightarrow> id_map" where
  "collect_phases ps m = fold (\<lambda>(col, ids). extend_ids col ids) ps m"

fun test_columns :: "test_params \<Rightarrow> source_ops \<Rightarrow> string \<Rightarrow> string list \<Rightarrow> int \<Rightarrow> id_map \<Rightarrow> (id_map \<times> int) step" where
  "test_columns su ops label [] next_id ids = yield (ids, next_id)"
| "test_columns su ops label (col # cols) next_id ids =
     chain (run_column_rename_test su ops col next_id) (\<lambda>(ps, next_id').
       chain (record_check (label @ '' '' @ col @ '': all phases completed'') (length ps = 4)
           (str_of_nat (length ps) @ ''/4 DML phases'')) (\<lambda>_.
         test_columns su ops label cols next_id' (collect_phases ps ids)))"

definition ids_for :: "id_map \<Rightarrow> string \<Rightarrow> int list" where
  "ids_for m col = (case map_of m col of Some ids \<Rightarrow> ids | None \<Rightarrow> [])"

definition record_modify :: "id_map \<Rightarrow> string \<Rightarrow> string \<Rightarrow> unit step" where
  "record_modify m col ty = record_check (''ORA MODIFY '' @ col @ '': '' @ ty) (ids_for m col \<noteq> [])
     (str_of_nat (length (ids_for m col)) @ '' rows captured'')"

definition test_oracle :: "host \<Rightarrow> test_params \<Rightarrow> id_map step" where
  "test_oracle h su = chain (test_columns su (ora_ops h su) ''ORA'' test_cols (su_epoch su * 10 + 1) []) (\<lambda>(ids, next_id).
     chain (run_ora_modify_test h su next_id) (\<lambda>(mod_ids, _).
       chain (record_modify mod_ids ''test_mod_num'' ''NUMBER(18,4)'') (\<lambda>_.
         chain (record_modify mod_ids ''test_mod_str'' ''VARCHAR2(200)'') (\<lambda>_.
           yield (collect_phases mod_ids ids)))))"

definition keep_ids :: "(id_map \<times> int) step \<Rightarrow> id_map step" where
  "keep_ids m = chain m (\<lambda>(ids, _). yield ids)"

definition runs_source :: "test_params \<Rightarrow> string \<Rightarrow> bool" where
  "runs_source su src = (su_sources su = [] \<or> src \<in> set (su_sources su))"

section \<open>The checks\<close>

definition poll_iceberg_col :: "host \<Rightarrow> string \<Rightarrow> ice_table list \<Rightarrow> nat \<Rightarrow> (ice_table \<times> bool) list step" where
  "poll_iceberg_col h col tables timeout = chain now (\<lambda>t.
     chain (poll_loop None h col (t + timeout) (remdups tables) []) (\<lambda>(found, remaining).
       yield (map (\<lambda>e. (e, True)) found @ map (\<lambda>e. (e, False)) remaining)))"

definition tables_of :: "test_params \<Rightarrow> string set \<Rightarrow> ice_table list" where
  "tables_of su srcs = filter (\<lambda>t. fst t \<in> srcs \<and> runs_source su (fst t)) ice_tables"

record all_ids =
  ai_pg :: id_map
  ai_ora :: id_map
  ai_mgo :: id_map

definition tables_to_check :: "test_params \<Rightarrow> all_ids \<Rightarrow> string \<Rightarrow> ice_table list" where
  "tables_to_check su ids col =
     (if ids_for (ai_pg ids) col \<noteq> [] \<or> ids_for (ai_ora ids) col \<noteq> [] then tables_of su {''postgres'', ''oracle''} else []) @
     (if ids_for (ai_mgo ids) col \<noteq> [] then tables_of su {''mongodb''} else [])"

definition check_visible :: "host \<Rightarrow> test_params \<Rightarrow> all_ids \<Rightarrow> string \<Rightarrow> unit step" where
  "check_visible h su ids col =
     (let tables = tables_to_check su ids col in
      if tables = [] then yield ()
      else chain (poll_iceberg_col h col tables (su_poll_secs su)) (\<lambda>found.
        each (\<lambda>(t, visible). record_check (''Iceberg col visible '' @ em_dash @ '' '' @ table_name t @ '' '' @ in_apos col) visible []) found))"

definition renamed_cols :: "string list" where
  "renamed_cols = concat (map (\<lambda>col. map (\<lambda>suffix. col @ suffix) [''_r1'', ''_r2'', ''_r3'']) test_cols)"

definition check_rows :: "host \<Rightarrow> string \<Rightarrow> string \<times> int list \<Rightarrow> ice_table \<Rightarrow> unit step" where
  "check_rows h pk = (\<lambda>(col, ids) t.
     chain (iceberg_count h t pk ids (''`'' @ col @ ''` IS NOT NULL'')) (\<lambda>found.
       record_check (''Rows NOT NULL '' @ em_dash @ '' '' @ table_name t @ '' '' @ in_apos col) (found = int (length ids))
         (str_of_int found @ ''/'' @ str_of_nat (length ids))))"

definition check_source_rows :: "host \<Rightarrow> test_params \<Rightarrow> string \<Rightarrow> string \<Rightarrow> id_map \<Rightarrow> unit step" where
  "check_source_rows h su src pk ids =
     (if \<not> runs_source su src then yield ()
      else each (\<lambda>entry. if snd entry = [] then yield () else each (check_rows h pk entry) (tables_of su {src})) ids)"

section \<open>main\<close>

definition rename_main :: "host \<Rightarrow> test_params \<Rightarrow> nat step" where
  "rename_main h su =
     chain (snapshot_restarts h) (\<lambda>earlier. chain (test_spark_flags h) (\<lambda>_.
       chain (if runs_source su ''postgres'' then keep_ids (test_columns su (pg_ops h su) ''PG'' test_cols (su_epoch su * 10 + 0) []) else yield []) (\<lambda>pg.
       chain (if runs_source su ''oracle'' then test_oracle h su else yield []) (\<lambda>ora.
       chain (if runs_source su ''mongodb'' then keep_ids (test_columns su (mgo_ops h su) ''MGO'' test_cols (su_epoch su * 10 + 2) []) else yield []) (\<lambda>mgo.
         let ids = \<lparr>ai_pg = pg, ai_ora = ora, ai_mgo = mgo\<rparr> in
         chain (pause 60) (\<lambda>_.
         chain (each (check_visible h su ids) renamed_cols) (\<lambda>_.
         chain (check_source_rows h su ''postgres'' ''id'' pg) (\<lambda>_.
         chain (check_source_rows h su ''oracle'' ''customer_id'' ora) (\<lambda>_.
         chain (check_source_rows h su ''mongodb'' ''customer_id'' mgo) (\<lambda>_.
         chain (each (check_login_type h) ice_tables) (\<lambda>_.
         chain (check_restarts h earlier) (\<lambda>_. final_report))))))))))))"

end
