(* ===== verification/Test_Facts.thy ===== *)
theory Test_Facts
  imports Rename_Test Test_Polling
begin

text \<open>
  What the proofs about both tests share: blocks of keys, steps that return or raise and record nothing,
  and what a poll that ends with nothing missing has seen.
\<close>

section \<open>Blocks of keys\<close>

lemma id_block_facts: "length (id_block b n) = n" "set (id_block b n) = {b ..< b + int n}" "distinct (id_block b n)"
proof -
  show "set (id_block b n) = {b ..< b + int n}"
  proof (intro set_eqI iffI)
    fix x assume "x \<in> {b ..< b + int n}"
    then show "x \<in> set (id_block b n)" by (auto simp: id_block_def image_iff intro!: bexI[of _ "nat (x - b)"])
  qed (auto simp: id_block_def)
qed (simp_all add: id_block_def distinct_map inj_on_def)

text \<open>Different keys from a range.\<close>

definition fresh_ids :: "int \<Rightarrow> int \<Rightarrow> int list \<Rightarrow> bool" where
  "fresh_ids a b ids = (distinct ids \<and> set ids \<subseteq> {a ..< b})"

lemma fresh_append: "\<lbrakk>fresh_ids a b xs; set ys \<subseteq> {b ..< c}; distinct ys; b \<le> c; a \<le> b\<rbrakk> \<Longrightarrow> fresh_ids a c (xs @ ys)"
  by (auto simp: fresh_ids_def) (meson atLeastLessThan_iff leD subset_iff)+

lemma fresh_weaken: "\<lbrakk>fresh_ids a b xs; b \<le> c\<rbrakk> \<Longrightarrow> fresh_ids a c xs"
  by (auto simp: fresh_ids_def)

section \<open>Steps that record nothing\<close>

lemma chain_pause: "chain (pause n) f s = f () (snd (pause n s))"
  by (simp add: pause_def chain_def)

lemma chain_step: "m s = (Inr x, s1) \<Longrightarrow> chain m f s = f x s1"
  by (simp add: chain_def)

text \<open>A step that always returns one value, or always raises, and keeps a relation of sessions.\<close>

definition returns_with :: "(test_session \<Rightarrow> test_session \<Rightarrow> bool) \<Rightarrow> 'a step \<Rightarrow> 'a \<Rightarrow> bool" where
  "returns_with R m x = (\<forall>s. \<exists>s1. m s = (Inr x, s1) \<and> R s s1)"

definition raises_with :: "(test_session \<Rightarrow> test_session \<Rightarrow> bool) \<Rightarrow> 'a step \<Rightarrow> bool" where
  "raises_with R m = (\<forall>s. \<exists>exc s1. m s = (Inl exc, s1) \<and> R s s1)"

locale timed_order = session_order R for R +
  assumes idle_time: "R s (s\<lparr>se_clock := t\<rparr>)"
begin

lemma returns_pause: "returns_with R (pause n) ()"
  by (simp add: returns_with_def pause_def idle_time)

lemma returns_yield: "returns_with R (yield x) x"
  by (simp add: returns_with_def yield_def refl)

lemma returns_chain:
  assumes "returns_with R m x" "returns_with R (f x) y"
  shows "returns_with R (chain m f) y"
  unfolding returns_with_def
proof
  fix s
  obtain s1 where one: "m s = (Inr x, s1)" "R s s1" using assms(1) unfolding returns_with_def by blast
  obtain s2 where "f x s1 = (Inr y, s2)" "R s1 s2" using assms(2) unfolding returns_with_def by blast
  then show "\<exists>s1. chain m f s = (Inr y, s1) \<and> R s s1" using one trans by (auto simp: chain_def)
qed

lemma returns_rescue:
  assumes "returns_with R m x"
  shows "returns_with R (rescue m g) x"
  unfolding returns_with_def
proof
  fix s
  obtain s1 where "m s = (Inr x, s1)" "R s s1" using assms unfolding returns_with_def by blast
  then show "\<exists>s1. rescue m g s = (Inr x, s1) \<and> R s s1" by (simp add: rescue_def)
qed

lemma raised_rescue:
  assumes "raises_with R m" "returns_with R g x"
  shows "returns_with R (rescue (chain m f) g) x"
  unfolding returns_with_def
proof
  fix s
  obtain exc s1 where one: "m s = (Inl exc, s1)" "R s s1" using assms(1) unfolding raises_with_def by blast
  obtain s2 where "g s1 = (Inr x, s2)" "R s1 s2" using assms(2) unfolding returns_with_def by blast
  then show "\<exists>s1. rescue (chain m f) g s = (Inr x, s1) \<and> R s s1" using one trans by (auto simp: chain_def rescue_def)
qed

lemma attempts:
  "returns_with R m x \<Longrightarrow> returns_with R (attempted m) (Some x)" "raises_with R m \<Longrightarrow> returns_with R (attempted m) None"
  unfolding attempted_def by (auto intro: returns_rescue returns_chain returns_yield raised_rescue)

end

text \<open>Nothing is recorded.\<close>

abbreviation silent :: "test_session \<Rightarrow> test_session \<Rightarrow> bool" where
  "silent s s1 \<equiv> se_results s1 = se_results s"

interpretation silence: timed_order silent
  by unfold_locales simp_all

abbreviation returns_quietly :: "'a step \<Rightarrow> 'a \<Rightarrow> bool" where
  "returns_quietly m x \<equiv> returns_with silent m x"

abbreviation raises_quietly :: "'a step \<Rightarrow> bool" where
  "raises_quietly m \<equiv> raises_with silent m"

lemmas quiet_pause = silence.returns_pause
lemmas quiet_yield = silence.returns_yield
lemmas quiet_chain = silence.returns_chain
lemmas quiet_rescue = silence.returns_rescue
lemmas raised_rescue = silence.raised_rescue
lemmas quiet_attempts = silence.attempts

lemma attempted_returns: "\<exists>r s1. attempted m s = (Inr r, s1) \<and> (\<forall>x. r = Some x \<longrightarrow> (\<exists>s'. m s = (Inr x, s')))"
  by (cases "m s") (auto simp: attempted_def rescue_def chain_def yield_def split: sum.split)

lemma grown_attempt [grow]: "keeps grown m \<Longrightarrow> keeps grown (attempted m)"
  unfolding attempted_def by (intro grow)

text \<open>A session before any command.\<close>

definition idle :: test_session where
  "idle = \<lparr>se_trace = [], se_clock = 0, se_results = [], se_flags = []\<rparr>"

section \<open>What a poll has seen\<close>

definition col_seen :: "test_session \<Rightarrow> string \<Rightarrow> ice_table \<Rightarrow> bool" where
  "col_seen s col t = (\<exists>pod flags rc out err.
     (Pod_Spark pod flags (py_strip (''DESCRIBE TABLE '' @ table_sql t)), Completed rc out err) \<in> set (se_trace s) \<and>
     contains (py_lower col) (py_lower (py_strip out)))"

lemma col_seen_grown: "\<lbrakk>col_seen s col t; grown s s1\<rbrakk> \<Longrightarrow> col_seen s1 col t"
  unfolding col_seen_def using grown_sets by blast

lemma has_col_seen: "table_has_col h t col s = (Inr True, s1) \<Longrightarrow> col_seen s1 col t"
  unfolding table_has_col_def chain_Inr col_seen_def by (fastforce simp: yield_def elim!: spark_answer)

lemma round_seen:
  assumes "poll_round on_seen h col ts s = (Inr (seen, missing), s1)"
  shows "set seen \<union> set missing = set ts \<and> (\<forall>t\<in>set seen. col_seen s1 col t)"
  using assms
proof (induction ts arbitrary: s seen missing)
  case (Cons t ts)
  obtain visible s2 where one: "table_has_col h t col s = (Inr visible, s2)"
    and body: "chain (if visible then seen_check on_seen t else yield ()) (\<lambda>_. chain (poll_round on_seen h col ts) (\<lambda>(seen, missing).
       yield (if visible then (t # seen, missing) else (seen, t # missing)))) s2 = (Inr (seen, missing), s1)"
    using Cons.prems unfolding poll_round.simps by (subst (asm) chain_Inr) blast
  obtain s3 where told: "(if visible then seen_check on_seen t else yield ()) s2 = (Inr (), s3)"
    and tail: "chain (poll_round on_seen h col ts) (\<lambda>(seen, missing).
       yield (if visible then (t # seen, missing) else (seen, t # missing))) s3 = (Inr (seen, missing), s1)"
    using body by (subst (asm) chain_Inr) auto
  obtain seen' missing' where rest: "poll_round on_seen h col ts s3 = (Inr (seen', missing'), s1)"
    and split: "seen = (if visible then t # seen' else seen')" "missing = (if visible then missing' else t # missing')"
    using tail by (subst (asm) chain_Inr) (auto simp: yield_def split: if_splits)
  have kept: "keeps grown (if visible then seen_check on_seen t else yield ())" by (auto intro: grow)
  have "grown s2 s3" by (rule keeps_apply[OF kept]) (rule told)
  then have "grown s2 s1" using keeps_apply[OF grown_round rest] growth.trans by blast
  then have "visible \<Longrightarrow> col_seen s1 col t" using has_col_seen[of h t col s s2] one by (auto intro: col_seen_grown)
  then show ?case using Cons.IH[OF rest] split by auto
qed (simp add: yield_def)

lemma loop_seen:
  assumes "poll_loop on_seen h col deadline remaining found s = (Inr (found', missing), s1)" "\<forall>t\<in>set found. col_seen s col t"
  shows "set found' \<union> set missing = set found \<union> set remaining \<and> (\<forall>t\<in>set found'. col_seen s1 col t)"
  using assms
proof (induction on_seen h col deadline remaining found s rule: poll_loop.induct)
  case (1 on_seen h col deadline remaining found s)
  show ?case
  proof (cases "remaining \<noteq> [] \<and> se_clock s < deadline")
    case True
    then obtain seen missing' s2 where round: "poll_round on_seen h col remaining s = (Inr (seen, missing'), s2)"
      using "1.prems"(1) by (auto simp: poll_loop.simps[of on_seen h] split: prod.splits sum.splits)
    have parts: "set seen \<union> set missing' = set remaining" "\<forall>t\<in>set seen. col_seen s2 col t" using round_seen[OF round] by auto
    have earlier: "\<forall>t\<in>set found. col_seen s2 col t"
      using "1.prems"(2) keeps_apply[OF grown_round round] col_seen_grown by blast
    show ?thesis
    proof (cases "missing' = []")
      case True
      then show ?thesis
        using "1.prems"(1) \<open>remaining \<noteq> [] \<and> se_clock s < deadline\<close> round parts earlier
        by (subst (asm) poll_loop.simps) auto
    next
      case False
      have later: "\<forall>t\<in>set (found @ seen). col_seen (snd (pause 15 s2)) col t"
        using parts(2) earlier by (auto simp: col_seen_def pause_def)
      have "poll_loop on_seen h col deadline missing' (found @ seen) (snd (pause 15 s2)) = (Inr (found', missing), s1)"
        using "1.prems"(1) True round False by (subst (asm) poll_loop.simps) auto
      from "1.IH"[OF True round[symmetric] refl refl False this later] show ?thesis using parts(1) by auto
    qed
  next
    case False
    then show ?thesis using "1.prems" by (subst (asm) poll_loop.simps) auto
  qed
qed

end
