(* ===== verification/Rename_Facts.thy ===== *)
theory Rename_Facts
  imports Rename_Main Test_Facts "HOL-Library.Multiset"
begin

text \<open>
  What a verdict of \<^verbatim>\<open>scripts/ddl_rename_test.py\<close> is worth: the keys it writes are all different, a pass
  has seen the type of \<^verbatim>\<open>last_login_at\<close> in every table, and renamings that all fail go unnoticed.
\<close>

section \<open>The keys of a run\<close>

text \<open>The operations of a source write a block of keys when they return.\<close>

definition writes_blocks :: "test_params \<Rightarrow> source_ops \<Rightarrow> bool" where
  "writes_blocks su ops = (\<forall>base col val s ids s1. op_dml ops base col val s = (Inr ids, s1) \<longrightarrow> ids = id_block base (su_dml_rows su))"

lemma source_blocks: "writes_blocks su (pg_ops h su)" "writes_blocks su (ora_ops h su)" "writes_blocks su (mgo_ops h su)"
  by (auto simp: writes_blocks_def pg_ops_def ora_ops_def mgo_ops_def pg_dml_def ora_dml_def ora_write_def mgo_dml_def
      Let_def chain_Inr yield_def)

definition phase_ids :: "phases \<Rightarrow> int list" where
  "phase_ids ps = concat (map snd ps)"

lemma dml_fresh:
  assumes "writes_blocks su ops" "fresh_ids a b (phase_ids ps)" "a \<le> b"
    and "dml_phase ops b col val ps s = (r, s1)"
  shows "\<exists>ps'. r = Inr ps' \<and> fresh_ids a (b + int (su_dml_rows su)) (phase_ids ps')"
proof (cases "op_dml ops b col val s")
  case (Pair x s2)
  show ?thesis
  proof (cases x)
    case (Inl exc)
    then show ?thesis using fresh_weaken[OF assms(2)] assms(4) Pair by (auto simp: dml_phase_def rescue_def chain_def yield_def)
  next
    case (Inr ids)
    then have "ids = id_block b (su_dml_rows su)" using assms(1) Pair unfolding writes_blocks_def by metis
    then have "fresh_ids a (b + int (su_dml_rows su)) (phase_ids (ps @ [(col, ids)]))"
      using assms(2,3) id_block_facts by (auto simp: phase_ids_def intro!: fresh_append)
    then show ?thesis using assms(4) Pair Inr by (auto simp: dml_phase_def rescue_def chain_def yield_def)
  qed
qed

lemma rename_phase_returns: "\<exists>c s1. rename_phase ops old new s = (Inr c, s1)"
  by (cases "op_rename ops old new s") (auto simp: rename_phase_def rescue_def chain_def yield_def split: sum.split)

lemma write_fresh:
  assumes "writes_blocks su ops" "fresh_ids a b (phase_ids ps)" "a \<le> b"
    and "rename_and_write su ops b old new val ps s = (r, s1)"
  shows "\<exists>c ps'. r = Inr (c, ps') \<and> fresh_ids a (b + int (su_dml_rows su)) (phase_ids ps')"
proof -
  obtain c s2 where ren: "rename_phase ops old new (snd (pause (su_settle su) s)) = (Inr c, s2)"
    using rename_phase_returns by blast
  obtain r3 s3 where dml: "dml_phase ops b c val ps (snd (pause (su_settle su) s2)) = (r3, s3)" by force
  obtain ps' where "r3 = Inr ps'" "fresh_ids a (b + int (su_dml_rows su)) (phase_ids ps')"
    using dml_fresh[OF assms(1-3) dml] by blast
  then show ?thesis
    using assms(4) ren dml by (auto simp: rename_and_write_def chain_def pause_def yield_def)
qed

lemma add_column_returns: "\<exists>b s1. add_column ops col s = (Inr b, s1)"
  by (cases "op_add ops col s") (auto simp: add_column_def rescue_def chain_def yield_def split: sum.split)

lemma drop_returns: "\<exists>s1. rescue m (yield ()) s = (Inr (), s1)"
  by (cases "m s") (auto simp: rescue_def yield_def split: sum.split)

lemma column_fresh:
  assumes "writes_blocks su ops" and "run_column_rename_test su ops col a s = (r, s1)"
  shows "\<exists>ps. r = Inr (ps, a + 4 * int (su_dml_rows su)) \<and> fresh_ids a (a + 4 * int (su_dml_rows su)) (phase_ids ps)"
proof -
  let ?n = "int (su_dml_rows su)" and ?pause = "\<lambda>s. snd (pause (su_settle su) s)"
  obtain added s2 where add: "add_column ops col s = (Inr added, s2)" using add_column_returns by blast
  show ?thesis
  proof (cases added)
    case False
    then show ?thesis using assms(2) add by (auto simp: run_column_rename_test_def Let_def chain_def yield_def fresh_ids_def phase_ids_def)
  next
    case True
    obtain r1 t1 where 1: "dml_phase ops a col 10 [] (?pause s2) = (r1, t1)" by force
    obtain p1 where p1: "r1 = Inr p1" "fresh_ids a (a + ?n) (phase_ids p1)"
      using dml_fresh[OF assms(1) _ _ 1, of a] by (auto simp: fresh_ids_def phase_ids_def)
    obtain r2 t2 where 2: "rename_and_write su ops (a + ?n) col (col @ ''_r1'') 20 p1 t1 = (r2, t2)" by force
    obtain c2 p2 where p2: "r2 = Inr (c2, p2)" "fresh_ids a (a + ?n + ?n) (phase_ids p2)"
      using write_fresh[OF assms(1) p1(2) _ 2] by auto
    obtain r3 t3 where 3: "rename_and_write su ops (a + ?n + ?n) c2 (col @ ''_r2'') 30 p2 t2 = (r3, t3)" by force
    obtain c3 p3 where p3: "r3 = Inr (c3, p3)" "fresh_ids a (a + ?n + ?n + ?n) (phase_ids p3)"
      using write_fresh[OF assms(1) p2(2) _ 3] by auto
    obtain r4 t4 where 4: "rename_and_write su ops (a + ?n + ?n + ?n) c3 (col @ ''_r3'') 40 p3 t3 = (r4, t4)" by force
    obtain c4 p4 where p4: "r4 = Inr (c4, p4)" "fresh_ids a (a + ?n + ?n + ?n + ?n) (phase_ids p4)"
      using write_fresh[OF assms(1) p3(2) _ 4] by auto
    obtain t5 where 5: "rescue (op_drop ops c4) (yield ()) (?pause t4) = (Inr (), t5)" using drop_returns by blast
    have "r = Inr (p4, a + ?n + ?n + ?n + ?n)"
      using assms(2) add True 1 2 3 4 5 p1(1) p2(1) p3(1) p4(1)
      by (simp add: run_column_rename_test_def Let_def chain_pause chain_step yield_def)
    moreover have "a + ?n + ?n + ?n + ?n = a + 4 * ?n" by simp
    ultimately show ?thesis using p4(2) by metis
  qed
qed

lemma map_ids_extend: "mset (phase_ids (extend_ids col ids m)) = mset (phase_ids m) + mset ids"
proof (cases "map_of m col")
  case (Some xs)
  have "map_of m col = Some xs \<Longrightarrow> mset (concat (map snd (AList.update col (xs @ ids) m))) = mset (concat (map snd m)) + mset ids"
    by (induction m) (auto split: if_splits)
  then show ?thesis using Some by (simp add: extend_ids_def phase_ids_def)
qed (simp add: extend_ids_def phase_ids_def)

lemma phase_ids_Cons: "phase_ids ((col, ids) # ps) = ids @ phase_ids ps" "phase_ids [] = []"
  by (simp_all add: phase_ids_def)

lemma collect_mset: "mset (phase_ids (collect_phases ps m)) = mset (phase_ids m) + mset (phase_ids ps)"
  unfolding collect_phases_def
  by (induction ps arbitrary: m) (auto simp: map_ids_extend phase_ids_Cons)

lemma collect_fresh:
  assumes "fresh_ids a b (phase_ids m)" "fresh_ids b c (phase_ids ps)" "a \<le> b" "b \<le> c"
  shows "fresh_ids a c (phase_ids (collect_phases ps m))"
proof -
  have "fresh_ids a c (phase_ids m @ phase_ids ps)"
    using assms by (intro fresh_append[of a b _ _ c]) (auto simp: fresh_ids_def)
  moreover have "mset (phase_ids (collect_phases ps m)) = mset (phase_ids m @ phase_ids ps)" by (simp add: collect_mset)
  ultimately show ?thesis unfolding fresh_ids_def by (metis mset_eq_imp_distinct_iff mset_eq_setD)
qed

lemma columns_fresh:
  assumes "writes_blocks su ops" "test_columns su ops label cols b m s = (r, s1)" "fresh_ids a b (phase_ids m)" "a \<le> b"
  shows "\<exists>m'. r = Inr (m', b + 4 * int (su_dml_rows su) * int (length cols)) \<and>
    fresh_ids a (b + 4 * int (su_dml_rows su) * int (length cols)) (phase_ids m')"
  using assms(2-)
proof (induction cols arbitrary: b m s)
  case (Cons col cols)
  obtain r1 s2 where one: "run_column_rename_test su ops col b s = (r1, s2)" by force
  obtain ps where ps: "r1 = Inr (ps, b + 4 * int (su_dml_rows su))" "fresh_ids b (b + 4 * int (su_dml_rows su)) (phase_ids ps)"
    using column_fresh[OF assms(1) one] by blast
  let ?s = "snd (record_check (label @ '' '' @ col @ '': all phases completed'') (length ps = 4) (str_of_nat (length ps) @ ''/4 DML phases'') s2)"
  have "test_columns su ops label cols (b + 4 * int (su_dml_rows su)) (collect_phases ps m) ?s = (r, s1)"
    using Cons.prems(1) one by (simp add: ps(1) chain_def record_check_def)
  from Cons.IH[OF this collect_fresh[OF Cons.prems(2) ps(2) Cons.prems(3)]] show ?case
    using Cons.prems(3) by (simp add: algebra_simps)
qed (auto simp: yield_def)

text \<open>
  whichever steps fail, the test of a source ends, and the keys of all the rows it has written are
  different and lie in the block that starts at its base: no row of a later phase overwrites one of an
  earlier phase.
\<close>

theorem rename_test_keys_distinct:
  assumes "ops \<in> {pg_ops h su, ora_ops h su, mgo_ops h su}"
  shows "\<exists>m s1. test_columns su ops label test_cols base [] s = (Inr (m, base + 20 * int (su_dml_rows su)), s1) \<and>
    distinct (concat (map snd m)) \<and> set (concat (map snd m)) \<subseteq> {base ..< base + 20 * int (su_dml_rows su)}"
proof -
  have "writes_blocks su ops" using assms source_blocks by auto
  moreover have "length test_cols = 5" by (simp add: test_cols_def)
  ultimately show ?thesis
    using columns_fresh[of su ops label test_cols base "[]" s _ _ base]
    by (cases "test_columns su ops label test_cols base [] s") (auto simp: fresh_ids_def phase_ids_def)
qed

section \<open>Renamings that fail\<close>

text \<open>Adding, writing and dropping succeed, and no renaming does.\<close>

definition only_renames_fail :: "test_params \<Rightarrow> source_ops \<Rightarrow> bool" where
  "only_renames_fail su ops = (\<forall>col new base val.
     returns_quietly (op_add ops col) () \<and> returns_quietly (op_drop ops col) () \<and>
     returns_quietly (op_dml ops base col val) (id_block base (su_dml_rows su)) \<and> raises_quietly (op_rename ops col new))"

lemma quiet_ops:
  assumes "only_renames_fail su ops"
  shows "returns_quietly (op_add ops col) ()" "returns_quietly (op_drop ops col) ()"
    "returns_quietly (op_dml ops base col val) (id_block base (su_dml_rows su))" "raises_quietly (op_rename ops col new)"
  using assms unfolding only_renames_fail_def by blast+

lemma quiet_phase:
  "only_renames_fail su ops \<Longrightarrow> returns_quietly (dml_phase ops b col val ps) (ps @ [(col, id_block b (su_dml_rows su))])"
  unfolding dml_phase_def by (rule quiet_rescue, rule quiet_chain, erule quiet_ops(3), rule quiet_yield)

lemma quiet_write:
  assumes "only_renames_fail su ops"
  shows "returns_quietly (rename_and_write su ops b old new val ps) (old, ps @ [(old, id_block b (su_dml_rows su))])"
proof -
  have "returns_quietly (rename_phase ops old new) old"
    unfolding rename_phase_def by (rule raised_rescue, rule quiet_ops(4)[OF assms], rule quiet_yield)
  then show ?thesis
    unfolding rename_and_write_def
    by - (rule quiet_chain, rule quiet_pause, rule quiet_chain, assumption, rule quiet_chain, rule quiet_pause, rule quiet_chain,
      rule quiet_phase[OF assms], rule quiet_yield)
qed

definition same_column :: "nat \<Rightarrow> string \<Rightarrow> int \<Rightarrow> phases" where
  "same_column n col a = map (\<lambda>k. (col, id_block (a + k * int n) n)) [0, 1, 2, 3]"

lemma quiet_column:
  assumes "only_renames_fail su ops"
  shows "returns_quietly (run_column_rename_test su ops col a) (same_column (su_dml_rows su) col a, a + 4 * int (su_dml_rows su))"
proof -
  have add: "returns_quietly (add_column ops col) True"
    unfolding add_column_def by (rule quiet_rescue, rule quiet_chain, rule quiet_ops(1)[OF assms], rule quiet_yield)
  have drop: "returns_quietly (rescue (op_drop ops col) (yield ())) ()"
    by (rule quiet_rescue, rule quiet_ops(2)[OF assms])
  have result: "(same_column (su_dml_rows su) col a, a + 4 * int (su_dml_rows su)) =
    (((([] @ [(col, id_block a (su_dml_rows su))]) @ [(col, id_block (a + int (su_dml_rows su)) (su_dml_rows su))]) @
      [(col, id_block (a + int (su_dml_rows su) + int (su_dml_rows su)) (su_dml_rows su))]) @
      [(col, id_block (a + int (su_dml_rows su) + int (su_dml_rows su) + int (su_dml_rows su)) (su_dml_rows su))],
     a + int (su_dml_rows su) + int (su_dml_rows su) + int (su_dml_rows su) + int (su_dml_rows su))"
    by (simp add: same_column_def algebra_simps)
  show ?thesis
    unfolding run_column_rename_test_def Let_def result
    apply (rule quiet_chain, rule add, simp only: not_True_eq_False if_False)
    apply (rule quiet_chain, rule quiet_pause)
    apply (rule quiet_chain, rule quiet_phase[OF assms])
    apply (rule quiet_chain, rule quiet_write[OF assms], simp only: prod.case)
    apply (rule quiet_chain, rule quiet_write[OF assms], simp only: prod.case)
    apply (rule quiet_chain, rule quiet_write[OF assms], simp only: prod.case)
    by (rule quiet_chain, rule quiet_pause, rule quiet_chain, rule drop, rule quiet_yield)
qed

definition passed_check :: "string \<Rightarrow> string \<Rightarrow> check" where
  "passed_check label col = (label @ '' '' @ col @ '': all phases completed'', True, ''4/4 DML phases'')"

lemma same_column_keys: "length (same_column n col a) = 4" "fst ` set (same_column n col a) = {col}" "str_of_nat 4 = ''4''"
  by (simp add: same_column_def, auto simp: same_column_def, code_simp)

lemma collect_keys: "fst ` set (collect_phases ps m) = fst ` set m \<union> fst ` set ps"
proof (induction ps arbitrary: m)
  case (Cons p ps)
  have "fst ` set (extend_ids col ids m) = insert col (fst ` set m)" for col ids
    by (auto simp: extend_ids_def dom_update dom_map_of_conv_image_fst[symmetric] update_conv' split: option.split)
  then show ?case using Cons by (cases p) (auto simp: collect_phases_def)
qed (simp add: collect_phases_def)

lemma failing_renames_pass:
  assumes "only_renames_fail su ops"
  shows "\<exists>m next_id s1. test_columns su ops label cols b m0 s = (Inr (m, next_id), s1) \<and> fst ` set m = fst ` set m0 \<union> set cols \<and>
    se_results s1 = se_results s @ map (passed_check label) cols"
proof (induction cols arbitrary: b m0 s)
  case (Cons col cols)
  let ?n = "su_dml_rows su"
  obtain s1 where one: "run_column_rename_test su ops col b s = (Inr (same_column ?n col b, b + 4 * int ?n), s1)" "se_results s1 = se_results s"
    using quiet_column[OF assms] unfolding returns_with_def by blast
  let ?s = "s1\<lparr>se_results := se_results s1 @ [passed_check label col]\<rparr>"
  obtain m next_id s2 where rest: "test_columns su ops label cols (b + 4 * int ?n) (collect_phases (same_column ?n col b) m0) ?s = (Inr (m, next_id), s2)"
    "fst ` set m = fst ` set m0 \<union> {col} \<union> set cols" "se_results s2 = se_results ?s @ map (passed_check label) cols"
    using Cons[of "b + 4 * int ?n" "collect_phases (same_column ?n col b) m0" ?s] by (auto simp: collect_keys same_column_keys)
  have "test_columns su ops label (col # cols) b m0 s = (Inr (m, next_id), s2)"
    using rest(1) one by (simp add: chain_def record_check_def passed_check_def same_column_keys)
  then show ?case using rest(2,3) one(2) by auto
qed (simp add: yield_def)

lemma no_base_is_renamed: "list_all (\<lambda>col. col \<notin> set test_cols) renamed_cols"
  by code_simp

text \<open>
  C34: renamings that all fail are not noticed. When adding, writing and dropping work and no renaming
  does, the test of the source records five passed checks, and no renamed column is looked for in Iceberg:
  the rows carry the old name, and only names that were written are polled.
\<close>

theorem failed_renames_pass:
  assumes "only_renames_fail su ops"
  shows "\<exists>m next_id s1. test_columns su ops label test_cols base [] s = (Inr (m, next_id), s1) \<and>
    se_results s1 = se_results s @ map (passed_check label) test_cols \<and>
    list_all (\<lambda>col. tables_to_check su \<lparr>ai_pg = m, ai_ora = [], ai_mgo = []\<rparr> col = []) renamed_cols"
proof -
  obtain m next_id s1 where run: "test_columns su ops label test_cols base [] s = (Inr (m, next_id), s1)" "fst ` set m = set test_cols"
    "se_results s1 = se_results s @ map (passed_check label) test_cols"
    using failing_renames_pass[OF assms, of label test_cols base "[]" s] by auto
  have "ids_for m col = []" if "col \<notin> set test_cols" for col
    using that run(2) by (auto simp: ids_for_def map_of_eq_None_iff[symmetric] split: option.split)
  then have "list_all (\<lambda>col. tables_to_check su \<lparr>ai_pg = m, ai_ora = [], ai_mgo = []\<rparr> col = []) renamed_cols"
    using no_base_is_renamed by (auto simp: list_all_iff tables_to_check_def ids_for_def)
  then show ?thesis using run by blast
qed

text \<open>A source in which \<^verbatim>\<open>psql\<close> refuses the block of a renaming, which starts with a line break.\<close>

definition no_renames :: host where
  "no_renames = \<lparr>ho_run = (\<lambda>tr c. case c of
       Psql sql \<Rightarrow> if startswith sql newline then Completed 1 [] ''ERROR'' else Completed 0 [] []
     | _ \<Rightarrow> Completed 0 ''pod'' []),
   ho_secs = (\<lambda>tr c. 1)\<rparr>"

definition pg_params :: test_params where
  "pg_params = \<lparr>su_pg_dsn = ''dsn'', su_mgo_uri = [], su_ora_dsn = [], su_poll_secs = 240, su_dml_rows = 5, su_settle = 3,
     su_epoch = 1700000000, su_sources = [''postgres'']\<rparr>"

lemma pg_renames_fail: "only_renames_fail pg_params (pg_ops no_renames pg_params)"
proof -
  have strip: "py_strip ''pod'' = ''pod''" "py_strip ''ERROR'' = ''ERROR''" "py_strip [] = []" by code_simp+
  have heads: "startswith (pg_rename_sql col new) newline" "\<not> startswith (CHR ''A'' # t) newline" for col new t
    by (simp_all add: startswith_def pg_rename_sql_def newline_def)
  show ?thesis
    unfolding only_renames_fail_def returns_with_def raises_with_def
    by (simp add: pg_ops_def pg_add_col_def pg_drop_col_def pg_rename_col_def pg_dml_def Let_def pg_ddl_def or_raise_def
        pod_exec_def get_db_pod_def test_kubectl_def chain_def proc_def no_renames_def yield_def throw_def strip heads)
qed

lemma failed_renames_pass_witness:
  "\<exists>m next_id s1. test_columns pg_params (pg_ops no_renames pg_params) ''PG'' test_cols 17000000000 [] idle = (Inr (m, next_id), s1) \<and>
    se_results s1 = se_results idle @ map (passed_check ''PG'') test_cols \<and>
    list_all (\<lambda>col. tables_to_check pg_params \<lparr>ai_pg = m, ai_ora = [], ai_mgo = []\<rparr> col = []) renamed_cols"
  by (rule failed_renames_pass[OF pg_renames_fail])

lemma rename_test_keys_distinct_witness:
  "\<exists>m s1. test_columns pg_params (pg_ops no_renames pg_params) ''PG'' test_cols 7 [] idle = (Inr (m, 7 + 20 * int (su_dml_rows pg_params)), s1) \<and>
    distinct (concat (map snd m)) \<and> set (concat (map snd m)) \<subseteq> {7 ..< 7 + 20 * int (su_dml_rows pg_params)}"
  by (rule rename_test_keys_distinct[where h = no_renames]) simp

section \<open>A verdict\<close>

text \<open>
  a run that exits with status 0 has seen, in an answer of Spark, that \<^verbatim>\<open>last_login_at\<close> is a big
  integer in each of the seven tables.
\<close>

theorem passed_run_saw_types:
  assumes "rename_main h su s = (Inr 0, s1)" "t \<in> set ice_tables"
  shows "type_seen s1 t"
proof -
  obtain earlier sa sb sc where types: "each (check_login_type h) ice_tables sa = (Inr (), sb)"
    and restarts: "check_restarts h earlier sb = (Inr (), sc)" and report: "final_report sc = (Inr 0, s1)"
    using assms(1) unfolding rename_main_def Let_def by (auto simp: chain_Inr)
  have ok: "list_all (\<lambda>(label, ok, detail). ok) (se_results s1)" "s1 = sc"
    using report by (auto simp: final_report_def exit_status_def split: if_splits)
  have bc: "grown sb sc" using keeps_apply[OF grown_checks(1) restarts] .
  obtain s' s2 where one: "check_login_type h t s' = (Inr (), s2)" and "grown s2 sb"
    using each_Inr[OF types assms(2) grown_checks(2)] by blast
  then have last: "grown s2 s1" using bc growth.trans ok(2) by blast
  then have "list_all (\<lambda>(label, ok, detail). ok) (se_results s2)" using ok(1) by (auto simp: grown_def)
  then show ?thesis using login_type_seen[OF one] type_seen_grown[OF _ last] by blast
qed

text \<open>When the first count of restarts cannot be read, no restart is ever reported.\<close>

lemma unread_counts_pass: "crashed_pods [] after = []" "restart_counts [] = []"
  by (simp_all add: crashed_pods_def restart_counts_def)

text \<open>The blocks of keys of two runs that start ten seconds apart overlap.\<close>

lemma later_run_reuses_keys: "set (id_block ((e + 10) * 10) (20 * 6)) \<inter> set (id_block (e * 10) (20 * 6)) \<noteq> {}"
proof -
  have "(e + 10) * 10 \<in> set (id_block ((e + 10) * 10) 120) \<inter> set (id_block (e * 10) 120)" by (auto simp: id_block_facts)
  then show ?thesis by auto
qed

end
