(* ===== verification/E2e_Test.thy ===== *)
theory E2e_Test
  imports Rename_Test Test_Polling
begin

text \<open>
  \<^verbatim>\<open>scripts/ddl_e2e_test.py\<close>: cycles that drop and add one column in each source, with rows written before
  and after the addition in every n-th cycle; then the Iceberg tables are checked. The settings are the
  record \<open>cycle_params\<close>; the operations on the sources are those of the test of renamings, at one column.
\<close>

section \<open>The sources\<close>

definition new_col :: string where
  "new_col = ''loyalty_tier_v2''"

record cycle_params =
  cp_test :: test_params
  cp_pg_cycles :: nat
  cp_ora_cycles :: nat
  cp_mgo_cycles :: nat
  cp_every :: int

record cycle_ops =
  co_drop :: "unit step"
  co_add :: "unit step"
  co_pre :: "int \<Rightarrow> int list step"
  co_post :: "int \<Rightarrow> int list step"

definition pg_cycle_rows :: "test_params \<Rightarrow> bool \<Rightarrow> int list \<Rightarrow> customer_row list" where
  "pg_cycle_rows su with_col ids = rows_of (\<lambda>i cid.
     \<lparr>cu_id = cid, cu_name = (if with_col then ''StressPG'' else ''StressPGpre'') @ str_of_int cid, cu_last = [],
      cu_email = ''stress'' @ str_of_int cid @ ''@pg.test'', cu_credit = 0, cu_tier = (if with_col then ''gold'' else ''silver''),
      cu_value = (if with_col then Some (int i + 1) else None)\<rparr>) ids"

definition pg_cycle_dml :: "host \<Rightarrow> test_params \<Rightarrow> bool \<Rightarrow> int \<Rightarrow> int list step" where
  "pg_cycle_dml h su with_col base = (let ids = id_block base (su_dml_rows su) in
     chain (pod_exec h (Pg_Insert (su_pg_dsn su) (if with_col then Some new_col else None) (pg_cycle_rows su with_col ids))) (\<lambda>_. yield ids))"

definition ora_cycle_row :: "bool \<Rightarrow> nat \<Rightarrow> int \<Rightarrow> string" where
  "ora_cycle_row with_col i cid =
     ''DELETE FROM CUSTOMERS WHERE CUSTOMER_ID='' @ str_of_int cid @ '';'' @ newline @
     ''INSERT INTO CUSTOMERS(CUSTOMER_ID,FIRST_NAME,LAST_NAME,EMAIL,'' @
     ''CITY,COUNTRY_CODE,TIER,CREDIT_LIMIT,IS_ACTIVE'' @ (if with_col then '','' @ py_upper new_col else []) @ '') '' @
     ''VALUES('' @ str_of_int cid @ '','' @ in_apos ((if with_col then ''StressORA'' else ''StressORApre'') @ str_of_int cid) @ '','' @
     in_apos ''Stress'' @ '','' @ in_apos (''s'' @ str_of_int cid @ ''@ora.test'') @ '','' @
     in_apos ''TestCity'' @ '','' @ in_apos ''US'' @ '','' @
     (if with_col then in_apos ''GOLD'' @ '',5000,'' @ in_apos ''Y'' @ '','' @ str_of_nat (i + 1)
      else in_apos ''STANDARD'' @ '',3000,'' @ in_apos ''Y'') @ '');''"

definition ora_cycle_dml :: "host \<Rightarrow> test_params \<Rightarrow> bool \<Rightarrow> int \<Rightarrow> int list step" where
  "ora_cycle_dml h su with_col base = (let ids = id_block base (su_dml_rows su) in
     ora_write h su (rows_of (ora_cycle_row with_col) ids) ids)"

definition mgo_cycle_docs :: "bool \<Rightarrow> int list \<Rightarrow> customer_row list" where
  "mgo_cycle_docs with_col ids = rows_of (\<lambda>i cid.
     \<lparr>cu_id = cid, cu_name = ''Stress'' @ str_of_nat i, cu_last = (if with_col then ''MGO'' else ''MGOpre''),
      cu_email = ''s'' @ str_of_int cid @ ''@mgo.test'', cu_credit = (if with_col then 5000 else 3000),
      cu_tier = (if with_col then ''gold'' else ''silver''), cu_value = (if with_col then Some (int i + 1) else None)\<rparr>) ids"

definition mgo_cycle_dml :: "host \<Rightarrow> test_params \<Rightarrow> bool \<Rightarrow> int \<Rightarrow> int list step" where
  "mgo_cycle_dml h su with_col base = (let ids = id_block base (su_dml_rows su) in
     chain (pod_exec h (Mgo_Insert (su_mgo_uri su) (if with_col then Some new_col else None) (mgo_cycle_docs with_col ids))) (\<lambda>_. yield ids))"

definition pg_cycle_ops :: "host \<Rightarrow> test_params \<Rightarrow> cycle_ops" where
  "pg_cycle_ops h su = \<lparr>co_drop = pg_drop_col h new_col, co_add = pg_add_col h new_col,
     co_pre = pg_cycle_dml h su False, co_post = pg_cycle_dml h su True\<rparr>"

definition ora_cycle_ops :: "host \<Rightarrow> test_params \<Rightarrow> cycle_ops" where
  "ora_cycle_ops h su = \<lparr>co_drop = ora_drop_col h su new_col, co_add = ora_add_col h su new_col,
     co_pre = ora_cycle_dml h su False, co_post = ora_cycle_dml h su True\<rparr>"

definition mgo_cycle_ops :: "host \<Rightarrow> test_params \<Rightarrow> cycle_ops" where
  "mgo_cycle_ops h su = \<lparr>co_drop = mgo_drop_col h su new_col, co_add = mgo_add_col h su new_col,
     co_pre = mgo_cycle_dml h su False, co_post = mgo_cycle_dml h su True\<rparr>"

section \<open>The cycles\<close>

record cycle_stats =
  cs_drop_ok :: nat
  cs_drop_fail :: nat
  cs_add_ok :: nat
  cs_add_fail :: nat
  cs_pre_ok :: nat
  cs_post_ok :: nat
  cs_pre_ids :: "int list"
  cs_post_ids :: "int list"

definition no_stats :: cycle_stats where
  "no_stats = \<lparr>cs_drop_ok = 0, cs_drop_fail = 0, cs_add_ok = 0, cs_add_fail = 0, cs_pre_ok = 0, cs_post_ok = 0,
     cs_pre_ids = [], cs_post_ids = []\<rparr>"

text \<open>The statistics so far and the next key.\<close>

type_synonym cycle_state = "cycle_stats \<times> int"

definition pre_write :: "nat \<Rightarrow> cycle_ops \<Rightarrow> cycle_state \<Rightarrow> cycle_state step" where
  "pre_write rows ops = (\<lambda>(st, next_id). chain (attempted (co_pre ops next_id)) (\<lambda>r. yield (case r of
       None \<Rightarrow> (st, next_id)
     | Some ids \<Rightarrow> (st\<lparr>cs_pre_ids := cs_pre_ids st @ ids, cs_pre_ok := cs_pre_ok st + 1\<rparr>, next_id + int rows))))"

definition post_write :: "nat \<Rightarrow> cycle_ops \<Rightarrow> cycle_state \<Rightarrow> cycle_state step" where
  "post_write rows ops = (\<lambda>(st, next_id). chain (attempted (co_post ops next_id)) (\<lambda>r. yield (case r of
       None \<Rightarrow> (st, next_id)
     | Some ids \<Rightarrow> (st\<lparr>cs_post_ids := cs_post_ids st @ ids, cs_post_ok := cs_post_ok st + 1\<rparr>, next_id + int rows))))"

definition add_and_write :: "nat \<Rightarrow> cycle_ops \<Rightarrow> bool \<Rightarrow> cycle_state \<Rightarrow> cycle_state step" where
  "add_and_write rows ops do_dml = (\<lambda>(st, next_id). chain (attempted (co_add ops)) (\<lambda>added.
     if added = None then yield (st\<lparr>cs_add_fail := cs_add_fail st + 1\<rparr>, next_id)
     else (let counted = (st\<lparr>cs_add_ok := cs_add_ok st + 1\<rparr>, next_id) in
       chain (pause 2) (\<lambda>_. if do_dml then post_write rows ops counted else yield counted))))"

definition run_cycle :: "nat \<Rightarrow> cycle_ops \<Rightarrow> bool \<Rightarrow> cycle_state \<Rightarrow> cycle_state step" where
  "run_cycle rows ops do_dml = (\<lambda>(st, next_id). chain (attempted (co_drop ops)) (\<lambda>dropped.
     if dropped = None then yield (st\<lparr>cs_drop_fail := cs_drop_fail st + 1\<rparr>, next_id)
     else (let counted = (st\<lparr>cs_drop_ok := cs_drop_ok st + 1\<rparr>, next_id) in
       chain (pause 2) (\<lambda>_. chain (if do_dml then pre_write rows ops counted else yield counted) (add_and_write rows ops do_dml)))))"

text \<open>The remainder by zero is taken outside the handlers of a cycle: it ends the run.\<close>

fun run_cycles :: "nat \<Rightarrow> cycle_ops \<Rightarrow> int \<Rightarrow> nat list \<Rightarrow> cycle_state \<Rightarrow> cycle_state step" where
  "run_cycles rows ops every [] cs = yield cs"
| "run_cycles rows ops every (c # rest) cs =
     (if every = 0 then throw ''ZeroDivisionError''
      else chain (run_cycle rows ops (int c mod every = 0) cs) (run_cycles rows ops every rest))"

definition run_source_cycles :: "nat \<Rightarrow> cycle_ops \<Rightarrow> nat \<Rightarrow> int \<Rightarrow> int \<Rightarrow> cycle_stats step" where
  "run_source_cycles rows ops cycles every id_base =
     chain (run_cycles rows ops every [1..<Suc cycles] (no_stats, id_base)) (\<lambda>(st, _). yield st)"

section \<open>The checks and main\<close>

definition drops_label :: "string \<Rightarrow> string" where
  "drops_label label = label @ '' cycles '' @ em_dash @ '' all DROPs succeeded''"

definition adds_label :: "string \<Rightarrow> string" where
  "adds_label label = label @ '' cycles '' @ em_dash @ '' all ADDs succeeded''"

definition record_cycles :: "string \<Rightarrow> nat \<Rightarrow> cycle_stats \<Rightarrow> unit step" where
  "record_cycles label cycles st =
     chain (record_check (drops_label label) (cs_drop_fail st = 0)
         (str_of_nat (cs_drop_ok st) @ ''/'' @ str_of_nat cycles)) (\<lambda>_.
       record_check (adds_label label) (cs_add_fail st = 0)
         (str_of_nat (cs_add_ok st) @ ''/'' @ str_of_nat cycles))"

definition test_source :: "cycle_params \<Rightarrow> cycle_ops \<Rightarrow> string \<Rightarrow> nat \<Rightarrow> int \<Rightarrow> cycle_stats step" where
  "test_source cp ops label cycles id_base =
     chain (run_source_cycles (su_dml_rows (cp_test cp)) ops cycles (cp_every cp) id_base) (\<lambda>st.
       chain (record_cycles label cycles st) (\<lambda>_. yield st))"

definition visible_label :: "ice_table \<Rightarrow> string" where
  "visible_label t = ''Iceberg col visible '' @ em_dash @ '' '' @ table_name t"

definition poll_new_col :: "host \<Rightarrow> nat \<Rightarrow> unit step" where
  "poll_new_col h timeout = chain now (\<lambda>t. chain (poll_loop (Some visible_label) h new_col (t + timeout) ice_tables []) (\<lambda>(found, remaining).
     each (\<lambda>e. record_check (visible_label e) False []) remaining))"

definition key_column :: "string \<Rightarrow> string" where
  "key_column src = (if src = ''postgres'' then ''id'' else if src = ''oracle'' then ''CUSTOMER_ID'' else ''customer_id'')"

definition ids_of_source :: "int list \<Rightarrow> int list \<Rightarrow> int list \<Rightarrow> string \<Rightarrow> int list" where
  "ids_of_source pg ora mgo src = (if src = ''postgres'' then pg else if src = ''oracle'' then ora else if src = ''mongodb'' then mgo else [])"

definition check_written :: "host \<Rightarrow> string \<Rightarrow> string \<Rightarrow> (string \<Rightarrow> int list) \<Rightarrow> ice_table \<Rightarrow> unit step" where
  "check_written h label cond ids_by_src t = (let ids = ids_by_src (fst t) in
     if ids = [] then yield ()
     else chain (iceberg_count h t (key_column (fst t)) ids (''`'' @ new_col @ ''` '' @ cond)) (\<lambda>found.
       record_check (label @ '' '' @ em_dash @ '' '' @ table_name t) (found = int (length ids))
         (str_of_int found @ ''/'' @ str_of_nat (length ids))))"

definition e2e_main :: "host \<Rightarrow> cycle_params \<Rightarrow> nat step" where
  "e2e_main h cp = (let su = cp_test cp in
     chain (snapshot_restarts h) (\<lambda>earlier. chain (test_spark_flags h) (\<lambda>_.
     chain (test_source cp (pg_cycle_ops h su) ''PG'' (cp_pg_cycles cp) (su_epoch su * 10 + 0)) (\<lambda>pg.
     chain (test_source cp (ora_cycle_ops h su) ''ORA'' (cp_ora_cycles cp) (su_epoch su * 10 + 1)) (\<lambda>ora.
     chain (test_source cp (mgo_cycle_ops h su) ''MGO'' (cp_mgo_cycles cp) (su_epoch su * 10 + 2)) (\<lambda>mgo.
     chain (pause 45) (\<lambda>_. chain (poll_new_col h (su_poll_secs su)) (\<lambda>_.
     chain (each (check_written h ''Post-DML rows IS NOT NULL'' ''IS NOT NULL'' (ids_of_source (cs_post_ids pg) (cs_post_ids ora) (cs_post_ids mgo))) ice_tables) (\<lambda>_.
     chain (each (check_written h ''Pre-DDL rows IS NULL'' ''IS NULL'' (ids_of_source (cs_pre_ids pg) (cs_pre_ids ora) (cs_pre_ids mgo))) ice_tables) (\<lambda>_.
     chain (each (check_login_type h) ice_tables) (\<lambda>_.
     chain (check_restarts h earlier) (\<lambda>_. final_report))))))))))))"

end
