(* ===== verification/E2e_Facts.thy ===== *)
theory E2e_Facts
  imports E2e_Test Test_Facts
begin

text \<open>
  What the cycles of \<^verbatim>\<open>scripts/ddl_e2e_test.py\<close> count, which keys they write, and what is not
  noticed: no row is checked when no row was written.
\<close>

section \<open>The count of the cycles\<close>

definition blocks_written :: "nat \<Rightarrow> cycle_ops \<Rightarrow> bool" where
  "blocks_written n ops = (\<forall>base ids s s1. (co_pre ops base s = (Inr ids, s1) \<or> co_post ops base s = (Inr ids, s1)) \<longrightarrow> ids = id_block base n)"

lemma sources_write_blocks: "ops \<in> {pg_cycle_ops h su, ora_cycle_ops h su, mgo_cycle_ops h su} \<Longrightarrow> blocks_written (su_dml_rows su) ops"
  by (auto simp: blocks_written_def pg_cycle_ops_def ora_cycle_ops_def mgo_cycle_ops_def pg_cycle_dml_def ora_cycle_dml_def
      mgo_cycle_dml_def ora_write_def Let_def chain_Inr yield_def)

text \<open>
  After \<open>k\<close> cycles, \<open>p\<close> of them dropped and not yet added, with at most \<open>d\<close> writes before an addition and
  \<open>e\<close> after one.
\<close>

definition counted :: "nat \<Rightarrow> int \<Rightarrow> nat \<Rightarrow> nat \<Rightarrow> nat \<Rightarrow> nat \<Rightarrow> cycle_state \<Rightarrow> bool" where
  "counted n b k p d e = (\<lambda>(st, next_id).
     next_id = b + int (n * (cs_pre_ok st + cs_post_ok st)) \<and>
     cs_drop_ok st + cs_drop_fail st = k \<and> cs_add_ok st + cs_add_fail st + p = cs_drop_ok st \<and>
     length (cs_pre_ids st) = n * cs_pre_ok st \<and> length (cs_post_ids st) = n * cs_post_ok st \<and>
     cs_pre_ok st \<le> d \<and> cs_post_ok st \<le> e \<and> fresh_ids b next_id (cs_pre_ids st @ cs_post_ids st))"

lemma fresh_block: "\<lbrakk>fresh_ids b c xs; b \<le> c\<rbrakk> \<Longrightarrow> fresh_ids b (c + int n) (xs @ id_block c n)"
  by (rule fresh_append[of b c]) (auto simp: id_block_facts)

lemma fresh_swap: "fresh_ids b c (xs @ ys @ zs) \<longleftrightarrow> fresh_ids b c (xs @ zs @ ys)"
  by (auto simp: fresh_ids_def)

lemma counted_pre:
  assumes "counted n b k p d e (st, next_id)"
  shows "counted n b k p (Suc d) e (st\<lparr>cs_pre_ids := cs_pre_ids st @ id_block next_id n, cs_pre_ok := cs_pre_ok st + 1\<rparr>, next_id + int n)"
  using assms fresh_block[of b next_id "cs_pre_ids st @ cs_post_ids st" n]
  by (auto simp: counted_def id_block_facts algebra_simps fresh_swap[of b _ "cs_pre_ids st" _ "cs_post_ids st"])

lemma counted_post:
  assumes "counted n b k p d e (st, next_id)"
  shows "counted n b k p d (Suc e) (st\<lparr>cs_post_ids := cs_post_ids st @ id_block next_id n, cs_post_ok := cs_post_ok st + 1\<rparr>, next_id + int n)"
  using assms fresh_block[of b next_id "cs_pre_ids st @ cs_post_ids st" n]
  by (auto simp: counted_def id_block_facts algebra_simps)

lemma counted_mono: "\<lbrakk>counted n b k p d e cs; d \<le> d'; e \<le> e'\<rbrakk> \<Longrightarrow> counted n b k p d' e' cs"
  by (auto simp: counted_def split: prod.splits)

lemma pre_write_counted:
  assumes "blocks_written n ops" "counted n b k p d e cs"
  shows "\<exists>cs' s1. pre_write n ops cs s = (Inr cs', s1) \<and> counted n b k p (Suc d) e cs'"
proof -
  obtain st next_id where cs: "cs = (st, next_id)" by force
  obtain r s1 where r: "attempted (co_pre ops next_id) s = (Inr r, s1)" "\<forall>x. r = Some x \<longrightarrow> (\<exists>s'. co_pre ops next_id s = (Inr x, s'))"
    using attempted_returns[of "co_pre ops next_id" s] by blast
  show ?thesis
  proof (cases r)
    case None
    then show ?thesis using r(1) counted_mono[OF assms(2), of "Suc d" e] by (simp add: pre_write_def cs chain_def yield_def)
  next
    case (Some ids)
    then have "ids = id_block next_id n" using r(2) assms(1) unfolding blocks_written_def by blast
    then show ?thesis using r(1) Some counted_pre[of n b k p d e st next_id] assms(2) by (simp add: pre_write_def cs chain_def yield_def)
  qed
qed

lemma post_write_counted:
  assumes "blocks_written n ops" "counted n b k p d e cs"
  shows "\<exists>cs' s1. post_write n ops cs s = (Inr cs', s1) \<and> counted n b k p d (Suc e) cs'"
proof -
  obtain st next_id where cs: "cs = (st, next_id)" by force
  obtain r s1 where r: "attempted (co_post ops next_id) s = (Inr r, s1)" "\<forall>x. r = Some x \<longrightarrow> (\<exists>s'. co_post ops next_id s = (Inr x, s'))"
    using attempted_returns[of "co_post ops next_id" s] by blast
  show ?thesis
  proof (cases r)
    case None
    then show ?thesis using r(1) counted_mono[OF assms(2), of d "Suc e"] by (simp add: post_write_def cs chain_def yield_def)
  next
    case (Some ids)
    then have "ids = id_block next_id n" using r(2) assms(1) unfolding blocks_written_def by blast
    then show ?thesis using r(1) Some counted_post[of n b k p d e st next_id] assms(2) by (simp add: post_write_def cs chain_def yield_def)
  qed
qed

lemma add_counted:
  assumes "blocks_written n ops" "counted n b k 1 d e cs" "do_dml \<Longrightarrow> e < e'" "e \<le> e'"
  shows "\<exists>cs' s1. add_and_write n ops do_dml cs s = (Inr cs', s1) \<and> counted n b k 0 d e' cs'"
proof -
  obtain st next_id where cs: "cs = (st, next_id)" by force
  obtain r s1 where r: "attempted (co_add ops) s = (Inr r, s1)" using attempted_returns[of "co_add ops" s] by blast
  have add: "counted n b k 0 d e' (st\<lparr>cs_add_fail := cs_add_fail st + 1\<rparr>, next_id)" "counted n b k 0 d e (st\<lparr>cs_add_ok := cs_add_ok st + 1\<rparr>, next_id)"
    using assms(2,4) by (auto simp: counted_def cs)
  obtain cs' s2 where "post_write n ops (st\<lparr>cs_add_ok := cs_add_ok st + 1\<rparr>, next_id) (snd (pause 2 s1)) = (Inr cs', s2)" "counted n b k 0 d (Suc e) cs'"
    using post_write_counted[OF assms(1) add(2)] by blast
  then show ?thesis
    using r add assms(3,4) counted_mono[of n b k 0 d "Suc e" cs' d e'] counted_mono[OF add(2), of d e']
    by (cases do_dml; cases cs') (auto simp: add_and_write_def cs chain_def pause_def yield_def Let_def)
qed

lemma cycle_counted:
  assumes "blocks_written n ops" "counted n b k 0 d d cs" "d' = (if do_dml then Suc d else d)"
  shows "\<exists>cs' s1. run_cycle n ops do_dml cs s = (Inr cs', s1) \<and> counted n b (Suc k) 0 d' d' cs'"
proof -
  obtain st next_id where cs: "cs = (st, next_id)" by force
  obtain r s1 where r: "attempted (co_drop ops) s = (Inr r, s1)" using attempted_returns[of "co_drop ops" s] by blast
  have drop: "counted n b (Suc k) 0 d' d' (st\<lparr>cs_drop_fail := cs_drop_fail st + 1\<rparr>, next_id)"
    "counted n b (Suc k) 1 d d (st\<lparr>cs_drop_ok := cs_drop_ok st + 1\<rparr>, next_id)"
    using assms(2,3) by (auto simp: counted_def cs)
  let ?m = "if do_dml then pre_write n ops (st\<lparr>cs_drop_ok := cs_drop_ok st + 1\<rparr>, next_id) else yield (st\<lparr>cs_drop_ok := cs_drop_ok st + 1\<rparr>, next_id)"
  obtain cs2 s2 where pre: "?m (snd (pause 2 s1)) = (Inr cs2, s2)" "counted n b (Suc k) 1 d' d cs2"
    using pre_write_counted[OF assms(1) drop(2), of "snd (pause 2 s1)"] drop(2) assms(3) by (cases do_dml) (auto simp: yield_def)
  have "\<exists>cs3 s3. add_and_write n ops do_dml cs2 s2 = (Inr cs3, s3) \<and> counted n b (Suc k) 0 d' d' cs3"
    by (rule add_counted[OF assms(1) pre(2)]) (use assms(3) in auto)
  then obtain cs3 s3 where add: "add_and_write n ops do_dml cs2 s2 = (Inr cs3, s3)" "counted n b (Suc k) 0 d' d' cs3" by blast
  show ?thesis
    using r drop(1) pre(1) add by (cases r; cases cs3) (auto simp: run_cycle_def cs chain_def[of "attempted _"] chain_pause Let_def yield_def chain_step)
qed

lemma cycles_counted:
  assumes "blocks_written n ops" "every \<noteq> 0" "counted n b k 0 d d cs"
  shows "\<exists>cs' s1. run_cycles n ops every cycles cs s = (Inr cs', s1) \<and>
    counted n b (k + length cycles) 0 (d + length (filter (\<lambda>c. int c mod every = 0) cycles)) (d + length (filter (\<lambda>c. int c mod every = 0) cycles)) cs'"
  using assms(3)
proof (induction cycles arbitrary: k d cs s)
  case (Cons c rest)
  let ?do = "int c mod every = 0"
  obtain cs1 s1 where one: "run_cycle n ops ?do cs s = (Inr cs1, s1)" "counted n b (Suc k) 0 (if ?do then Suc d else d) (if ?do then Suc d else d) cs1"
    using cycle_counted[OF assms(1) Cons.prems refl] by blast
  show ?case
    using Cons.IH[OF one(2), of s1] one(1) assms(2) by (cases ?do) (auto simp: chain_step)
qed (simp add: yield_def)


text \<open>A period of zero ends the run in the first cycle.\<close>

lemma zero_period_raises:
  assumes "0 < cycles"
  shows "run_source_cycles rows ops cycles 0 base s = (Inl ''ZeroDivisionError'', s)"
proof -
  have "[1..<Suc cycles] = 1 # [Suc 1..<Suc cycles]" using assms by (intro upt_conv_Cons) simp
  then show ?thesis by (simp add: run_source_cycles_def chain_def throw_def del: upt_Suc)
qed

section \<open>Writes that fail\<close>

text \<open>Dropping and adding succeed, and no row can be written.\<close>

definition only_writes_fail :: "cycle_ops \<Rightarrow> bool" where
  "only_writes_fail ops = (\<forall>base. returns_quietly (co_drop ops) () \<and> returns_quietly (co_add ops) () \<and>
     raises_quietly (co_pre ops base) \<and> raises_quietly (co_post ops base))"

text \<open>The statistics of \<open>k\<close> cycles without a row.\<close>

definition rowless :: "nat \<Rightarrow> cycle_stats" where
  "rowless k = \<lparr>cs_drop_ok = k, cs_drop_fail = 0, cs_add_ok = k, cs_add_fail = 0, cs_pre_ok = 0, cs_post_ok = 0,
     cs_pre_ids = [], cs_post_ids = []\<rparr>"

lemma quiet_writes:
  assumes "only_writes_fail ops"
  shows "returns_quietly (pre_write n ops cs) cs" "returns_quietly (post_write n ops cs) cs"
proof -
  obtain st next_id where cs: "cs = (st, next_id)" by force
  have fails: "returns_quietly (attempted (co_pre ops next_id)) None" "returns_quietly (attempted (co_post ops next_id)) None"
    using assms by (simp_all add: only_writes_fail_def quiet_attempts(2))
  show "returns_quietly (pre_write n ops cs) cs"
    unfolding pre_write_def cs prod.case by (rule quiet_chain, rule fails(1)) (simp add: quiet_yield)
  show "returns_quietly (post_write n ops cs) cs"
    unfolding post_write_def cs prod.case by (rule quiet_chain, rule fails(2)) (simp add: quiet_yield)
qed

text \<open>Dropping and adding succeed, and so does each cycle that writes nothing or fails to.\<close>

definition ddl_works :: "cycle_ops \<Rightarrow> bool" where
  "ddl_works ops = (returns_quietly (co_drop ops) () \<and> returns_quietly (co_add ops) ())"

lemma quiet_cycle:
  assumes "ddl_works ops" "do_dml \<Longrightarrow> only_writes_fail ops"
  shows "returns_quietly (run_cycle n ops do_dml (rowless k, b)) (rowless (Suc k), b)"
proof -
  let ?dropped = "(rowless k\<lparr>cs_drop_ok := cs_drop_ok (rowless k) + 1\<rparr>, b)"
  have ops: "returns_quietly (attempted (co_drop ops)) (Some ())" "returns_quietly (attempted (co_add ops)) (Some ())"
    using assms(1) by (simp_all add: ddl_works_def quiet_attempts(1))
  have pre: "returns_quietly (if do_dml then pre_write n ops ?dropped else yield ?dropped) ?dropped"
    using quiet_writes(1)[OF assms(2)] quiet_yield by (cases do_dml) simp_all
  have added: "returns_quietly (if do_dml then post_write n ops (rowless (Suc k), b) else yield (rowless (Suc k), b)) (rowless (Suc k), b)"
    using quiet_writes(2)[OF assms(2)] quiet_yield by (cases do_dml) simp_all
  have both: "fst ?dropped\<lparr>cs_add_ok := cs_add_ok (fst ?dropped) + 1\<rparr> = rowless (Suc k)" by (simp add: rowless_def)
  have "returns_quietly (add_and_write n ops do_dml ?dropped) (rowless (Suc k), b)"
    unfolding add_and_write_def prod.case
    by (rule quiet_chain, rule ops(2), simp only: option.distinct if_False Let_def both[unfolded fst_conv])
      (rule quiet_chain, rule quiet_pause, rule added)
  then show ?thesis
    unfolding run_cycle_def prod.case
    by - (rule quiet_chain, rule ops(1), simp only: option.distinct if_False Let_def, rule quiet_chain, rule quiet_pause, rule quiet_chain, rule pre)
qed

lemma quiet_cycles:
  assumes "ddl_works ops" "every \<noteq> 0" "\<And>c. \<lbrakk>c \<in> set cycles; int c mod every = 0\<rbrakk> \<Longrightarrow> only_writes_fail ops"
  shows "returns_quietly (run_cycles n ops every cycles (rowless k, b)) (rowless (k + length cycles), b)"
  using assms(3)
proof (induction cycles arbitrary: k)
  case (Cons c rest)
  have "returns_quietly (run_cycles n ops every rest (rowless (Suc k), b)) (rowless (Suc k + length rest), b)"
    using Cons.IH Cons.prems by (meson list.set_intros(2))
  moreover have "returns_quietly (run_cycle n ops (int c mod every = 0) (rowless k, b)) (rowless (Suc k), b)"
    using quiet_cycle[OF assms(1)] Cons.prems by (meson list.set_intros(1))
  ultimately show ?case using quiet_chain assms(2) by simp
qed (simp add: quiet_yield)

lemma source_without_rows:
  assumes "ddl_works ops" "cp_every cp \<noteq> 0" "\<And>c. \<lbrakk>c \<in> set [1..<Suc cycles]; int c mod cp_every cp = 0\<rbrakk> \<Longrightarrow> only_writes_fail ops"
  shows "\<exists>s1. test_source cp ops label cycles base s = (Inr (rowless cycles), s1) \<and> se_results s1 = se_results s @
    [(drops_label label, True, str_of_nat cycles @ ''/'' @ str_of_nat cycles), (adds_label label, True, str_of_nat cycles @ ''/'' @ str_of_nat cycles)]"
proof -
  have "returns_quietly (run_cycles (su_dml_rows (cp_test cp)) ops (cp_every cp) [1..<Suc cycles] (rowless 0, base)) (rowless (0 + length [1..<Suc cycles]), base)"
    by (rule quiet_cycles[OF assms(1,2)]) (rule assms(3))
  then have "returns_quietly (run_cycles (su_dml_rows (cp_test cp)) ops (cp_every cp) [1..<Suc cycles] (no_stats, base)) (rowless cycles, base)"
    by (simp only: length_upt diff_Suc_1 add_0 rowless_def no_stats_def)
  then have "returns_quietly (run_source_cycles (su_dml_rows (cp_test cp)) ops cycles (cp_every cp) base) (rowless cycles)"
    unfolding run_source_cycles_def by (rule quiet_chain) (simp add: quiet_yield)
  then obtain s1 where "run_source_cycles (su_dml_rows (cp_test cp)) ops cycles (cp_every cp) base s = (Inr (rowless cycles), s1)"
    "se_results s1 = se_results s" unfolding returns_with_def by blast
  then show ?thesis
    by (simp add: test_source_def chain_step record_cycles_def record_check_def rowless_def yield_def chain_def)
qed

text \<open>
  rows that were never written are not missed. When every drop and addition of a source succeeds and every
  write of rows fails, the source passes both of its checks, and the verification of its rows in Iceberg,
  of those before the addition as of those after it, asks nothing and records nothing.
\<close>

theorem failed_writes_pass:
  assumes "only_writes_fail ops" and "cp_every cp \<noteq> 0"
  shows "\<exists>st s1. test_source cp ops label cycles base s = (Inr st, s1) \<and>
    se_results s1 = se_results s @
      [(drops_label label, True, str_of_nat cycles @ ''/'' @ str_of_nat cycles),
       (adds_label label, True, str_of_nat cycles @ ''/'' @ str_of_nat cycles)] \<and>
    check_written h verdict cond (\<lambda>src. cs_post_ids st) t = yield () \<and> check_written h verdict cond (\<lambda>src. cs_pre_ids st) t = yield ()"
proof -
  have "ddl_works ops" using assms(1) by (simp add: only_writes_fail_def ddl_works_def)
  then show ?thesis
    using source_without_rows[OF _ assms(2,1), where cycles = cycles and label = label and base = base and s = s] by (auto simp: rowless_def check_written_def)
qed

section \<open>Witnesses\<close>

text \<open>A cluster in which no program runs in a pod: the DDL goes through \<^verbatim>\<open>psql\<close>, the rows through the pod.\<close>

definition no_programs :: host where
  "no_programs = \<lparr>ho_run = (\<lambda>tr c. case c of
       Pod_Python pod p \<Rightarrow> Completed 1 [] ''No module named psycopg2''
     | Kube args \<Rightarrow> Completed 0 ''pod'' []
     | _ \<Rightarrow> Completed 0 [] []),
   ho_secs = (\<lambda>tr c. 1)\<rparr>"

definition cycle_test :: test_params where
  "cycle_test = \<lparr>su_pg_dsn = ''dsn'', su_mgo_uri = ''uri'', su_ora_dsn = ''ora'', su_poll_secs = 180, su_dml_rows = 1, su_settle = 0,
     su_epoch = 170, su_sources = []\<rparr>"

definition two_cycles :: cycle_params where
  "two_cycles = \<lparr>cp_test = cycle_test, cp_pg_cycles = 2, cp_ora_cycles = 1, cp_mgo_cycles = 1, cp_every = 1\<rparr>"

lemma no_program_writes: "only_writes_fail (pg_cycle_ops no_programs cycle_test)"
proof -
  have strip: "py_strip ''pod'' = ''pod''" "py_strip ''No module named psycopg2'' = ''No module named psycopg2''" "py_strip [] = []" by code_simp+
  show ?thesis
    unfolding only_writes_fail_def returns_with_def raises_with_def
    by (simp add: pg_cycle_ops_def pg_add_col_def pg_drop_col_def pg_cycle_dml_def Let_def pg_ddl_def or_raise_def
        pod_exec_def get_db_pod_def test_kubectl_def chain_def proc_def no_programs_def yield_def throw_def strip)
qed

lemma failed_writes_pass_witness:
  "\<exists>st s1. test_source two_cycles (pg_cycle_ops no_programs cycle_test) ''PG'' 2 1700 idle = (Inr st, s1) \<and>
    se_results s1 = se_results idle @
      [(drops_label ''PG'', True, str_of_nat 2 @ ''/'' @ str_of_nat 2), (adds_label ''PG'', True, str_of_nat 2 @ ''/'' @ str_of_nat 2)] \<and>
    check_written no_programs ''Post-DML rows IS NOT NULL'' ''IS NOT NULL'' (\<lambda>src. cs_post_ids st) (''postgres'', ''cache_testing'', ''customers'') = yield () \<and>
    check_written no_programs ''Post-DML rows IS NOT NULL'' ''IS NOT NULL'' (\<lambda>src. cs_pre_ids st) (''postgres'', ''cache_testing'', ''customers'') = yield ()"
  by (rule failed_writes_pass[OF no_program_writes]) (simp add: two_cycles_def)


end
