(* ===== verification/E2e_Verdict.thy ===== *)
theory E2e_Verdict
  imports E2e_Facts
begin

text \<open>
  An exit status of 0 from \<^verbatim>\<open>scripts/ddl_e2e_test.py\<close>: what it shows, and a run that has it.
\<close>

section \<open>A verdict\<close>

definition all_passed :: "string \<Rightarrow> nat \<Rightarrow> check" where
  "all_passed what cycles = (what, True, str_of_nat cycles @ ''/'' @ str_of_nat cycles)"

lemma run_returns_counts:
  assumes "ops \<in> {pg_cycle_ops h su, ora_cycle_ops h su, mgo_cycle_ops h su}"
    and "run_source_cycles (su_dml_rows su) ops cycles every base s = (Inr st, s1)"
  shows "cs_drop_ok st + cs_drop_fail st = cycles \<and> cs_add_ok st + cs_add_fail st = cs_drop_ok st"
proof (cases "every = 0 \<and> 0 < cycles")
  case True
  then show ?thesis using assms(2) zero_period_raises[of cycles] by simp
next
  case False
  have start: "counted (su_dml_rows su) base 0 0 0 0 (no_stats, base)" by (simp add: counted_def no_stats_def fresh_ids_def)
  consider "every \<noteq> 0" | "cycles = 0" using False by blast
  then show ?thesis
  proof cases
    case 1
    then show ?thesis
      using cycles_counted[OF sources_write_blocks[OF assms(1)] 1 start, of "[1..<Suc cycles]" s] assms(2)
      by (auto simp: run_source_cycles_def chain_step yield_def counted_def simp del: upt_Suc)
  next
    case 2
    then show ?thesis using assms(2) by (auto simp: run_source_cycles_def chain_step yield_def no_stats_def)
  qed
qed

lemma source_passed:
  assumes "ops \<in> {pg_cycle_ops h (cp_test cp), ora_cycle_ops h (cp_test cp), mgo_cycle_ops h (cp_test cp)}"
    and "test_source cp ops label cycles base s = (Inr st, s1)" "list_all (\<lambda>(label, ok, detail). ok) (se_results s1)"
  shows "all_passed (drops_label label) cycles \<in> set (se_results s1) \<and>
    all_passed (adds_label label) cycles \<in> set (se_results s1)"
proof -
  obtain s0 where run: "run_source_cycles (su_dml_rows (cp_test cp)) ops cycles (cp_every cp) base s = (Inr st, s0)"
    and checks: "record_cycles label cycles st s0 = (Inr (), s1)"
    using assms(2) by (auto simp: test_source_def chain_Inr yield_def)
  have "cs_drop_fail st = 0" "cs_add_fail st = 0"
    using checks assms(3) by (auto simp: record_cycles_def chain_def record_check_def)
  then show ?thesis
    using checks run_returns_counts[OF assms(1) run] by (auto simp: record_cycles_def chain_def record_check_def all_passed_def)
qed

lemma poll_passed:
  assumes "poll_new_col h timeout s = (Inr (), s1)" "list_all (\<lambda>(label, ok, detail). ok) (se_results s1)" "t \<in> set ice_tables"
  shows "col_seen s1 new_col t"
proof -
  obtain found remaining s2 where loop: "poll_loop (Some visible_label) h new_col (se_clock s + timeout) ice_tables [] s = (Inr (found, remaining), s2)"
    and rest: "each (\<lambda>e. record_check (visible_label e) False []) remaining s2 = (Inr (), s1)"
    using assms(1) by (auto simp: poll_new_col_def chain_Inr now_def)
  have "remaining = []"
  proof (rule ccontr)
    assume "remaining \<noteq> []"
    then obtain e where "e \<in> set remaining" by (cases remaining) auto
    then obtain s' s3 where "record_check (visible_label e) False [] s' = (Inr (), s3)" "grown s3 s1"
      using each_Inr[OF rest _ grown_basic(2)] by blast
    then show False using assms(2) by (auto simp: record_check_def grown_def)
  qed
  then show ?thesis using loop_seen[OF loop] assms(3) rest by (auto simp: yield_def)
qed

lemma grown_ops [grow]:
  assumes "ops \<in> {pg_cycle_ops h su, ora_cycle_ops h su, mgo_cycle_ops h su}"
  shows "keeps grown (co_drop ops)" "keeps grown (co_add ops)" "keeps grown (co_pre ops b)" "keeps grown (co_post ops b)"
  using assms unfolding pg_cycle_ops_def ora_cycle_ops_def mgo_cycle_ops_def
  by (auto simp: pg_drop_col_def pg_add_col_def ora_drop_col_def ora_add_col_def mgo_drop_col_def mgo_add_col_def
      pg_cycle_dml_def ora_cycle_dml_def ora_write_def mgo_cycle_dml_def Let_def intro!: grow)

lemma grown_cycle:
  assumes "ops \<in> {pg_cycle_ops h su, ora_cycle_ops h su, mgo_cycle_ops h su}"
  shows "keeps grown (run_cycle n ops do_dml cs)"
  unfolding run_cycle_def pre_write_def add_and_write_def post_write_def Let_def
  by (auto simp: split_beta intro!: grow grown_ops[OF assms])

lemma grown_source [grow]:
  assumes "ops \<in> {pg_cycle_ops h su, ora_cycle_ops h su, mgo_cycle_ops h su}"
  shows "keeps grown (test_source cp ops label cycles base)"
proof -
  have "keeps grown (run_cycles n ops every cs st)" for n every cs st
    by (induction cs arbitrary: st) (auto intro!: grow grown_cycle[OF assms])
  then show ?thesis
    unfolding test_source_def run_source_cycles_def record_cycles_def by (auto simp: split_beta intro!: grow)
qed

lemma grown_written [grow]: "keeps grown (check_written h label cond ids t)" "keeps grown (poll_new_col h timeout)"
  unfolding check_written_def poll_new_col_def Let_def by (auto simp: split_beta intro!: grow)

lemma each_grown: "(\<And>x. keeps grown (f x)) \<Longrightarrow> keeps grown (each f xs)"
  by (intro grow)


section \<open>A run that passes\<close>

text \<open>A cluster in which all goes well, and what each step of the run does there.\<close>

definition shown :: string where
  "shown = ''loyalty_tier_v2 smallint'' @ newline @ ''last_login_at bigint''"

definition good_cluster :: host where
  "good_cluster = \<lparr>ho_run = (\<lambda>tr c. case c of
       Pod_Spark pod flags sql \<Rightarrow> Completed 0 shown []
     | Pod_Python pod p \<Rightarrow> Completed 0 ''a=b'' []
     | Kube args \<Rightarrow> Completed 0 ''pod'' []
     | _ \<Rightarrow> Completed 0 [] []),
   ho_secs = (\<lambda>tr c. 1)\<rparr>"

definition four_cycles :: cycle_params where
  "four_cycles = \<lparr>cp_test = cycle_test, cp_pg_cycles = 4, cp_ora_cycles = 4, cp_mgo_cycles = 4, cp_every = 5\<rparr>"

abbreviation all_ok :: "test_session \<Rightarrow> bool" where
  "all_ok s \<equiv> list_all (\<lambda>(label, ok, detail). ok) (se_results s)"

definition goes_well :: "'a step \<Rightarrow> 'a \<Rightarrow> bool" where
  "goes_well m x = (\<forall>s. all_ok s \<longrightarrow> (\<exists>s1. m s = (Inr x, s1) \<and> all_ok s1))"

lemma quiet_goes_well: "returns_quietly m x \<Longrightarrow> goes_well m x"
  unfolding returns_with_def goes_well_def by metis

lemma well_chain:
  assumes "goes_well m x" "goes_well (f x) y"
  shows "goes_well (chain m f) y"
  unfolding goes_well_def
proof (intro allI impI)
  fix s assume "all_ok s"
  then obtain s1 where one: "m s = (Inr x, s1)" "all_ok s1" using assms(1) unfolding goes_well_def by blast
  then obtain s2 where "f x s1 = (Inr y, s2)" "all_ok s2" using assms(2) unfolding goes_well_def by blast
  then show "\<exists>s1. chain m f s = (Inr y, s1) \<and> all_ok s1" using one(1) by (simp add: chain_def)
qed

lemma well_each: "(\<And>x. goes_well (f x) ()) \<Longrightarrow> goes_well (each f xs) ()"
  by (induction xs) (auto intro: well_chain quiet_goes_well quiet_yield)

lemma well_check: "goes_well (record_check label True detail) ()"
  by (simp add: goes_well_def record_check_def)

lemma good_text: "py_strip ''pod'' = ''pod''" "py_strip ''a=b'' = ''a=b''" "py_strip [] = []" "py_strip shown = shown"
    "contains (py_lower new_col) (py_lower shown)" "type_in shown ''last_login_at'' = ''bigint''" "restart_counts (py_splitlines ''pod'') = []"
    "ora_errors [] = []"
  by code_simp+

lemma good_conf: "\<exists>flags s1. test_spark_flags good_cluster s = (Inr flags, s1) \<and> se_results s1 = se_results s"
  by (cases "se_flags s = []") (simp_all add: test_spark_flags_def chain_def kept_flags_def keep_flags_def get_db_pod_def test_kubectl_def
      proc_def good_cluster_def yield_def good_text)

lemma good_pod: "returns_quietly (get_db_pod good_cluster) ''pod''"
  by (simp add: returns_with_def get_db_pod_def test_kubectl_def chain_def proc_def good_cluster_def yield_def good_text)

lemma good_spark: "returns_quietly (test_spark_sql good_cluster sql) shown"
proof -
  have "returns_quietly (chain (test_spark_flags good_cluster) (\<lambda>flags.
     chain (proc good_cluster (Pod_Spark ''pod'' flags (py_strip sql))) (\<lambda>(rc, out, err). yield (py_strip out)))) shown"
    unfolding returns_with_def
  proof
    fix s
    obtain flags s1 where "test_spark_flags good_cluster s = (Inr flags, s1)" "se_results s1 = se_results s" using good_conf by blast
    then show "\<exists>s1. chain (test_spark_flags good_cluster) (\<lambda>flags.
      chain (proc good_cluster (Pod_Spark ''pod'' flags (py_strip sql))) (\<lambda>(rc, out, err). yield (py_strip out))) s = (Inr shown, s1) \<and>
      se_results s1 = se_results s"
      by (simp add: chain_def proc_def good_cluster_def yield_def good_text)
  qed
  then show ?thesis unfolding test_spark_sql_def by (rule quiet_chain[OF good_pod])
qed

lemma good_steps: "returns_quietly (pod_exec good_cluster p) ''a=b''"
    "returns_quietly (pg_ddl good_cluster sql) ()" "returns_quietly (ora_run good_cluster dsn script) []"
    "returns_quietly (snapshot_restarts good_cluster) []"
  by (simp_all add: returns_with_def get_db_pod_def test_kubectl_def chain_def proc_def good_cluster_def yield_def pod_exec_def or_raise_def
      pg_ddl_def ora_run_def Let_def snapshot_restarts_def good_text)

lemma good_ddl: "ddl_works (pg_cycle_ops good_cluster su)" "ddl_works (ora_cycle_ops good_cluster su)" "ddl_works (mgo_cycle_ops good_cluster su)"
  by (auto simp: ddl_works_def pg_cycle_ops_def ora_cycle_ops_def mgo_cycle_ops_def pg_drop_col_def pg_add_col_def ora_drop_col_def
      ora_add_col_def mgo_drop_col_def mgo_add_col_def discard_def intro: good_steps quiet_chain quiet_yield)

lemma good_source: "ddl_works ops \<Longrightarrow> goes_well (test_source four_cycles ops label 4 base) (rowless 4)"
  unfolding goes_well_def
proof (intro allI impI)
  fix s assume ops: "ddl_works ops" and "all_ok s"
  have "int c mod cp_every four_cycles \<noteq> 0" if "c \<in> set [1..<Suc 4]" for c
  proof -
    have "0 < c" "c < 5" using that by auto
    then show ?thesis by (simp add: four_cycles_def)
  qed
  then obtain s1 where "test_source four_cycles ops label 4 base s = (Inr (rowless 4), s1)" "se_results s1 = se_results s @
    [(drops_label label, True, str_of_nat 4 @ ''/'' @ str_of_nat 4), (adds_label label, True, str_of_nat 4 @ ''/'' @ str_of_nat 4)]"
    using source_without_rows[OF ops, where cp = four_cycles and cycles = 4 and label = label and base = base and s = s]
    by (metis cycle_params.select_convs(5) four_cycles_def zero_neq_numeral)
  then show "\<exists>s1. test_source four_cycles ops label 4 base s = (Inr (rowless 4), s1) \<and> all_ok s1"
    using \<open>all_ok s\<close> by simp
qed

lemma good_poll: "goes_well (poll_new_col good_cluster 180) ()"
proof -
  have has: "goes_well (table_has_col good_cluster t new_col) True" for t
    unfolding table_has_col_def
    by (rule quiet_goes_well, rule quiet_chain, rule good_spark, simp only: good_text(5), rule quiet_yield)
  have round: "goes_well (poll_round (Some visible_label) good_cluster new_col ts) (ts, [])" for ts
  proof (induction ts)
    case (Cons t ts)
    have "goes_well (seen_check (Some visible_label) t) ()" by (simp add: seen_check_def well_check)
    then show ?case
      unfolding poll_round.simps
      by - (rule well_chain, rule has, simp only: if_True, rule well_chain, assumption, rule well_chain, rule Cons.IH,
        simp add: quiet_goes_well quiet_yield)
  qed (simp add: quiet_goes_well quiet_yield)
  show ?thesis
    unfolding goes_well_def
  proof (intro allI impI)
    fix s assume "all_ok s"
    then obtain s1 where "poll_round (Some visible_label) good_cluster new_col ice_tables s = (Inr (ice_tables, []), s1)" "all_ok s1"
      using round unfolding goes_well_def by blast
    moreover have "ice_tables \<noteq> []" by (simp add: ice_tables_def)
    ultimately show "\<exists>s1. poll_new_col good_cluster 180 s = (Inr (), s1) \<and> all_ok s1"
      by (simp add: poll_new_col_def chain_def now_def poll_loop.simps yield_def)
  qed
qed

lemma good_flags:
  assumes "goes_well f y"
  shows "goes_well (chain (test_spark_flags good_cluster) (\<lambda>_. f)) y"
  unfolding goes_well_def
proof (intro allI impI)
  fix s assume "all_ok s"
  moreover obtain flags s1 where "test_spark_flags good_cluster s = (Inr flags, s1)" "se_results s1 = se_results s" using good_conf by blast
  ultimately show "\<exists>s1. chain (test_spark_flags good_cluster) (\<lambda>_. f) s = (Inr y, s1) \<and> all_ok s1"
    using assms unfolding goes_well_def by (simp add: chain_def)
qed

lemma good_cluster_passes: "\<exists>s1. e2e_main good_cluster four_cycles idle = (Inr 0, s1)"
proof -
  have types: "goes_well (check_login_type good_cluster t) ()" for t
    unfolding check_login_type_def table_col_type_def
    by (rule well_chain, rule quiet_goes_well, rule quiet_chain, rule good_spark, rule quiet_yield) (simp add: good_text well_check)
  have restarts: "goes_well (check_restarts good_cluster []) ()"
    unfolding check_restarts_def by (rule well_chain, rule quiet_goes_well, rule good_steps(4)) (simp add: crashed_pods_def well_check)
  have rows: "goes_well (each (check_written good_cluster label cond (ids_of_source [] [] [])) ice_tables) ()" for label cond
    by (rule well_each) (simp add: check_written_def ids_of_source_def quiet_goes_well quiet_yield)
  have report: "goes_well final_report 0" by (simp add: goes_well_def final_report_def exit_status_def)
  have params: "cp_pg_cycles four_cycles = 4" "cp_ora_cycles four_cycles = 4" "cp_mgo_cycles four_cycles = 4" "su_poll_secs (cp_test four_cycles) = 180"
    by (simp_all add: four_cycles_def cycle_test_def)
  have lists: "cs_post_ids (rowless 4) = []" "cs_pre_ids (rowless 4) = []" by (simp_all add: rowless_def)
  have "goes_well (e2e_main good_cluster four_cycles) 0"
    unfolding e2e_main_def Let_def params
    apply (rule well_chain, rule quiet_goes_well, rule good_steps(4), rule good_flags)
    apply (rule well_chain, rule good_source, rule good_ddl, rule well_chain, rule good_source, rule good_ddl, rule well_chain, rule good_source, rule good_ddl)
    apply (rule well_chain, rule quiet_goes_well, rule quiet_pause, rule well_chain, rule good_poll)
    unfolding lists
    by (rule well_chain, rule rows, rule well_chain, rule rows, rule well_chain, rule well_each, rule types, rule well_chain, rule restarts, rule report)
  moreover have "all_ok idle" by (simp add: idle_def)
  ultimately show ?thesis unfolding goes_well_def by blast
qed


end
