(* ===== verification/Stress_Facts.thy ===== *)
theory Stress_Facts
  imports Stress_Test Test_Facts
begin

text \<open>
  What \<^verbatim>\<open>scripts/ddl_stress_test.py\<close> counts, which keys it writes, and what its verdict leaves out: a source
  that refuses everything passes.
\<close>

section \<open>The counters\<close>

lemma cycle_ids_facts: "length (cycle_ids base c n) = n" "set (cycle_ids base c n) = {base + int c * 100 ..< base + int c * 100 + int n}"
    "distinct (cycle_ids base c n)"
  using id_block_facts[of "base + int c * 100" n] by (simp_all add: cycle_ids_def id_block_def)

definition stress_blocks :: "nat \<Rightarrow> int \<Rightarrow> stress_ops \<Rightarrow> bool" where
  "stress_blocks n base ops = (\<forall>c s ids s1. so_dml ops c s = (Inr ids, s1) \<longrightarrow> ids = cycle_ids base c n)"

lemma stress_sources: "stress_blocks n 3000001 (stress_pg_ops h n)" "stress_blocks n 3100001 (stress_ora_ops h n)"
    "stress_blocks n 3200001 (stress_mgo_ops h n)"
  by (auto simp: stress_blocks_def stress_pg_ops_def stress_ora_ops_def stress_mgo_ops_def stress_pg_dml_def stress_ora_dml_def
      stress_mgo_dml_def Let_def chain_Inr yield_def)

text \<open>The counters after \<open>k\<close> cycles.\<close>

definition stress_counted :: "nat \<Rightarrow> int \<Rightarrow> nat \<Rightarrow> stress_stats \<Rightarrow> bool" where
  "stress_counted n base k st =
     (ss_drops st + ss_errors st = k \<and> ss_drops st \<le> ss_adds st \<and> ss_adds st \<le> k \<and> ss_dml_cycles st \<le> ss_adds st \<and>
      ss_dml_rows st = n * ss_dml_cycles st \<and> length (ss_ids st) = ss_dml_rows st \<and> distinct (ss_ids st) \<and>
      (\<forall>x\<in>set (ss_ids st). \<exists>c\<le>k. dml_due c \<and> x \<in> set (cycle_ids base c n)))"

lemma rest_counted:
  "\<exists>st' s1. drop_and_rest par ops st s = (Inr st', s1) \<and> (st' = stress_error st \<or> st' = st\<lparr>ss_drops := ss_drops st + 1\<rparr>)"
proof -
  obtain r s1 where "attempted (so_drop ops) (snd (pause (st_half_delay par) s)) = (Inr r, s1)"
    using attempted_returns[of "so_drop ops" "snd (pause (st_half_delay par) s)"] by blast
  then show ?thesis by (cases r) (simp_all add: drop_and_rest_def chain_pause chain_step yield_def)
qed

lemma stress_step_cases:
  assumes "stress_blocks (st_rows par) base ops"
  obtains st' s1 where "stress_cycle par ops c st s = (Inr st', s1)"
    "st' = stress_error st \<or> (dml_due c \<and> st' = stress_error (count_add st)) \<or>
     (\<exists>st1. (st1 = count_add st \<or> (dml_due c \<and> st1 = count_dml (st_rows par) (cycle_ids base c (st_rows par)) (count_add st))) \<and>
       (st' = stress_error st1 \<or> st' = st1\<lparr>ss_drops := ss_drops st1 + 1\<rparr>))"
proof -
  obtain a s1 where add: "attempted (so_add ops) s = (Inr a, s1)" using attempted_returns[of "so_add ops" s] by blast
  obtain w s2 where dml: "attempted (so_dml ops c) s1 = (Inr w, s2)" and "\<forall>x. w = Some x \<longrightarrow> (\<exists>s'. so_dml ops c s1 = (Inr x, s'))"
    using attempted_returns[of "so_dml ops c" s1] by blast
  then have ids: "w = Some ids \<Longrightarrow> ids = cycle_ids base c (st_rows par)" for ids using assms unfolding stress_blocks_def by blast
  obtain st3 s3 where plain: "drop_and_rest par ops (count_add st) s1 = (Inr st3, s3)"
    "st3 = stress_error (count_add st) \<or> st3 = (count_add st)\<lparr>ss_drops := ss_drops (count_add st) + 1\<rparr>" using rest_counted[of par ops "count_add st" s1] by blast
  let ?w = "count_dml (st_rows par) (cycle_ids base c (st_rows par)) (count_add st)"
  obtain st4 s4 where wrote: "drop_and_rest par ops ?w s2 = (Inr st4, s4)" "st4 = stress_error ?w \<or> st4 = ?w\<lparr>ss_drops := ss_drops ?w + 1\<rparr>"
    using rest_counted[of par ops ?w s2] by blast
  have step: "stress_cycle par ops c st s = (case a of None \<Rightarrow> (Inr (stress_error st), s1) | Some _ \<Rightarrow>
      if dml_due c then (case w of None \<Rightarrow> (Inr (stress_error (count_add st)), s2) | Some _ \<Rightarrow> (Inr st4, s4)) else (Inr st3, s3))"
    using ids by (cases a; cases w) (simp_all add: stress_cycle_def chain_step add dml plain(1) wrote(1) yield_def)
  show thesis
  proof (cases a)
    case None
    then show ?thesis using that step by auto
  next
    case (Some u)
    show ?thesis
    proof (cases "dml_due c")
      case True
      then show ?thesis using that step Some wrote(2) by (cases w) auto
    next
      case False
      then show ?thesis using that step Some plain(2) by auto
    qed
  qed
qed

lemma new_block:
  assumes "n \<le> 500" "dml_due c" "dml_due c'" "c' < c"
  shows "set (cycle_ids base c n) \<inter> set (cycle_ids base c' n) = {}"
proof -
  have "c' + 5 \<le> c" using assms(2-) unfolding dml_due_def by presburger
  then have "int c' * 100 + int n \<le> int c * 100" using assms(1) by linarith
  then show ?thesis by (auto simp: cycle_ids_facts)
qed

lemma counted_step:
  assumes "n \<le> 500" "stress_counted n base k st"
    and "st' = stress_error st \<or> (dml_due (Suc k) \<and> st' = stress_error (count_add st)) \<or>
     (\<exists>st1. (st1 = count_add st \<or> (dml_due (Suc k) \<and> st1 = count_dml n (cycle_ids base (Suc k) n) (count_add st))) \<and>
       (st' = stress_error st1 \<or> st' = st1\<lparr>ss_drops := ss_drops st1 + 1\<rparr>))"
  shows "stress_counted n base (Suc k) st'"
proof -
  have old: "\<exists>c\<le>Suc k. dml_due c \<and> x \<in> set (cycle_ids base c n)" if "x \<in> set (ss_ids st)" for x
    using assms(2) that unfolding stress_counted_def by (meson le_SucI)
  have "set (ss_ids st) \<inter> set (cycle_ids base (Suc k) n) = {}" if "dml_due (Suc k)"
    using assms(2) new_block[OF assms(1) that] unfolding stress_counted_def by (metis disjoint_iff le_imp_less_Suc)
  then have "dml_due (Suc k) \<Longrightarrow> distinct (ss_ids st @ cycle_ids base (Suc k) n)"
    using assms(2) by (auto simp: stress_counted_def cycle_ids_facts)
  moreover have "length (cycle_ids base (Suc k) n) = n" by (simp add: cycle_ids_facts)
  ultimately show ?thesis
    using assms(2,3) old by (auto simp: stress_counted_def stress_error_def count_add_def count_dml_def)
qed

lemma cycles_stress_counted:
  assumes "st_rows par \<le> 500" "stress_blocks (st_rows par) base ops"
  shows "stress_counted (st_rows par) base k st \<Longrightarrow>
    \<exists>st' s1. stress_cycles par ops [Suc k..<Suc (k + m)] st s = (Inr st', s1) \<and> stress_counted (st_rows par) base (k + m) st'"
proof (induction m arbitrary: k st s)
  case (Suc m)
  obtain st1 s1 where one: "stress_cycle par ops (Suc k) st s = (Inr st1, s1)" "stress_counted (st_rows par) base (Suc k) st1"
    using stress_step_cases[OF assms(2), of "Suc k" st s] counted_step[OF assms(1) Suc.prems] by metis
  have "[Suc k..<Suc (k + Suc m)] = Suc k # [Suc (Suc k)..<Suc (Suc k + m)]" by (simp add: upt_rec)
  then show ?case using Suc.IH[OF one(2), of s1] by (simp add: chain_step one(1) del: upt_Suc)
qed (simp add: yield_def)

text \<open>
  the counters of the stress test add up. Whatever fails, the cycles of a source end; every cycle ends with a drop that is
  counted or with an error that is, and the last addition with one of the two; the rows reported are as many as the keys recorded, and no key
  is written twice, as long as a batch has at most 500 rows.
\<close>

theorem stress_counts_add_up:
  assumes "ops \<in> {stress_pg_ops h (st_rows par), stress_ora_ops h (st_rows par), stress_mgo_ops h (st_rows par)}" and "st_rows par \<le> 500"
  shows "\<exists>st s1. stress_source par ops cycles s = (Inr st, s1) \<and>
    ss_drops st + ss_errors st \<in> {cycles, cycles + 1} \<and> ss_drops st \<le> ss_adds st \<and> ss_adds st \<le> cycles + 1 \<and>
    ss_dml_rows st = st_rows par * ss_dml_cycles st \<and> length (ss_ids st) = ss_dml_rows st \<and> distinct (ss_ids st)"
proof -
  obtain base where blocks: "stress_blocks (st_rows par) base ops" using assms(1) stress_sources by blast
  have "stress_counted (st_rows par) base 0 no_stress" by (simp add: stress_counted_def no_stress_def)
  then obtain st s1 where run: "stress_cycles par ops [1..<Suc cycles] no_stress s = (Inr st, s1)" and inv: "stress_counted (st_rows par) base cycles st"
    using cycles_stress_counted[OF assms(2) blocks, of 0 no_stress cycles s] by auto
  obtain r s2 where last: "attempted (so_add ops) s1 = (Inr r, s2)" using attempted_returns[of "so_add ops" s1] by blast
  have "stress_source par ops cycles s = (Inr (if r = None then stress_error st else count_add st), s2)"
    unfolding stress_source_def by (simp add: chain_step run last yield_def del: upt_Suc One_nat_def)
  then show ?thesis using inv by (auto simp: stress_counted_def stress_error_def count_add_def)
qed

section \<open>Sources that refuse everything\<close>

lemma refused_cycles:
  assumes "raises_quietly (so_add ops)"
  shows "returns_quietly (stress_cycles par ops cs st) (st\<lparr>ss_errors := ss_errors st + length cs\<rparr>)"
proof (induction cs arbitrary: st)
  case (Cons c cs)
  have "returns_quietly (stress_cycle par ops c st) (stress_error st)"
    unfolding stress_cycle_def by (rule quiet_chain, rule quiet_attempts(2)[OF assms]) (simp add: quiet_yield)
  moreover have "returns_quietly (stress_cycles par ops cs (stress_error st)) (st\<lparr>ss_errors := ss_errors st + length (c # cs)\<rparr>)"
    using Cons.IH[of "stress_error st"] by (simp add: stress_error_def)
  ultimately show ?case unfolding stress_cycles.simps by (rule quiet_chain)
qed (simp add: quiet_yield)

text \<open>
  errors are reported and not judged. When a source refuses every addition, its run ends with one error per cycle and one
  for the last addition, no statement counted and no row; the count in Iceberg is then 0 without a query,
  and the verdict on the source is a pass.
\<close>

theorem refused_source_passes:
  assumes "raises_quietly (so_add ops)"
  shows "\<exists>st s1. stress_source par ops cycles s = (Inr st, s1) \<and> ss_errors st = cycles + 1 \<and> ss_adds st = 0 \<and> ss_drops st = 0 \<and>
    ice_count h cr t pk (ss_ids st) cond = yield 0 \<and> all_pass [(st, 0)] [] [0]"
proof -
  have "returns_quietly (stress_source par ops cycles) (stress_error (no_stress\<lparr>ss_errors := ss_errors no_stress + length [1..<Suc cycles]\<rparr>))"
    unfolding stress_source_def
    by (rule quiet_chain, rule refused_cycles[OF assms], rule quiet_chain, rule quiet_attempts(2)[OF assms]) (simp add: quiet_yield del: upt_Suc)
  then show ?thesis
    unfolding returns_with_def by (fastforce simp: stress_error_def no_stress_def ice_count_def all_pass_def simp del: upt_Suc)
qed

section \<open>Witnesses\<close>

definition stress_settings :: stress_params where
  "stress_settings = \<lparr>st_cycles_pg = 25, st_cycles_ora = 25, st_cycles_mgo = 10, st_rows = 5, st_half_delay = 3, st_poll_secs = 120\<rparr>"

text \<open>A server that refuses every statement.\<close>

definition no_server :: host where
  "no_server = \<lparr>ho_run = (\<lambda>tr c. Completed 2 [] ''could not connect to server''), ho_secs = (\<lambda>tr c. 1)\<rparr>"

definition no_creds :: polaris_creds where
  "no_creds = \<lparr>pc_url = [], pc_id = [], pc_secret = [], pc_key = [], pc_s3_secret = [], pc_endpoint = []\<rparr>"

lemma stress_counts_add_up_witness:
  "\<exists>st s1. stress_source stress_settings (stress_mgo_ops no_server 5) 10 idle = (Inr st, s1) \<and>
    ss_drops st + ss_errors st \<in> {10, 10 + 1} \<and> ss_drops st \<le> ss_adds st \<and> ss_adds st \<le> 10 + 1 \<and>
    ss_dml_rows st = 5 * ss_dml_cycles st \<and> length (ss_ids st) = ss_dml_rows st \<and> distinct (ss_ids st)"
  using stress_counts_add_up[of "stress_mgo_ops no_server 5" no_server stress_settings 10 idle] by (simp add: stress_settings_def)

lemma refused_source_passes_witness:
  "\<exists>st s1. stress_source stress_settings (stress_pg_ops no_server 5) 25 idle = (Inr st, s1) \<and> ss_errors st = 25 + 1 \<and> ss_adds st = 0 \<and> ss_drops st = 0 \<and>
    ice_count no_server no_creds (''postgres'', ''cache_testing'', ''customers'') ''id'' (ss_ids st) ''TRUE'' = yield 0 \<and> all_pass [(st, 0)] [] [0]"
proof -
  have "raises_quietly (so_add (stress_pg_ops no_server 5))"
    by (simp add: raises_with_def stress_pg_ops_def stress_pg_add_def discard_def stress_pg_def chain_def proc_def no_server_def throw_def)
  then show ?thesis by (rule refused_source_passes)
qed

end
