(* ===== verification/Stress_Oracle.thy ===== *)
theory Stress_Oracle
  imports Stress_Facts
begin

text \<open>
  Why \<^verbatim>\<open>scripts/ddl_stress_test.py\<close> never drops the column in Oracle, and why Spark is never asked about a
  table: the statements are put between the quotes of a shell command, and the shell reads them.
\<close>

section \<open>Oracle\<close>

abbreviation oracle_query :: test_cmd where
  "oracle_query \<equiv> exec_args [ora_pod] [''bash'', ''-c'', ora_echo ora_col_query]"

abbreviation oracle_drop :: test_cmd where
  "oracle_drop \<equiv> exec_args [ora_pod] [''bash'', ''-c'', ora_heredoc ora_drop_block]"

text \<open>The commands since a session, without the drop.\<close>

definition undropped :: "test_session \<Rightarrow> test_session \<Rightarrow> bool" where
  "undropped s s1 = (\<exists>ts. se_trace s1 = se_trace s @ ts \<and> oracle_drop \<notin> fst ` set ts)"

interpretation undrop: timed_order undropped
proof (unfold_locales, goal_cases)
  case (2 s s1 s2)
  then show ?case by (force simp: undropped_def)
qed (simp_all add: undropped_def)

lemma other_block: "block \<noteq> ora_drop_block \<Longrightarrow> exec_args [ora_pod] [''bash'', ''-c'', ora_heredoc block] \<noteq> oracle_drop"
  by (simp add: exec_args_def ora_heredoc_def)

lemma query_is_no_drop: "oracle_query \<noteq> oracle_drop"
  by (simp add: exec_args_def ora_heredoc_def ora_echo_def)

text \<open>Programs in the Oracle pod end, and \<^verbatim>\<open>sqlplus\<close> never answers the query with a line of digits that is not zero.\<close>

definition query_refused :: "host \<Rightarrow> bool" where
  "query_refused h = (\<forall>tr words. \<exists>rc out err. ho_run h tr (exec_args [ora_pod] words) = Completed rc out err \<and>
     (words = [''bash'', ''-c'', ora_echo ora_col_query] \<longrightarrow> \<not> positive_line (py_strip out)))"

lemma undropped_proc: "c \<noteq> oracle_drop \<Longrightarrow> undropped s (s\<lparr>se_trace := se_trace s @ [(c, r)], se_clock := t\<rparr>)"
  by (auto simp: undropped_def)

lemma unseen_block:
  assumes "query_refused h" "block \<noteq> ora_drop_block"
  shows "returns_with undropped (chain (stress_ora_block h block) (\<lambda>_. yield y)) y"
  unfolding returns_with_def
proof
  fix s :: test_session
  obtain rc out err where "ho_run h (se_trace s) (exec_args [ora_pod] [''bash'', ''-c'', ora_heredoc block]) = Completed rc out err"
    using assms(1) unfolding query_refused_def by blast
  then show "\<exists>s1. chain (stress_ora_block h block) (\<lambda>_. yield y) s = (Inr y, s1) \<and> undropped s s1"
    using undropped_proc[OF other_block[OF assms(2)]] by (simp add: stress_ora_block_def chain_def proc_def yield_def)
qed

lemma never_there:
  assumes "query_refused h"
  shows "returns_with undropped (ora_has_col h) False"
  unfolding returns_with_def
proof
  fix s :: test_session
  obtain rc out err where "ho_run h (se_trace s) oracle_query = Completed rc out err" "\<not> positive_line (py_strip out)"
    using assms unfolding query_refused_def by blast
  then show "\<exists>s1. ora_has_col h s = (Inr False, s1) \<and> undropped s s1"
    using undropped_proc[OF query_is_no_drop] by (simp add: ora_has_col_def stress_ora_def chain_def proc_def yield_def)
qed

lemma rows_are_no_drop: "py_join newline (map (\<lambda>(i, cid). stress_ora_row c i cid) ids) @ newline @ ''COMMIT;'' \<noteq> ora_drop_block"
proof (cases ids)
  case (Cons p rest)
  then show ?thesis by (cases p; cases rest) (simp_all add: stress_ora_row_def ora_drop_block_def)
qed (simp add: newline_def ora_drop_block_def)

lemma oracle_works:
  assumes "query_refused h"
  shows "returns_with undropped (stress_ora_drop h) ()" "returns_with undropped (stress_ora_add h) ()"
    "returns_with undropped (stress_ora_dml h n c) (cycle_ids 3100001 c n)"
proof -
  show "returns_with undropped (stress_ora_drop h) ()"
    unfolding stress_ora_drop_def by (rule undrop.returns_chain, rule never_there[OF assms]) (simp add: undrop.returns_yield)
  show "returns_with undropped (stress_ora_dml h n c) (cycle_ids 3100001 c n)"
    unfolding stress_ora_dml_def Let_def by (rule unseen_block[OF assms rows_are_no_drop])
  show "returns_with undropped (stress_ora_add h) ()"
    unfolding stress_ora_add_def discard_def
    by (rule undrop.returns_chain, rule never_there[OF assms], simp only: if_False, rule unseen_block[OF assms]) (simp add: ora_drop_block_def)
qed

text \<open>Sources in which every statement works.\<close>

definition all_work :: "(test_session \<Rightarrow> test_session \<Rightarrow> bool) \<Rightarrow> nat \<Rightarrow> int \<Rightarrow> stress_ops \<Rightarrow> bool" where
  "all_work R n base ops = (returns_with R (so_add ops) () \<and> returns_with R (so_drop ops) () \<and>
     (\<forall>c. returns_with R (so_dml ops c) (cycle_ids base c n)))"

context timed_order
begin

lemma working_cycle:
  assumes "all_work R (st_rows par) base ops"
  shows "\<exists>st'. returns_with R (stress_cycle par ops c st) st' \<and> ss_adds st' = ss_adds st + 1 \<and> ss_drops st' = ss_drops st + 1 \<and> ss_errors st' = ss_errors st"
proof -
  have ops: "returns_with R (attempted (so_add ops)) (Some ())" "returns_with R (attempted (so_drop ops)) (Some ())"
    "returns_with R (attempted (so_dml ops c)) (Some (cycle_ids base c (st_rows par)))"
    using assms by (auto simp: all_work_def intro: attempts)
  have rest: "returns_with R (drop_and_rest par ops x) (x\<lparr>ss_drops := ss_drops x + 1\<rparr>)" for x
    unfolding drop_and_rest_def
    by (rule returns_chain, rule returns_pause, rule returns_chain, rule ops(2), simp only: option.distinct if_False,
      rule returns_chain, rule returns_pause, rule returns_yield)
  let ?x = "if dml_due c then count_dml (st_rows par) (cycle_ids base c (st_rows par)) (count_add st) else count_add st"
  have "returns_with R (if dml_due c then chain (attempted (so_dml ops c)) (\<lambda>written. case written of
         None \<Rightarrow> yield (stress_error (count_add st))
       | Some ids \<Rightarrow> drop_and_rest par ops (count_dml (st_rows par) ids (count_add st)))
     else drop_and_rest par ops (count_add st)) (?x\<lparr>ss_drops := ss_drops ?x + 1\<rparr>)"
    by (cases "dml_due c"; simp only: if_True if_False option.case; (rule returns_chain, rule ops(3), simp only: option.case)?; rule rest)
  then have "returns_with R (stress_cycle par ops c st) (?x\<lparr>ss_drops := ss_drops ?x + 1\<rparr>)"
    unfolding stress_cycle_def by - (rule returns_chain, rule ops(1), simp only: option.distinct if_False)
  moreover have "ss_adds ?x = ss_adds st + 1" "ss_drops ?x = ss_drops st" "ss_errors ?x = ss_errors st"
    by (simp_all add: count_dml_def count_add_def)
  ultimately show ?thesis by (intro exI[of _ "?x\<lparr>ss_drops := ss_drops ?x + 1\<rparr>"]) simp
qed

lemma working_cycles:
  assumes "all_work R (st_rows par) base ops"
  shows "\<exists>st'. returns_with R (stress_cycles par ops cs st) st' \<and> ss_adds st' = ss_adds st + length cs \<and> ss_drops st' = ss_drops st + length cs \<and>
    ss_errors st' = ss_errors st"
proof (induction cs arbitrary: st)
  case (Cons c cs)
  obtain st1 where one: "returns_with R (stress_cycle par ops c st) st1" "ss_adds st1 = ss_adds st + 1" "ss_drops st1 = ss_drops st + 1"
    "ss_errors st1 = ss_errors st" using working_cycle[OF assms] by blast
  obtain st2 where "returns_with R (stress_cycles par ops cs st1) st2" "ss_adds st2 = ss_adds st1 + length cs" "ss_drops st2 = ss_drops st1 + length cs"
    "ss_errors st2 = ss_errors st1" using Cons by blast
  then show ?case using one returns_chain[OF one(1)] by (intro exI[of _ st2]) simp
qed (use returns_yield in fastforce)

lemma working_source:
  assumes "all_work R (st_rows par) base ops"
  shows "\<exists>st. returns_with R (stress_source par ops cycles) st \<and> ss_adds st = cycles + 1 \<and> ss_drops st = cycles \<and> ss_errors st = 0"
proof -
  obtain st where st: "returns_with R (stress_cycles par ops [1..<Suc cycles] no_stress) st" "ss_adds st = cycles" "ss_drops st = cycles" "ss_errors st = 0"
    using working_cycles[OF assms, of "[1..<Suc cycles]" no_stress] by (auto simp: no_stress_def simp del: upt_Suc)
  have add: "returns_with R (attempted (so_add ops)) (Some ())" using assms by (auto simp: all_work_def intro: attempts)
  have "returns_with R (stress_source par ops cycles) (count_add st)"
    unfolding stress_source_def
    by (rule returns_chain, rule st(1), rule returns_chain, rule add, simp only: option.distinct if_False, rule returns_yield)
  then show ?thesis using st(2-) by (intro exI[of _ "count_add st"]) (simp add: count_add_def)
qed

end

text \<open>
  C40: the drops of Oracle are counted, not made. When \<^verbatim>\<open>sqlplus\<close> does not answer the query for the column with a number,
  the run of Oracle counts a drop in every cycle and no error, and never sends the statement that drops the column.
\<close>

theorem oracle_drops_are_not_made:
  assumes "query_refused h"
  shows "\<exists>st s1 ts. stress_source par (stress_ora_ops h (st_rows par)) cycles s = (Inr st, s1) \<and> ss_adds st = cycles + 1 \<and>
    ss_drops st = cycles \<and> ss_errors st = 0 \<and> se_trace s1 = se_trace s @ ts \<and> oracle_drop \<notin> fst ` set ts"
proof -
  have "all_work undropped (st_rows par) 3100001 (stress_ora_ops h (st_rows par))"
    using oracle_works[OF assms] by (simp add: all_work_def stress_ora_ops_def)
  then obtain st where st: "returns_with undropped (stress_source par (stress_ora_ops h (st_rows par)) cycles) st"
    "ss_adds st = cycles + 1" "ss_drops st = cycles" "ss_errors st = 0" using undrop.working_source by blast
  then obtain s1 where "stress_source par (stress_ora_ops h (st_rows par)) cycles s = (Inr st, s1)" "undropped s s1"
    unfolding returns_with_def by blast
  then show ?thesis using st unfolding undropped_def by blast
qed

text \<open>An Oracle that reports the statement it has read as invalid.\<close>

definition confused_oracle :: host where
  "confused_oracle = \<lparr>ho_run = (\<lambda>tr c. Completed 0 (''ERROR at line 2:'' @ newline @ ''ORA-00933: SQL command not properly ended'') []), ho_secs = (\<lambda>tr c. 1)\<rparr>"

lemma oracle_drops_are_not_made_witness:
  "\<exists>st s1 ts. stress_source stress_settings (stress_ora_ops confused_oracle (st_rows stress_settings)) 25 idle = (Inr st, s1) \<and> ss_adds st = 25 + 1 \<and>
    ss_drops st = 25 \<and> ss_errors st = 0 \<and> se_trace s1 = se_trace idle @ ts \<and> oracle_drop \<notin> fst ` set ts"
proof -
  have "\<not> positive_line (py_strip (''ERROR at line 2:'' @ newline @ ''ORA-00933: SQL command not properly ended''))" by code_simp
  then have "query_refused confused_oracle" by (simp add: query_refused_def confused_oracle_def)
  then show ?thesis by (rule oracle_drops_are_not_made)
qed

section \<open>What the shell reads\<close>

text \<open>
  The text of a word with single quotes, up to the space or the bar that ends it outside of them; there are no
  other characters with a meaning in the words below.
\<close>

fun bash_word :: "bool \<Rightarrow> string \<Rightarrow> string" where
  "bash_word quoted [] = []"
| "bash_word quoted (c # cs) =
     (if c = CHR 0x27 then bash_word (\<not> quoted) cs
      else if \<not> quoted \<and> (c = CHR '' '' \<or> c = CHR ''|'') then [] else c # bash_word quoted cs)"

text \<open>
  What \<^verbatim>\<open>sqlplus\<close> reads for the query: its literals have lost their quotes, and no semicolon ends it before \<^verbatim>\<open>EXIT\<close>.
\<close>

lemma query_without_literals:
  "bash_word False (drop (length ''echo '') (ora_echo ora_col_query)) =
     ''SELECT COUNT(*) FROM USER_TAB_COLUMNS WHERE TABLE_NAME=CUSTOMERS AND COLUMN_NAME=LOYALTY_TIER_V2'' @ newline @ ''EXIT;''"
  by code_simp

text \<open>
  Between double quotes the shell runs what stands between two backticks and puts its output there. The names of a
  table are such commands; with no program of that name their output is empty.
\<close>

definition bash_quoted :: "(string \<Rightarrow> string) \<Rightarrow> string \<Rightarrow> string" where
  "bash_quoted run s = concat (map (\<lambda>(i, part). if odd i then run part else part) (enumerate 0 (py_split_on CHR 0x60 s)))"

lemma spark_reads_no_table:
  "list_all (\<lambda>t. bash_quoted (\<lambda>cmd. []) (''DESCRIBE TABLE '' @ table_sql t) = ''DESCRIBE TABLE ..'') stress_tables"
  by code_simp

end
