(* ===== verification/Graph_Cypher.thy ===== *)
theory Graph_Cypher
  imports Ddl_Extract
begin

text \<open>
  \<^verbatim>\<open>docker/duckdb/stargraph_sql_proxy.py\<close>, the translator: Cypher MATCH statements into SQL over the
  Iceberg tables of the graph.
\<close>

section \<open>The expressions\<close>

definition word_kw :: "string \<Rightarrow> rx" where
  "word_kw s = cats [Word_Edge, kw s]"

definition re_limit :: rx where
  "re_limit = cats [Word_Edge, kw ''LIMIT'', plus sp, Grp 1 (plus dg)]"

definition re_order :: rx where
  "re_order = cats [Word_Edge, kw ''ORDER'', plus sp, kw ''BY'', plus sp, Grp 1 some_lazy,
     Ahead (Alt (word_kw ''WHERE'') (Alt (word_kw ''RETURN'') (Alt (word_kw ''LIMIT'') Line_End)))]"

text \<open>\<^verbatim>\<open>\((\w+)(?::(\w+))?\s*(?:\{([^}]*)\})?\)\<close> with the numbers of its groups.\<close>

definition node_part :: "nat \<Rightarrow> rx list" where
  "node_part n = [lit ''('', Grp n (plus wd), opt (cats [lit '':'', Grp (n + 1) (plus wd)]), Star True sp,
     opt (cats [lit ''{'', Grp (n + 2) (Star True (Cls (\<lambda>c. c \<noteq> CHR ''}''))), lit ''}'']), lit '')'']"

definition re_node :: rx where
  "re_node = cats ([kw ''MATCH'', plus sp] @ node_part 1)"

definition re_rel :: rx where
  "re_rel = cats ([kw ''MATCH'', plus sp] @ node_part 1 @
     [Star True sp, lit ''-['', Grp 4 (plus wd), opt (cats [lit '':'', Grp 5 (plus wd)]), lit '']->'', Star True sp] @
     node_part 6)"

definition re_where :: rx where
  "re_where = cats [Word_Edge, kw ''WHERE'', plus sp, Grp 1 some_lazy, Ahead (Alt (word_kw ''RETURN'') Line_End)]"

definition re_return :: rx where
  "re_return = cats [Word_Edge, kw ''RETURN'', plus sp, Grp 1 some_lazy,
     Ahead (Alt (word_kw ''ORDER'') (Alt (word_kw ''LIMIT'') Line_End))]"

definition re_property :: rx where
  "re_property = cats [Word_Edge, plus wd, lit ''.'', Grp 1 (plus wd)]"

section \<open>Pieces\<close>

definition py_capitalize :: "string \<Rightarrow> string" where
  "py_capitalize s = (case s of [] \<Rightarrow> [] | c # cs \<Rightarrow> upper_char c # py_lower cs)"

definition strip_chars :: "char set \<Rightarrow> string \<Rightarrow> string" where
  "strip_chars cs s = rev (dropWhile (\<lambda>c. c \<in> cs) (rev (dropWhile (\<lambda>c. c \<in> cs) s)))"

definition rstrip_chars :: "char set \<Rightarrow> string \<Rightarrow> string" where
  "rstrip_chars cs s = rev (dropWhile (\<lambda>c. c \<in> cs) (rev s))"

fun join_with :: "string \<Rightarrow> string list \<Rightarrow> string" where
  "join_with sep [] = []"
| "join_with sep [x] = x"
| "join_with sep (x # y # ys) = x @ sep @ join_with sep (y # ys)"

text \<open>A group, with \<^verbatim>\<open>or\<close> its default when it is absent or empty.\<close>

definition group_or :: "rmatch \<Rightarrow> nat \<Rightarrow> string \<Rightarrow> string" where
  "group_or m n d = (case group m n of None \<Rightarrow> d | Some t \<Rightarrow> if t = [] then d else t)"

definition quote :: string where "quote = [CHR 0x27]"

definition inline_prop :: "string \<Rightarrow> string option" where
  "inline_prop item0 = (let item = py_strip item0 in
     case index_of CHR '':'' item of None \<Rightarrow> None
     | Some i \<Rightarrow> Some (py_strip (take i item) @ '' = '' @ quote @
         strip_chars {CHR 0x27} (py_strip (drop (Suc i) item)) @ quote))"

definition parse_inline_props :: "string \<Rightarrow> string list" where
  "parse_inline_props props = map the (filter (\<lambda>x. x \<noteq> None) (map inline_prop (py_split_on CHR '','' props)))"

definition map_property_ref :: "string \<Rightarrow> string" where
  "map_property_ref expr = rx_sub re_property (\<lambda>m. text_of m 1) expr"

definition parse_return :: "string \<Rightarrow> string \<Rightarrow> string" where
  "parse_return cypher alias = (case rx_search re_return cypher of None \<Rightarrow> ''*''
     | Some m \<Rightarrow> let r = py_strip (text_of m 1) in
         if r = alias \<or> r = alias @ ''.*'' \<or> r = ''*'' then ''*''
         else join_with '', '' (map (\<lambda>part. rx_sub (cats [Line_Start, lit alias, lit ''.'']) (\<lambda>_. []) (py_strip part))
           (py_split_on CHR '','' r)))"

section \<open>Tables\<close>

definition default_node_table :: string where
  "default_node_table = ''polaris.stargraph.stargraph_nodes''"

definition label_table :: "(string \<times> string) list" where
  "label_table = [(''customer'', ''polaris.stargraph.stargraph_customers''),
     (''node'', ''polaris.stargraph.stargraph_nodes'')]"

definition not_deleted :: "string \<Rightarrow> string" where
  "not_deleted p = ''('' @ p @ ''is_deleted = false OR '' @ p @ ''is_deleted IS NULL)''"

definition equals :: "string \<Rightarrow> string \<Rightarrow> string" where
  "equals col v = col @ '' = '' @ quote @ v @ quote"

text \<open>The text of a WHERE, if there is one, with its property references mapped.\<close>

definition where_filter :: "string \<Rightarrow> string list" where
  "where_filter cypher = (case rx_search re_where cypher of None \<Rightarrow> []
     | Some m \<Rightarrow> [map_property_ref (py_strip (text_of m 1))])"

definition clause :: "string \<Rightarrow> string" where
  "clause c = (if c = [] then [] else '' '' @ c)"

section \<open>The translator\<close>

definition translate_relationship :: "rmatch \<Rightarrow> string \<Rightarrow> string \<Rightarrow> string \<Rightarrow> string" where
  "translate_relationship m cypher limit_clause order_clause =
     (let a_label = py_lower (group_or m 2 ''node''); a_props = group_or m 3 [];
          rel_type = py_upper (group_or m 5 []);
          b_label = py_lower (group_or m 7 ''node''); b_props = group_or m 8 [];
          parts = [equals ''e.source_node_type'' (py_capitalize a_label), equals ''e.target_node_type'' (py_capitalize b_label),
              not_deleted ''a.'', not_deleted ''b.''] @
            (if rel_type = [] then [] else [equals ''e.relationship_type'' rel_type]) @
            map (\<lambda>f. ''a.'' @ f) (parse_inline_props a_props) @
            map (\<lambda>f. ''b.'' @ f) (parse_inline_props b_props) @
            where_filter cypher
      in ''SELECT a.*, e.relationship_type, e.properties AS edge_properties, b.* '' @
         ''FROM '' @ get_or label_table a_label default_node_table @ '' a '' @
         ''JOIN polaris.stargraph.stargraph_edges e ON e.source_node_id = a.node_id '' @
         ''JOIN '' @ get_or label_table b_label default_node_table @ '' b ON e.target_node_id = b.node_id '' @
         ''WHERE '' @ join_with '' AND '' parts @ clause order_clause @ clause limit_clause)"

definition node_filters :: "string \<Rightarrow> string \<Rightarrow> string \<Rightarrow> string list" where
  "node_filters label props cypher =
     (if get_or label_table label default_node_table = default_node_table
      then [equals ''node_type'' (py_capitalize label)] else []) @
     (if props = [] then [] else parse_inline_props props) @ where_filter cypher @ [not_deleted []]"

definition translate_node :: "rmatch \<Rightarrow> string \<Rightarrow> string \<Rightarrow> string \<Rightarrow> string" where
  "translate_node m cypher limit_clause order_clause =
     (let label = py_lower (group_or m 2 ''node'') in
      ''SELECT '' @ parse_return cypher (text_of m 1) @ '' FROM '' @ get_or label_table label default_node_table @
      '' WHERE '' @ join_with '' AND '' (node_filters label (group_or m 3 []) cypher) @
      clause order_clause @ clause limit_clause)"

definition node_notes :: "rmatch \<Rightarrow> string list" where
  "node_notes m = (let label = py_lower (group_or m 2 ''node'') in
     if map_of label_table label = None
     then [''Unknown label '' @ quote @ label @ quote @ '' '' @ em_dash @ '' defaulting to stargraph_nodes with node_type='' @ quote @ label @ quote]
     else [])"

text \<open>LIMIT is read first and cuts the text there; ORDER BY is read next and is cut out.\<close>

definition cut_limit :: "string \<Rightarrow> string \<times> string" where
  "cut_limit c = (case rx_search re_limit c of None \<Rightarrow> ([], c)
     | Some m \<Rightarrow> (''LIMIT '' @ text_of m 1, py_strip (take (rm_start m) c)))"

definition cut_order :: "string \<Rightarrow> string \<times> string" where
  "cut_order c = (case rx_search re_order c of None \<Rightarrow> ([], c)
     | Some m \<Rightarrow> (''ORDER BY '' @ map_property_ref (py_strip (text_of m 1)),
         py_strip (take (rm_start m) c) @ drop (rm_stop m) c))"

definition translate_cypher :: "string \<Rightarrow> string + (string \<times> string list)" where
  "translate_cypher cypher =
     (let (limit_clause, c1) = cut_limit (rstrip_chars {CHR '';''} (py_strip cypher));
          (order_clause, c2) = cut_order c1 in
      case rx_search re_rel c2 of Some m \<Rightarrow> Inr (translate_relationship m c2 limit_clause order_clause, [])
      | None \<Rightarrow> (case rx_search re_node c2 of None \<Rightarrow> Inl (''Cannot parse Cypher: '' @ cypher)
         | Some m \<Rightarrow> Inr (translate_node m c2 limit_clause order_clause, node_notes m)))"

end
