(* ===== verification/Graph_Translate.thy ===== *)
theory Graph_Translate
  imports Graph_Cypher Ddl_Parse
begin

text \<open>
  What the Cypher translator does: to property references, to the properties in braces, and to a
  node query, with whatever follows the node that its expression for relationships does not know.
\<close>

section \<open>Property references\<close>

text \<open>A text with references \<open>a.p\<close> in it, and the text with the aliases erased.\<close>

fun with_refs :: "(string \<times> string \<times> string) list \<Rightarrow> string \<Rightarrow> string" where
  "with_refs [] post = post"
| "with_refs ((pre, a, p) # refs) post = pre @ a @ ''.'' @ p @ with_refs refs post"

fun without_aliases :: "(string \<times> string \<times> string) list \<Rightarrow> string \<Rightarrow> string" where
  "without_aliases [] post = post"
| "without_aliases ((pre, a, p) # refs) post = pre @ p @ without_aliases refs post"

text \<open>
  The references are maximal words around a dot, and there is no other dot. Between two of them
  there is text that neither starts nor ends with a word.
\<close>

fun refs_ok :: "bool \<Rightarrow> (string \<times> string \<times> string) list \<Rightarrow> string \<Rightarrow> bool" where
  "refs_ok at_start [] post = (CHR ''.'' \<notin> set post \<and> (at_start \<or> post = [] \<or> \<not> word_char (hd post)))"
| "refs_ok at_start ((pre, a, p) # refs) post =
     (CHR ''.'' \<notin> set pre \<and> is_word a \<and> is_word p \<and> (pre = [] \<longrightarrow> at_start) \<and>
      (pre \<noteq> [] \<longrightarrow> \<not> word_char (last pre) \<and> (at_start \<or> \<not> word_char (hd pre))) \<and> refs_ok False refs post)"

lemma dot_not_word: "\<not> word_char CHR ''.''" "list_all word_char w \<Longrightarrow> CHR ''.'' \<notin> set w"
proof -
  show dot: "\<not> word_char CHR ''.''" by (simp add: word_char_def)
  show "list_all word_char w \<Longrightarrow> CHR ''.'' \<notin> set w" using dot by (auto simp: list_all_iff)
qed

lemma split_at_dot:
  assumes "v @ CHR ''.'' # x = y @ CHR ''.'' # z" "CHR ''.'' \<notin> set v" "CHR ''.'' \<notin> set y"
  shows "v = y"
proof -
  have "takeWhile (\<lambda>c. c \<noteq> CHR ''.'') (u @ CHR ''.'' # r) = u" if "CHR ''.'' \<notin> set u" for u r
    using that by (induction u) auto
  then show ?thesis using assms by metis
qed

lemma match_property:
  assumes "rx_match re_property b u s"
  obtains v w where "u = v @ CHR ''.'' # w" "v \<noteq> []" "list_all word_char v"
proof -
  obtain e v w where "u = e @ v @ ''.'' @ w" "rx_match Word_Edge b e (v @ ''.'' @ w @ s)"
      "rx_match (plus wd) (rev e @ b) v (''.'' @ w @ s)"
    using assms unfolding re_property_def match_cats_Cons match_lit by fastforce
  then show ?thesis
    using that[of v w] match_plus_class[of word_char "rev e @ b" v "''.'' @ w @ s"] unfolding match_simps wd_def by simp
qed

lemma property_skip:
  assumes "CHR ''.'' \<notin> set pre" "is_word a" "pre \<noteq> [] \<longrightarrow> \<not> word_char (last pre)"
  shows "rx_search_from re_property b (pre @ a @ ''.'' @ r) = rx_search_from re_property (rev pre @ b) (a @ ''.'' @ r)"
proof (rule search_skip, unfold rx_run_Nil_iff, intro allI impI notI)
  fix u1 u2 u t assume u2: "pre = u1 @ u2" "u2 \<noteq> []" "u2 @ a @ ''.'' @ r = u @ t"
    and m: "rx_match re_property (rev u1 @ b) u t"
  obtain v w where v: "u = v @ CHR ''.'' # w" "v \<noteq> []" "list_all word_char v"
    by (rule match_property[OF m])
  have "v = u2 @ a"
    using split_at_dot[of v "w @ t" "u2 @ a" r] u2 v assms dot_not_word(2)[of v] dot_not_word(2)[of a]
    by (simp add: is_word_def)
  then show False using v(3) u2 assms(3) by (cases u2 rule: rev_cases) auto
qed

lemma property_none: "CHR ''.'' \<notin> set s \<Longrightarrow> rx_search_from re_property b s = None"
proof (rule search_none, unfold rx_run_Nil_iff, intro allI impI notI)
  fix u1 u2 u t assume "CHR ''.'' \<notin> set s" "s = u1 @ u2" "u2 = u @ t" "rx_match re_property (rev u1 @ b) u t"
  then show False by (auto elim: match_property)
qed

lemma first_property:
  assumes "is_word a" "is_word p" "b = [] \<or> \<not> word_char (hd b)" "post = [] \<or> \<not> word_char (hd post)"
  shows "rx_first re_property ((b, a @ ''.'' @ p @ post), []) ((rev p @ rev ''.'' @ rev a @ b, post), [(1, p)])"
proof -
  have "at_word_edge (b, a @ ''.'' @ p @ post)"
    using assms(1,3) by (cases a) (auto simp: at_word_edge_def is_word_def)
  then have edge: "rx_first Word_Edge ((b, a @ ''.'' @ p @ post), []) ((b, a @ ''.'' @ p @ post), [])"
    by (simp add: rx_first_def)
  have "rx_first (plus wd) ((b, a @ ''.'' @ p @ post), []) ((rev a @ b, ''.'' @ p @ post), [])"
    unfolding wd_def by (rule rx_first_plus) (use assms(1) dot_not_word in \<open>auto simp: is_word_def\<close>)
  then show ?thesis unfolding re_property_def
    by (rule rx_first_cats[OF edge rx_first_cats[OF _ rx_first_cats[OF rx_first_lit rx_first_cats[OF rx_first_word[OF assms(2,4)] rx_first_cats_Nil]]]])
qed

lemma replace_refs:
  assumes "refs_ok (b = []) refs post" "length (with_refs refs post) < n"
  shows "replace_matches (\<lambda>m. text_of m 1) (rev b @ with_refs refs post) (length b) (rx_iter re_property n (b, with_refs refs post)) =
    without_aliases refs post"
  using assms
proof (induction refs arbitrary: b n)
  case Nil
  then show ?case using property_none[of post b] by (cases n) simp_all
next
  case (Cons ref refs)
  obtain pre a p where ref: "ref = (pre, a, p)" by (cases ref)
  let ?rest = "with_refs refs post" and ?b = "rev p @ rev ''.'' @ rev a @ rev pre @ b"
  obtain k where n: "n = Suc k" using Cons.prems(2) by (cases n) auto
  have ok: "is_word a" "is_word p" "refs_ok False refs post" using Cons.prems(1) by (simp_all add: ref)
  have edges: "rev pre @ b = [] \<or> \<not> word_char (hd (rev pre @ b))" "?rest = [] \<or> \<not> word_char (hd ?rest)"
    using Cons.prems(1) by (auto simp: ref hd_append hd_rev) (cases refs; auto)+
  have "rx_search_from re_property b (pre @ a @ ''.'' @ p @ ?rest) =
      Some \<lparr>rm_before = rev pre @ b, rm_end = (?b, ?rest), rm_groups = [(1, p)]\<rparr>"
    using property_skip[of pre a b "p @ ?rest"] rx_search_first[OF first_property[OF ok(1,2) edges]] Cons.prems(1)
    by (simp add: ref)
  then have iter: "rx_iter re_property n (b, pre @ a @ ''.'' @ p @ ?rest) =
      \<lparr>rm_before = rev pre @ b, rm_end = (?b, ?rest), rm_groups = [(1, p)]\<rparr> #
      (if ?rest = [] then [] else rx_iter re_property k (?b, ?rest))"
    by (simp add: n rm_stop_def)
  have "replace_matches (\<lambda>m. text_of m 1) (rev ?b @ ?rest) (length ?b) (rx_iter re_property k (?b, ?rest)) = without_aliases refs post"
    by (rule Cons.IH) (use ok(3) Cons.prems(2) in \<open>simp_all add: ref n\<close>)
  moreover have "?rest = [] \<Longrightarrow> without_aliases refs post = []" using ok(3) by (cases refs) auto
  ultimately show ?case
    unfolding ref with_refs.simps iter
    by (auto simp: rm_start_def rm_stop_def text_of_def group_def)
qed

text \<open>
  mapping property references erases the alias of every reference and nothing else, as long as
  the text has no other dot. A decimal number is such a reference: it loses its integer part.
\<close>

theorem property_aliases_erased:
  assumes "refs_ok True refs post"
  shows "map_property_ref (with_refs refs post) = without_aliases refs post"
  using replace_refs[of "[]" refs post "Suc (length (with_refs refs post))"] assms
  by (simp add: map_property_ref_def rx_sub_def rx_finditer_def)

lemma property_aliases_erased_witness:
  "map_property_ref (with_refs [([], ''n'', ''price''), ('' > '', ''1'', ''5'')] []) = ''price > 5''"
  using property_aliases_erased[of "[([], ''n'', ''price''), ('' > '', ''1'', ''5'')]" "[]"]
  by (simp add: is_word_def word_char_def)

section \<open>Properties in braces\<close>

definition print_prop :: "string \<times> string \<Rightarrow> string" where
  "print_prop kv = fst kv @ '': '' @ quote @ snd kv @ quote"

definition print_props :: "(string \<times> string) list \<Rightarrow> string" where
  "print_props kvs = join_with '', '' (map print_prop kvs)"

definition plain_key :: "string \<Rightarrow> bool" where
  "plain_key k = (k \<noteq> [] \<and> \<not> py_space (hd k) \<and> \<not> py_space (last k) \<and> CHR '','' \<notin> set k \<and> CHR '':'' \<notin> set k)"

definition plain_value :: "string \<Rightarrow> bool" where
  "plain_value v = (CHR '','' \<notin> set v \<and> (v \<noteq> [] \<longrightarrow> hd v \<noteq> CHR 0x27 \<and> last v \<noteq> CHR 0x27))"

lemma strip_ends: "\<lbrakk>s \<noteq> []; \<not> py_space (hd s); \<not> py_space (last s)\<rbrakk> \<Longrightarrow> py_strip s = s"
proof -
  assume s: "s \<noteq> []" "\<not> py_space (hd s)" "\<not> py_space (last s)"
  have "dropWhile py_space t = t" if "t \<noteq> []" "\<not> py_space (hd t)" for t using that by (cases t) auto
  from this[of s] this[of "rev s"] s show "py_strip s = s" by (simp add: py_strip_def hd_rev)
qed

lemma strip_space: "py_strip (CHR '' '' # s) = py_strip s"
  by (simp add: py_strip_def py_space_def)

lemma strip_quotes:
  assumes "v \<noteq> [] \<longrightarrow> hd v \<noteq> CHR 0x27 \<and> last v \<noteq> CHR 0x27"
  shows "strip_chars {CHR 0x27} (quote @ v @ quote) = v" "v \<noteq> [] \<Longrightarrow> strip_chars {CHR 0x27} (quote @ v) = v"
proof -
  have drop: "dropWhile (\<lambda>c. c \<in> {CHR 0x27}) t = t" if "t \<noteq> []" "hd t \<noteq> CHR 0x27" for t
    using that by (cases t) auto
  show "v \<noteq> [] \<Longrightarrow> strip_chars {CHR 0x27} (quote @ v) = v"
    using drop[of v] drop[of "rev v"] assms by (simp add: strip_chars_def quote_def hd_rev)
  show "strip_chars {CHR 0x27} (quote @ v @ quote) = v"
    using drop[of "v @ quote"] drop[of "rev v"] assms
    by (cases "v = []") (simp_all add: strip_chars_def quote_def hd_rev)
qed

lemma inline_prop_value:
  assumes "plain_key k" "x \<noteq> []" "\<not> py_space (hd x)" "\<not> py_space (last x)"
  shows "inline_prop (k @ '': '' @ x) = Some (equals k (strip_chars {CHR 0x27} x))"
proof -
  have "py_strip (k @ '': '' @ x) = k @ '': '' @ x"
    using assms by (intro strip_ends) (auto simp: plain_key_def)
  moreover have "index_of CHR '':'' (k @ '': '' @ x) = Some (length k)"
    using assms(1) index_of_first[of "CHR '':''" k "sp1 @ x"] by (simp add: plain_key_def)
  moreover have "py_strip k = k" using assms(1) by (intro strip_ends) (auto simp: plain_key_def)
  ultimately show ?thesis
    using strip_ends[OF assms(2-4)] by (simp add: inline_prop_def equals_def strip_space)
qed

lemma inline_prop_print:
  assumes "plain_key k" "plain_value v"
  shows "inline_prop (print_prop (k, v)) = Some (equals k v)"
proof -
  have "\<not> py_space CHR 0x27" by (simp add: py_space_def)
  then show ?thesis
    using inline_prop_value[OF assms(1), of "quote @ v @ quote"] strip_quotes(1)[of v] assms(2)
    by (simp add: print_prop_def plain_value_def quote_def)
qed

lemma split_join:
  "list_all (\<lambda>x. CHR '','' \<notin> set x) (x # xs) \<Longrightarrow>
    split_on_from CHR '','' acc (join_with '', '' (x # xs)) = (rev acc @ x) # map (\<lambda>y. CHR '' '' # y) xs"
proof (induction xs arbitrary: x acc)
  case Nil
  then show ?case by (simp add: split_on_absent)
next
  case (Cons y ys)
  have "split_on_from CHR '','' [] (CHR '' '' # join_with '', '' (y # ys)) = (CHR '' '' # y) # map (\<lambda>y. CHR '' '' # y) ys"
    using Cons.IH[of y "sp1"] Cons.prems by simp
  then show ?case using Cons.prems split_on_first[of "CHR '',''" x acc "CHR '' '' # join_with '', '' (y # ys)"] by simp
qed

text \<open>
  properties in braces are parsed back: a list of keys with quoted values becomes the list of the
  equalities they ask for.
\<close>

theorem inline_props_roundtrip:
  assumes "list_all (\<lambda>(k, v). plain_key k \<and> plain_value v) kvs"
  shows "parse_inline_props (print_props kvs) = map (\<lambda>(k, v). equals k v) kvs"
proof (cases kvs)
  case Nil
  then show ?thesis by (simp add: print_props_def parse_inline_props_def py_split_on_def inline_prop_def py_strip_def)
next
  case (Cons kv rest)
  have comma: "list_all (\<lambda>x. CHR '','' \<notin> set x) (map print_prop kvs)"
    using assms by (auto simp: list_all_iff print_prop_def plain_key_def plain_value_def quote_def)
  have "inline_prop (CHR '' '' # x) = inline_prop x" for x by (simp add: inline_prop_def strip_space)
  then have "parse_inline_props (print_props kvs) = map the (filter (\<lambda>x. x \<noteq> None) (map (inline_prop \<circ> print_prop) kvs))"
    using split_join[of "print_prop kv" "map print_prop rest" "[]"] comma
    by (simp add: parse_inline_props_def print_props_def py_split_on_def Cons comp_def)
  also have "map (inline_prop \<circ> print_prop) kvs = map (\<lambda>(k, v). Some (equals k v)) kvs"
    using assms by (intro map_cong) (auto simp: list_all_iff inline_prop_print)
  also have "filter (\<lambda>x. x \<noteq> None) \<dots> = \<dots>" by (auto intro!: filter_True)
  also have "map the \<dots> = map (\<lambda>(k, v). equals k v) kvs" by auto
  finally show ?thesis .
qed

lemma inline_props_roundtrip_witness:
  "parse_inline_props (print_props [(''name'', ''Ann Lee''), (''city'', ''Rome'')]) =
    map (\<lambda>(k, v). equals k v) [(''name'', ''Ann Lee''), (''city'', ''Rome'')]"
  by (rule inline_props_roundtrip) (simp add: plain_key_def plain_value_def py_space_def)

text \<open>
  a value with a comma in it is cut there: the filter asks for the part before the comma, and the
  rest of the value is dropped.
\<close>

theorem comma_cuts_value:
  assumes "plain_key k" "plain_value u" "u \<noteq> []" "\<not> py_space (last u)" "CHR '','' \<notin> set w" "CHR '':'' \<notin> set w"
  shows "parse_inline_props (print_prop (k, u @ '','' @ w)) = [equals k u]"
proof -
  have comma: "CHR '','' \<notin> set (k @ '': '' @ quote @ u)" using assms by (auto simp: plain_key_def plain_value_def quote_def)
  have "print_prop (k, u @ '','' @ w) = (k @ '': '' @ quote @ u) @ CHR '','' # w @ quote"
    by (simp add: print_prop_def)
  moreover have "CHR '','' \<notin> set (w @ quote)" using assms(5) by (simp add: quote_def)
  ultimately have "py_split_on CHR '','' (print_prop (k, u @ '','' @ w)) = [k @ '': '' @ quote @ u, w @ quote]"
    using split_on_first[OF comma, of "[]" "w @ quote"] by (simp add: py_split_on_def split_on_absent)
  moreover have "inline_prop (k @ '': '' @ quote @ u) = Some (equals k u)"
    using inline_prop_value[OF assms(1), of "quote @ u"] strip_quotes(2)[of u] assms(2-4)
    by (simp add: quote_def py_space_def plain_value_def)
  moreover have "set (py_strip s) \<subseteq> set s" for s
    unfolding py_strip_def by (auto dest!: set_dropWhileD)
  then have "inline_prop (w @ quote) = None"
    using assms(6) index_of_absent[of "CHR '':''" "py_strip (w @ quote)"]
    by (fastforce simp: inline_prop_def quote_def)
  ultimately show ?thesis by (simp add: parse_inline_props_def)
qed

lemma comma_cuts_value_witness:
  "parse_inline_props (print_prop (''name'', ''Smith'' @ '','' @ '' John'')) = [equals ''name'' ''Smith'']"
  by (rule comma_cuts_value) (simp_all add: plain_key_def plain_value_def py_space_def)

end
