(* ===== verification/Graph_Node.thy ===== *)
theory Graph_Node
  imports Graph_Translate
begin

text \<open>
  Translating a node query of Cypher, search by search: which of the translator's expressions match
  where in its text.
\<close>

section \<open>Node queries\<close>

text \<open>
  \<^verbatim>\<open>MATCH (a:l)X RETURN a\<close>, perhaps with a LIMIT, where \<open>X\<close> is what may follow the node: nothing,
  or a pattern the expression for relationships does not know.
\<close>

definition node_text :: "string \<Rightarrow> string \<Rightarrow> string \<Rightarrow> string" where
  "node_text a l X = spaced [''MATCH'', ''('' @ a @ '':'' @ l @ '')'' @ X, ''RETURN''] @ a"

definition limit_text :: "string option \<Rightarrow> string" where
  "limit_text lmt = (case lmt of None \<Rightarrow> [] | Some d \<Rightarrow> '' LIMIT '' @ d)"

definition cy_keywords :: "string list" where
  "cy_keywords = [''limit'', ''order'', ''where'', ''return'', ''match'']"

definition plain_alias :: "string \<Rightarrow> bool" where
  "plain_alias a = (is_word a \<and> list_all (\<lambda>w. \<not> endswith (py_lower a) w) cy_keywords)"

text \<open>Not an arrow that starts with a named relationship.\<close>

definition node_tail :: "string \<Rightarrow> bool" where
  "node_tail X = (no_space X \<and> (X \<noteq> [] \<longrightarrow> last X = CHR '')'') \<and>
     \<not> (\<exists>c r. X = ''-['' @ c # r \<and> word_char c))"

lemma expressions_keyword_first:
  "keyword_first ''LIMIT'' re_limit" "keyword_first ''ORDER'' re_order" "keyword_first ''WHERE'' re_where"
  "keyword_first ''RETURN'' re_return" "keyword_first ''MATCH'' re_rel" "keyword_first ''MATCH'' re_node"
  unfolding keyword_first_def re_limit_def re_order_def re_where_def re_return_def re_rel_def re_node_def append.simps
  by (auto simp: no_space_def py_space_def)

lemma lower_keywords:
  "py_lower ''LIMIT'' = ''limit''" "py_lower ''ORDER'' = ''order''" "py_lower ''WHERE'' = ''where''"
  "py_lower ''RETURN'' = ''return''" "py_lower ''MATCH'' = ''match''"
  by code_simp+

lemma lower_paren: "py_lower (s @ '')'') = py_lower s @ '')''"
proof -
  have "py_lower '')'' = '')''" by code_simp
  then show ?thesis by (simp add: py_lower_def)
qed

lemma node_word:
  assumes "plain_alias a" "is_word l" "node_tail X"
  shows "no_space (''('' @ a @ '':'' @ l @ '')'' @ X)"
    and "w \<in> set cy_keywords \<Longrightarrow> \<not> endswith (py_lower (''('' @ a @ '':'' @ l @ '')'' @ X)) w"
proof -
  have "no_space a" "no_space l" using assms word_not_space
    by (auto simp: plain_alias_def is_word_def no_space_def list_all_iff)
  then show "no_space (''('' @ a @ '':'' @ l @ '')'' @ X)"
    using assms(3) by (simp add: node_tail_def no_space_def py_space_def)
  have "\<exists>s. ''('' @ a @ '':'' @ l @ '')'' @ X = s @ '')''"
    using assms(3) by (cases X rule: rev_cases) (auto simp: node_tail_def)
  then obtain s where s: "''('' @ a @ '':'' @ l @ '')'' @ X = s @ '')''" by blast
  show "\<not> endswith (py_lower (''('' @ a @ '':'' @ l @ '')'' @ X)) w" if "w \<in> set cy_keywords"
    unfolding s lower_paren using that by (auto simp: cy_keywords_def endswith_def)
qed

lemma node_words:
  assumes "plain_alias a" "is_word l" "node_tail X"
  shows "list_all no_space [''MATCH'', ''('' @ a @ '':'' @ l @ '')'' @ X, ''RETURN'', a]"
    and "w \<in> {''limit'', ''order'', ''where''} \<Longrightarrow>
      \<forall>p \<in> set [''MATCH'', ''('' @ a @ '':'' @ l @ '')'' @ X, ''RETURN'', a]. \<not> endswith (py_lower p) w"
    and "w = ''return'' \<Longrightarrow> \<forall>p \<in> set [''MATCH'', ''('' @ a @ '':'' @ l @ '')'' @ X]. \<not> endswith (py_lower p) w"
    and "w = ''match'' \<Longrightarrow> \<forall>p \<in> set [''('' @ a @ '':'' @ l @ '')'' @ X, ''RETURN'']. \<not> endswith (py_lower p) w"
proof -
  note nw = node_word[OF assms]
  have "no_space a" using assms word_not_space by (auto simp: plain_alias_def is_word_def no_space_def list_all_iff)
  then show "list_all no_space [''MATCH'', ''('' @ a @ '':'' @ l @ '')'' @ X, ''RETURN'', a]"
    using nw(1) by (simp add: no_space_def py_space_def)
  have lits: "\<not> endswith (py_lower ''MATCH'') w" if "w \<in> {''limit'', ''order'', ''where'', ''return''}" for w
    using that by (auto simp: lower_keywords endswith_def)
  have ret: "\<not> endswith (py_lower ''RETURN'') w" if "w \<in> {''limit'', ''order'', ''where'', ''match''}" for w
    using that by (auto simp: lower_keywords endswith_def)
  have alias_ok: "\<not> endswith (py_lower a) w" if "w \<in> set cy_keywords" for w
    using assms(1) that by (auto simp: plain_alias_def list_all_iff)
  show "w \<in> {''limit'', ''order'', ''where''} \<Longrightarrow>
      \<forall>p \<in> set [''MATCH'', ''('' @ a @ '':'' @ l @ '')'' @ X, ''RETURN'', a]. \<not> endswith (py_lower p) w"
    using lits[of w] ret[of w] nw(2)[of w] alias_ok[of w] by (auto simp: cy_keywords_def)
  show "w = ''return'' \<Longrightarrow> \<forall>p \<in> set [''MATCH'', ''('' @ a @ '':'' @ l @ '')'' @ X]. \<not> endswith (py_lower p) w"
    using lits[of w] nw(2)[of w] by (auto simp: cy_keywords_def)
  show "w = ''match'' \<Longrightarrow> \<forall>p \<in> set [''('' @ a @ '':'' @ l @ '')'' @ X, ''RETURN'']. \<not> endswith (py_lower p) w"
    using ret[of w] nw(2)[of w] by (auto simp: cy_keywords_def)
qed

lemma node_text_eqs:
  "node_text a l X = spaced [''MATCH'', ''('' @ a @ '':'' @ l @ '')'' @ X] @ ''RETURN'' @ sp1 @ a"
  "node_text a l X = (''MATCH'' @ sp1) @ spaced [''('' @ a @ '':'' @ l @ '')'' @ X, ''RETURN''] @ a"
  "node_text a l X @ limit_text (Some d) =
     spaced [''MATCH'', ''('' @ a @ '':'' @ l @ '')'' @ X, ''RETURN'', a] @ ''LIMIT'' @ sp1 @ d"
  by (simp_all add: node_text_def spaced_def limit_text_def)

lemma no_keyword_in_node:
  assumes "plain_alias a" "is_word l" "node_tail X"
  shows "rx_search re_limit (node_text a l X) = None" "rx_search re_order (node_text a l X) = None"
    "rx_search re_where (node_text a l X) = None"
proof -
  have "rx_search r (node_text a l X) = None" if "keyword_first W r" "py_lower W \<in> {''limit'', ''order'', ''where''}" for W r
    unfolding rx_search_def node_text_def
    using keyword_absent[OF that(1), of "[''MATCH'', ''('' @ a @ '':'' @ l @ '')'' @ X, ''RETURN'']" a "[]"]
      node_words(1)[OF assms] node_words(2)[OF assms that(2)] by simp
  from this[OF expressions_keyword_first(1)] this[OF expressions_keyword_first(2)] this[OF expressions_keyword_first(3)]
  show "rx_search re_limit (node_text a l X) = None" "rx_search re_order (node_text a l X) = None"
    "rx_search re_where (node_text a l X) = None" by (simp_all add: lower_keywords)
qed

lemma return_is_alias:
  assumes "plain_alias a" "is_word l" "node_tail X"
  shows "parse_return (node_text a l X) a = ''*''"
proof -
  let ?ps = "[''MATCH'', ''('' @ a @ '':'' @ l @ '')'' @ X]"
  have a: "a \<noteq> []" "list_all word_char a" "is_word a" using assms(1) by (auto simp: plain_alias_def is_word_def)
  have not_inside: "rx_run (Alt (word_kw ''ORDER'') (Alt (word_kw ''LIMIT'') Line_End)) ((rev v @ b, w), []) = []"
    if "a = v @ w" "v \<noteq> []" "w \<noteq> []" for v w b
  proof -
    have "word_char (last v)" "word_char (hd w)" using a(2) that by (simp_all add: list_all_iff)
    then have ends: "word_char (hd (rev v @ b))" "word_char (hd w)" using that by (simp_all add: hd_append hd_rev)
    then have "\<not> at_word_edge (rev v @ b, w)" using that by (auto simp: at_word_edge_def)
    moreover have "w \<noteq> newline" using ends(2) by (auto simp: newline_def word_char_def)
    ultimately show ?thesis
      unfolding rx_run_Nil_iff match_simps word_kw_def match_cats_Cons using that by auto
  qed
  have at_end: "rx_run (Alt (word_kw ''ORDER'') (Alt (word_kw ''LIMIT'') Line_End)) ((b, []), []) \<noteq> []" for b
    by simp
  have edge: "rx_first Word_Edge ((rev (spaced ?ps), ''RETURN'' @ sp1 @ a), []) ((rev (spaced ?ps), ''RETURN'' @ sp1 @ a), [])"
    by (simp add: rx_first_def at_word_edge_def spaced_def word_char_def)
  have key: "rx_first (kw ''RETURN'') ((rev (spaced ?ps), ''RETURN'' @ sp1 @ a), []) ((rev ''RETURN'' @ rev (spaced ?ps), sp1 @ a), [])"
    by (rule rx_first_kw) simp
  have "a = [] \<or> \<not> py_space (hd a)" using a word_not_space by (cases a) auto
  then have space: "rx_first (plus sp) ((rev ''RETURN'' @ rev (spaced ?ps), sp1 @ a), []) ((rev sp1 @ rev ''RETURN'' @ rev (spaced ?ps), a), [])"
    by (rule first_sp)
  have taken: "rx_first (cats [Grp 1 some_lazy, Ahead (Alt (word_kw ''ORDER'') (Alt (word_kw ''LIMIT'') Line_End))])
      ((rev sp1 @ rev ''RETURN'' @ rev (spaced ?ps), a), [])
      ((rev a @ rev sp1 @ rev ''RETURN'' @ rev (spaced ?ps), []), [(1, a)])"
    using first_lazy_until[OF a(1) at_end, of "rev sp1 @ rev ''RETURN'' @ rev (spaced ?ps)" 1 "[]"] not_inside by simp
  have "rx_first re_return ((rev (spaced ?ps), ''RETURN'' @ sp1 @ a), [])
     ((rev a @ rev sp1 @ rev ''RETURN'' @ rev (spaced ?ps), []), [(1, a)])"
    unfolding re_return_def by (rule rx_first_cats[OF edge rx_first_cats[OF key rx_first_cats[OF space taken]]])
  then have "rx_search_from re_return (rev (spaced ?ps)) (''RETURN'' @ sp1 @ a) =
      Some \<lparr>rm_before = rev (spaced ?ps), rm_end = (rev a @ rev sp1 @ rev ''RETURN'' @ rev (spaced ?ps), []), rm_groups = [(1, a)]\<rparr>"
    by (rule rx_search_first)
  moreover have "rx_search_from re_return [] (spaced ?ps @ ''RETURN'' @ sp1 @ a) =
      rx_search_from re_return (rev (spaced ?ps)) (''RETURN'' @ sp1 @ a)"
    using skip_keyword[OF expressions_keyword_first(4), of ?ps "[]"] node_words(1)[OF assms] node_words(3)[OF assms]
    by (simp add: lower_keywords)
  moreover have "py_strip a = a" using words_no_space(1)[OF a(3)] by (rule strip_no_space)
  ultimately show ?thesis
    unfolding parse_return_def rx_search_def node_text_eqs(1) by (simp add: text_of_def group_def)
qed

lemma node_part_text:
  assumes "rx_match (cats (node_part n @ rs)) b u s" "u @ s = ''('' @ a @ '':'' @ l @ '')'' @ y" "is_word a" "is_word l"
  shows "\<exists>b2 v. rx_match (cats rs) b2 v s \<and> v @ s = y"
proof -
  obtain v0 u0 where u0: "u = v0 @ u0" "rx_match (lit ''('') b v0 (u0 @ s)"
    "rx_match (cats ([Grp n (plus wd), opt (cats [lit '':'', Grp (n + 1) (plus wd)]), Star True sp,
     opt (cats [lit ''{'', Grp (n + 2) (Star True (Cls (\<lambda>c. c \<noteq> CHR ''}''))), lit ''}'']), lit '')''] @ rs)) (rev v0 @ b) u0 s"
    using assms(1) unfolding node_part_def append.simps by (rule match_catsE)
  then obtain v1 u1 b1 where u1: "u0 = v1 @ u1" "rx_match (Grp n (plus wd)) b1 v1 (u1 @ s)"
    "rx_match (cats ([opt (cats [lit '':'', Grp (n + 1) (plus wd)]), Star True sp,
     opt (cats [lit ''{'', Grp (n + 2) (Star True (Cls (\<lambda>c. c \<noteq> CHR ''}''))), lit ''}'']), lit '')''] @ rs)) (rev v1 @ b1) u1 s"
    unfolding append.simps by (meson match_catsE)
  obtain v2 u2 b2 where u2: "u1 = v2 @ u2" "rx_match (opt (cats [lit '':'', Grp (n + 1) (plus wd)])) b2 v2 (u2 @ s)"
    "rx_match (cats ([Star True sp,
     opt (cats [lit ''{'', Grp (n + 2) (Star True (Cls (\<lambda>c. c \<noteq> CHR ''}''))), lit ''}'']), lit '')''] @ rs)) (rev v2 @ b2) u2 s"
    using u1(3) unfolding append.simps by (meson match_catsE)
  obtain v3 u3 b3 where u3: "u2 = v3 @ u3" "rx_match (Star True sp) b3 v3 (u3 @ s)"
    "rx_match (cats ([opt (cats [lit ''{'', Grp (n + 2) (Star True (Cls (\<lambda>c. c \<noteq> CHR ''}''))), lit ''}'']), lit '')''] @ rs)) (rev v3 @ b3) u3 s"
    using u2(3) unfolding append.simps by (meson match_catsE)
  obtain v4 u4 b4 where u4: "u3 = v4 @ u4"
    "rx_match (opt (cats [lit ''{'', Grp (n + 2) (Star True (Cls (\<lambda>c. c \<noteq> CHR ''}''))), lit ''}''])) b4 v4 (u4 @ s)"
    "rx_match (cats (lit '')'' # rs)) (rev v4 @ b4) u4 s"
    using u3(3) unfolding append.simps by (meson match_catsE)
  obtain c5 v5 b5 where u5: "u4 = c5 @ v5" "rx_match (lit '')'') b5 c5 (v5 @ s)" "rx_match (cats rs) (rev c5 @ b5) v5 s"
    using u4(3) by (meson match_catsE)
  have parts: "v0 = ''(''" "c5 = '')''" using u0(2) u5(2) by (simp_all add: match_lit)
  have u: "u = ''('' @ v1 @ v2 @ v3 @ v4 @ '')'' @ v5" using u0(1) u1(1) u2(1) u3(1) u4(1) u5(1) parts by simp
  note v1 = u1(2)[unfolded match_simps(1)] and v2 = u2(2)[unfolded match_opt] and v3 = u3(2) and v4 = u4(2)[unfolded match_opt]
  note v5 = u5(3)
  have whole: "v1 @ v2 @ v3 @ v4 @ '')'' @ v5 @ s = a @ '':'' @ l @ '')'' @ y" using assms(2) u by simp
  have words: "list_all word_char v1" "list_all word_char a" "list_all word_char l"
    using match_plus_class[of word_char] v1 assms(3,4) by (auto simp: wd_def is_word_def)
  have v2': "v2 = [] \<or> (\<exists>w. v2 = '':'' @ w \<and> list_all word_char w)"
    using v2 unfolding match_cats_Cons match_lit match_simps match_cats_Nil wd_def by (auto dest: match_plus_class)
  have v4': "v4 = [] \<or> hd v4 = CHR ''{'' \<and> v4 \<noteq> []"
    using v4 unfolding match_cats_Cons match_lit by auto
  have punct: "\<not> word_char CHR '':''" "\<not> word_char CHR '')''" "\<not> word_char CHR ''{''" by (simp_all add: word_char_def)
  have tail: "hd (v3 @ v4 @ '')'' @ v5 @ s) \<in> {CHR ''{'', CHR '')''} \<or> py_space (hd (v3 @ v4 @ '')'' @ v5 @ s))"
    using v4' match_spaces[OF v3] by (cases v3; cases v4) (auto simp: spaces_def)
  then have tail': "\<not> word_char (hd (v3 @ v4 @ '')'' @ v5 @ s))" "hd (v3 @ v4 @ '')'' @ v5 @ s) \<noteq> CHR '':''"
    using punct word_not_space by (auto simp: py_space_def)
  have ne: "v3 @ v4 @ '')'' @ v5 @ s \<noteq> []" by simp
  have "\<not> word_char (hd (v2 @ v3 @ v4 @ '')'' @ v5 @ s))" using v2' tail' punct by auto
  then have one: "v1 = a \<and> v2 @ v3 @ v4 @ '')'' @ v5 @ s = '':'' @ l @ '')'' @ y"
    using word_exact[OF whole words(1,2)] punct by simp
  then obtain w where w: "v2 = '':'' @ w" "list_all word_char w" using v2' tail'(2) ne by (cases "v2 = []") auto
  have "w @ v3 @ v4 @ '')'' @ v5 @ s = l @ '')'' @ y" using one w by simp
  then have two: "v3 @ v4 @ '')'' @ v5 @ s = '')'' @ y"
    using word_exact[of w "v3 @ v4 @ '')'' @ v5 @ s" l "'')'' @ y"] w words(3) tail'(1) punct by simp
  have "v3 = []" using two match_spaces[OF v3] by (cases v3) (auto simp: spaces_def py_space_def)
  moreover have "v4 = []" using two v4' \<open>v3 = []\<close> by (cases v4) auto
  ultimately have "v5 @ s = y" using two by simp
  then show ?thesis using v5 by blast
qed

lemma rel_needs_arrow:
  assumes "plain_alias a" "is_word l" "node_tail X"
    and m: "rx_match re_rel b u t" and "u @ t = ''MATCH'' @ sp1 @ ''('' @ a @ '':'' @ l @ '')'' @ X @ sp1 @ ''RETURN'' @ z"
  shows False
proof -
  let ?y = "X @ sp1 @ ''RETURN'' @ z"
  let ?R = "[Star True sp, lit ''-['', Grp 4 (plus wd), opt (cats [lit '':'', Grp 5 (plus wd)]), lit '']->'', Star True sp] @ node_part 6"
  obtain k u1 b1 where k: "u = k @ u1" "rx_match (kw ''MATCH'') b k (u1 @ t)" "rx_match (cats (plus sp # node_part 1 @ ?R)) b1 u1 t"
    using m unfolding re_rel_def append.simps by (meson match_catsE)
  obtain s1 u2 b2 where s1: "u1 = s1 @ u2" "rx_match (plus sp) b1 s1 (u2 @ t)" "rx_match (cats (node_part 1 @ ?R)) b2 u2 t"
    using k(3) by (meson match_catsE)
  have "length k = 5" using k(2) unfolding match_kw by (drule_tac arg_cong[of _ _ length]) simp
  then have rest: "s1 @ u2 @ t = sp1 @ ''('' @ a @ '':'' @ l @ '')'' @ ?y"
    using assms(5) k(1) s1(1) append_eq_append_conv[of k "''MATCH''"] by simp
  have s1_space: "s1 \<noteq> []" "list_all py_space s1" using match_plus_class[of py_space] s1(2) unfolding sp_def by auto
  have "\<exists>u3. u2 = ''('' @ u3" using s1(3) unfolding node_part_def append.simps
    by (rule match_catsE) (simp add: match_lit)
  then obtain u3 where u3: "u2 = ''('' @ u3" by blast
  have "u2 @ t = ''('' @ a @ '':'' @ l @ '')'' @ ?y"
    using rest s1_space u3 by (cases s1; cases "tl s1") (auto simp: py_space_def)
  from node_part_text[OF s1(3) this _ assms(2)] obtain b3 v where v: "rx_match (cats ?R) b3 v t" "v @ t = ?y"
    using assms(1) by (auto simp: plain_alias_def)
  obtain w1 v1 b4 where w1: "v = w1 @ v1" "spaces w1" "rx_match (cats (lit ''-['' # Grp 4 (plus wd) #
      [opt (cats [lit '':'', Grp 5 (plus wd)]), lit '']->'', Star True sp] @ node_part 6)) b4 v1 t"
    using v(1) unfolding append.simps by (meson match_catsE match_spaces)
  obtain e v2 b5 where e: "v1 = e @ v2" "rx_match (lit ''-['') b4 e (v2 @ t)" "rx_match (cats (Grp 4 (plus wd) #
      [opt (cats [lit '':'', Grp 5 (plus wd)]), lit '']->'', Star True sp] @ node_part 6)) b5 v2 t"
    using w1(3) by (meson match_catsE)
  have v2: "v1 = ''-['' @ v2" using e(1,2) by (simp add: match_lit)
  obtain w3 v3 b6 where w3: "v2 = w3 @ v3" "rx_match (plus wd) b6 w3 (v3 @ t)"
    using e(3) by (meson match_catsE match_simps(1))
  then obtain c w4 where "w3 = c # w4" "word_char c"
    using match_plus_class[OF w3(2)[unfolded wd_def]] by (cases w3) auto
  then have y: "?y = w1 @ ''-['' @ c # w4 @ v3 @ t" using v(2) w1(1) v2 w3(1) by simp
  have X: "no_space X" "X \<noteq> [] \<longrightarrow> last X = CHR '')''" "\<not> (\<exists>c r. X = ''-['' @ c # r \<and> word_char c)"
    using assms(3) by (auto simp: node_tail_def)
  show False
  proof (cases X)
    case Nil
    then show False using y w1(2) by (cases w1; cases "tl w1") (auto simp: spaces_def py_space_def)
  next
    case (Cons d X1)
    then have "w1 = []" using y X(1) w1(2) by (cases w1) (auto simp: spaces_def no_space_def)
    then have eq: "X @ sp1 @ ''RETURN'' @ z = CHR ''-'' # CHR ''['' # c # w4 @ v3 @ t" using y by simp
    then obtain X2 where X2: "X = CHR ''-'' # CHR ''['' # X2" using X(2) Cons by (cases X1) auto
    then obtain X3 where "X2 = c # X3" using X(2) eq by (cases X2) auto
    then show False using X(3) X2 \<open>word_char c\<close> by auto
  qed
qed

lemma no_relationship:
  assumes "plain_alias a" "is_word l" "node_tail X"
  shows "rx_search re_rel (node_text a l X) = None"
proof -
  let ?ps = "[''('' @ a @ '':'' @ l @ '')'' @ X, ''RETURN'']" and ?s = "node_text a l X"
  have later: "rx_search_from re_rel b (spaced ?ps @ a) = None" for b
    using keyword_absent[OF expressions_keyword_first(5), of ?ps a b] node_words(1)[OF assms] node_words(4)[OF assms]
    by (simp add: lower_keywords)
  have "rx_search_from re_rel [] (''MATCH'' @ sp1 @ (spaced ?ps @ a)) = rx_search_from re_rel (rev (''MATCH'' @ sp1)) (spaced ?ps @ a)"
  proof -
    have "rx_search_from re_rel [] ((''MATCH'' @ sp1) @ (spaced ?ps @ a)) = rx_search_from re_rel (rev (''MATCH'' @ sp1) @ []) (spaced ?ps @ a)"
    proof (rule search_skip, unfold rx_run_Nil_iff, intro allI impI notI)
      fix u1 u2 u t
      assume u: "''MATCH'' @ sp1 = u1 @ u2" "u2 \<noteq> []" "u2 @ spaced ?ps @ a = u @ t" and m: "rx_match re_rel (rev u1 @ []) u t"
      show False
      proof (cases u1)
        case (Cons c u1')
        have "py_lower (first_word (u2 @ spaced ?ps @ a)) = ''match''"
          using keyword_begins[OF expressions_keyword_first(5) m] u(3) by (simp add: lower_keywords)
        then have "length (first_word (u2 @ spaced ?ps @ a)) = 5" by (drule_tac arg_cong[of _ _ length]) simp
        moreover have "length (first_word (u2 @ spaced ?ps @ a)) < 5"
          using u(1,2) Cons by (auto simp: first_word_def Cons_eq_append_conv append_eq_Cons_conv py_space_def)
        ultimately show False by simp
      next
        case Nil
        then have u2: "u2 = ''MATCH'' @ sp1" using u(1) by simp
        have "spaced ?ps @ a = ''('' @ a @ '':'' @ l @ '')'' @ X @ sp1 @ ''RETURN'' @ sp1 @ a" by (simp add: spaced_def)
        then show False
          using rel_needs_arrow[OF assms(1-3), of "[]" u t "sp1 @ a"] m u(3) Nil u2 by simp
      qed
    qed
    then show ?thesis by simp
  qed
  then show ?thesis using later[of "rev (''MATCH'' @ sp1)"] unfolding rx_search_def node_text_eqs(2) by simp
qed

lemma first_node:
  assumes "is_word a" "is_word l"
  shows "\<exists>b z. rx_first re_node (([], ''MATCH'' @ sp1 @ ''('' @ a @ '':'' @ l @ '')'' @ y), []) ((b, z), [(2, l), (1, a)])"
proof -
  have none: "rx_run (cats [lit ''{'', Grp 3 (Star True (Cls (\<lambda>c. c \<noteq> CHR ''}''))), lit ''}'']) ((b, '')'' @ y), g) = []" for b g
    unfolding rx_run_Nil_iff match_cats_Cons[of "lit w" for w] match_lit by auto
  have skip: "rx_first (Star True sp) ((b, '')'' @ y), g) ((b, '')'' @ y), g)" for b g
    using rx_first_Star[of py_space "[]" "'')'' @ y" b g] by (simp add: sp_def py_space_def)
  have punct: "\<not> word_char CHR '':''" "\<not> word_char CHR '')''" by (simp_all add: word_char_def)
  have label: "rx_first (opt (cats [lit '':'', Grp 2 (plus wd)])) ((b, '':'' @ l @ '')'' @ y), g)
      ((rev l @ rev '':'' @ b, '')'' @ y), (2, l) # g)" for b g
    unfolding opt_def by (rule rx_first_Alt1, rule rx_first_cats[OF rx_first_lit],
      rule rx_first_cats[OF rx_first_word[OF assms(2)] rx_first_cats_Nil]) (simp add: punct)
  have props: "rx_first (opt (cats [lit ''{'', Grp 3 (Star True (Cls (\<lambda>c. c \<noteq> CHR ''}''))), lit ''}''])) ((b, '')'' @ y), g)
      ((b, '')'' @ y), g)" for b g
    unfolding opt_def by (rule rx_first_Alt2[OF none rx_first_Eps])
  have parts: "[kw ''MATCH'', plus sp] @ node_part 1 = [kw ''MATCH'', plus sp, lit ''('', Grp 1 (plus wd),
      opt (cats [lit '':'', Grp 2 (plus wd)]), Star True sp,
      opt (cats [lit ''{'', Grp 3 (Star True (Cls (\<lambda>c. c \<noteq> CHR ''}''))), lit ''}'']), lit '')'']"
    by (simp add: node_part_def numeral_2_eq_2 numeral_3_eq_3)
  show ?thesis
    unfolding re_node_def parts
    by (rule exI, rule exI, rule rx_first_cats[OF rx_first_kw], simp, rule rx_first_cats[OF first_sp], simp add: py_space_def,
      rule rx_first_cats[OF rx_first_lit], rule rx_first_cats[OF rx_first_word[OF assms(1)]], simp add: punct,
      rule rx_first_cats[OF label], rule rx_first_cats[OF skip], rule rx_first_cats[OF props],
      rule rx_first_cats[OF rx_first_lit], rule rx_first_cats_Nil)
qed

lemma text_ends:
  assumes "is_word a" "lmt = None \<or> (\<exists>d. lmt = Some d \<and> digits d)"
  shows "hd (node_text a l X @ limit_text lmt) = CHR ''M''" "word_char (last (node_text a l X @ limit_text lmt))"
proof -
  show "hd (node_text a l X @ limit_text lmt) = CHR ''M''" by (simp add: node_text_def spaced_def)
  have "word_char (last d)" if "digits d" for d
    using that by (auto simp: digits_def list_all_iff is_digit_def word_char_def Let_def)
  moreover have "word_char (last a)" "a \<noteq> []" using assms(1) by (auto simp: is_word_def list_all_iff)
  ultimately show "word_char (last (node_text a l X @ limit_text lmt))"
    using assms(2) by (auto simp: node_text_def limit_text_def digits_def)
qed

lemma cut_limit_text:
  assumes "plain_alias a" "is_word l" "node_tail X" "lmt = None \<or> (\<exists>d. lmt = Some d \<and> digits d)"
  shows "cut_limit (node_text a l X @ limit_text lmt) =
    ((case lmt of None \<Rightarrow> [] | Some d \<Rightarrow> ''LIMIT '' @ d), node_text a l X)"
proof (cases lmt)
  case None
  then show ?thesis using no_keyword_in_node(1)[OF assms(1-3)] by (simp add: cut_limit_def limit_text_def)
next
  case (Some d)
  let ?ps = "[''MATCH'', ''('' @ a @ '':'' @ l @ '')'' @ X, ''RETURN'', a]"
  have d: "digits d" "d \<noteq> []" "\<not> py_space (hd d)" using assms(4) Some
    by (cases d; auto simp: digits_def is_digit_def py_space_def)+
  have edge: "rx_first Word_Edge ((rev (spaced ?ps), ''LIMIT'' @ sp1 @ d), []) ((rev (spaced ?ps), ''LIMIT'' @ sp1 @ d), [])"
    by (simp add: rx_first_def at_word_edge_def spaced_def word_char_def)
  have key: "rx_first (kw ''LIMIT'') ((rev (spaced ?ps), ''LIMIT'' @ sp1 @ d), []) ((rev ''LIMIT'' @ rev (spaced ?ps), sp1 @ d), [])"
    by (rule rx_first_kw) simp
  have space: "rx_first (plus sp) ((rev ''LIMIT'' @ rev (spaced ?ps), sp1 @ d), []) ((rev sp1 @ rev ''LIMIT'' @ rev (spaced ?ps), d), [])"
    by (rule first_sp) (use d in simp)
  have num: "rx_first (Grp 1 (plus dg)) ((rev sp1 @ rev ''LIMIT'' @ rev (spaced ?ps), d @ []), [])
      ((rev d @ rev sp1 @ rev ''LIMIT'' @ rev (spaced ?ps), []), [(1, d)])"
    unfolding dg_def by (rule rx_first_Grp, rule rx_first_plus) (use d in \<open>simp_all add: digits_def\<close>)
  have "rx_first re_limit ((rev (spaced ?ps), ''LIMIT'' @ sp1 @ d), [])
      ((rev d @ rev sp1 @ rev ''LIMIT'' @ rev (spaced ?ps), []), [(1, d)])"
    unfolding re_limit_def
    using rx_first_cats[OF edge rx_first_cats[OF key rx_first_cats[OF space rx_first_cats[OF num[unfolded append_Nil2] rx_first_cats_Nil]]]] .
  then have "rx_search_from re_limit (rev (spaced ?ps)) (''LIMIT'' @ sp1 @ d) =
      Some \<lparr>rm_before = rev (spaced ?ps), rm_end = (rev d @ rev sp1 @ rev ''LIMIT'' @ rev (spaced ?ps), []), rm_groups = [(1, d)]\<rparr>"
    by (rule rx_search_first)
  moreover have "rx_search_from re_limit [] (spaced ?ps @ ''LIMIT'' @ sp1 @ d) =
      rx_search_from re_limit (rev (spaced ?ps)) (''LIMIT'' @ sp1 @ d)"
    using skip_keyword[OF expressions_keyword_first(1), of ?ps "[]"] node_words(1)[OF assms(1-3)]
      node_words(2)[OF assms(1-3), of "''limit''"] by (simp add: lower_keywords)
  ultimately have found: "rx_search re_limit (node_text a l X @ limit_text lmt) =
      Some \<lparr>rm_before = rev (spaced ?ps), rm_end = (rev d @ rev sp1 @ rev ''LIMIT'' @ rev (spaced ?ps), []), rm_groups = [(1, d)]\<rparr>"
    unfolding Some node_text_eqs(3) rx_search_def by simp
  have prefix: "spaced ?ps = node_text a l X @ sp1" by (simp add: spaced_def node_text_def)
  have "is_word a" using assms(1) by (simp add: plain_alias_def)
  then have "py_strip (node_text a l X @ sp1) = node_text a l X"
    using text_ends[of a None l X] strip_ends[of "node_text a l X"] word_not_space
    by (cases "node_text a l X") (auto simp: py_strip_def py_space_def limit_text_def)
  moreover have "take (length (spaced ?ps)) (node_text a l X @ limit_text (Some d)) = spaced ?ps"
    unfolding node_text_eqs(3) by simp
  ultimately show ?thesis
    unfolding cut_limit_def found option.case prefix[symmetric] using Some
    by (simp add: rm_start_def text_of_def group_def prefix)
qed

text \<open>
  a node query is translated to the scan of its label's table, live rows only, with its LIMIT. The
  same holds when a pattern follows the node that the expression for relationships does not know, an
  anonymous relationship say: the pattern is ignored and the answer is every node of the label.
\<close>

theorem node_query_translation:
  assumes "plain_alias a" "is_word l" "node_tail X" "lmt = None \<or> (\<exists>d. lmt = Some d \<and> digits d)"
  shows "\<exists>notes. translate_cypher (node_text a l X @ limit_text lmt) = Inr (
    ''SELECT * FROM '' @ get_or label_table (py_lower l) default_node_table @ '' WHERE '' @
    (if get_or label_table (py_lower l) default_node_table = default_node_table
     then equals ''node_type'' (py_capitalize (py_lower l)) @ '' AND '' else []) @
    not_deleted [] @ limit_text lmt, notes)"
proof -
  let ?t = "node_text a l X @ limit_text lmt"
  have a: "is_word a" "a \<noteq> []" "l \<noteq> []" using assms(1,2) by (auto simp: plain_alias_def is_word_def)
  have "?t \<noteq> []" "\<not> py_space (hd ?t)" "\<not> py_space (last ?t)" "last ?t \<noteq> CHR '';''"
    using text_ends[OF a(1) assms(4), of l X] word_not_space
    by (auto simp: node_text_def spaced_def py_space_def word_char_def)
  then have clean: "rstrip_chars {CHR '';''} (py_strip ?t) = ?t"
    using strip_ends[of ?t] by (cases ?t rule: rev_cases) (auto simp: rstrip_chars_def)
  have limit: "cut_limit ?t = ((case lmt of None \<Rightarrow> [] | Some d \<Rightarrow> ''LIMIT '' @ d), node_text a l X)"
    by (rule cut_limit_text[OF assms])
  have order: "cut_order (node_text a l X) = ([], node_text a l X)"
    using no_keyword_in_node(2)[OF assms(1-3)] by (simp add: cut_order_def)
  have "node_text a l X = ''MATCH'' @ sp1 @ ''('' @ a @ '':'' @ l @ '')'' @ X @ sp1 @ ''RETURN'' @ sp1 @ a"
    by (simp add: node_text_def spaced_def)
  then obtain b z where "rx_first re_node (([], node_text a l X), []) ((b, z), [(2, l), (1, a)])"
    using first_node[OF a(1) assms(2), of "X @ sp1 @ ''RETURN'' @ sp1 @ a"] by metis
  then obtain m where m: "rx_search re_node (node_text a l X) = Some m" "rm_groups m = [(2, l), (1, a)]"
    unfolding rx_search_def by (auto dest: rx_search_first)
  have groups: "group_or m 2 ''node'' = l" "group_or m 3 [] = []" "text_of m 1 = a"
    using m(2) a by (simp_all add: group_or_def text_of_def group_def)
  have filters: "where_filter (node_text a l X) = []"
    using no_keyword_in_node(3)[OF assms(1-3)] by (simp add: where_filter_def)
  show ?thesis
    unfolding translate_cypher_def clean limit order Let_def prod.case no_relationship[OF assms(1-3)] option.case m(1)
      translate_node_def groups node_filters_def filters return_is_alias[OF assms(1-3)]
    by (cases lmt) (simp_all add: clause_def limit_text_def)
qed

lemma node_query_translation_witness:
  "\<exists>notes. translate_cypher (node_text ''a'' ''Customer'' ''-[:KNOWS]->(b:Customer)'' @ limit_text (Some ''10'')) = Inr (
    ''SELECT * FROM '' @ get_or label_table (py_lower ''Customer'') default_node_table @ '' WHERE '' @
    (if get_or label_table (py_lower ''Customer'') default_node_table = default_node_table
     then equals ''node_type'' (py_capitalize (py_lower ''Customer'')) @ '' AND '' else []) @
    not_deleted [] @ limit_text (Some ''10''), notes)"
proof (rule node_query_translation)
  show "plain_alias ''a''" "is_word ''Customer''" by code_simp+
  show "node_tail ''-[:KNOWS]->(b:Customer)''" by (auto simp: node_tail_def no_space_def py_space_def word_char_def)
  have "digits ''10''" by code_simp
  then show "Some ''10'' = None \<or> (\<exists>d. Some ''10'' = Some d \<and> digits d)" by simp
qed

end
