(* ===== verification/Graph_Pipeline.thy ===== *)
theory Graph_Pipeline
  imports Graph_Cypher "HOL-Library.AList" "HOL-Library.Sublist" "HOL-Library.Char_ord" "HOL-Library.List_Lexorder"
begin

text \<open>
  \<^verbatim>\<open>docker/duckdb/stargraph_sql_proxy.py\<close>, the handlers: the catalog tree, the SQL to graph pipeline with
  its cache in Memgraph, and the comparison of the two data sources. DuckDB's server, Memgraph, MD5,
  base64 and the clock are parameters; a run records the calls it makes in order. An error of a
  handler is the status and detail of its \<^verbatim>\<open>HTTPException\<close>. Times in responses are left out.
\<close>

section \<open>Services\<close>

record statement =
  st_text :: string
  st_args :: "(string \<times> json) list"

text \<open>
  A value of a Memgraph record: a node or relationship with its properties (and whether these are
  serialisable, with their \<^verbatim>\<open>str\<close>), a time in ISO format, JSON, or anything else by its \<^verbatim>\<open>str\<close>.
\<close>

datatype mg_value =
    Mg_Props bool "(string \<times> json) list" string
  | Mg_Time string
  | Mg_Json json
  | Mg_Other string

type_synonym mg_record = "(string \<times> mg_value) list"

record duck_result =
  du_error :: "string option"
  du_columns :: "string list"
  du_rows :: "json list list"

datatype duck_reply =
    Duck_Ok duck_result
  | Duck_Status nat string
  | Duck_Failed string

datatype call =
    To_Memgraph statement
  | To_Duckdb string "json list"

type_synonym proxy_error = "nat \<times> string"

record 'g services =
  sv_memgraph :: "statement \<Rightarrow> 'g \<Rightarrow> (string + mg_record list) \<times> 'g"
  sv_duckdb :: "call list \<Rightarrow> string \<Rightarrow> json list \<Rightarrow> duck_reply"
  sv_clock :: "call list \<Rightarrow> rat"
  sv_md5 :: "string \<Rightarrow> string"
  sv_base64 :: "string \<Rightarrow> string + string"
  sv_float :: "string \<Rightarrow> rat option"
  sv_ttl :: int

record 'g graph_world =
  w_graph :: 'g
  w_calls :: "call list"

definition run_statement :: "'g services \<Rightarrow> statement \<Rightarrow> 'g graph_world \<Rightarrow> (string + mg_record list) \<times> 'g graph_world" where
  "run_statement sv st w = (case sv_memgraph sv st (w_graph w) of
     (r, g) \<Rightarrow> (r, \<lparr>w_graph = g, w_calls = w_calls w @ [To_Memgraph st]\<rparr>))"

definition execute_on_duckdb :: "'g services \<Rightarrow> string \<Rightarrow> json list \<Rightarrow> 'g graph_world \<Rightarrow> (proxy_error + duck_result) \<times> 'g graph_world" where
  "execute_on_duckdb sv sql params w =
     ((case sv_duckdb sv (w_calls w) sql params of
         Duck_Ok res \<Rightarrow> Inr res
       | Duck_Status code detail \<Rightarrow> Inl (code, detail)
       | Duck_Failed exc \<Rightarrow> Inl (503, exc)),
      w\<lparr>w_calls := w_calls w @ [To_Duckdb sql params]\<rparr>)"

section \<open>Requests\<close>

record sql_request =
  sq_sql :: "string option"
  sq_sql_b64 :: "string option"
  sq_parameters :: "json list"

definition given :: "string option \<Rightarrow> bool" where
  "given x = (case x of None \<Rightarrow> False | Some s \<Rightarrow> s \<noteq> [])"

definition given_text :: "'g services \<Rightarrow> string \<Rightarrow> string option \<Rightarrow> string option \<Rightarrow> string + string" where
  "given_text sv name plain b64 =
     (if given b64 then (case sv_base64 sv (the b64) of
          Inl exc \<Rightarrow> Inl (''Invalid '' @ name @ ''_b64 encoding: '' @ exc) | Inr t \<Rightarrow> Inr t)
      else if given plain then Inr (the plain)
      else Inl (''Either '' @ quote @ name @ quote @ '' or '' @ quote @ name @ ''_b64'' @ quote @ '' must be provided.''))"

definition resolved_sql :: "'g services \<Rightarrow> sql_request \<Rightarrow> string + string" where
  "resolved_sql sv req = given_text sv ''sql'' (sq_sql req) (sq_sql_b64 req)"

definition proxy_sql :: "'g services \<Rightarrow> sql_request \<Rightarrow> 'g graph_world \<Rightarrow> (proxy_error + duck_result) \<times> 'g graph_world" where
  "proxy_sql sv req w = (case resolved_sql sv req of Inl exc \<Rightarrow> (Inl (400, exc), w)
     | Inr sql \<Rightarrow> execute_on_duckdb sv sql (sq_parameters req) w)"

section \<open>The catalog tree\<close>

record column_info =
  ci_name :: string
  ci_type :: json

record table_info =
  ti_name :: string
  ti_full_name :: string
  ti_columns :: "column_info list"

text \<open>\<^verbatim>\<open>setdefault(k, []).append(v)\<close> on a dict with its insertion order.\<close>

definition append_at :: "'k \<Rightarrow> 'v \<Rightarrow> ('k \<times> 'v list) list \<Rightarrow> ('k \<times> 'v list) list" where
  "append_at k v d = (case map_of d k of None \<Rightarrow> d @ [(k, [v])] | Some vs \<Rightarrow> AList.update k (vs @ [v]) d)"

definition group_by :: "('a \<Rightarrow> 'k) \<Rightarrow> ('a \<Rightarrow> 'v) \<Rightarrow> 'a list \<Rightarrow> ('k \<times> 'v list) list" where
  "group_by key val rows = fold (\<lambda>r. append_at (key r) (val r)) rows []"

record column_row =
  cr_catalog :: string
  cr_schema :: string
  cr_table :: string
  cr_column :: string
  cr_type :: json

record table_row =
  tr_catalog :: string
  tr_schema :: string
  tr_table :: string

definition column_index :: "column_row list \<Rightarrow> ((string \<times> string \<times> string) \<times> column_info list) list" where
  "column_index rows = group_by (\<lambda>r. (cr_catalog r, cr_schema r, cr_table r))
     (\<lambda>r. \<lparr>ci_name = cr_column r, ci_type = cr_type r\<rparr>) rows"

definition table_entry :: "column_row list \<Rightarrow> table_row \<Rightarrow> table_info" where
  "table_entry cols r = \<lparr>ti_name = tr_table r,
     ti_full_name = tr_catalog r @ ''.'' @ tr_schema r @ ''.'' @ tr_table r,
     ti_columns = (case map_of (column_index cols) (tr_catalog r, tr_schema r, tr_table r) of Some cs \<Rightarrow> cs | None \<Rightarrow> [])\<rparr>"

definition catalog_tree :: "table_row list \<Rightarrow> column_row list \<Rightarrow> (string \<times> table_info list) list" where
  "catalog_tree tables cols = sort_key fst (group_by tr_schema (table_entry cols) tables)"

text \<open>The rows of the two queries; one of another shape raises.\<close>

fun table_row_of :: "json list \<Rightarrow> string + table_row option" where
  "table_row_of (JStr a # JStr b # JStr c # _) = Inr (Some \<lparr>tr_catalog = a, tr_schema = b, tr_table = c\<rparr>)"
| "table_row_of _ = Inl ''IndexError''"

fun column_row_of :: "json list \<Rightarrow> string + column_row option" where
  "column_row_of (JStr a # JStr b # JStr c # JStr d # t # _) =
     Inr (Some \<lparr>cr_catalog = a, cr_schema = b, cr_table = c, cr_column = d, cr_type = t\<rparr>)"
| "column_row_of _ = Inl ''IndexError''"

definition tables_sql :: string where
  "tables_sql = ''SELECT table_catalog, table_schema, table_name FROM information_schema.tables '' @
     ''ORDER BY table_catalog, table_schema, table_name''"

definition cols_sql :: string where
  "cols_sql = ''SELECT table_catalog, table_schema, table_name, column_name, data_type, ordinal_position '' @
     ''FROM information_schema.columns ORDER BY table_catalog, table_schema, table_name, ordinal_position''"

definition query_rows :: "'g services \<Rightarrow> string \<Rightarrow> 'g graph_world \<Rightarrow> (proxy_error + json list list) \<times> 'g graph_world" where
  "query_rows sv sql w = (case execute_on_duckdb sv sql [] w of (Inl err, w1) \<Rightarrow> (Inl err, w1)
     | (Inr res, w1) \<Rightarrow> (case du_error res of Some msg \<Rightarrow> (Inl (502, msg), w1) | None \<Rightarrow> (Inr (du_rows res), w1)))"

definition get_catalog :: "'g services \<Rightarrow> 'g graph_world \<Rightarrow> (proxy_error + (string \<times> table_info list) list) \<times> 'g graph_world" where
  "get_catalog sv w = (case query_rows sv tables_sql w of (Inl err, w1) \<Rightarrow> (Inl err, w1)
     | (Inr trows, w1) \<Rightarrow> (case query_rows sv cols_sql w1 of (Inl err, w2) \<Rightarrow> (Inl err, w2)
        | (Inr crows, w2) \<Rightarrow> (case (collect column_row_of crows, collect table_row_of trows) of
             (Inr cs, Inr ts) \<Rightarrow> (Inr (catalog_tree ts cs), w2)
           | _ \<Rightarrow> (Inl (500, ''IndexError''), w2))))"

section \<open>The shape of a result\<close>

fun first_index :: "('a \<Rightarrow> bool) \<Rightarrow> 'a list \<Rightarrow> nat option" where
  "first_index P [] = None"
| "first_index P (x # xs) = (if P x then Some 0 else map_option Suc (first_index P xs))"

definition column_named :: "string set \<Rightarrow> string list \<Rightarrow> string option" where
  "column_named names cols = map_option (\<lambda>i. cols ! i) (first_index (\<lambda>c. py_lower c \<in> names) cols)"

definition is_edge_result :: "string list \<Rightarrow> bool" where
  "is_edge_result cols = (column_named {''source_node_id''} cols \<noteq> None \<and> column_named {''target_node_id''} cols \<noteq> None)"

definition quoted :: "string \<Rightarrow> string" where
  "quoted s = quote @ s @ quote"

definition row_or :: "string \<Rightarrow> string option \<Rightarrow> string" where
  "row_or d col = (case col of None \<Rightarrow> quoted d | Some c \<Rightarrow> ''row.'' @ c)"

definition structural :: "string set" where
  "structural = {''source_node_id'', ''target_node_id'', ''relationship_type'', ''source_node_type'', ''target_node_type''}"

definition edge_set_parts :: "string list \<Rightarrow> string list" where
  "edge_set_parts cols =
     map (\<lambda>c. ''r.'' @ c @ '' = row.'' @ c) (take 12 (filter (\<lambda>c. py_lower c \<notin> structural) cols)) @
     [''r.relationship_type = '' @ row_or ''RELATED'' (column_named {''relationship_type''} cols)]"

definition edge_query :: "string \<Rightarrow> string \<Rightarrow> string" where
  "edge_query label filt =
     ''MATCH (src:'' @ label @ '')-[r:RELATED]->(tgt:'' @ label @ '')'' @ newline @
     ''WHERE r._scope = '' @ filt @ newline @
     ''RETURN'' @ newline @
     ''  src._id             AS source_node_id,'' @ newline @
     ''  src._label          AS source_node_type,'' @ newline @
     ''  r.relationship_type AS relationship_type,'' @ newline @
     ''  tgt._id             AS target_node_id,'' @ newline @
     ''  tgt._label          AS target_node_type'' @ newline @
     ''LIMIT 500''"

definition edge_merge :: "string list \<Rightarrow> string \<Rightarrow> string \<Rightarrow> string \<Rightarrow> string \<Rightarrow> string" where
  "edge_merge cols src tgt scope label =
     ''UNWIND $rows AS row'' @ newline @
     ''MERGE (src:'' @ label @ '' {_id: toString(row.'' @ src @ '')})'' @ newline @
     ''ON CREATE SET src._label = '' @ row_or ''SrcNode'' (column_named {''source_node_type''} cols) @
       '', src._scope = '' @ quoted scope @ newline @
     ''MERGE (tgt:'' @ label @ '' {_id: toString(row.'' @ tgt @ '')})'' @ newline @
     ''ON CREATE SET tgt._label = '' @ row_or ''TgtNode'' (column_named {''target_node_type''} cols) @
       '', tgt._scope = '' @ quoted scope @ newline @
     ''MERGE (src)-[r:RELATED]->(tgt)'' @ newline @
     ''ON CREATE SET r._scope = '' @ quoted scope @ '','' @ newline @
     ''               '' @ join_with ('','' @ newline @ ''               '') (edge_set_parts cols)"

definition node_merge :: "string list \<Rightarrow> string \<Rightarrow> string \<Rightarrow> string \<Rightarrow> string" where
  "node_merge cols idc scope label =
     (let sets = map (\<lambda>c. ''n.'' @ c @ '' = row.'' @ c) (take 20 (filter (\<lambda>c. c \<noteq> idc) cols)) in
      ''UNWIND $rows AS row'' @ newline @
      ''MERGE (n:'' @ label @ '' {_id: toString(row.'' @ idc @ '')})'' @ newline @
      ''ON CREATE SET n._scope = '' @ quoted scope @ '', n._label = '' @ row_or ''Node'' (column_named {''node_type''} cols) @ newline @
      (if sets = [] then [] else ''SET '' @ join_with ('','' @ newline @ ''  '') sets))"

definition node_query :: "string \<Rightarrow> string \<Rightarrow> string" where
  "node_query scope label =
     ''MATCH (n:'' @ label @ '')'' @ newline @
     ''WHERE n._scope = '' @ quoted scope @ newline @
     ''RETURN'' @ newline @
     ''  n._id    AS node_id,'' @ newline @
     ''  n._label AS node_type,'' @ newline @
     ''  properties(n) AS props'' @ newline @
     ''LIMIT 500''"

text \<open>Rows without columns have no first column to take the identity from.\<close>

definition build_merge_and_query_cypher :: "string list \<Rightarrow> string \<Rightarrow> string \<Rightarrow> string + (string \<times> string)" where
  "build_merge_and_query_cypher cols scope label =
     (case (column_named {''source_node_id''} cols, column_named {''target_node_id''} cols) of
        (Some src, Some tgt) \<Rightarrow> Inr (edge_merge cols src tgt scope label, edge_query label (quoted scope))
      | _ \<Rightarrow> (case column_named {''node_id'', ''customer_id'', ''item_id'', ''store_id''} cols of
          Some idc \<Rightarrow> Inr (node_merge cols idc scope label, node_query scope label)
        | None \<Rightarrow> (case cols of [] \<Rightarrow> Inl ''IndexError''
            | idc # _ \<Rightarrow> Inr (node_merge cols idc scope label, node_query scope label))))"

section \<open>Reading a graph back\<close>

record envelope =
  ev_columns :: "string list"
  ev_rows :: "json list list"

fun to_json :: "mg_value \<Rightarrow> json" where
  "to_json (Mg_Props ok props s) = (if ok then JObj props else JStr s)"
| "to_json (Mg_Time t) = JStr t"
| "to_json (Mg_Json j) = j"
| "to_json (Mg_Other s) = JStr s"

definition record_row :: "string list \<Rightarrow> mg_record \<Rightarrow> (string + json list)" where
  "record_row cols r = collect (\<lambda>k. case map_of r k of None \<Rightarrow> Inl ''KeyError'' | Some v \<Rightarrow> Inr (Some (to_json v))) cols"

definition read_records :: "mg_record list \<Rightarrow> string + envelope" where
  "read_records records = (let cols = map fst (hd records) in
     bind (collect (\<lambda>r. bind (record_row cols r) (\<lambda>row. Inr (Some row))) records)
       (\<lambda>rows. Inr \<lparr>ev_columns = cols, ev_rows = rows\<rparr>))"

section \<open>The cache\<close>

definition scoped :: "string \<Rightarrow> (string \<times> json) list" where
  "scoped scope = [(''scope'', JStr scope)]"

definition check_statement :: "string \<Rightarrow> string \<Rightarrow> statement" where
  "check_statement scope label = \<lparr>st_text = ''MATCH (n:'' @ label @ '') WHERE n._scope = $scope RETURN n._cached_at AS cached_at LIMIT 1'',
     st_args = scoped scope\<rparr>"

definition evict_statement :: "string \<Rightarrow> string \<Rightarrow> statement" where
  "evict_statement scope label = \<lparr>st_text = ''MATCH (n:'' @ label @ '') WHERE n._scope = $scope DETACH DELETE n'',
     st_args = scoped scope\<rparr>"

definition cached_edges :: "string \<Rightarrow> string \<Rightarrow> statement" where
  "cached_edges scope label = \<lparr>st_text = edge_query label ''$scope'', st_args = scoped scope\<rparr>"

definition cached_nodes :: "string \<Rightarrow> string \<Rightarrow> statement" where
  "cached_nodes scope label = \<lparr>st_text = ''MATCH (n:'' @ label @ '') WHERE n._scope = $scope RETURN n._id AS node_id, n._label AS node_type, properties(n) AS props LIMIT 500'',
     st_args = scoped scope\<rparr>"

definition stamp_statement :: "string \<Rightarrow> string \<Rightarrow> rat \<Rightarrow> statement" where
  "stamp_statement scope label ts = \<lparr>st_text = ''MATCH (n:'' @ label @ '') WHERE n._scope = $scope SET n._cached_at = $ts'',
     st_args = scoped scope @ [(''ts'', JNum ts)]\<rparr>"

definition to_float :: "'g services \<Rightarrow> mg_value \<Rightarrow> rat option" where
  "to_float sv v = (case v of Mg_Json (JNum r) \<Rightarrow> Some r | Mg_Json (JBool b) \<Rightarrow> Some (if b then 1 else 0)
     | Mg_Json (JStr s) \<Rightarrow> sv_float sv s | _ \<Rightarrow> None)"

definition read_cached :: "'g services \<Rightarrow> string \<Rightarrow> string \<Rightarrow> 'g graph_world \<Rightarrow> envelope option \<times> 'g graph_world" where
  "read_cached sv scope label w = (case run_statement sv (cached_edges scope label) w of
     (Inl exc, w1) \<Rightarrow> (None, w1)
   | (Inr (r # rs), w1) \<Rightarrow> (case read_records (r # rs) of Inl exc \<Rightarrow> (None, w1) | Inr ev \<Rightarrow> (Some ev, w1))
   | (Inr [], w1) \<Rightarrow> (case run_statement sv (cached_nodes scope label) w1 of
        (Inr (r # rs), w2) \<Rightarrow> (case read_records (r # rs) of Inl exc \<Rightarrow> (None, w2) | Inr ev \<Rightarrow> (Some ev, w2))
      | (_, w2) \<Rightarrow> (None, w2)))"

definition check_memgraph_cache :: "'g services \<Rightarrow> string \<Rightarrow> string \<Rightarrow> 'g graph_world \<Rightarrow> envelope option \<times> 'g graph_world" where
  "check_memgraph_cache sv scope label w = (case run_statement sv (check_statement scope label) w of
     (Inr (r # rs), w1) \<Rightarrow>
       (case map_of r ''cached_at'' of None \<Rightarrow> (None, w1)
        | Some v \<Rightarrow> if v = Mg_Json JNull then (None, w1)
            else (case to_float sv v of None \<Rightarrow> (None, w1)
              | Some cached_at \<Rightarrow>
                  if of_int (sv_ttl sv) < sv_clock sv (w_calls w1) - cached_at
                  then (None, snd (run_statement sv (evict_statement scope label) w1))
                  else read_cached sv scope label w1))
   | (_, w1) \<Rightarrow> (None, w1))"

section \<open>The pipeline\<close>

definition dict_row :: "string list \<Rightarrow> json list \<Rightarrow> json" where
  "dict_row cols row = JObj (fold (\<lambda>(k, v). AList.update k v) (zip cols row) [])"

definition memgraph_error :: "string \<Rightarrow> proxy_error" where
  "memgraph_error exc = (502, ''Memgraph error in sql-to-graph pipeline: '' @ exc)"

definition load_and_query_memgraph ::
  "'g services \<Rightarrow> string \<Rightarrow> json list list \<Rightarrow> string \<Rightarrow> string \<Rightarrow> string \<Rightarrow> string list \<Rightarrow> 'g graph_world \<Rightarrow>
     (proxy_error + envelope) \<times> 'g graph_world" where
  "load_and_query_memgraph sv merge rows query scope label cols w =
     (case run_statement sv \<lparr>st_text = merge, st_args = [(''rows'', JArr (map (dict_row cols) rows))]\<rparr> w of
        (Inl exc, w1) \<Rightarrow> (Inl (memgraph_error exc), w1)
      | (Inr _, w1) \<Rightarrow> (case run_statement sv (stamp_statement scope label (sv_clock sv (w_calls w1))) w1 of
          (Inl exc, w2) \<Rightarrow> (Inl (memgraph_error exc), w2)
        | (Inr _, w2) \<Rightarrow> (case run_statement sv \<lparr>st_text = query, st_args = []\<rparr> w2 of
            (Inl exc, w3) \<Rightarrow> (Inl (memgraph_error exc), w3)
          | (Inr [], w3) \<Rightarrow> (Inr \<lparr>ev_columns = [], ev_rows = []\<rparr>, w3)
          | (Inr (r # rs), w3) \<Rightarrow> (case read_records (r # rs) of Inl exc \<Rightarrow> (Inl (memgraph_error exc), w3)
              | Inr ev \<Rightarrow> (Inr ev, w3)))))"

record graph_response =
  gr_graph :: envelope
  gr_sql :: string
  gr_source :: string
  gr_cache_hit :: "bool option"
  gr_iceberg_rows :: "nat option"

definition scope_of :: "'g services \<Rightarrow> string \<Rightarrow> string" where
  "scope_of sv sql = ''sgq_'' @ take 8 (sv_md5 sv sql)"

definition label_of :: "string \<Rightarrow> string" where
  "label_of scope = upper_char (hd scope) # tl scope"

text \<open>After a cache miss.\<close>

definition load_graph :: "'g services \<Rightarrow> string \<Rightarrow> json list \<Rightarrow> 'g graph_world \<Rightarrow> (proxy_error + graph_response) \<times> 'g graph_world" where
  "load_graph sv sql params w = (case execute_on_duckdb sv sql params w of
     (Inl err, w1) \<Rightarrow> (Inl err, w1)
   | (Inr res, w1) \<Rightarrow> (case du_error res of Some msg \<Rightarrow> (Inl (400, msg), w1)
      | None \<Rightarrow>
          if du_rows res = []
          then (Inr \<lparr>gr_graph = \<lparr>ev_columns = [], ev_rows = []\<rparr>, gr_sql = sql, gr_source = ''memgraph-via-iceberg'',
                 gr_cache_hit = None, gr_iceberg_rows = None\<rparr>, w1)
          else (case build_merge_and_query_cypher (du_columns res) (scope_of sv sql) (label_of (scope_of sv sql)) of
                  Inl exc \<Rightarrow> (Inl (500, exc), w1)
                | Inr (merge, query) \<Rightarrow>
                   (case load_and_query_memgraph sv merge (du_rows res) query (scope_of sv sql) (label_of (scope_of sv sql))
                           (du_columns res) w1 of
                      (Inl err, w2) \<Rightarrow> (Inl err, w2)
                    | (Inr ev, w2) \<Rightarrow> (Inr \<lparr>gr_graph = ev, gr_sql = sql, gr_source = ''memgraph-via-iceberg'',
                        gr_cache_hit = Some False, gr_iceberg_rows = Some (length (du_rows res))\<rparr>, w2)))))"

definition sql_to_graph :: "'g services \<Rightarrow> sql_request \<Rightarrow> 'g graph_world \<Rightarrow> (proxy_error + graph_response) \<times> 'g graph_world" where
  "sql_to_graph sv req w = (case resolved_sql sv req of Inl exc \<Rightarrow> (Inl (400, exc), w)
     | Inr sql \<Rightarrow>
         if 0 < sv_ttl sv
         then (case check_memgraph_cache sv (scope_of sv sql) (label_of (scope_of sv sql)) w of
                 (Some ev, w1) \<Rightarrow> (Inr \<lparr>gr_graph = ev, gr_sql = sql, gr_source = ''memgraph-cache'',
                    gr_cache_hit = Some True, gr_iceberg_rows = None\<rparr>, w1)
               | (None, w1) \<Rightarrow> load_graph sv sql (sq_parameters req) w1)
         else load_graph sv sql (sq_parameters req) w)"

section \<open>Cypher requests\<close>

record cypher_request =
  cq_cypher :: "string option"
  cq_cypher_b64 :: "string option"
  cq_parameters :: "(string \<times> json) list"

definition resolved_cypher :: "'g services \<Rightarrow> cypher_request \<Rightarrow> string + string" where
  "resolved_cypher sv req = given_text sv ''cypher'' (cq_cypher req) (cq_cypher_b64 req)"

definition execute_on_memgraph :: "'g services \<Rightarrow> string \<Rightarrow> (string \<times> json) list \<Rightarrow> 'g graph_world \<Rightarrow> (proxy_error + envelope) \<times> 'g graph_world" where
  "execute_on_memgraph sv cypher params w = (case run_statement sv \<lparr>st_text = cypher, st_args = params\<rparr> w of
     (Inl exc, w1) \<Rightarrow> (Inl (502, ''Memgraph error: '' @ exc), w1)
   | (Inr [], w1) \<Rightarrow> (Inr \<lparr>ev_columns = [], ev_rows = []\<rparr>, w1)
   | (Inr (r # rs), w1) \<Rightarrow> (case read_records (r # rs) of Inl exc \<Rightarrow> (Inl (502, ''Memgraph error: '' @ exc), w1)
       | Inr ev \<Rightarrow> (Inr ev, w1)))"

definition proxy_cypher :: "'g services \<Rightarrow> cypher_request \<Rightarrow> 'g graph_world \<Rightarrow> (proxy_error + (duck_result \<times> string \<times> string list)) \<times> 'g graph_world" where
  "proxy_cypher sv req w = (case resolved_cypher sv req of Inl exc \<Rightarrow> (Inl (400, exc), w)
     | Inr cypher \<Rightarrow> (case translate_cypher cypher of Inl msg \<Rightarrow> (Inl (400, msg), w)
        | Inr (sql, notes) \<Rightarrow> (case execute_on_duckdb sv sql [] w of
             (Inl err, w1) \<Rightarrow> (Inl err, w1) | (Inr res, w1) \<Rightarrow> (Inr (res, sql, notes), w1))))"

definition proxy_graph :: "'g services \<Rightarrow> cypher_request \<Rightarrow> 'g graph_world \<Rightarrow> (proxy_error + envelope) \<times> 'g graph_world" where
  "proxy_graph sv req w = (case resolved_cypher sv req of Inl exc \<Rightarrow> (Inl (400, exc), w)
     | Inr cypher \<Rightarrow> execute_on_memgraph sv cypher (cq_parameters req) w)"

text \<open>
  The comparison: what either side raises is that side's result. The two run in parallel; the calls
  are recorded in the order in which their tasks are created.
\<close>

record comparison =
  cm_cypher :: string
  cm_sql :: string
  cm_iceberg :: "proxy_error + duck_result"
  cm_memgraph :: "proxy_error + envelope"

definition compare_sources :: "'g services \<Rightarrow> cypher_request \<Rightarrow> 'g graph_world \<Rightarrow> (proxy_error + comparison) \<times> 'g graph_world" where
  "compare_sources sv req w = (case resolved_cypher sv req of Inl exc \<Rightarrow> (Inl (400, exc), w)
     | Inr cypher \<Rightarrow> (case translate_cypher cypher of Inl msg \<Rightarrow> (Inl (400, msg), w)
        | Inr (sql, notes) \<Rightarrow>
           (let (ice, w1) = execute_on_duckdb sv sql [] w;
                (mem, w2) = execute_on_memgraph sv cypher (cq_parameters req) w1
            in (Inr \<lparr>cm_cypher = cypher, cm_sql = sql, cm_iceberg = ice, cm_memgraph = mem\<rparr>, w2))))"

text \<open>The health of the proxy from what DuckDB's server answered and whether Memgraph's port opened.\<close>

definition health :: "string + json \<Rightarrow> string + unit \<Rightarrow> nat \<times> string" where
  "health duck mg =
     (let ok = (case duck of Inr (JObj kvs) \<Rightarrow> map_of kvs ''status'' = Some (JStr ''ok'') | _ \<Rightarrow> False) \<and> mg = Inr ()
      in if ok then (200, ''ok'') else (503, ''degraded''))"

end
