(* ===== verification/Graph_Cache.thy ===== *)
theory Graph_Cache
  imports Graph_Pipeline "HOL-Library.Multiset"
begin

text \<open>
  What the handlers of the graph proxy keep: the pipeline stays inside the scope of its query, evicts
  only what has expired, survives a failing cache, and answers a hit from the SQL text alone; the
  catalog tree holds every table once, with its columns.
\<close>

section \<open>The calls an operation makes\<close>

definition issues :: "(call \<Rightarrow> bool) \<Rightarrow> 'g graph_world \<Rightarrow> 'g graph_world \<Rightarrow> bool" where
  "issues P w w1 = (\<exists>cs. w_calls w1 = w_calls w @ cs \<and> list_all P cs)"

named_theorems issue

lemma issues_refl [issue]: "issues P w w"
  by (simp add: issues_def)

lemma issues_trans: "\<lbrakk>issues P w w1; issues P w1 w2\<rbrakk> \<Longrightarrow> issues P w w2"
  by (auto simp: issues_def)

lemma issues_statement: "\<lbrakk>run_statement sv st w = (r, w1); P (To_Memgraph st)\<rbrakk> \<Longrightarrow> issues P w w1"
  by (auto simp: issues_def run_statement_def split: prod.splits)

lemma issues_duckdb: "\<lbrakk>execute_on_duckdb sv sql ps w = (r, w1); P (To_Duckdb sql ps)\<rbrakk> \<Longrightarrow> issues P w w1"
  by (auto simp: issues_def execute_on_duckdb_def)

section \<open>Scoping\<close>

fun stays_in :: "string \<Rightarrow> call \<Rightarrow> bool" where
  "stays_in label (To_Memgraph st) = sublist (CHR '':'' # label) (st_text st)"
| "stays_in label (To_Duckdb sql ps) = True"

lemma sublistI: "t = a @ u @ b \<Longrightarrow> sublist u t"
  by (auto simp: sublist_def)

lemma cache_statements_scoped:
  "stays_in label (To_Memgraph (check_statement scope label))" "stays_in label (To_Memgraph (evict_statement scope label))"
  "stays_in label (To_Memgraph (cached_nodes scope label))" "stays_in label (To_Memgraph (stamp_statement scope label ts))"
  unfolding check_statement_def evict_statement_def cached_nodes_def stamp_statement_def stays_in.simps statement.simps
  by (rule sublistI[where a = "''MATCH (n''"], simp)+

lemma edge_query_scoped: "sublist (CHR '':'' # label) (edge_query label filt)"
  unfolding edge_query_def by (rule sublistI[where a = "''MATCH (src''"], simp)

lemma cached_edges_scoped: "stays_in label (To_Memgraph (cached_edges scope label))"
  using edge_query_scoped by (simp add: cached_edges_def)

lemma merge_scoped: "sublist (CHR '':'' # label) (edge_merge cols src tgt scope label)"
  "sublist (CHR '':'' # label) (node_merge cols idc scope label)" "sublist (CHR '':'' # label) (node_query scope label)"
  unfolding edge_merge_def node_merge_def node_query_def Let_def
  by (rule sublistI[where a = "''UNWIND $rows AS row'' @ newline @ ''MERGE (src''"], simp)
    (rule sublistI[where a = "''UNWIND $rows AS row'' @ newline @ ''MERGE (n''"], simp,
      rule sublistI[where a = "''MATCH (n''"], simp)

lemma built_scoped:
  "build_merge_and_query_cypher cols scope label = Inr (merge, query) \<Longrightarrow>
    sublist (CHR '':'' # label) merge \<and> sublist (CHR '':'' # label) query"
  unfolding build_merge_and_query_cypher_def
  by (auto split: option.splits list.splits intro: edge_query_scoped merge_scoped)

section \<open>The calls of the cache check\<close>

definition expired :: "'g services \<Rightarrow> string \<Rightarrow> string \<Rightarrow> 'g graph_world \<Rightarrow> bool" where
  "expired sv scope label w = (case run_statement sv (check_statement scope label) w of
     (Inr (r # rs), w1) \<Rightarrow> (case map_of r ''cached_at'' of
         Some v \<Rightarrow> v \<noteq> Mg_Json JNull \<and> (case to_float sv v of
             Some t \<Rightarrow> of_int (sv_ttl sv) < sv_clock sv (w_calls w1) - t | None \<Rightarrow> False)
       | None \<Rightarrow> False)
   | _ \<Rightarrow> False)"

lemma run_calls: "run_statement sv st w = (r, w1) \<Longrightarrow> w_calls w1 = w_calls w @ [To_Memgraph st]"
  by (auto simp: run_statement_def split: prod.splits)

lemma read_cached_calls:
  assumes "read_cached sv scope label w = (r, w1)"
  shows "\<exists>sts \<in> {[cached_edges scope label], [cached_edges scope label, cached_nodes scope label]}.
    w_calls w1 = w_calls w @ map To_Memgraph sts"
proof -
  obtain r1 v1 where 1: "run_statement sv (cached_edges scope label) w = (r1, v1)" by force
  obtain r2 v2 where 2: "run_statement sv (cached_nodes scope label) v1 = (r2, v2)" by force
  have "w1 = v1 \<or> w1 = v2"
    using assms by (auto simp: read_cached_def 1 2 split: sum.splits list.splits)
  then show ?thesis using run_calls[OF 1] run_calls[OF 2] by auto
qed

lemma check_calls:
  assumes "check_memgraph_cache sv scope label w = (r, w1)"
  shows "\<exists>sts. w_calls w1 = w_calls w @ To_Memgraph (check_statement scope label) # map To_Memgraph sts \<and>
    (if expired sv scope label w then sts = [evict_statement scope label]
     else sts \<in> {[], [cached_edges scope label], [cached_edges scope label, cached_nodes scope label]})"
proof -
  obtain r1 v1 where 1: "run_statement sv (check_statement scope label) w = (r1, v1)" by force
  obtain r2 v2 where 2: "run_statement sv (evict_statement scope label) v1 = (r2, v2)" by force
  obtain r3 v3 where 3: "read_cached sv scope label v1 = (r3, v3)" by force
  obtain sts where sts: "sts \<in> {[cached_edges scope label], [cached_edges scope label, cached_nodes scope label]}"
      "w_calls v3 = w_calls v1 @ map To_Memgraph sts"
    using read_cached_calls[OF 3] by blast
  have "if expired sv scope label w then w1 = v2 else w1 = v1 \<or> w1 = v3"
    using assms by (auto simp: check_memgraph_cache_def expired_def 1 2 3 split: sum.splits list.splits option.splits if_splits)
  then show ?thesis
    using run_calls[OF 1] run_calls[OF 2] sts by (auto split: if_splits)
qed

lemma check_issues:
  assumes "check_memgraph_cache sv scope label w = (r, w1)"
    and "P (To_Memgraph (check_statement scope label))" "P (To_Memgraph (cached_edges scope label))"
      "P (To_Memgraph (cached_nodes scope label))"
    and "expired sv scope label w \<Longrightarrow> P (To_Memgraph (evict_statement scope label))"
  shows "issues P w w1"
  using check_calls[OF assms(1)] assms(2-5) by (auto simp: issues_def split: if_splits)

lemma load_issues:
  assumes run: "load_graph sv sql ps w = (r, w1)"
    and duck: "P (To_Duckdb sql ps)"
    and stamp: "\<And>ts. P (To_Memgraph (stamp_statement (scope_of sv sql) (label_of (scope_of sv sql)) ts))"
    and built: "\<And>cols merge query rows. build_merge_and_query_cypher cols (scope_of sv sql) (label_of (scope_of sv sql)) = Inr (merge, query) \<Longrightarrow>
      P (To_Memgraph \<lparr>st_text = merge, st_args = [(''rows'', rows)]\<rparr>) \<and> P (To_Memgraph \<lparr>st_text = query, st_args = []\<rparr>)"
  shows "issues P w w1"
proof -
  let ?scope = "scope_of sv sql" and ?label = "label_of (scope_of sv sql)"
  obtain r1 v1 where 1: "execute_on_duckdb sv sql ps w = (r1, v1)" by force
  have duck': "issues P w v1" using issues_duckdb[OF 1] duck by blast
  have load: "issues P v1 v2"
    if "load_and_query_memgraph sv merge rows query ?scope ?label cols v1 = (r2, v2)"
      "build_merge_and_query_cypher cols ?scope ?label = Inr (merge, query)" for merge rows query cols r2 v2
  proof -
    let ?merge = "\<lparr>st_text = merge, st_args = [(''rows'', JArr (map (dict_row cols) rows))]\<rparr>"
    obtain a1 u1 where a: "run_statement sv ?merge v1 = (a1, u1)" by force
    obtain a2 u2 where b: "run_statement sv (stamp_statement ?scope ?label (sv_clock sv (w_calls u1))) u1 = (a2, u2)" by force
    obtain a3 u3 where c: "run_statement sv \<lparr>st_text = query, st_args = []\<rparr> u2 = (a3, u3)" by force
    have "issues P v1 u1" "issues P u1 u2" "issues P u2 u3"
      using issues_statement[OF a, of P] issues_statement[OF b, of P] issues_statement[OF c, of P] stamp built[OF that(2)] by blast+
    moreover have "v2 \<in> {u1, u2, u3}"
      using that(1) by (auto simp: load_and_query_memgraph_def a b c split: sum.splits list.splits)
    ultimately show ?thesis by (auto intro: issues_trans)
  qed
  have "w1 = v1 \<or> (\<exists>merge rows query cols r2. load_and_query_memgraph sv merge rows query ?scope ?label cols v1 = (r2, w1) \<and>
      build_merge_and_query_cypher cols ?scope ?label = Inr (merge, query))"
    using run by (auto simp: load_graph_def 1 split: sum.splits option.splits if_splits prod.splits) blast+
  then show ?thesis using duck' load by (auto intro: issues_trans)
qed

lemma pipeline_issues:
  assumes sql: "resolved_sql sv req = Inr sql" and run: "sql_to_graph sv req w = (r, w1)"
    and check: "\<And>v v1 x. \<lbrakk>0 < sv_ttl sv; check_memgraph_cache sv (scope_of sv sql) (label_of (scope_of sv sql)) w = (x, v1)\<rbrakk> \<Longrightarrow> issues P w v1"
    and load: "\<And>v v1 x. load_graph sv sql (sq_parameters req) v = (x, v1) \<Longrightarrow> issues P v v1"
  shows "issues P w w1"
  using run check load unfolding sql_to_graph_def sql
  by (auto split: if_splits prod.splits option.splits intro: issues_trans)


lemma not_evict:
  "check_statement scope label \<noteq> evict_statement scope1 label" "cached_edges scope label \<noteq> evict_statement scope1 label"
  "cached_nodes scope label \<noteq> evict_statement scope1 label" "stamp_statement scope label ts \<noteq> evict_statement scope1 label"
  "\<lparr>st_text = t, st_args = [(''rows'', x)]\<rparr> \<noteq> evict_statement scope1 label" "\<lparr>st_text = t, st_args = []\<rparr> \<noteq> evict_statement scope1 label"
  by (auto simp: check_statement_def evict_statement_def cached_edges_def cached_nodes_def stamp_statement_def scoped_def edge_query_def)

text \<open>
  the pipeline deletes a graph only when caching is on and the graph's stamp is older than the time
  to live. In particular nothing is ever deleted with caching off, so setting the time to live to zero
  does not clear the scope.
\<close>

theorem evicts_only_expired:
  assumes "resolved_sql sv req = Inr sql" "sql_to_graph sv req w = (r, w1)"
    and "\<not> (0 < sv_ttl sv \<and> expired sv (scope_of sv sql) (label_of (scope_of sv sql)) w)"
  shows "\<exists>cs. w_calls w1 = w_calls w @ cs \<and>
    To_Memgraph (evict_statement (scope_of sv sql) (label_of (scope_of sv sql))) \<notin> set cs"
proof -
  let ?P = "\<lambda>c. c \<noteq> To_Memgraph (evict_statement (scope_of sv sql) (label_of (scope_of sv sql)))"
  have "issues ?P w w1"
  proof (rule pipeline_issues[OF assms(1,2)])
    fix v1 x assume "0 < sv_ttl sv" "check_memgraph_cache sv (scope_of sv sql) (label_of (scope_of sv sql)) w = (x, v1)"
    then show "issues ?P w v1" using assms(3) by (intro check_issues) (auto simp: not_evict)
  next
    fix v v1 x assume "load_graph sv sql (sq_parameters req) v = (x, v1)"
    then show "issues ?P v v1" by (rule load_issues) (auto simp: not_evict)
  qed
  then show ?thesis by (auto simp: issues_def list_all_iff)
qed

section \<open>Hits and failures\<close>

text \<open>
  what the cache answers depends on the SQL text alone: a request with the same text and other
  parameters gets the graph of the first, and DuckDB is not asked.
\<close>

theorem cache_hit_ignores_parameters:
  assumes "resolved_sql sv req = Inr sql" "resolved_sql sv other = Inr sql"
    and "sql_to_graph sv req w = (Inr resp, w1)" "gr_cache_hit resp = Some True"
  shows "sql_to_graph sv other w = (Inr resp, w1) \<and> (\<forall>q ps. To_Duckdb q ps \<notin> set (drop (length (w_calls w)) (w_calls w1)))"
proof -
  have not_loaded: "load_graph sv sql ps v \<noteq> (Inr resp, v1)" for ps v v1
    using assms(4) by (auto simp: load_graph_def split: sum.splits option.splits if_splits prod.splits)
  obtain ev where hit: "0 < sv_ttl sv" "check_memgraph_cache sv (scope_of sv sql) (label_of (scope_of sv sql)) w = (Some ev, w1)"
    using assms(3) not_loaded unfolding sql_to_graph_def assms(1) by (auto split: if_splits prod.splits option.splits)
  then have "sql_to_graph sv other w = sql_to_graph sv req w" by (simp add: sql_to_graph_def assms(1,2))
  moreover have "issues (\<lambda>c. \<forall>q ps. c \<noteq> To_Duckdb q ps) w w1" using hit(2) by (rule check_issues) simp_all
  ultimately show ?thesis using assms(3) by (auto simp: issues_def list_all_iff) blast
qed

text \<open>
  a cache that fails does not fail the request: when Memgraph refuses the check, the graph is
  loaded afresh.
\<close>

theorem cache_failure_falls_through:
  assumes "resolved_sql sv req = Inr sql"
    and "run_statement sv (check_statement (scope_of sv sql) (label_of (scope_of sv sql))) w = (Inl exc, w1)" "0 < sv_ttl sv"
  shows "sql_to_graph sv req w = load_graph sv sql (sq_parameters req) w1"
  using assms by (simp add: sql_to_graph_def check_memgraph_cache_def)

section \<open>Witnesses\<close>

definition demo_services :: "unit services" where
  "demo_services = \<lparr>
     sv_memgraph = (\<lambda>st g.
       (if st = check_statement ''sgq_01234567'' ''Sgq_01234567'' then Inr [[(''cached_at'', Mg_Json (JNum 100))]]
        else if st = cached_edges ''sgq_01234567'' ''Sgq_01234567'' then Inr [[(''source_node_id'', Mg_Json (JStr ''a''))]]
        else Inl ''refused'', g)),
     sv_duckdb = (\<lambda>cs sql ps. Duck_Failed ''down''), sv_clock = (\<lambda>cs. 200), sv_md5 = (\<lambda>s. ''0123456789abcdef''),
     sv_base64 = Inr, sv_float = (\<lambda>s. None), sv_ttl = 300\<rparr>"

definition demo_query :: "json list \<Rightarrow> sql_request" where
  "demo_query ps = \<lparr>sq_sql = Some ''SELECT 1'', sq_sql_b64 = None, sq_parameters = ps\<rparr>"

definition cold :: "unit graph_world" where
  "cold = \<lparr>w_graph = (), w_calls = []\<rparr>"

lemma demo_sql: "resolved_sql demo_services (demo_query ps) = Inr ''SELECT 1''"
  by (simp add: resolved_sql_def given_text_def demo_query_def given_def)

lemma demo_scope:
  "scope_of demo_services sql = ''sgq_01234567''" "label_of ''sgq_01234567'' = ''Sgq_01234567''"
  by (simp_all add: scope_of_def demo_services_def label_of_def) code_simp

lemma demo_hit:
  "sql_to_graph demo_services (demo_query ps) cold =
    (Inr \<lparr>gr_graph = \<lparr>ev_columns = [''source_node_id''], ev_rows = [[JStr ''a'']]\<rparr>, gr_sql = ''SELECT 1'',
       gr_source = ''memgraph-cache'', gr_cache_hit = Some True, gr_iceberg_rows = None\<rparr>,
     \<lparr>w_graph = (), w_calls = [To_Memgraph (check_statement ''sgq_01234567'' ''Sgq_01234567''),
       To_Memgraph (cached_edges ''sgq_01234567'' ''Sgq_01234567'')]\<rparr>)"
proof -
  have "cached_edges ''sgq_01234567'' ''Sgq_01234567'' \<noteq> check_statement ''sgq_01234567'' ''Sgq_01234567''"
    by (simp add: cached_edges_def check_statement_def edge_query_def)
  then show ?thesis
    unfolding sql_to_graph_def demo_sql sum.case demo_scope
    by (simp add: check_memgraph_cache_def read_cached_def run_statement_def demo_services_def cold_def to_float_def
        read_records_def record_row_def bind_def)
qed


lemma evicts_only_expired_witness:
  "\<exists>cs. w_calls (snd (sql_to_graph (demo_services\<lparr>sv_ttl := 0\<rparr>) (demo_query []) cold)) = w_calls cold @ cs \<and>
    To_Memgraph (evict_statement (scope_of (demo_services\<lparr>sv_ttl := 0\<rparr>) ''SELECT 1'')
      (label_of (scope_of (demo_services\<lparr>sv_ttl := 0\<rparr>) ''SELECT 1''))) \<notin> set cs"
proof (rule evicts_only_expired[OF _ prod.collapse[symmetric]])
  show "resolved_sql (demo_services\<lparr>sv_ttl := 0\<rparr>) (demo_query []) = Inr ''SELECT 1''"
    by (simp add: resolved_sql_def given_text_def demo_query_def given_def)
qed simp

lemma cache_hit_ignores_parameters_witness:
  "fst (sql_to_graph demo_services (demo_query [JNum 2]) cold) = fst (sql_to_graph demo_services (demo_query [JNum 1]) cold)"
  using cache_hit_ignores_parameters[OF demo_sql demo_sql demo_hit, of "[JNum 2]"] demo_hit[of "[JNum 1]"] by simp

lemma cache_failure_falls_through_witness:
  "sql_to_graph (demo_services\<lparr>sv_memgraph := (\<lambda>st g. (Inl ''down'', g))\<rparr>) (demo_query []) cold =
    load_graph (demo_services\<lparr>sv_memgraph := (\<lambda>st g. (Inl ''down'', g))\<rparr>) ''SELECT 1'' (sq_parameters (demo_query []))
      \<lparr>w_graph = (), w_calls = [To_Memgraph (check_statement (scope_of (demo_services\<lparr>sv_memgraph := (\<lambda>st g. (Inl ''down'', g))\<rparr>) ''SELECT 1'')
         (label_of (scope_of (demo_services\<lparr>sv_memgraph := (\<lambda>st g. (Inl ''down'', g))\<rparr>) ''SELECT 1'')))]\<rparr>"
  by (rule cache_failure_falls_through)
    (simp_all add: resolved_sql_def given_text_def demo_query_def given_def run_statement_def cold_def demo_services_def)

section \<open>The catalog tree\<close>

lemma append_at_facts:
  assumes "distinct (map fst d)"
  shows "distinct (map fst (append_at k v d))"
    and "map_of (append_at k v d) = (map_of d)(k \<mapsto> (case map_of d k of None \<Rightarrow> [] | Some vs \<Rightarrow> vs) @ [v])"
proof -
  have new: "k \<notin> fst ` set d" if "map_of d k = None" using that by (simp add: map_of_eq_None_iff)
  show "distinct (map fst (append_at k v d))"
    using assms new by (auto simp: append_at_def distinct_update split: option.split)
  show "map_of (append_at k v d) = (map_of d)(k \<mapsto> (case map_of d k of None \<Rightarrow> [] | Some vs \<Rightarrow> vs) @ [v])"
    using new by (auto simp: append_at_def update_conv' fun_eq_iff map_add_def split: option.split)
qed

lemma group_by_append: "group_by key val (rows @ [r]) = append_at (key r) (val r) (group_by key val rows)"
  by (simp add: group_by_def)

lemma group_by_distinct: "distinct (map fst (group_by key val rows))"
  by (induction rows rule: rev_induct) (simp_all add: group_by_append append_at_facts(1), simp add: group_by_def)

text \<open>The group of a key is the list of its rows, in order.\<close>

lemma group_by_lookup:
  "map_of (group_by key val rows) k = (let own = filter (\<lambda>r. key r = k) rows in if own = [] then None else Some (map val own))"
proof (induction rows rule: rev_induct)
  case (snoc r rows)
  then show ?case
    by (auto simp: group_by_append append_at_facts(2)[OF group_by_distinct] Let_def split: if_splits)
qed (simp add: group_by_def Let_def)

definition column_of :: "column_row \<Rightarrow> column_info" where
  "column_of r = \<lparr>ci_name = cr_column r, ci_type = cr_type r\<rparr>"

definition columns_of :: "column_row list \<Rightarrow> table_row \<Rightarrow> column_info list" where
  "columns_of cols t = map column_of
     (filter (\<lambda>r. (cr_catalog r, cr_schema r, cr_table r) = (tr_catalog t, tr_schema t, tr_table t)) cols)"

lemma table_entry_columns: "ti_columns (table_entry cols t) = columns_of cols t"
proof -
  let ?k = "(tr_catalog t, tr_schema t, tr_table t)"
  have "map_of (column_index cols) ?k = (let own = filter (\<lambda>r. (cr_catalog r, cr_schema r, cr_table r) = ?k) cols in
      if own = [] then None else Some (map (\<lambda>r. \<lparr>ci_name = cr_column r, ci_type = cr_type r\<rparr>) own))"
    unfolding column_index_def by (rule group_by_lookup)
  then show ?thesis by (auto simp: table_entry_def columns_of_def column_of_def Let_def split: if_splits)
qed

lemma map_of_sort_key:
  assumes "distinct (map fst xs)"
  shows "distinct (map fst (sort_key fst xs)) \<and> map_of (sort_key fst xs) = map_of xs"
proof -
  have "mset (map fst (sort_key fst xs)) = mset (map fst xs)" by simp
  then have "distinct (map fst (sort_key fst xs))" using assms mset_eq_imp_distinct_iff by blast
  then show ?thesis using assms by (simp add: map_of_inject_set)
qed

text \<open>
  C21: the catalog tree has its namespaces in order and once each; under each stand the tables of that
  schema, in the order of the query, each with exactly its own columns, and under no other.
\<close>

theorem catalog_tree_complete:
  "sorted (map fst (catalog_tree tables cols)) \<and> distinct (map fst (catalog_tree tables cols)) \<and>
   map_of (catalog_tree tables cols) ns =
     (let own = filter (\<lambda>t. tr_schema t = ns) tables in
      if own = [] then None
      else Some (map (\<lambda>t. \<lparr>ti_name = tr_table t, ti_full_name = tr_catalog t @ ''.'' @ tr_schema t @ ''.'' @ tr_table t,
        ti_columns = columns_of cols t\<rparr>) own))"
proof -
  have entry: "table_entry cols t = \<lparr>ti_name = tr_table t, ti_full_name = tr_catalog t @ ''.'' @ tr_schema t @ ''.'' @ tr_table t,
      ti_columns = columns_of cols t\<rparr>" for t
    using table_entry_columns[of cols t] by (simp add: table_entry_def)
  show ?thesis
    using map_of_sort_key[OF group_by_distinct, of tr_schema "table_entry cols" tables] sorted_sort_key[of fst]
      group_by_lookup[of tr_schema "table_entry cols" tables ns]
    by (auto simp: catalog_tree_def Let_def entry)
qed

end
