(* ===== verification/Graph_Uncached.thy ===== *)
theory Graph_Uncached
  imports Graph_Cache
begin

text \<open>
  The older SQL to graph pipeline of \<^verbatim>\<open>manifests/duckdb/stargraph_sql_proxy.py\<close>, which keeps no cache: it
  loads the rows, reads the graph back and deletes it. When it deletes, when it leaves the graph
  behind, and that the pipeline with the cache answers the same graph on a miss.
\<close>

section \<open>The pipeline\<close>

definition load_query_and_clean ::
  "'g services \<Rightarrow> string \<Rightarrow> json list list \<Rightarrow> string \<Rightarrow> string \<Rightarrow> string \<Rightarrow> string list \<Rightarrow> 'g graph_world \<Rightarrow>
     (proxy_error + envelope) \<times> 'g graph_world" where
  "load_query_and_clean sv merge rows query scope label cols w =
     (case run_statement sv \<lparr>st_text = merge, st_args = [(''rows'', JArr (map (dict_row cols) rows))]\<rparr> w of
        (Inl exc, w1) \<Rightarrow> (Inl (memgraph_error exc), w1)
      | (Inr _, w1) \<Rightarrow> (case run_statement sv \<lparr>st_text = query, st_args = []\<rparr> w1 of
          (Inl exc, w2) \<Rightarrow> (Inl (memgraph_error exc), w2)
        | (Inr [], w2) \<Rightarrow> (Inr \<lparr>ev_columns = [], ev_rows = []\<rparr>, w2)
        | (Inr (r # rs), w2) \<Rightarrow> (case read_records (r # rs) of Inl exc \<Rightarrow> (Inl (memgraph_error exc), w2)
            | Inr ev \<Rightarrow> (case run_statement sv (evict_statement scope label) w2 of
                (Inl exc, w3) \<Rightarrow> (Inl (memgraph_error exc), w3)
              | (Inr _, w3) \<Rightarrow> (Inr ev, w3)))))"

definition load_graph_uncached :: "'g services \<Rightarrow> string \<Rightarrow> json list \<Rightarrow> 'g graph_world \<Rightarrow> (proxy_error + graph_response) \<times> 'g graph_world" where
  "load_graph_uncached sv sql params w = (case execute_on_duckdb sv sql params w of
     (Inl err, w1) \<Rightarrow> (Inl err, w1)
   | (Inr res, w1) \<Rightarrow> (case du_error res of Some msg \<Rightarrow> (Inl (400, msg), w1)
      | None \<Rightarrow>
          if du_rows res = []
          then (Inr \<lparr>gr_graph = \<lparr>ev_columns = [], ev_rows = []\<rparr>, gr_sql = sql, gr_source = ''memgraph-via-iceberg'',
                 gr_cache_hit = None, gr_iceberg_rows = None\<rparr>, w1)
          else (case build_merge_and_query_cypher (du_columns res) (scope_of sv sql) (label_of (scope_of sv sql)) of
                  Inl exc \<Rightarrow> (Inl (500, exc), w1)
                | Inr (merge, query) \<Rightarrow>
                   (case load_query_and_clean sv merge (du_rows res) query (scope_of sv sql) (label_of (scope_of sv sql))
                           (du_columns res) w1 of
                      (Inl err, w2) \<Rightarrow> (Inl err, w2)
                    | (Inr ev, w2) \<Rightarrow> (Inr \<lparr>gr_graph = ev, gr_sql = sql, gr_source = ''memgraph-via-iceberg'',
                        gr_cache_hit = None, gr_iceberg_rows = Some (length (du_rows res))\<rparr>, w2)))))"

definition sql_to_graph_uncached :: "'g services \<Rightarrow> sql_request \<Rightarrow> 'g graph_world \<Rightarrow> (proxy_error + graph_response) \<times> 'g graph_world" where
  "sql_to_graph_uncached sv req w = (case resolved_sql sv req of Inl exc \<Rightarrow> (Inl (400, exc), w)
     | Inr sql \<Rightarrow> load_graph_uncached sv sql (sq_parameters req) w)"

section \<open>What is left in the graph\<close>

lemma clean_last:
  assumes "load_query_and_clean sv merge rows query scope label cols w = (Inr ev, w1)" "ev_columns ev \<noteq> [] \<or> ev_rows ev \<noteq> []"
  shows "last (w_calls w1) = To_Memgraph (evict_statement scope label)"
  using assms
  by (auto simp: load_query_and_clean_def split: sum.splits list.splits prod.splits dest!: run_calls)

text \<open>
  an answer with a graph in it comes after the graph was deleted: the last statement is the deletion
  of the scope.
\<close>

theorem answered_graph_is_deleted:
  assumes "resolved_sql sv req = Inr sql" and "sql_to_graph_uncached sv req w = (Inr resp, w1)"
    and "ev_columns (gr_graph resp) \<noteq> [] \<or> ev_rows (gr_graph resp) \<noteq> []"
  shows "last (w_calls w1) = To_Memgraph (evict_statement (scope_of sv sql) (label_of (scope_of sv sql)))"
  using assms clean_last[of sv]
  by (auto simp: sql_to_graph_uncached_def load_graph_uncached_def split: sum.splits option.splits if_splits prod.splits)

text \<open>A failing read leaves the merged rows in Memgraph: nothing is deleted.\<close>

theorem failed_read_leaves_graph:
  assumes "run_statement sv \<lparr>st_text = merge, st_args = [(''rows'', JArr (map (dict_row cols) rows))]\<rparr> w = (Inr x, w1)"
    and "run_statement sv \<lparr>st_text = query, st_args = []\<rparr> w1 = (y, w2)" "isl y \<or> y = Inr []"
  shows "snd (load_query_and_clean sv merge rows query scope label cols w) = w2 \<and>
    To_Memgraph (evict_statement scope label) \<notin> set (drop (length (w_calls w)) (w_calls w2))"
proof -
  have "snd (load_query_and_clean sv merge rows query scope label cols w) = w2"
    using assms by (auto simp: load_query_and_clean_def split: sum.splits)
  then show ?thesis using run_calls[OF assms(1)] run_calls[OF assms(2)] by (simp add: not_evict[symmetric])
qed

section \<open>With and without the cache\<close>

text \<open>
  The laws of Memgraph the comparison rests on: setting the stamp of the nodes succeeds and does not
  change what the query of the edges reads, which are other properties, and a deletion succeeds. The
  query of the nodes reads all their properties, and with them the stamp.
\<close>

definition stamp_unseen :: "'g services \<Rightarrow> bool" where
  "stamp_unseen sv = (\<forall>scope label ts g.
     \<not> isl (fst (sv_memgraph sv (stamp_statement scope label ts) g)) \<and>
     fst (sv_memgraph sv \<lparr>st_text = edge_query label (quoted scope), st_args = []\<rparr> (snd (sv_memgraph sv (stamp_statement scope label ts) g))) =
       fst (sv_memgraph sv \<lparr>st_text = edge_query label (quoted scope), st_args = []\<rparr> g))"

definition deletes :: "'g services \<Rightarrow> bool" where
  "deletes sv = (\<forall>scope label g. \<not> isl (fst (sv_memgraph sv (evict_statement scope label) g)))"

lemma run_fst: "fst (run_statement sv st w) = fst (sv_memgraph sv st (w_graph w))"
  "w_graph (snd (run_statement sv st w)) = snd (sv_memgraph sv st (w_graph w))"
  by (simp_all add: run_statement_def split: prod.split)

lemma edges_built:
  "\<lbrakk>is_edge_result cols; build_merge_and_query_cypher cols scope label = Inr (merge, query)\<rbrakk> \<Longrightarrow> query = edge_query label (quoted scope)"
  by (auto simp: is_edge_result_def build_merge_and_query_cypher_def)

lemma load_same:
  assumes stamp: "stamp_unseen sv" and del: "deletes sv" and edges: "is_edge_result cols"
    and built: "build_merge_and_query_cypher cols (scope_of sv sql) (label_of (scope_of sv sql)) = Inr (merge, query)"
  shows "fst (load_and_query_memgraph sv merge rows query (scope_of sv sql) (label_of (scope_of sv sql)) cols w) =
    fst (load_query_and_clean sv merge rows query (scope_of sv sql) (label_of (scope_of sv sql)) cols w)"
proof -
  let ?scope = "scope_of sv sql" and ?label = "label_of (scope_of sv sql)" and ?q = "\<lparr>st_text = query, st_args = []\<rparr>"
  obtain r1 w1 where 1: "run_statement sv \<lparr>st_text = merge, st_args = [(''rows'', JArr (map (dict_row cols) rows))]\<rparr> w = (r1, w1)" by force
  obtain r2 w2 where 2: "run_statement sv (stamp_statement ?scope ?label (sv_clock sv (w_calls w1))) w1 = (r2, w2)" by force
  obtain r3 w3 where 3: "run_statement sv ?q w2 = (r3, w3)" by force
  obtain r4 w4 where 4: "run_statement sv ?q w1 = (r4, w4)" by force
  obtain r5 w5 where 5: "run_statement sv (evict_statement ?scope ?label) w4 = (r5, w5)" by force
  note q = edges_built[OF edges built]
  have "\<not> isl r2" "\<not> isl r5"
    using stamp del run_fst(1)[of sv "stamp_statement ?scope ?label (sv_clock sv (w_calls w1))" w1]
      run_fst(1)[of sv "evict_statement ?scope ?label" w4] by (simp_all add: stamp_unseen_def deletes_def 2 5)
  moreover have "r3 = r4"
    using stamp run_fst(2)[of sv "stamp_statement ?scope ?label (sv_clock sv (w_calls w1))" w1]
      run_fst(1)[of sv ?q w2] run_fst(1)[of sv ?q w1] unfolding q by (simp add: stamp_unseen_def 2 3[unfolded q] 4[unfolded q])
  ultimately show ?thesis
    by (auto simp: load_and_query_memgraph_def load_query_and_clean_def 1 2 3 4 5 split: sum.split list.split)
qed

definition same_graph :: "proxy_error + graph_response \<Rightarrow> proxy_error + graph_response \<Rightarrow> bool" where
  "same_graph x y = (case (x, y) of (Inl a, Inl b) \<Rightarrow> a = b
     | (Inr a, Inr b) \<Rightarrow> gr_graph a = gr_graph b \<and> gr_sql a = gr_sql b \<and> gr_source a = gr_source b \<and> gr_iceberg_rows a = gr_iceberg_rows b
     | _ \<Rightarrow> False)"

lemma load_graph_same:
  assumes "stamp_unseen sv" "deletes sv"
    and edges: "\<And>res. sv_duckdb sv (w_calls w) sql ps = Duck_Ok res \<Longrightarrow> is_edge_result (du_columns res)"
  shows "same_graph (fst (load_graph sv sql ps w)) (fst (load_graph_uncached sv sql ps w))"
proof -
  let ?scope = "scope_of sv sql" and ?label = "label_of (scope_of sv sql)"
  obtain r v where duck: "execute_on_duckdb sv sql ps w = (r, v)" by force
  show ?thesis
  proof (cases "\<exists>res merge query. r = Inr res \<and> du_error res = None \<and> du_rows res \<noteq> [] \<and>
      build_merge_and_query_cypher (du_columns res) ?scope ?label = Inr (merge, query)")
    case False
    then show ?thesis
      by (cases r) (auto simp: load_graph_def load_graph_uncached_def duck same_graph_def split: option.splits sum.splits)
  next
    case True
    then obtain res merge query where res: "r = Inr res" "du_error res = None" "du_rows res \<noteq> []"
      "build_merge_and_query_cypher (du_columns res) ?scope ?label = Inr (merge, query)" by blast
    obtain a u where new: "load_and_query_memgraph sv merge (du_rows res) query ?scope ?label (du_columns res) v = (a, u)" by force
    obtain b u' where old: "load_query_and_clean sv merge (du_rows res) query ?scope ?label (du_columns res) v = (b, u')" by force
    have "is_edge_result (du_columns res)" using edges duck res(1) by (auto simp: execute_on_duckdb_def split: duck_reply.splits)
    then have "a = b" using load_same[OF assms(1,2) _ res(4), of "du_rows res" v] by (simp add: new old)
    then show ?thesis
      by (cases b) (simp_all add: load_graph_def load_graph_uncached_def duck res new old same_graph_def)
  qed
qed


text \<open>Services for which every statement succeeds, nothing is cached and the graph has one edge.\<close>

definition small_services :: "unit services" where
  "small_services = demo_services\<lparr>sv_memgraph := (\<lambda>st g. (Inr (if st_args st = [] then [[(''source_node_id'', Mg_Json (JStr ''a''))]] else []), g)),
     sv_duckdb := (\<lambda>cs sql ps. Duck_Ok \<lparr>du_error = None, du_columns = [''source_node_id'', ''target_node_id''], du_rows = [[JStr ''a'', JStr ''b'']]\<rparr>)\<rparr>"

lemma lower_edge_names: "py_lower ''source_node_id'' = ''source_node_id''" "py_lower ''target_node_id'' = ''target_node_id''"
  by code_simp+


end
