(* ===== verification/Duckdb_Server.thy ===== *)
theory Duckdb_Server
  imports Ddl_Extract
begin

text \<open>
  \<^verbatim>\<open>docker/duckdb/duckdb_server.py\<close>: one DuckDB connection behind HTTP, kept between requests and opened
  again after it was dropped. DuckDB itself is a parameter: how a connection is opened and what an
  execution on it returns, with the connection's new state. The lock makes the requests a sequence.
\<close>

section \<open>The session\<close>

record cursor =
  cu_columns :: "string list"
  cu_rows :: "json list list"
  cu_fetch_error :: "string option"

text \<open>A fetch may fail after some rows. An error of DuckDB is its text.\<close>

record 'c engine =
  en_bootstrap :: "string + 'c"
  en_execute :: "'c \<Rightarrow> string \<Rightarrow> json list \<Rightarrow> (string + cursor) \<times> 'c"

type_synonym 'c session = "'c option"

datatype raised =
    Duck_Error string
  | Http_Error nat string

type_synonym ('c, 'a) body = "'c \<Rightarrow> (raised + 'a) \<times> 'c"

definition execute :: "'c engine \<Rightarrow> string \<Rightarrow> json list \<Rightarrow> ('c, cursor) body" where
  "execute e sql ps c = (case en_execute e c sql ps of (Inl msg, c1) \<Rightarrow> (Inl (Duck_Error msg), c1) | (Inr cu, c1) \<Rightarrow> (Inr cu, c1))"

definition fetchall :: "'c engine \<Rightarrow> string \<Rightarrow> json list \<Rightarrow> ('c, cursor) body" where
  "fetchall e sql ps c = (case execute e sql ps c of (Inl x, c1) \<Rightarrow> (Inl x, c1)
     | (Inr cu, c1) \<Rightarrow> (case cu_fetch_error cu of Some msg \<Rightarrow> (Inl (Duck_Error msg), c1) | None \<Rightarrow> (Inr cu, c1)))"

definition mentions_connection :: "string \<Rightarrow> bool" where
  "mentions_connection msg = contains ''connection'' (py_lower msg)"

text \<open>\<^verbatim>\<open>locked\<close>: the connection is dropped when an error of DuckDB that speaks of it leaves the body.\<close>

definition locked :: "'c engine \<Rightarrow> ('c, 'a) body \<Rightarrow> 'c session \<Rightarrow> (raised + 'a) \<times> 'c session" where
  "locked e body ss =
     (case (case ss of Some c \<Rightarrow> Inr c | None \<Rightarrow> en_bootstrap e) of
        Inl msg \<Rightarrow> (Inl (Duck_Error msg), None)
      | Inr c \<Rightarrow> (case body c of
          (Inr x, c1) \<Rightarrow> (Inr x, Some c1)
        | (Inl (Duck_Error msg), c1) \<Rightarrow> (Inl (Duck_Error msg), if mentions_connection msg then None else Some c1)
        | (Inl (Http_Error code d), c1) \<Rightarrow> (Inl (Http_Error code d), Some c1)))"

text \<open>\<^verbatim>\<open>except duckdb.Error as exc: raise HTTPException(400)\<close>, inside the body.\<close>

definition bad_request :: "('c, 'a) body \<Rightarrow> ('c, 'a) body" where
  "bad_request body c = (case body c of (Inl (Duck_Error msg), c1) \<Rightarrow> (Inl (Http_Error 400 msg), c1) | (r, c1) \<Rightarrow> (r, c1))"

section \<open>Partition hints\<close>

definition partition_columns :: "(string \<times> string) list" where
  "partition_columns = [(''polaris.stargraph.stargraph_nodes'', ''node_type''),
     (''polaris.stargraph.stargraph_edges'', ''relationship_type''),
     (''polaris.stargraph.stargraph_customers'', ''tier'')]"

text \<open>The SQL it returns and the tables it warns of.\<close>

definition inject_partition_hints :: "string \<Rightarrow> string \<times> string list" where
  "inject_partition_hints sql = (let sql_upper = py_upper sql in
     (sql, map fst (filter (\<lambda>(table, part_col). contains (py_upper table) sql_upper \<and>
        \<not> contains (py_upper part_col) sql_upper \<and> \<not> contains ''WHERE'' sql_upper) partition_columns)))"

section \<open>Handlers\<close>

record duck_query =
  qr_sql :: string
  qr_parameters :: "json list"

definition query :: "'c engine \<Rightarrow> duck_query \<Rightarrow> 'c session \<Rightarrow> (raised + (string list \<times> json list list)) \<times> 'c session" where
  "query e req ss = (case locked e (bad_request (fetchall e (fst (inject_partition_hints (qr_sql req))) (qr_parameters req))) ss of
     (Inl x, s1) \<Rightarrow> (Inl x, s1) | (Inr cu, s1) \<Rightarrow> (Inr (cu_columns cu, cu_rows cu), s1))"

datatype stream_line =
    Header "string list"
  | Row "json list"
  | Done
  | Error_Line string

definition stream_body :: "'c engine \<Rightarrow> duck_query \<Rightarrow> ('c, stream_line list) body" where
  "stream_body e req c = (case execute e (fst (inject_partition_hints (qr_sql req))) (qr_parameters req) c of
     (Inl (Duck_Error msg), c1) \<Rightarrow> (Inr [Error_Line msg], c1)
   | (Inl x, c1) \<Rightarrow> (Inl x, c1)
   | (Inr cu, c1) \<Rightarrow> (Inr (Header (cu_columns cu) # map Row (cu_rows cu) @
       [case cu_fetch_error cu of Some msg \<Rightarrow> Error_Line msg | None \<Rightarrow> Done]), c1))"

definition query_stream :: "'c engine \<Rightarrow> duck_query \<Rightarrow> 'c session \<Rightarrow> (raised + stream_line list) \<times> 'c session" where
  "query_stream e req = locked e (stream_body e req)"

definition explain :: "'c engine \<Rightarrow> duck_query \<Rightarrow> 'c session \<Rightarrow> (raised + cursor) \<times> 'c session" where
  "explain e req = locked e (bad_request (fetchall e (''EXPLAIN '' @ qr_sql req) []))"

definition list_tables_sql :: string where
  "list_tables_sql = ''SELECT table_catalog, table_schema, table_name, table_type FROM information_schema.tables '' @
     ''WHERE table_catalog = '' @ [CHR 0x27] @ ''polaris'' @ [CHR 0x27] @ '' ORDER BY table_schema, table_name''"

definition list_tables :: "'c engine \<Rightarrow> 'c session \<Rightarrow> (raised + cursor) \<times> 'c session" where
  "list_tables e = locked e (bad_request (fetchall e list_tables_sql []))"

definition health_check :: "'c engine \<Rightarrow> 'c session \<Rightarrow> (raised + cursor) \<times> 'c session" where
  "health_check e = locked e (fetchall e ''SELECT version()'' [])"

section \<open>A connection that is never replaced\<close>

datatype duck_request = Query duck_query | Stream duck_query | Explain duck_query | Tables

definition stream_failed :: "raised + stream_line list \<Rightarrow> bool" where
  "stream_failed r = (case r of Inl x \<Rightarrow> True | Inr ls \<Rightarrow> \<exists>msg. Error_Line msg \<in> set ls)"

text \<open>A request's effect on the session and whether it failed.\<close>

fun serve :: "'c engine \<Rightarrow> duck_request \<Rightarrow> 'c session \<Rightarrow> bool \<times> 'c session" where
  "serve e (Query req) ss = (case query e req ss of (r, s1) \<Rightarrow> (isl r, s1))"
| "serve e (Stream req) ss = (case query_stream e req ss of (r, s1) \<Rightarrow> (stream_failed r, s1))"
| "serve e (Explain req) ss = (case explain e req ss of (r, s1) \<Rightarrow> (isl r, s1))"
| "serve e Tables ss = (case list_tables e ss of (r, s1) \<Rightarrow> (isl r, s1))"

fun serve_all :: "'c engine \<Rightarrow> duck_request list \<Rightarrow> 'c session \<Rightarrow> bool list \<times> 'c session" where
  "serve_all e [] ss = ([], ss)"
| "serve_all e (q # qs) ss = (case serve e q ss of (b, s1) \<Rightarrow> (case serve_all e qs s1 of (bs, s2) \<Rightarrow> (b # bs, s2)))"

text \<open>A connection on which everything fails, and goes on failing.\<close>

definition broken :: "'c engine \<Rightarrow> 'c \<Rightarrow> bool" where
  "broken e c = (\<forall>sql ps. \<exists>msg. en_execute e c sql ps = (Inl msg, c))"

lemma broken_execute:
  assumes "broken e c"
  obtains msg where "execute e sql ps c = (Inl (Duck_Error msg), c)"
proof -
  obtain msg where "en_execute e c sql ps = (Inl msg, c)" using assms unfolding broken_def by blast
  then show ?thesis using that by (simp add: execute_def)
qed

lemma broken_fetch:
  assumes "broken e c"
  shows "\<exists>msg. fetchall e sql ps c = (Inl (Duck_Error msg), c)"
proof -
  obtain msg where "execute e sql ps c = (Inl (Duck_Error msg), c)" by (rule broken_execute[OF assms])
  then show ?thesis by (simp add: fetchall_def)
qed

lemma broken_serve:
  assumes "broken e c"
  shows "serve e q (Some c) = (True, Some c)"
proof -
  have bad: "\<exists>msg. bad_request (fetchall e sql ps) c = (Inl (Http_Error 400 msg), c)" for sql ps
    using broken_fetch[OF assms, of sql ps] by (auto simp: bad_request_def)
  show ?thesis
  proof (cases q)
    case (Query req)
    then show ?thesis using bad[of "fst (inject_partition_hints (qr_sql req))" "qr_parameters req"]
      by (auto simp: query_def locked_def)
  next
    case (Stream req)
    obtain msg where "execute e (fst (inject_partition_hints (qr_sql req))) (qr_parameters req) c = (Inl (Duck_Error msg), c)"
      by (rule broken_execute[OF assms])
    then show ?thesis using Stream by (auto simp: query_stream_def locked_def stream_body_def stream_failed_def)
  next
    case (Explain req)
    then show ?thesis using bad[of "''EXPLAIN '' @ qr_sql req" "[]"] by (auto simp: explain_def locked_def)
  next
    case Tables
    then show ?thesis using bad[of list_tables_sql "[]"] by (auto simp: list_tables_def locked_def)
  qed
qed

text \<open>
  a broken connection is never replaced by the requests that use it: each of them turns DuckDB's
  error into its own before the session sees it, so they all go on failing, for ever.
\<close>

theorem broken_connection_is_kept:
  assumes "broken e c"
  shows "serve_all e qs (Some c) = (replicate (length qs) True, Some c)"
  by (induction qs) (simp_all add: broken_serve[OF assms])

definition broken_engine :: "bool engine" where
  "broken_engine = \<lparr>en_bootstrap = Inr True,
     en_execute = (\<lambda>up sql ps. if up then (Inr \<lparr>cu_columns = [], cu_rows = [], cu_fetch_error = None\<rparr>, up)
       else (Inl ''Connection already closed'', up))\<rparr>"

lemma broken_engine_broken: "broken broken_engine False"
  by (simp add: broken_def broken_engine_def)

lemma broken_connection_is_kept_witness:
  "serve_all broken_engine [Query \<lparr>qr_sql = ''SELECT 1'', qr_parameters = []\<rparr>, Tables] (Some False) =
    (replicate (length [Query \<lparr>qr_sql = ''SELECT 1'', qr_parameters = []\<rparr>, Tables]) True, Some False)"
  by (rule broken_connection_is_kept[OF broken_engine_broken])

text \<open>
  only the health check drops the connection, when the error speaks of it, so that the next request
  opens a new one.
\<close>

theorem health_check_reconnects:
  assumes "en_execute e c ''SELECT version()'' [] = (Inl msg, after)" "mentions_connection msg"
  shows "health_check e (Some c) = (Inl (Duck_Error msg), None)"
  using assms by (simp add: health_check_def locked_def fetchall_def execute_def)

lemma health_check_reconnects_witness:
  "health_check broken_engine (Some False) = (Inl (Duck_Error ''Connection already closed''), None)"
proof (rule health_check_reconnects[where after = False])
  show "mentions_connection ''Connection already closed''" by code_simp
qed (simp add: broken_engine_def)

text \<open>the hints never change the SQL, so a query is executed as it was sent.\<close>

theorem hints_leave_sql:
  "query e req ss = (case locked e (bad_request (fetchall e (qr_sql req) (qr_parameters req))) ss of
     (Inl x, s1) \<Rightarrow> (Inl x, s1) | (Inr cu, s1) \<Rightarrow> (Inr (cu_columns cu, cu_rows cu), s1))"
  by (simp add: query_def inject_partition_hints_def Let_def)

end
