(* ===== verification/Iceberg_Reader.thy ===== *)
theory Iceberg_Reader
  imports Ddl_Extract
begin

text \<open>
  \<^verbatim>\<open>docker/databricks-notebooks/nb_multi_table_auto_reader.py\<close>: finds the Iceberg tables under a warehouse
  prefix, resolves the live data files of each table's current snapshot and rewrites a Delta table from
  them. The object store, the Avro and JSON readers and the Delta writer are parameters; times are
  left out.
\<close>

section \<open>The object store\<close>

record s3_object =
  so_key :: string
  so_modified :: nat

record store =
  st_dirs :: "string \<Rightarrow> string list"
  st_objects :: "string \<Rightarrow> s3_object list"
  st_json :: "string \<Rightarrow> string + json"
  st_avro :: "string \<Rightarrow> string + json list"

definition rstrip_slash :: "string \<Rightarrow> string" where
  "rstrip_slash s = rev (dropWhile (\<lambda>c. c = CHR ''/'') (rev s))"

definition s3_list_dirs :: "store \<Rightarrow> string \<Rightarrow> string list" where
  "s3_list_dirs s3 prefix = st_dirs s3 (rstrip_slash prefix @ ''/'')"

definition s3_list_files :: "store \<Rightarrow> string \<Rightarrow> string \<Rightarrow> s3_object list" where
  "s3_list_files s3 prefix suffix =
     filter (\<lambda>obj. suffix = [] \<or> endswith (so_key obj) suffix) (st_objects s3 (rstrip_slash prefix @ ''/''))"

definition last_part :: "string \<Rightarrow> string" where
  "last_part path = last (py_split_on CHR ''/'' path)"

section \<open>Paths\<close>

text \<open>\<^verbatim>\<open>s.replace(a, b)\<close> for a nonempty \<open>a\<close>.\<close>

function replace_all :: "string \<Rightarrow> string \<Rightarrow> string \<Rightarrow> string" where
  "replace_all a b [] = []"
| "replace_all a b (c # s) =
     (if a \<noteq> [] \<and> startswith (c # s) a then b @ replace_all a b (drop (length a) (c # s)) else c # replace_all a b s)"
  by pat_completeness auto
termination
proof (relation "measure (\<lambda>(a, b, s). length s)", goal_cases)
  case (2 a b c s)
  then show ?case by (cases a) auto
qed simp_all

definition norm_path :: "string \<Rightarrow> string" where
  "norm_path p = replace_all ''s3a://'' ''s3://'' p"

definition bucket :: string where "bucket = ''stardata-databricks''"

definition key_from_path :: "string \<Rightarrow> string + string" where
  "key_from_path path = (let p = norm_path path; prefix = ''s3://'' @ bucket @ ''/'' in
     if startswith p prefix then Inr (drop (length prefix) p)
     else Inl (''ValueError: Path does not belong to bucket '' @ bucket @ '': '' @ path))"

section \<open>Live files\<close>

text \<open>The data file of a manifest entry: its content kind and its path.\<close>

definition entry_file :: "json \<Rightarrow> string + json" where
  "entry_file row = bind (json_get row ''data_file'' JNull) (\<lambda>a.
     bind (json_get row ''r2_deleted_data_file'' JNull) (\<lambda>b. Inr (json_or a (json_or b (JObj [])))))"

definition is_dict :: "json \<Rightarrow> bool" where
  "is_dict j = (case j of JObj _ \<Rightarrow> True | _ \<Rightarrow> False)"

definition file_path :: "json \<Rightarrow> string + string" where
  "file_path df = (if is_dict df
     then bind (json_get df ''file_path'' (JStr [])) (\<lambda>p.
       if \<not> truthy p then Inr [] else (case p of JStr s \<Rightarrow> Inr (norm_path s) | _ \<Rightarrow> Inl ''AttributeError''))
     else Inr [])"

text \<open>\<^verbatim>\<open>d[k] = v\<close>: a dict with its insertion order.\<close>

definition put :: "'k \<Rightarrow> 'v \<Rightarrow> ('k \<times> 'v) list \<Rightarrow> ('k \<times> 'v) list" where
  "put k v d = (if map_of d k = None then d @ [(k, v)] else map (\<lambda>(j, w). if j = k then (j, v) else (j, w)) d)"

definition merge_status :: "json option \<Rightarrow> json \<Rightarrow> json option" where
  "merge_status ex st = (case ex of None \<Rightarrow> Some st
     | Some old \<Rightarrow> if old = JNull then Some st
         else if st = JNum 0 then Some (JNum 0)
         else if old \<noteq> JNum 0 \<and> st = JNum 2 then Some (JNum 2) else None)"

definition add_entry :: "json \<Rightarrow> (string \<times> json) list \<Rightarrow> string + (string \<times> json) list" where
  "add_entry row d = bind (entry_file row) (\<lambda>df.
     bind (if is_dict df then json_get df ''content'' (JNum 0) else Inr (JNum 0)) (\<lambda>content.
       if content \<noteq> JNum 0 then Inr d
       else bind (file_path df) (\<lambda>fp.
         if fp = [] then Inr d
         else bind (json_get row ''status'' (JNum 1)) (\<lambda>st.
           Inr (case merge_status (map_of d fp) st of None \<Rightarrow> d | Some new \<Rightarrow> put fp new d)))))"

fun file_statuses :: "json list \<Rightarrow> (string \<times> json) list \<Rightarrow> string + (string \<times> json) list" where
  "file_statuses [] d = Inr d"
| "file_statuses (row # rows) d = bind (add_entry row d) (file_statuses rows)"

definition live_of :: "(string \<times> json) list \<Rightarrow> string list" where
  "live_of d = map fst (filter (\<lambda>(p, st). st = JNum 1 \<or> st = JNum 2) d)"

section \<open>Resolving a table\<close>

record table_files =
  rv_meta_name :: string
  rv_snapshot_id :: "json option"
  rv_mor_skip :: bool
  rv_live_files :: "string list"

definition newest :: "s3_object list \<Rightarrow> s3_object" where
  "newest objs = hd (sort_key (\<lambda>obj. - int (so_modified obj)) objs)"

text \<open>\<^verbatim>\<open>int(x)\<close> of a JSON number or a string of digits.\<close>

definition json_int :: "json \<Rightarrow> string + int" where
  "json_int j = (case j of JNum r \<Rightarrow> Inr (if 0 \<le> r then \<lfloor>r\<rfloor> else \<lceil>r\<rceil>)
     | JBool b \<Rightarrow> Inr (if b then 1 else 0)
     | JStr s \<Rightarrow> (let t = py_strip s in
         if py_isdigit t then Inr (int (nat_of_digits t))
         else if t \<noteq> [] \<and> hd t = CHR ''-'' \<and> py_isdigit (tl t) then Inr (- int (nat_of_digits (tl t)))
         else Inl ''ValueError'')
     | _ \<Rightarrow> Inl ''TypeError'')"

fun find_snapshot :: "json \<Rightarrow> json list \<Rightarrow> string + json option" where
  "find_snapshot sid [] = Inr None"
| "find_snapshot sid (s # ss) = bind (json_get s ''snapshot-id'' JNull) (\<lambda>x.
     if x = sid then Inr (Some s) else find_snapshot sid ss)"

text \<open>A manifest row's content kind, and the paths of the data manifests.\<close>

definition content_of :: "json \<Rightarrow> string + json" where
  "content_of r = json_get r ''content'' (JNum 0)"

fun any_delete :: "json list \<Rightarrow> string + bool" where
  "any_delete [] = Inr False"
| "any_delete (r # rs) = bind (content_of r) (\<lambda>c. if c = JNum 1 then Inr True else any_delete rs)"

fun item :: "json \<Rightarrow> string \<Rightarrow> string + json" where
  "item (JObj kvs) k = (case map_of kvs k of Some v \<Rightarrow> Inr v | None \<Rightarrow> Inl ''KeyError'')"
| "item _ k = Inl ''TypeError''"

definition json_path :: "json \<Rightarrow> string + string" where
  "json_path p = (if \<not> truthy p then Inr [] else (case p of JStr s \<Rightarrow> Inr (norm_path s) | _ \<Rightarrow> Inl ''AttributeError''))"

definition data_manifest_paths :: "json list \<Rightarrow> string + string list" where
  "data_manifest_paths rows = collect (\<lambda>r. bind (content_of r) (\<lambda>c.
     if c = JNum 0 then bind (item r ''manifest_path'') (\<lambda>p. bind (json_path p) (\<lambda>s. Inr (Some s))) else Inr None)) rows"

definition manifest_rows :: "store \<Rightarrow> string list \<Rightarrow> string + json list" where
  "manifest_rows s3 paths = bind (collect (\<lambda>mp. bind (key_from_path mp) (\<lambda>k. bind (st_avro s3 k) (\<lambda>rs. Inr (Some rs)))) paths)
     (\<lambda>rss. Inr (concat rss))"

definition resolve_manifests :: "store \<Rightarrow> table_files \<Rightarrow> json list \<Rightarrow> string + table_files" where
  "resolve_manifests s3 base rows = bind (any_delete rows) (\<lambda>mor.
     if mor then Inr (base\<lparr>rv_mor_skip := True\<rparr>)
     else bind (data_manifest_paths rows) (\<lambda>paths.
       if paths = [] then Inr base
       else bind (manifest_rows s3 paths) (\<lambda>entries.
         bind (file_statuses entries []) (\<lambda>d. Inr (base\<lparr>rv_live_files := live_of d\<rparr>)))))"

definition resolve_snapshot :: "store \<Rightarrow> table_files \<Rightarrow> json \<Rightarrow> string + table_files" where
  "resolve_snapshot s3 base current =
     bind (json_get current ''summary'' (JObj [])) (\<lambda>summary.
     bind (json_get summary ''total-records'' (JNum (- 1))) (\<lambda>total.
     bind (json_int total) (\<lambda>n.
       if n = 0 then Inr base
       else bind (json_get current ''manifest-list'' (JStr [])) (\<lambda>ml.
         bind (json_path ml) (\<lambda>path.
           if path = [] then Inl ''RuntimeError: Snapshot has no manifest-list''
           else bind (key_from_path path) (\<lambda>k. bind (st_avro s3 k) (resolve_manifests s3 base)))))))"

definition resolve_live_files :: "store \<Rightarrow> string \<Rightarrow> string + table_files" where
  "resolve_live_files s3 tbl_prefix =
     (let metas = s3_list_files s3 (rstrip_slash tbl_prefix @ ''/metadata'') ''.metadata.json'' in
      if metas = [] then Inl ''RuntimeError: No *.metadata.json''
      else let top = newest metas;
               base = \<lparr>rv_meta_name = last_part (so_key top), rv_snapshot_id = None, rv_mor_skip = False, rv_live_files = []\<rparr> in
        bind (st_json s3 (so_key top)) (\<lambda>meta.
          bind (json_get meta ''current-snapshot-id'' JNull) (\<lambda>sid.
            if sid = JNull then Inr base
            else bind (bind (json_get meta ''snapshots'' (JArr [])) json_iter) (\<lambda>snaps.
              bind (find_snapshot sid snaps) (\<lambda>found. case found of
                None \<Rightarrow> Inl ''RuntimeError: Snapshot not found in snapshots[]''
              | Some current \<Rightarrow> resolve_snapshot s3 (base\<lparr>rv_snapshot_id := Some sid\<rparr>) current)))))"

section \<open>All tables\<close>

record table_config =
  tc_db_name :: string
  tc_tbl_name :: string
  tc_safe_db :: string
  tc_tbl_prefix :: string
  tc_uc_table :: string
  tc_uc_view :: string

definition safe_name :: "string \<Rightarrow> string" where
  "safe_name n = dropWhile (\<lambda>c. c = CHR ''_'') (replace_all ''.'' ''_'' n)"

definition databricks_catalog :: string where "databricks_catalog = ''workspace''"

definition table_config_of :: "string \<Rightarrow> string \<Rightarrow> string \<Rightarrow> table_config" where
  "table_config_of db tbl prefix = \<lparr>tc_db_name = db, tc_tbl_name = tbl, tc_safe_db = safe_name db,
     tc_tbl_prefix = rstrip_slash prefix,
     tc_uc_table = databricks_catalog @ ''.'' @ safe_name db @ ''.snap_'' @ safe_name tbl @ ''_latest'',
     tc_uc_view = databricks_catalog @ ''.'' @ safe_name db @ ''.vw_'' @ safe_name tbl @ ''_latest''\<rparr>"

text \<open>The configurations by \<^verbatim>\<open>db.table\<close>; a later folder with the same key replaces an earlier one.\<close>

definition discover_table :: "store \<Rightarrow> string set \<Rightarrow> string \<Rightarrow> string \<Rightarrow> (string \<times> table_config) list \<Rightarrow> (string \<times> table_config) list" where
  "discover_table s3 skip db prefix configs =
     (let tbl = last_part (rstrip_slash prefix); key = db @ ''.'' @ tbl in
      if key \<in> skip then configs
      else if s3_list_files s3 (rstrip_slash prefix @ ''/metadata'') ''.metadata.json'' = [] then configs
      else put key (table_config_of db tbl prefix) configs)"

definition discover :: "store \<Rightarrow> string set \<Rightarrow> string \<Rightarrow> (string \<times> table_config) list" where
  "discover s3 skip prefix = fold (\<lambda>db_prefix. fold (discover_table s3 skip (last_part (rstrip_slash db_prefix))) (s3_list_dirs s3 db_prefix))
     (s3_list_dirs s3 prefix) []"

record survey =
  sy_snapshots :: "(string \<times> table_config \<times> table_files) list"
  sy_mor_skipped :: "string list"
  sy_errors :: "(string \<times> string) list"

definition survey_table :: "store \<Rightarrow> string \<times> table_config \<Rightarrow> survey \<Rightarrow> survey" where
  "survey_table s3 kc sy = (case resolve_live_files s3 (tc_tbl_prefix (snd kc)) of
     Inl exc \<Rightarrow> sy\<lparr>sy_errors := sy_errors sy @ [(fst kc, exc)]\<rparr>
   | Inr rv \<Rightarrow> if rv_mor_skip rv then sy\<lparr>sy_mor_skipped := sy_mor_skipped sy @ [fst kc]\<rparr>
       else sy\<lparr>sy_snapshots := put (fst kc) (snd kc, rv) (sy_snapshots sy)\<rparr>)"

definition survey_all :: "store \<Rightarrow> (string \<times> table_config) list \<Rightarrow> survey" where
  "survey_all s3 configs = fold (survey_table s3) configs \<lparr>sy_snapshots = [], sy_mor_skipped = [], sy_errors = []\<rparr>"

text \<open>
  The refresh: each table is overwritten with the contents of its live files, which are the keys read,
  and its view is made again; nothing catches an error, so the first one ends the run. The catalog has
  for a Delta table the keys it was written from, and for a view its table.
\<close>

record uc_catalog =
  uc_tables :: "(string \<times> string list) list"
  uc_views :: "(string \<times> string) list"

definition write_table :: "table_config \<Rightarrow> string list \<Rightarrow> uc_catalog \<Rightarrow> uc_catalog" where
  "write_table cfg keys uc = uc\<lparr>uc_tables := put (tc_uc_table cfg) keys (uc_tables uc),
     uc_views := put (tc_uc_view cfg) (tc_uc_table cfg) (uc_views uc)\<rparr>"

definition live_keys :: "table_files \<Rightarrow> string + string list" where
  "live_keys rv = collect (\<lambda>p. bind (key_from_path p) (\<lambda>k. Inr (Some k))) (rv_live_files rv)"

fun refresh :: "(string list \<Rightarrow> string + unit) \<Rightarrow> (string \<times> table_config \<times> table_files) list \<Rightarrow> uc_catalog \<Rightarrow>
    (string + unit) \<times> uc_catalog" where
  "refresh readable [] uc = (Inr (), uc)"
| "refresh readable ((key, cfg, rv) # rest) uc =
     (case live_keys rv of
        Inl exc \<Rightarrow> (Inl exc, uc)
      | Inr keys \<Rightarrow> (case (if keys = [] then Inr () else readable keys) of
          Inl exc \<Rightarrow> (Inl exc, uc)
        | Inr _ \<Rightarrow> refresh readable rest (write_table cfg keys uc)))"

end
