(* ===== verification/Iceberg_Live.thy ===== *)
theory Iceberg_Live
  imports Iceberg_Reader
begin

text \<open>
  Which files the manifest walk of \<^verbatim>\<open>nb_multi_table_auto_reader.py\<close> takes for live, against the status
  codes of the Iceberg format (0 existing, 1 added, 2 deleted), and how its survey sorts the tables.
\<close>

section \<open>Manifest entries\<close>

datatype entry_status = Existing | Added | Deleted

fun status_code :: "entry_status \<Rightarrow> rat" where
  "status_code Existing = 0"
| "status_code Added = 1"
| "status_code Deleted = 2"

type_synonym manifest_entry = "entry_status \<times> string"

definition entry_json :: "manifest_entry \<Rightarrow> json" where
  "entry_json e = JObj [(''status'', JNum (status_code (fst e))),
     (''data_file'', JObj [(''content'', JNum 0), (''file_path'', JStr (snd e))])]"

lemma replace_all_Nil: "replace_all a b s = [] \<Longrightarrow> b \<noteq> [] \<Longrightarrow> s = []"
  by (cases s) (auto split: if_splits)

lemma norm_nonempty: "p \<noteq> [] \<Longrightarrow> norm_path p \<noteq> []"
  using replace_all_Nil[of "''s3a://''" "''s3://''" p] by (auto simp: norm_path_def)

lemma add_entry_json:
  assumes "snd e \<noteq> []"
  shows "add_entry (entry_json e) d =
    Inr (case merge_status (map_of d (norm_path (snd e))) (JNum (status_code (fst e))) of None \<Rightarrow> d
      | Some new \<Rightarrow> put (norm_path (snd e)) new d)"
  using assms norm_nonempty[OF assms]
  by (simp add: add_entry_def entry_json_def entry_file_def bind_def json_or_def is_dict_def file_path_def)

lemma map_of_replace:
  "map_of (map (\<lambda>(k, v). if k = fp then (k, st) else (k, v)) d) x =
    (if x = fp \<and> map_of d fp \<noteq> None then Some st else map_of d x)"
  by (induction d) auto

lemma put_map: "map_of (put k v d) x = (if x = k then Some v else map_of d x)"
proof (cases "map_of d k")
  case None
  then show ?thesis by (cases "map_of d x") (auto simp: put_def map_add_def)
qed (simp add: put_def map_of_replace)

lemma keys_replace: "map fst (map (\<lambda>(k, v). if k = fp then (k, st) else (k, v)) d) = map fst d"
  by (induction d) auto

lemma put_distinct:
  assumes "distinct (map fst d)"
  shows "distinct (map fst (put k v d))"
proof (cases "map_of d k")
  case None
  then show ?thesis using assms by (simp add: put_def map_of_eq_None_iff)
next
  case (Some old)
  then have "map fst (put k v d) = map fst d" by (simp add: put_def keys_replace del: map_map)
  then show ?thesis using assms by simp
qed

text \<open>What is known of the statuses after some entries.\<close>

definition status_known :: "manifest_entry list \<Rightarrow> string \<Rightarrow> json option \<Rightarrow> bool" where
  "status_known es p st = (if \<exists>e \<in> set es. norm_path (snd e) = p
     then st = Some (JNum 0) \<and> (\<exists>e \<in> set es. norm_path (snd e) = p \<and> fst e = Existing) \<or>
       (st = Some (JNum 1) \<or> st = Some (JNum 2)) \<and> (\<forall>e \<in> set es. norm_path (snd e) = p \<longrightarrow> fst e \<noteq> Existing)
     else st = None)"

definition statuses_of :: "manifest_entry list \<Rightarrow> (string \<times> json) list \<Rightarrow> bool" where
  "statuses_of es d = (distinct (map fst d) \<and> (\<forall>p. status_known es p (map_of d p)))"

lemma status_known_other:
  "norm_path (snd e) \<noteq> p \<Longrightarrow> status_known (es @ [e]) p st = status_known es p st"
  by (auto simp: status_known_def)

lemma status_known_same:
  assumes "status_known es p st" "norm_path (snd e) = p"
  shows "status_known (es @ [e]) p
    (case merge_status st (JNum (status_code (fst e))) of None \<Rightarrow> st | Some new \<Rightarrow> Some new)"
proof (cases "\<exists>x \<in> set es. norm_path (snd x) = p")
  case False
  then have "st = None" using assms(1) by (auto simp: status_known_def)
  then show ?thesis using assms(2) False
    by (cases "fst e") (auto simp: status_known_def merge_status_def)
next
  case True
  then consider
      (dead) "st = Some (JNum 0)" "\<exists>e \<in> set es. norm_path (snd e) = p \<and> fst e = Existing"
    | (live) c where "st = Some (JNum c)" "c = 1 \<or> c = 2" "\<forall>e \<in> set es. norm_path (snd e) = p \<longrightarrow> fst e \<noteq> Existing"
    using assms(1) unfolding status_known_def by auto
  then show ?thesis
  proof cases
    case dead
    then show ?thesis using assms(2) by (cases "fst e") (auto simp: status_known_def merge_status_def)
  next
    case live
    then show ?thesis using assms(2) True by (cases "fst e") (auto simp: status_known_def merge_status_def)
  qed
qed

lemma statuses_step:
  assumes "statuses_of es d" "snd e \<noteq> []"
  shows "\<exists>d1. add_entry (entry_json e) d = Inr d1 \<and> statuses_of (es @ [e]) d1"
proof -
  let ?p = "norm_path (snd e)"
  let ?m = "merge_status (map_of d ?p) (JNum (status_code (fst e)))"
  define d1 where "d1 = (case ?m of None \<Rightarrow> d | Some new \<Rightarrow> put ?p new d)"
  have "distinct (map fst d1)"
    using assms(1) by (simp add: d1_def statuses_of_def put_distinct split: option.split)
  moreover have "map_of d1 p = (if p = ?p then (case ?m of None \<Rightarrow> map_of d p | Some new \<Rightarrow> Some new) else map_of d p)" for p
    by (simp add: d1_def put_map split: option.split)
  then have "status_known (es @ [e]) p (map_of d1 p)" for p
    using assms(1) status_known_same[of es ?p "map_of d ?p" e] status_known_other[of e p es]
    by (cases "p = ?p") (simp_all add: statuses_of_def)
  ultimately show ?thesis using add_entry_json[OF assms(2), of d] by (simp add: statuses_of_def d1_def)
qed

lemma statuses_all:
  "\<lbrakk>statuses_of es d; list_all (\<lambda>e. snd e \<noteq> []) fs\<rbrakk> \<Longrightarrow>
    \<exists>d1. file_statuses (map entry_json fs) d = Inr d1 \<and> statuses_of (es @ fs) d1"
proof (induction fs arbitrary: es d)
  case (Cons f fs)
  obtain d1 where d1: "add_entry (entry_json f) d = Inr d1" "statuses_of (es @ [f]) d1"
    using statuses_step[OF Cons.prems(1), of f] Cons.prems(2) by auto
  then show ?case using Cons.IH[OF d1(2)] Cons.prems(2) by (auto simp: bind_def)
qed simp

text \<open>
  C14: of the entries of a table's manifests the walk takes exactly the files that no entry calls
  existing: a file whose entries call it deleted is read, and one that was carried over is not.
\<close>

theorem live_files_are_the_not_existing:
  assumes "list_all (\<lambda>e. snd e \<noteq> []) es"
  shows "\<exists>d. file_statuses (map entry_json es) [] = Inr d \<and> distinct (live_of d) \<and>
    set (live_of d) = {p. (\<exists>e \<in> set es. norm_path (snd e) = p) \<and> (\<forall>e \<in> set es. norm_path (snd e) = p \<longrightarrow> fst e \<noteq> Existing)}"
proof -
  have "statuses_of [] []" by (simp add: statuses_of_def status_known_def)
  then obtain d where d: "file_statuses (map entry_json es) [] = Inr d" "statuses_of es d"
    using statuses_all[of "[]" "[]" es] assms by auto
  have dist: "distinct (map fst d)" using d(2) by (simp add: statuses_of_def)
  then have "distinct (live_of d)"
    unfolding live_of_def by (simp add: distinct_map_filter)
  moreover have "p \<in> set (live_of d) \<longleftrightarrow> map_of d p = Some (JNum 1) \<or> map_of d p = Some (JNum 2)" for p
    using map_of_eq_Some_iff[OF dist] by (force simp: live_of_def)
  moreover have "(map_of d p = Some (JNum 1) \<or> map_of d p = Some (JNum 2)) \<longleftrightarrow>
      (\<exists>e \<in> set es. norm_path (snd e) = p) \<and> (\<forall>e \<in> set es. norm_path (snd e) = p \<longrightarrow> fst e \<noteq> Existing)" for p
  proof -
    have "status_known es p (map_of d p)" using d(2) by (simp add: statuses_of_def)
    then show ?thesis by (auto simp: status_known_def split: if_splits)
  qed
  ultimately show ?thesis using d(1) by blast
qed

lemma live_files_are_the_not_existing_witness:
  "\<exists>d. file_statuses (map entry_json [(Existing, ''s3://b/old''), (Deleted, ''s3://b/gone''), (Added, ''s3://b/new'')]) [] = Inr d \<and>
    distinct (live_of d) \<and>
    set (live_of d) = {p. (\<exists>e \<in> set [(Existing, ''s3://b/old''), (Deleted, ''s3://b/gone''), (Added, ''s3://b/new'')]. norm_path (snd e) = p) \<and>
      (\<forall>e \<in> set [(Existing, ''s3://b/old''), (Deleted, ''s3://b/gone''), (Added, ''s3://b/new'')]. norm_path (snd e) = p \<longrightarrow> fst e \<noteq> Existing)}"
  by (rule live_files_are_the_not_existing) simp

section \<open>The survey\<close>

lemma put_keys: "set (map fst (put k v d)) = insert k (set (map fst d))"
proof -
  have "x \<in> set (map fst (put k v d)) \<longleftrightarrow> x = k \<or> x \<in> set (map fst d)" for x
    using put_map[of k v d x] map_of_eq_None_iff[of "put k v d" x] map_of_eq_None_iff[of d x]
    by (auto split: if_splits)
  then show ?thesis by blast
qed

lemma discover_tables_distinct:
  "distinct (map fst d) \<Longrightarrow> distinct (map fst (fold (discover_table s3 skip db) ps d))"
  by (induction ps arbitrary: d) (auto simp: discover_table_def Let_def put_distinct)

lemma discover_distinct: "distinct (map fst (discover s3 skip prefix))"
proof -
  have "distinct (map fst d) \<Longrightarrow> distinct (map fst (fold (\<lambda>db. fold (discover_table s3 skip (last_part (rstrip_slash db)))
      (s3_list_dirs s3 db)) dbs d))" for dbs d
    by (induction dbs arbitrary: d) (simp_all add: discover_tables_distinct)
  from this[of "[]"] show ?thesis by (simp add: discover_def)
qed

definition surveyed :: "survey \<Rightarrow> string set" where
  "surveyed sy = set (map fst (sy_snapshots sy)) \<union> set (sy_mor_skipped sy) \<union> set (map fst (sy_errors sy))"

lemma survey_table_keys: "surveyed (survey_table s3 (k, cfg) sy) = insert k (surveyed sy)"
  using put_keys[of k _ "sy_snapshots sy"]
  by (auto simp: survey_table_def surveyed_def split: sum.split)

lemma survey_fold_keys: "surveyed (fold (survey_table s3) configs sy) = set (map fst configs) \<union> surveyed sy"
  by (induction configs arbitrary: sy) (auto simp: survey_table_keys)

lemma put_fresh: "k \<notin> set (map fst d) \<Longrightarrow> put k v d = d @ [(k, v)]"
  by (simp add: put_def map_of_eq_None_iff)

lemma survey_fold_snapshots:
  "\<lbrakk>distinct (map fst configs); set (map fst configs) \<inter> set (map fst (sy_snapshots sy)) = {}\<rbrakk> \<Longrightarrow>
    sy_snapshots (fold (survey_table s3) configs sy) = sy_snapshots sy @
      List.map_filter (\<lambda>(k, cfg). case resolve_live_files s3 (tc_tbl_prefix cfg) of
        Inr rv \<Rightarrow> if rv_mor_skip rv then None else Some (k, cfg, rv) | Inl _ \<Rightarrow> None) configs"
proof (induction configs arbitrary: sy)
  case (Cons kc configs)
  obtain k cfg where kc: "kc = (k, cfg)" by (cases kc)
  have fresh: "k \<notin> set (map fst (sy_snapshots sy))" using Cons.prems kc by auto
  define sy1 where "sy1 = survey_table s3 kc sy"
  have one: "sy_snapshots sy1 = sy_snapshots sy @ (case resolve_live_files s3 (tc_tbl_prefix cfg) of
        Inr rv \<Rightarrow> if rv_mor_skip rv then [] else [(k, cfg, rv)] | Inl _ \<Rightarrow> [])"
    using put_fresh[OF fresh] by (simp add: sy1_def kc survey_table_def split: sum.split)
  have "set (map fst (sy_snapshots sy1)) \<subseteq> insert k (set (map fst (sy_snapshots sy)))"
    unfolding one by (auto split: sum.split if_split)
  moreover have "k \<notin> set (map fst configs)" using Cons.prems kc by simp
  ultimately have "set (map fst configs) \<inter> set (map fst (sy_snapshots sy1)) = {}"
    using Cons.prems(2) kc unfolding list.map(2) list.simps(15) by blast
  then have "sy_snapshots (fold (survey_table s3) configs sy1) = sy_snapshots sy1 @
      List.map_filter (\<lambda>(k, cfg). case resolve_live_files s3 (tc_tbl_prefix cfg) of
        Inr rv \<Rightarrow> if rv_mor_skip rv then None else Some (k, cfg, rv) | Inl _ \<Rightarrow> None) configs"
    using Cons.IH[of sy1] Cons.prems by simp
  moreover have "fold (survey_table s3) (kc # configs) sy = fold (survey_table s3) configs sy1"
    by (simp add: sy1_def)
  ultimately show ?case using one by (simp add: map_filter_simps kc split: sum.split)
qed (simp add: map_filter_simps)

text \<open>
  a table that fails does not stop the survey: every table that was discovered ends up resolved,
  skipped as merge on read, or listed with its error, and the resolved ones are in the order they were
  discovered, each with what its metadata says.
\<close>

theorem survey_classifies_every_table:
  "surveyed (survey_all s3 (discover s3 skip prefix)) = set (map fst (discover s3 skip prefix)) \<and>
    sy_snapshots (survey_all s3 (discover s3 skip prefix)) =
      List.map_filter (\<lambda>(k, cfg). case resolve_live_files s3 (tc_tbl_prefix cfg) of
        Inr rv \<Rightarrow> if rv_mor_skip rv then None else Some (k, cfg, rv) | Inl _ \<Rightarrow> None) (discover s3 skip prefix)"
proof -
  define sy0 where "sy0 = \<lparr>sy_snapshots = [], sy_mor_skipped = [], sy_errors = []\<rparr>"
  have none: "surveyed sy0 = {}" "sy_snapshots sy0 = []" by (simp_all add: sy0_def surveyed_def)
  show ?thesis
    using survey_fold_keys[of s3 _ sy0] survey_fold_snapshots[OF discover_distinct, where sy = sy0]
    unfolding survey_all_def sy0_def[symmetric] none by simp
qed

end
