(* ===== verification/Graph_Loader.thy ===== *)
theory Graph_Loader
  imports Graph_Pipeline Duckdb_Server Iceberg_Reader
begin

text \<open>
  \<^verbatim>\<open>docker/duckdb/stargraph_iceberg_engine.py\<close>: copies Iceberg tables into Memgraph in batches and keeps a
  watermark per target, from which an incremental run goes on. DuckDB and Memgraph are parameters: the
  rows of a statement, and whether a batch is accepted, which is all or nothing, one statement being one
  transaction. The log is left out.
\<close>

section \<open>State\<close>

text \<open>What Memgraph accepted, in order, and the watermark files.\<close>

record load_world =
  lw_written :: "(string \<times> json list) list"
  lw_marks :: "(string \<times> string) list"

record loader =
  ld_execute :: "(string \<times> json list) list \<Rightarrow> string \<Rightarrow> string + cursor"
  ld_accepts :: "(string \<times> json list) list \<Rightarrow> string \<Rightarrow> json list \<Rightarrow> string + unit"
  ld_batch_size :: nat

definition load_watermark :: "string \<Rightarrow> load_world \<Rightarrow> string option" where
  "load_watermark nm w = map_option py_strip (map_of (lw_marks w) nm)"

definition save_watermark :: "string \<Rightarrow> string \<Rightarrow> load_world \<Rightarrow> load_world" where
  "save_watermark nm ts w = w\<lparr>lw_marks := put nm ts (lw_marks w)\<rparr>"

definition unwind :: "string \<Rightarrow> string" where
  "unwind cypher = ''UNWIND $rows AS row '' @ cypher"

definition run_cypher_batch :: "loader \<Rightarrow> string \<Rightarrow> json list \<Rightarrow> load_world \<Rightarrow> (string + unit) \<times> load_world" where
  "run_cypher_batch ld cypher batch w =
     (case ld_accepts ld (lw_written w) (unwind cypher) batch of
        Inl exc \<Rightarrow> (Inl exc, w)
      | Inr _ \<Rightarrow> (Inr (), w\<lparr>lw_written := lw_written w @ [(unwind cypher, batch)]\<rparr>))"

section \<open>The batch loop\<close>

text \<open>\<^verbatim>\<open>fetchmany\<close>: an error of the cursor is met when its rows run out before the batch is full.\<close>

definition fetchmany :: "nat \<Rightarrow> string option \<Rightarrow> 'a list \<Rightarrow> string + 'a list" where
  "fetchmany n err rows = (case err of Some exc \<Rightarrow> if length rows < n then Inl exc else Inr (take n rows)
     | None \<Rightarrow> Inr (take n rows))"

text \<open>\<^verbatim>\<open>batch[-1]["snap_ts"]\<close>, when the column is there.\<close>

definition snap_ts :: "json \<Rightarrow> json option" where
  "snap_ts row = (case row of JObj kvs \<Rightarrow> map_of kvs ''snap_ts'' | _ \<Rightarrow> None)"

definition next_ts :: "string option \<Rightarrow> json list \<Rightarrow> json \<Rightarrow> json" where
  "next_ts mark batch last_ts = (if given mark then (case snap_ts (last batch) of Some ts \<Rightarrow> ts | None \<Rightarrow> last_ts) else last_ts)"

function batch_loop :: "loader \<Rightarrow> string \<Rightarrow> string option \<Rightarrow> string list \<Rightarrow> string option \<Rightarrow> json list list \<Rightarrow> json \<Rightarrow> load_world \<Rightarrow>
    (string + json) \<times> load_world" where
  "batch_loop ld cypher mark cols err rows last_ts w =
     (case fetchmany (ld_batch_size ld) err rows of
        Inl exc \<Rightarrow> (Inl exc, w)
      | Inr chunk \<Rightarrow>
         if chunk = [] then (Inr last_ts, w)
         else let batch = map (dict_row cols) chunk in
           (case run_cypher_batch ld cypher batch w of
              (Inl exc, w1) \<Rightarrow> (Inl exc, w1)
            | (Inr _, w1) \<Rightarrow> batch_loop ld cypher mark cols err (drop (length chunk) rows) (next_ts mark batch last_ts) w1))"
  by pat_completeness auto
termination
  by (relation "measure (\<lambda>(ld, cypher, mark, cols, err, rows, last_ts, w). length rows)")
    (auto simp: fetchmany_def split: option.splits if_splits)

definition batch_load :: "loader \<Rightarrow> string \<Rightarrow> string \<Rightarrow> string option \<Rightarrow> load_world \<Rightarrow> (string + unit) \<times> load_world" where
  "batch_load ld sql cypher mark w = (case ld_execute ld (lw_written w) sql of
     Inl exc \<Rightarrow> (Inl exc, w)
   | Inr cu \<Rightarrow> (case batch_loop ld cypher mark (cu_columns cu) (cu_fetch_error cu) (cu_rows cu) JNull w of
        (Inl exc, w1) \<Rightarrow> (Inl exc, w1)
      | (Inr last_ts, w1) \<Rightarrow>
          if given mark \<and> truthy last_ts
          then (case last_ts of JStr ts \<Rightarrow> (Inr (), save_watermark (the mark) ts w1) | _ \<Rightarrow> (Inl ''TypeError'', w1))
          else (Inr (), w1)))"

section \<open>Statements\<close>

definition text_lines :: "string list \<Rightarrow> string" where
  "text_lines ls = concat (map (\<lambda>l. newline @ l) ls)"

definition where_clause :: "string option \<Rightarrow> string" where
  "where_clause wm = (if given wm then ''WHERE snap_timestamp > TIMESTAMPTZ '' @ quoted (the wm) else [])"

definition customers_sql :: "string \<Rightarrow> string" where
  "customers_sql filt = text_lines
    [''        SELECT'',
     ''            CAST(C_CUSTOMER_SK AS VARCHAR)  AS customer_sk,'',
     ''            C_CUSTOMER_ID                   AS customer_id,'',
     ''            C_FIRST_NAME                    AS first_name,'',
     ''            C_LAST_NAME                     AS last_name,'',
     ''            C_EMAIL_ADDRESS                 AS email,'',
     ''            C_BIRTH_COUNTRY                 AS country,'',
     ''            C_PREFERRED_CUST_FLAG           AS preferred,'',
     ''            CAST(C_BIRTH_YEAR AS VARCHAR)   AS birth_year,'',
     ''            CAST(snap_timestamp AS VARCHAR) AS snap_ts'',
     ''        FROM polaris.tpcds_sf10tcl.customer'',
     ''        '' @ filt,
     ''        ORDER BY snap_timestamp'',
     ''    '']"

definition customers_cypher :: string where
  "customers_cypher = text_lines
    [''        MERGE (c:Customer {customer_sk: row.customer_sk})'',
     ''        SET c.customer_id  = row.customer_id,'',
     ''            c.first_name   = row.first_name,'',
     ''            c.last_name    = row.last_name,'',
     ''            c.email        = row.email,'',
     ''            c.country      = row.country,'',
     ''            c.preferred    = row.preferred,'',
     ''            c.birth_year   = row.birth_year,'',
     ''            c.updated_at   = row.snap_ts'',
     ''    '']"

definition items_sql :: "string \<Rightarrow> string" where
  "items_sql filt = text_lines
    [''        SELECT'',
     ''            CAST(I_ITEM_SK AS VARCHAR)      AS item_sk,'',
     ''            I_ITEM_ID                       AS item_id,'',
     ''            I_ITEM_DESC                     AS description,'',
     ''            I_CURRENT_PRICE                 AS price,'',
     ''            I_CLASS                         AS class,'',
     ''            I_CATEGORY                      AS category,'',
     ''            I_BRAND                         AS brand,'',
     ''            CAST(snap_timestamp AS VARCHAR) AS snap_ts'',
     ''        FROM polaris.tpcds_sf10tcl.item'',
     ''        '' @ filt,
     ''        ORDER BY snap_timestamp'',
     ''    '']"

definition items_cypher :: string where
  "items_cypher = text_lines
    [''        MERGE (i:Item {item_sk: row.item_sk})'',
     ''        SET i.item_id     = row.item_id,'',
     ''            i.description = row.description,'',
     ''            i.price       = row.price,'',
     ''            i.class       = row.class,'',
     ''            i.category    = row.category,'',
     ''            i.brand       = row.brand,'',
     ''            i.updated_at  = row.snap_ts'',
     ''    '']"

definition stores_sql :: "string \<Rightarrow> string" where
  "stores_sql filt = text_lines
    [''        SELECT'',
     ''            CAST(S_STORE_SK AS VARCHAR)     AS store_sk,'',
     ''            S_STORE_ID                      AS store_id,'',
     ''            S_STORE_NAME                    AS name,'',
     ''            S_CITY                          AS city,'',
     ''            S_STATE                         AS state,'',
     ''            S_COUNTRY                       AS country,'',
     ''            CAST(snap_timestamp AS VARCHAR) AS snap_ts'',
     ''        FROM polaris.tpcds_sf10tcl.store'',
     ''        '' @ filt,
     ''        ORDER BY snap_timestamp'',
     ''    '']"

definition stores_cypher :: string where
  "stores_cypher = text_lines
    [''        MERGE (s:Store {store_sk: row.store_sk})'',
     ''        SET s.store_id   = row.store_id,'',
     ''            s.name       = row.name,'',
     ''            s.city       = row.city,'',
     ''            s.state      = row.state,'',
     ''            s.country    = row.country,'',
     ''            s.updated_at = row.snap_ts'',
     ''    '']"

definition purchases_sql_with :: "string \<Rightarrow> string" where
  "purchases_sql_with filt = text_lines
    [''        SELECT'',
     ''            CAST(SS_CUSTOMER_SK AS VARCHAR)  AS customer_sk,'',
     ''            CAST(SS_ITEM_SK AS VARCHAR)      AS item_sk,'',
     ''            CAST(SS_STORE_SK AS VARCHAR)     AS store_sk,'',
     ''            CAST(SS_TICKET_NUMBER AS VARCHAR) AS ticket,'',
     ''            SS_QUANTITY                      AS quantity,'',
     ''            SS_SALES_PRICE                   AS price,'',
     ''            SS_NET_PROFIT                    AS profit,'',
     ''            CAST(snap_timestamp AS VARCHAR)  AS snap_ts'',
     ''        FROM polaris.tpcds_sf10tcl.store_sales'',
     ''        WHERE SS_CUSTOMER_SK IS NOT NULL'',
     ''          AND SS_ITEM_SK     IS NOT NULL'',
     ''        '' @ filt,
     ''        ORDER BY snap_timestamp'',
     ''    '']"

definition purchased_cypher :: string where
  "purchased_cypher = text_lines
    [''        MATCH (c:Customer {customer_sk: row.customer_sk})'',
     ''        MATCH (i:Item     {item_sk:     row.item_sk})'',
     ''        MERGE (c)-[r:PURCHASED {ticket: row.ticket}]->(i)'',
     ''        SET r.quantity   = row.quantity,'',
     ''            r.price      = row.price,'',
     ''            r.profit     = row.profit,'',
     ''            r.updated_at = row.snap_ts'',
     ''    '']"

definition bought_at_cypher :: string where
  "bought_at_cypher = text_lines
    [''        MATCH (c:Customer {customer_sk: row.customer_sk})'',
     ''        MATCH (s:Store    {store_sk:    row.store_sk})'',
     ''        MERGE (c)-[r:BOUGHT_AT {ticket: row.ticket}]->(s)'',
     ''        SET r.updated_at = row.snap_ts'',
     ''    '']"


definition purchases_sql :: "string option \<Rightarrow> string" where
  "purchases_sql wm = purchases_sql_with (if given wm then ''AND '' @ replace_all ''WHERE '' [] (where_clause wm) else [])"

definition store_edges_sql :: "string option \<Rightarrow> string" where
  "store_edges_sql wm = replace_all ''AND SS_ITEM_SK     IS NOT NULL''
     (''AND SS_ITEM_SK     IS NOT NULL'' @ newline @ ''          AND SS_STORE_SK    IS NOT NULL'') (purchases_sql wm)"

section \<open>Targets\<close>

datatype load_mode = Full | Incremental

definition mode_watermark :: "load_mode \<Rightarrow> string \<Rightarrow> load_world \<Rightarrow> string option" where
  "mode_watermark mode nm w = (if mode = Incremental then load_watermark nm w else None)"

definition load_customers :: "loader \<Rightarrow> load_mode \<Rightarrow> load_world \<Rightarrow> (string + unit) \<times> load_world" where
  "load_customers ld mode w = batch_load ld (customers_sql (where_clause (mode_watermark mode ''customers'' w)))
     customers_cypher (Some ''customers'') w"

definition load_items :: "loader \<Rightarrow> load_mode \<Rightarrow> load_world \<Rightarrow> (string + unit) \<times> load_world" where
  "load_items ld mode w = batch_load ld (items_sql (where_clause (mode_watermark mode ''items'' w)))
     items_cypher (Some ''items'') w"

definition load_stores :: "loader \<Rightarrow> load_mode \<Rightarrow> load_world \<Rightarrow> (string + unit) \<times> load_world" where
  "load_stores ld mode w = batch_load ld (stores_sql (where_clause (mode_watermark mode ''stores'' w)))
     stores_cypher (Some ''stores'') w"

definition load_purchases :: "loader \<Rightarrow> load_mode \<Rightarrow> load_world \<Rightarrow> (string + unit) \<times> load_world" where
  "load_purchases ld mode w = (let wm = mode_watermark mode ''purchases'' w in
     case batch_load ld (purchases_sql wm) purchased_cypher (Some ''purchases'') w of
       (Inl exc, w1) \<Rightarrow> (Inl exc, w1)
     | (Inr _, w1) \<Rightarrow> batch_load ld (store_edges_sql wm) bought_at_cypher None w1)"

definition load_targets :: "(string \<times> (loader \<Rightarrow> load_mode \<Rightarrow> load_world \<Rightarrow> (string + unit) \<times> load_world)) list" where
  "load_targets = [(''customers'', load_customers), (''items'', load_items), (''stores'', load_stores), (''purchases'', load_purchases)]"

fun run_targets :: "loader \<Rightarrow> load_mode \<Rightarrow> string list \<Rightarrow> load_world \<Rightarrow> (string + unit) \<times> load_world" where
  "run_targets ld mode [] w = (Inr (), w)"
| "run_targets ld mode (t # ts) w = (case map_of load_targets t of
     None \<Rightarrow> run_targets ld mode ts w
   | Some load \<Rightarrow> (case load ld mode w of (Inl exc, w1) \<Rightarrow> (Inl exc, w1) | (Inr _, w1) \<Rightarrow> run_targets ld mode ts w1))"

definition run_loader :: "loader \<Rightarrow> load_mode \<Rightarrow> string option \<Rightarrow> load_world \<Rightarrow> (string + unit) \<times> load_world" where
  "run_loader ld mode target = run_targets ld mode
     (if given target then [the target] else [''customers'', ''items'', ''stores'', ''purchases''])"

declare batch_loop.simps [simp del]

end
