(* ===== verification/Graph_Watermark.thy ===== *)
theory Graph_Watermark
  imports Graph_Loader Iceberg_Live
begin

text \<open>
  What the loader's watermarks guarantee: a target with one statement loses no row over any sequence of
  full, incremental and failing runs; the purchases, whose second statement comes after the watermark
  was saved, can lose edges.
\<close>

section \<open>The batch loop\<close>

text \<open>The rows that Memgraph accepted with a statement.\<close>

definition sent :: "string \<Rightarrow> load_world \<Rightarrow> json list" where
  "sent cypher w = concat (map snd (filter (\<lambda>(text, _). text = unwind cypher) (lw_written w)))"

definition in_batches :: "nat \<Rightarrow> 'a list list \<Rightarrow> bool" where
  "in_batches n = list_all (\<lambda>b. b \<noteq> [] \<and> length b \<le> n)"

definition has_ts :: "string list \<Rightarrow> json list \<Rightarrow> bool" where
  "has_ts cols r = (\<exists>s. snap_ts (dict_row cols r) = Some (JStr s) \<and> s \<noteq> [] \<and> py_strip s = s)"

definition ts_of :: "string list \<Rightarrow> json list \<Rightarrow> string" where
  "ts_of cols r = (case snap_ts (dict_row cols r) of Some (JStr s) \<Rightarrow> s | _ \<Rightarrow> [])"

lemma has_ts_of: "has_ts cols r \<Longrightarrow> snap_ts (dict_row cols r) = Some (JStr (ts_of cols r)) \<and> ts_of cols r \<noteq> [] \<and>
    py_strip (ts_of cols r) = ts_of cols r"
  by (auto simp: has_ts_def ts_of_def)

lemma run_cypher_batch_outcome:
  obtains exc where "run_cypher_batch ld cypher batch w = (Inl exc, w)"
  | "run_cypher_batch ld cypher batch w = (Inr (), w\<lparr>lw_written := lw_written w @ [(unwind cypher, batch)]\<rparr>)"
  unfolding run_cypher_batch_def
  by (cases "ld_accepts ld (lw_written w) (unwind cypher) batch") simp_all

text \<open>Whatever the outcome, the loop writes the rows of a prefix in order, in batches; on success, all of them.\<close>

definition written_batches :: "string \<Rightarrow> string list \<Rightarrow> json list list list \<Rightarrow> load_world \<Rightarrow> load_world" where
  "written_batches cypher cols bs w =
     w\<lparr>lw_written := lw_written w @ map (\<lambda>b. (unwind cypher, map (dict_row cols) b)) bs\<rparr>"

definition final_ts :: "string option \<Rightarrow> string list \<Rightarrow> json list list \<Rightarrow> json \<Rightarrow> json" where
  "final_ts mark cols rows last_ts = (if rows = [] \<or> \<not> given mark then last_ts else JStr (ts_of cols (last rows)))"

definition loop_result :: "nat \<Rightarrow> string \<Rightarrow> string option \<Rightarrow> string list \<Rightarrow> string option \<Rightarrow> json list list \<Rightarrow> json \<Rightarrow> load_world \<Rightarrow>
    (string + json) \<times> load_world \<Rightarrow> bool" where
  "loop_result n cypher mark cols err rows last_ts w r =
     (\<exists>bs rest. rows = concat bs @ rest \<and> in_batches n bs \<and> snd r = written_batches cypher cols bs w \<and>
       (\<forall>l. fst r = Inr l \<longrightarrow> rest = [] \<and> err = None \<and>
          (list_all (has_ts cols) rows \<longrightarrow> l = final_ts mark cols rows last_ts)))"

lemma loop_stops: "loop_result n cypher mark cols err rows last_ts w (Inl exc, w)"
  unfolding loop_result_def by (intro exI[of _ "[]"] exI[of _ rows]) (simp add: in_batches_def written_batches_def)

lemma loop_ends: "loop_result n cypher mark cols None [] last_ts w (Inr last_ts, w)"
  unfolding loop_result_def by (intro exI[of _ "[]"] exI[of _ "[]"]) (simp add: in_batches_def written_batches_def final_ts_def)

lemma loop_goes_on:
  assumes rest: "loop_result n cypher mark cols err rows (next_ts mark (map (dict_row cols) chunk) last_ts)
      (written_batches cypher cols [chunk] w) r"
    and chunk: "chunk \<noteq> []" "length chunk \<le> n"
  shows "loop_result n cypher mark cols err (chunk @ rows) last_ts w r"
proof -
  obtain bs rest where r: "rows = concat bs @ rest" "in_batches n bs"
    "snd r = written_batches cypher cols bs (written_batches cypher cols [chunk] w)"
    "\<And>l. fst r = Inr l \<Longrightarrow> rest = [] \<and> err = None \<and> (list_all (has_ts cols) rows \<longrightarrow>
       l = final_ts mark cols rows (next_ts mark (map (dict_row cols) chunk) last_ts))"
    using rest unfolding loop_result_def by blast
  have "final_ts mark cols rows (next_ts mark (map (dict_row cols) chunk) last_ts) = final_ts mark cols (chunk @ rows) last_ts"
    if "list_all (has_ts cols) (chunk @ rows)"
  proof -
    have "has_ts cols (last chunk)" using that chunk by (simp add: list_all_iff)
    then show ?thesis using has_ts_of chunk by (simp add: final_ts_def next_ts_def last_map)
  qed
  then show ?thesis unfolding loop_result_def using r chunk
    by (intro exI[of _ "chunk # bs"] exI[of _ rest]) (auto simp: in_batches_def written_batches_def)
qed

lemma fetchmany_Inr: "fetchmany n err rows = Inr chunk \<Longrightarrow> chunk = take n rows \<and> (rows = [] \<and> 0 < n \<longrightarrow> err = None)"
  by (auto simp: fetchmany_def split: option.splits if_splits)

lemma batch_loop_outcome:
  "0 < ld_batch_size ld \<Longrightarrow> loop_result (ld_batch_size ld) cypher mark cols err rows last_ts w
    (batch_loop ld cypher mark cols err rows last_ts w)"
proof (induction ld cypher mark cols err rows last_ts w rule: batch_loop.induct)
  case (1 ld cypher mark cols err rows last_ts w)
  note step = batch_loop.simps[of ld cypher mark cols err rows last_ts w]
  show ?case
  proof (cases "fetchmany (ld_batch_size ld) err rows")
    case (Inl exc)
    then show ?thesis by (simp add: step loop_stops)
  next
    case (Inr chunk)
    note chunk = fetchmany_Inr[OF Inr, THEN conjunct1]
    show ?thesis
    proof (cases "chunk = []")
      case True
      then have "rows = []" "err = None" using chunk fetchmany_Inr[OF Inr] "1.prems" by auto
      then show ?thesis using Inr True by (simp add: batch_loop.simps[of _ _ _ _ None "[]"] loop_ends)
    next
      case False
      let ?batch = "map (dict_row cols) chunk"
      show ?thesis
      proof (cases rule: run_cypher_batch_outcome[of ld cypher ?batch w])
        case (1 exc)
        then show ?thesis using Inr False by (simp add: step Let_def loop_stops)
      next
        case 2
        have rows: "rows = chunk @ drop (length chunk) rows" unfolding chunk by (cases "length rows \<le> ld_batch_size ld") simp_all
        have "loop_result (ld_batch_size ld) cypher mark cols err (chunk @ drop (length chunk) rows) last_ts w
            (batch_loop ld cypher mark cols err (drop (length chunk) rows) (next_ts mark ?batch last_ts)
              (w\<lparr>lw_written := lw_written w @ [(unwind cypher, ?batch)]\<rparr>))"
          using "1.IH"[OF Inr False refl 2[symmetric] refl "1.prems"] False chunk
          by (intro loop_goes_on) (simp_all add: written_batches_def)
        then show ?thesis using rows Inr False 2 by (simp add: step Let_def)
      qed
    qed
  qed
qed

text \<open>A batch load: what reached Memgraph, and that the watermark moves on success only.\<close>

lemma unwind_eq [simp]: "unwind a = unwind b \<longleftrightarrow> a = b"
  by (simp add: unwind_def)

lemma sent_written: "sent c (written_batches cypher cols bs w) =
    sent c w @ (if c = cypher then map (dict_row cols) (concat bs) else [])"
proof -
  have "concat (map snd (filter (\<lambda>(t, _). t = unwind c) (map (\<lambda>b. (unwind cypher, map (dict_row cols) b)) bs))) =
      (if c = cypher then map (dict_row cols) (concat bs) else [])"
    by (cases "c = cypher"; induction bs) simp_all
  then show ?thesis by (simp add: sent_def written_batches_def)
qed

lemma marks_written [simp]: "lw_marks (written_batches cypher cols bs w) = lw_marks w"
  by (simp add: written_batches_def)

definition marked :: "string option \<Rightarrow> string list \<Rightarrow> json list list \<Rightarrow> load_world \<Rightarrow> load_world" where
  "marked mark cols rows w = (if given mark \<and> rows \<noteq> [] then save_watermark (the mark) (ts_of cols (last rows)) w else w)"

lemma batch_load_outcome:
  assumes "0 < ld_batch_size ld" "ld_execute ld (lw_written w) sql = Inr \<lparr>cu_columns = cols, cu_rows = rows, cu_fetch_error = err\<rparr>"
    "list_all (has_ts cols) rows" "batch_load ld sql cypher mark w = (res, w1)"
  obtains bs rest where "rows = concat bs @ rest" "in_batches (ld_batch_size ld) bs" "res = Inr () \<Longrightarrow> rest = []"
    "w1 = (if res = Inr () then marked mark cols rows (written_batches cypher cols bs w) else written_batches cypher cols bs w)"
proof -
  obtain r w2 where loop: "batch_loop ld cypher mark cols err rows JNull w = (r, w2)" by fastforce
  obtain bs rest where out: "rows = concat bs @ rest" "in_batches (ld_batch_size ld) bs" "w2 = written_batches cypher cols bs w"
    "\<And>l. r = Inr l \<Longrightarrow> rest = [] \<and> l = final_ts mark cols rows JNull"
    using batch_loop_outcome[OF assms(1), of cypher mark cols err rows JNull w] assms(3)
    unfolding loop loop_result_def fst_conv snd_conv by blast
  have "res = Inl exc \<and> w1 = w2" if "r = Inl exc" for exc
    using assms(2,4) loop that by (simp add: batch_load_def)
  moreover have "res = Inr () \<and> w1 = marked mark cols rows w2" if "r = Inr l" for l
  proof -
    have "rows \<noteq> [] \<Longrightarrow> ts_of cols (last rows) \<noteq> []" using assms(3) has_ts_of by (simp add: list_all_iff)
    then show ?thesis using assms(2,4) loop that out(4)[OF that]
      by (auto simp: batch_load_def final_ts_def marked_def split: if_splits)
  qed
  ultimately show ?thesis using that[of bs rest] out by (cases r) auto
qed

section \<open>Loading row by row tables\<close>

text \<open>
  What a DuckDB connection answers to a target's statement while the table has the given rows:
  all of them, or those after the watermark. \<open>instant\<close> is the time that a text of a timestamp denotes.
\<close>

definition after_mark :: "(string \<Rightarrow> rat) \<Rightarrow> string list \<Rightarrow> string option \<Rightarrow> json list \<Rightarrow> bool" where
  "after_mark instant cols wm r = (given wm \<longrightarrow> instant (the wm) < instant (ts_of cols r))"

definition serves_table :: "loader \<Rightarrow> (string option \<Rightarrow> string) \<Rightarrow> (string \<Rightarrow> rat) \<Rightarrow> string list \<Rightarrow> json list list \<Rightarrow> bool" where
  "serves_table ld sql instant cols rows = (\<forall>log wm. ld_execute ld log (sql wm) =
     Inr \<lparr>cu_columns = cols, cu_rows = filter (after_mark instant cols wm) rows, cu_fetch_error = None\<rparr>)"

text \<open>A table that only grows, by rows later than all it had.\<close>

definition grows :: "(string \<Rightarrow> rat) \<Rightarrow> string list \<Rightarrow> json list list \<Rightarrow> json list list \<Rightarrow> bool" where
  "grows instant cols old new = (set old \<subseteq> set new \<and>
     (\<forall>r \<in> set new - set old. \<forall>q \<in> set old. instant (ts_of cols q) < instant (ts_of cols r)))"

text \<open>The rows up to the watermark were sent, and the watermark is not ahead of the table.\<close>

definition up_to_mark :: "string \<Rightarrow> string \<Rightarrow> (string \<Rightarrow> rat) \<Rightarrow> string list \<Rightarrow> json list list \<Rightarrow> load_world \<Rightarrow> bool" where
  "up_to_mark nm cypher instant cols rows w =
     ((\<forall>r \<in> set rows. \<not> after_mark instant cols (load_watermark nm w) r \<longrightarrow> dict_row cols r \<in> set (sent cypher w)) \<and>
      (given (load_watermark nm w) \<longrightarrow> (\<exists>q \<in> set rows. instant (the (load_watermark nm w)) \<le> instant (ts_of cols q))))"

lemma up_to_mark_grows:
  assumes "up_to_mark nm cypher instant cols old w" "grows instant cols old new"
  shows "up_to_mark nm cypher instant cols new w"
  using assms unfolding up_to_mark_def grows_def after_mark_def
  by (smt (verit) Diff_iff in_mono order.strict_trans1 order_less_irrefl)

fun after_runs :: "(loader \<Rightarrow> load_mode \<Rightarrow> load_world \<Rightarrow> (string + unit) \<times> load_world) \<Rightarrow>
    (loader \<times> load_mode \<times> json list list) list \<Rightarrow> load_world \<Rightarrow> load_world" where
  "after_runs load [] w = w"
| "after_runs load ((ld, mode, rows) # rs) w = after_runs load rs (snd (load ld mode w))"

lemma sent_marked: "sent c (marked mark cols rows w) = sent c w"
  by (simp add: marked_def save_watermark_def sent_def)

lemma load_saved: "load_watermark nm (save_watermark nm ts w) = Some (py_strip ts)"
  by (simp add: load_watermark_def save_watermark_def put_map)

text \<open>What the loaders of customers, items and stores have in common.\<close>

locale node_target =
  fixes nm :: string
    and sql :: "string \<Rightarrow> string"
    and cypher :: string
    and load :: "loader \<Rightarrow> load_mode \<Rightarrow> load_world \<Rightarrow> (string + unit) \<times> load_world"
  assumes named: "nm \<noteq> []"
    and load: "load ld mode w = batch_load ld (sql (where_clause (mode_watermark mode nm w))) cypher (Some nm) w"
begin

abbreviation statement_for :: "string option \<Rightarrow> string" where
  "statement_for wm \<equiv> sql (where_clause wm)"

lemma load_covers:
  assumes "up_to_mark nm cypher instant cols rows w" "serves_table ld statement_for instant cols rows"
    "list_all (has_ts cols) rows" "0 < ld_batch_size ld" "load ld mode w = (res, w1)"
  shows "up_to_mark nm cypher instant cols rows w1"
    and "res = Inr () \<Longrightarrow> \<forall>r \<in> set rows. dict_row cols r \<in> set (sent cypher w1)"
proof -
  let ?wm = "mode_watermark mode nm w" and ?kept = "load_watermark nm w"
  define new where "new = filter (after_mark instant cols ?wm) rows"
  have answer: "ld_execute ld (lw_written w) (statement_for ?wm) = Inr \<lparr>cu_columns = cols, cu_rows = new, cu_fetch_error = None\<rparr>"
    using assms(2) by (simp add: serves_table_def new_def)
  have ts: "list_all (has_ts cols) new" using assms(3) by (simp add: new_def list_all_iff)
  obtain bs rest where "in_batches (ld_batch_size ld) bs" and out: "new = concat bs @ rest" "res = Inr () \<Longrightarrow> rest = []"
    "w1 = (if res = Inr () then marked (Some nm) cols new (written_batches cypher cols bs w) else written_batches cypher cols bs w)"
    by (rule batch_load_outcome[OF assms(4) answer ts assms(5)[unfolded load]]) blast
  have sent: "sent cypher w1 = sent cypher w @ map (dict_row cols) (concat bs)"
    unfolding out(3) by (simp add: sent_marked sent_written)
  have mark: "load_watermark nm w1 = (if res = Inr () \<and> new \<noteq> [] then Some (ts_of cols (last new)) else ?kept)"
  proof (cases "res = Inr () \<and> new \<noteq> []")
    case True
    then have "has_ts cols (last new)" using ts by (simp add: list_all_iff)
    then show ?thesis using True out(3) named has_ts_of by (simp add: marked_def given_def load_saved)
  next
    case False
    then show ?thesis using out(3) by (auto simp: marked_def load_watermark_def)
  qed
  have old: "dict_row cols r \<in> set (sent cypher w1)" if "r \<in> set rows" "\<not> after_mark instant cols ?kept r" for r
    using assms(1) that by (auto simp: up_to_mark_def sent)
  show all: "res = Inr () \<Longrightarrow> \<forall>r \<in> set rows. dict_row cols r \<in> set (sent cypher w1)"
  proof
    fix r assume res: "res = Inr ()" and r: "r \<in> set rows"
    show "dict_row cols r \<in> set (sent cypher w1)"
    proof (cases "r \<in> set new")
      case True
      then show ?thesis using out(1,2) res by (simp add: sent)
    next
      case False
      then have "\<not> after_mark instant cols ?wm r" using r by (simp add: new_def)
      then show ?thesis using old[OF r] by (auto simp: mode_watermark_def after_mark_def given_def split: if_splits)
    qed
  qed
  show "up_to_mark nm cypher instant cols rows w1"
  proof (cases "res = Inr () \<and> new \<noteq> []")
    case True
    then have "last new \<in> set rows" using last_in_set[of new] by (simp add: new_def)
    then show ?thesis using all True mark unfolding up_to_mark_def by auto
  next
    case False
    then have "load_watermark nm w1 = ?kept" using mark by auto
    then show ?thesis using assms(1) old by (simp add: up_to_mark_def)
  qed
qed

text \<open>Any number of runs, failing or not, over a growing table.\<close>

lemma runs_cover:
  assumes "list_all (\<lambda>(ld, mode, rows). serves_table ld statement_for instant cols rows \<and> list_all (has_ts cols) rows \<and> 0 < ld_batch_size ld) rs"
    "sorted_wrt (grows instant cols) (start # map (\<lambda>r. snd (snd r)) rs)" "up_to_mark nm cypher instant cols start w"
  shows "up_to_mark nm cypher instant cols (last (start # map (\<lambda>r. snd (snd r)) rs)) (after_runs load rs w)"
  using assms
proof (induction rs arbitrary: start w)
  case (Cons run rs)
  obtain ld mode rows where run: "run = (ld, mode, rows)" by (cases run)
  obtain res w1 where w1: "load ld mode w = (res, w1)" by fastforce
  have "up_to_mark nm cypher instant cols rows w"
    using up_to_mark_grows[of nm cypher instant cols start w rows] Cons.prems run by simp
  then have "up_to_mark nm cypher instant cols rows w1"
    using load_covers(1)[of instant cols rows w ld mode res w1] Cons.prems(1) run w1 by simp
  then have "up_to_mark nm cypher instant cols (last (rows # map (\<lambda>r. snd (snd r)) rs)) (after_runs load rs w1)"
    using Cons.IH[of rows w1] Cons.prems run by simp
  then show ?case by (simp add: run w1 comp_def)
qed simp

end

interpretation customers: node_target "''customers''" customers_sql customers_cypher load_customers
  by unfold_locales (simp_all add: load_customers_def)

interpretation items: node_target "''items''" items_sql items_cypher load_items
  by unfold_locales (simp_all add: load_items_def)

interpretation stores: node_target "''stores''" stores_sql stores_cypher load_stores
  by unfold_locales (simp_all add: load_stores_def)

section \<open>No row is lost\<close>

definition node_targets :: "(string \<times> (string \<Rightarrow> string) \<times> string \<times> (loader \<Rightarrow> load_mode \<Rightarrow> load_world \<Rightarrow> (string + unit) \<times> load_world)) list" where
  "node_targets = [(''customers'', customers_sql, customers_cypher, load_customers), (''items'', items_sql, items_cypher, load_items),
     (''stores'', stores_sql, stores_cypher, load_stores)]"

definition run_serves :: "(string \<Rightarrow> string) \<Rightarrow> (string \<Rightarrow> rat) \<Rightarrow> string list \<Rightarrow> loader \<times> load_mode \<times> json list list \<Rightarrow> bool" where
  "run_serves sql instant cols = (\<lambda>(ld, mode, rows). serves_table ld (\<lambda>wm. sql (where_clause wm)) instant cols rows \<and>
     list_all (has_ts cols) rows \<and> 0 < ld_batch_size ld)"

lemma target_interpreted: "(nm, sql, cypher, load) \<in> set node_targets \<Longrightarrow> node_target nm sql cypher load"
  using customers.node_target_axioms items.node_target_axioms stores.node_target_axioms by (auto simp: node_targets_def)

text \<open>
  C12: over any sequence of full and incremental runs, some of which may fail anywhere, a run that
  succeeds leaves every row of its table in Memgraph, as long as the tables only grow and by rows with
  later timestamps.
\<close>

theorem incremental_loads_lose_nothing:
  assumes "(nm, sql, cypher, load) \<in> set node_targets" "list_all (run_serves sql instant cols) (runs @ [(ld, mode, rows)])"
    "sorted_wrt (grows instant cols) (map (\<lambda>r. snd (snd r)) (runs @ [(ld, mode, rows)]))"
    "map_of (lw_marks w0) nm = None" "load ld mode (after_runs load runs w0) = (Inr (), w1)"
  shows "\<forall>r \<in> set rows. dict_row cols r \<in> set (sent cypher w1)"
proof -
  note target = target_interpreted[OF assms(1)]
  have "up_to_mark nm cypher instant cols [] w0"
    using assms(4) by (simp add: up_to_mark_def load_watermark_def given_def)
  moreover have "sorted_wrt (grows instant cols) ([] # map (\<lambda>r. snd (snd r)) (runs @ [(ld, mode, rows)]))"
    using assms(3) by (simp add: grows_def)
  ultimately have "up_to_mark nm cypher instant cols (last ([] # map (\<lambda>r. snd (snd r)) runs)) (after_runs load runs w0)"
    using assms(2) by (intro node_target.runs_cover[OF target]) (auto simp: run_serves_def sorted_wrt_append)
  moreover have "\<forall>t \<in> set ([] # map (\<lambda>r. snd (snd r)) runs). grows instant cols t rows"
    using assms(3) by (auto simp: sorted_wrt_append grows_def[of _ _ "[]"])
  then have "grows instant cols (last ([] # map (\<lambda>r. snd (snd r)) runs)) rows"
    by (rule bspec) (rule last_in_set, simp)
  ultimately have "up_to_mark nm cypher instant cols rows (after_runs load runs w0)" by (rule up_to_mark_grows)
  then show ?thesis
    using node_target.load_covers(2)[OF target _ _ _ _ assms(5)] assms(2) by (simp add: run_serves_def)
qed

text \<open>Two customers, an attempt at loading them that fails at the second batch, and one that succeeds.\<close>

definition demo_rows :: "json list list" where
  "demo_rows = [[JStr ''1'', JStr ''t1''], [JStr ''2'', JStr ''t2'']]"

definition demo_cols :: "string list" where
  "demo_cols = [''customer_sk'', ''snap_ts'']"

definition demo_loader :: "(string \<Rightarrow> string) \<Rightarrow> (string \<Rightarrow> bool) \<Rightarrow> nat \<Rightarrow> loader" where
  "demo_loader sql refuses n = \<lparr>ld_execute = \<lambda>log s. Inr \<lparr>cu_columns = demo_cols, cu_rows = if s = sql [] then demo_rows else [],
     cu_fetch_error = None\<rparr>, ld_accepts = \<lambda>log text batch. if length log = n \<and> refuses text then Inl ''down'' else Inr (), ld_batch_size = 1\<rparr>"

lemma demo_has_ts: "list_all (has_ts demo_cols) demo_rows"
  by (simp add: has_ts_def demo_cols_def demo_rows_def snap_ts_def dict_row_def) code_simp

lemma demo_answers:
  "serves_table (demo_loader customers_sql refuses n) (\<lambda>wm. customers_sql (where_clause wm)) (\<lambda>_. 0) demo_cols demo_rows"
proof -
  have "customers_sql (where_clause wm) = customers_sql [] \<longleftrightarrow> \<not> given wm" for wm
    by (simp add: customers_sql_def text_lines_def where_clause_def)
  then show ?thesis by (simp add: serves_table_def demo_loader_def after_mark_def)
qed

lemma incremental_loads_lose_nothing_witness:
  "set (map (dict_row demo_cols) demo_rows) \<subseteq> set (sent customers_cypher
     (snd (load_customers (demo_loader customers_sql (\<lambda>_. True) 3) Incremental
       (after_runs load_customers [(demo_loader customers_sql (\<lambda>_. True) 1, Incremental, demo_rows)] \<lparr>lw_written = [], lw_marks = []\<rparr>))))"
proof -
  let ?runs = "[(demo_loader customers_sql (\<lambda>_. True) 1, Incremental, demo_rows)]"
  let ?w = "after_runs load_customers ?runs \<lparr>lw_written = [], lw_marks = []\<rparr>"
  let ?w1 = "snd (load_customers (demo_loader customers_sql (\<lambda>_. True) 3) Incremental ?w)"
  have "\<forall>r \<in> set demo_rows. dict_row demo_cols r \<in> set (sent customers_cypher ?w1)"
  proof (rule incremental_loads_lose_nothing)
  show "(''customers'', customers_sql, customers_cypher, load_customers) \<in> set node_targets" by (simp add: node_targets_def)
  show "list_all (run_serves customers_sql (\<lambda>_. 0) demo_cols) ([(demo_loader customers_sql (\<lambda>_. True) 1, Incremental, demo_rows)] @
      [(demo_loader customers_sql (\<lambda>_. True) 3, Incremental, demo_rows)])"
    using demo_answers demo_has_ts by (simp add: run_serves_def) (simp add: demo_loader_def)
  show "load_customers (demo_loader customers_sql (\<lambda>_. True) 3) Incremental
       (after_runs load_customers [(demo_loader customers_sql (\<lambda>_. True) 1, Incremental, demo_rows)] \<lparr>lw_written = [], lw_marks = []\<rparr>) =
     (Inr (), snd (load_customers (demo_loader customers_sql (\<lambda>_. True) 3) Incremental
       (after_runs load_customers [(demo_loader customers_sql (\<lambda>_. True) 1, Incremental, demo_rows)] \<lparr>lw_written = [], lw_marks = []\<rparr>)))"
    by code_simp
  qed (simp_all add: grows_def)
  then show ?thesis by auto
qed

section \<open>Edges that are lost\<close>

lemma nothing_new:
  assumes "ld_execute ld (lw_written w) sql = Inr \<lparr>cu_columns = cols, cu_rows = [], cu_fetch_error = None\<rparr>"
  shows "batch_load ld sql cypher mark w = (Inr (), w)"
  using assms by (simp add: batch_load_def batch_loop.simps fetchmany_def)

text \<open>
  C32: the watermark of the purchases is saved before their second statement runs. When that fails, the
  next incremental run over the unchanged table succeeds and sends nothing: the edges to the stores
  that are missing stay missing.
\<close>

theorem bought_at_edges_lost:
  assumes "0 < ld_batch_size ld"
    and "ld_execute ld (lw_written w) (purchases_sql None) = Inr \<lparr>cu_columns = cols, cu_rows = rows, cu_fetch_error = None\<rparr>"
    and "rows \<noteq> []" "list_all (has_ts cols) rows"
    and first: "batch_load ld (purchases_sql None) purchased_cypher (Some ''purchases'') w = (Inr (), w1)"
    and second: "batch_load ld (store_edges_sql None) bought_at_cypher None w1 = (Inl exc, w1)"
    and unchanged: "\<And>sql. sql \<in> {purchases_sql (Some (ts_of cols (last rows))), store_edges_sql (Some (ts_of cols (last rows)))} \<Longrightarrow>
      ld_execute later (lw_written w1) sql = Inr \<lparr>cu_columns = cols, cu_rows = [], cu_fetch_error = None\<rparr>"
  shows "load_purchases ld Full w = (Inl exc, w1) \<and> load_purchases later Incremental w1 = (Inr (), w1)"
proof -
  obtain bs rest where "in_batches (ld_batch_size ld) bs" "w1 = marked (Some ''purchases'') cols rows (written_batches purchased_cypher cols bs w)"
    by (rule batch_load_outcome[OF assms(1,2,4) first]) simp
  moreover have "has_ts cols (last rows)" using assms(3,4) by (simp add: list_all_iff)
  ultimately have "load_watermark ''purchases'' w1 = Some (ts_of cols (last rows))"
    using assms(3) has_ts_of by (simp add: marked_def given_def load_saved)
  then have "load_purchases later Incremental w1 = (Inr (), w1)"
    using unchanged nothing_new[of later w1] by (simp add: load_purchases_def mode_watermark_def)
  moreover have "load_purchases ld Full w = (Inl exc, w1)"
    using first second by (simp add: load_purchases_def mode_watermark_def)
  ultimately show ?thesis by blast
qed

definition demo_purchases :: "json list list \<Rightarrow> bool \<Rightarrow> loader" where
  "demo_purchases rows up = \<lparr>ld_execute = \<lambda>log s. Inr \<lparr>cu_columns = demo_cols, cu_rows = rows, cu_fetch_error = None\<rparr>,
     ld_accepts = \<lambda>log text batch. if text = unwind bought_at_cypher \<and> \<not> up then Inl ''down'' else Inr (), ld_batch_size = 500\<rparr>"

definition after_purchased :: load_world where
  "after_purchased = \<lparr>lw_written = [(unwind purchased_cypher, map (dict_row demo_cols) demo_rows)], lw_marks = [(''purchases'', ''t2'')]\<rparr>"

lemma single_batch:
  assumes "rows \<noteq> []" "length rows \<le> ld_batch_size ld"
  shows "batch_loop ld cypher mark cols None rows l w = (case run_cypher_batch ld cypher (map (dict_row cols) rows) w of
    (Inl exc, w1) \<Rightarrow> (Inl exc, w1) | (Inr _, w1) \<Rightarrow> (Inr (next_ts mark (map (dict_row cols) rows) l), w1))"
  using assms by (simp add: batch_loop.simps[of ld cypher mark cols None rows] batch_loop.simps[of ld cypher mark cols None "[]"]
    fetchmany_def Let_def split: prod.split sum.split)

lemma bought_at_edges_lost_witness:
  "load_purchases (demo_purchases demo_rows False) Full \<lparr>lw_written = [], lw_marks = []\<rparr> = (Inl ''down'', after_purchased) \<and>
   load_purchases (demo_purchases [] True) Incremental after_purchased = (Inr (), after_purchased)"
proof (rule bought_at_edges_lost)
  let ?w = "\<lparr>lw_written = [], lw_marks = []\<rparr>" and ?ld = "demo_purchases demo_rows False"
  have other: "unwind purchased_cypher \<noteq> unwind bought_at_cypher" by code_simp
  have last: "snap_ts (last (map (dict_row demo_cols) demo_rows)) = Some (JStr ''t2'')" by code_simp
  have "demo_rows \<noteq> []" "length demo_rows \<le> ld_batch_size ?ld" by (simp_all add: demo_rows_def demo_purchases_def)
  note loop = single_batch[OF this]
  have fields: "ld_execute ?ld log s = Inr \<lparr>cu_columns = demo_cols, cu_rows = demo_rows, cu_fetch_error = None\<rparr>"
    "ld_accepts ?ld log tx batch = (if tx = unwind bought_at_cypher then Inl ''down'' else Inr ())"
    for log s tx batch by (simp_all add: demo_purchases_def)
  let ?batch = "map (dict_row demo_cols) demo_rows"
  have sent: "run_cypher_batch ?ld purchased_cypher ?batch ?w = (Inr (), \<lparr>lw_written = [(unwind purchased_cypher, ?batch)], lw_marks = []\<rparr>)"
    unfolding run_cypher_batch_def fields using other by simp
  have ts: "next_ts (Some ''purchases'') ?batch JNull = JStr ''t2''" unfolding next_ts_def last by (simp add: given_def)
  have "batch_loop ?ld purchased_cypher (Some ''purchases'') demo_cols None demo_rows JNull ?w =
      (Inr (JStr ''t2''), \<lparr>lw_written = [(unwind purchased_cypher, ?batch)], lw_marks = []\<rparr>)"
    unfolding loop sent by (simp add: ts)
  then show "batch_load ?ld (purchases_sql None) purchased_cypher (Some ''purchases'') ?w = (Inr (), after_purchased)"
    by (simp add: batch_load_def fields given_def save_watermark_def put_def after_purchased_def)
  show "batch_load ?ld (store_edges_sql None) bought_at_cypher None after_purchased = (Inl ''down'', after_purchased)"
    by (simp add: batch_load_def fields loop run_cypher_batch_def)
  show "demo_rows \<noteq> []" "list_all (has_ts demo_cols) demo_rows" using demo_has_ts by (simp_all add: demo_rows_def)
qed (simp_all add: demo_purchases_def)

end
