(* ===== verification/Token_Proxy.thy ===== *)
theory Token_Proxy
  imports Iceberg_Reader Graph_Cypher
begin

text \<open>
  \<^verbatim>\<open>manifests/polaris-auth-proxy/polaris_auth_proxy.py\<close>: a proxy that puts an OAuth2 token of its own into
  every request for Polaris, and the manager that keeps the token fresh. What Polaris answers and when
  are parameters; a lock makes the uses of a manager a sequence. Clock readings are rational seconds.
\<close>

section \<open>The token manager\<close>

text \<open>\<open>JNull\<close> is Python's \<^verbatim>\<open>None\<close>.\<close>

record token_state =
  tk_token :: json
  tk_expires_at :: rat

definition no_token :: token_state where
  "no_token = \<lparr>tk_token = JNull, tk_expires_at = 0\<rparr>"

text \<open>The clock when the manager is asked, its clock after a fetch, and what the fetch gets.\<close>

record token_env =
  te_now :: rat
  te_later :: rat
  te_response :: "string + json"

definition fetch :: "token_env \<Rightarrow> token_state \<Rightarrow> (string + unit) \<times> token_state" where
  "fetch te st = (case bind (te_response te) (\<lambda>data. bind (item data ''access_token'') (\<lambda>t. Inr (data, t))) of
     Inl exc \<Rightarrow> (Inl exc, st)
   | Inr (data, t) \<Rightarrow>
      (let st1 = st\<lparr>tk_token := t\<rparr> in
       case bind (json_get data ''expires_in'' (JNum 3600)) json_int of
         Inl exc \<Rightarrow> (Inl exc, st1)
       | Inr expires_in \<Rightarrow> (Inr (), st1\<lparr>tk_expires_at := te_later te + of_int expires_in\<rparr>)))"

definition needs_fetch :: "int \<Rightarrow> rat \<Rightarrow> token_state \<Rightarrow> bool" where
  "needs_fetch buffer now st = (tk_token st = JNull \<or> tk_expires_at st - of_int buffer \<le> now)"

definition manager_token :: "int \<Rightarrow> token_env \<Rightarrow> token_state \<Rightarrow> (string + json) \<times> token_state" where
  "manager_token buffer te st =
     (if needs_fetch buffer (te_now te) st
      then (case fetch te st of (Inl exc, st1) \<Rightarrow> (Inl exc, st1) | (Inr _, st1) \<Rightarrow> (Inr (tk_token st1), st1))
      else (Inr (tk_token st), st))"

text \<open>
  The background thread sleeps until some time before the token expires, and then tries to fetch another
  one; after a failure it waits for thirty seconds more. It is at the head of its loop, asleep, or was
  never started.
\<close>

definition refresh_delay :: "int \<Rightarrow> rat \<Rightarrow> token_state \<Rightarrow> rat" where
  "refresh_delay buffer now st = max (tk_expires_at st - now - of_int buffer) 30"

datatype refresher = No_Thread | Loop_At rat | Asleep_Until rat

record manager =
  mg_state :: token_state
  mg_refresher :: refresher

definition refresh_attempt :: "token_env \<Rightarrow> token_state \<Rightarrow> (string + unit) \<times> manager" where
  "refresh_attempt te st = (case fetch te st of
     (r, st1) \<Rightarrow> (r, \<lparr>mg_state = st1, mg_refresher = Loop_At (te_later te + (if isl r then 30 else 0))\<rparr>))"

text \<open>A manager at the start of the program: its first token is asked for, and its thread starts if there is one.\<close>

definition start_manager :: "int \<Rightarrow> token_env \<Rightarrow> (string + json) \<times> manager" where
  "start_manager buffer te = (case manager_token buffer te no_token of
     (r, st) \<Rightarrow> (r, \<lparr>mg_state = st, mg_refresher = if isl r then No_Thread else Loop_At (te_later te)\<rparr>))"

text \<open>Requests and the background thread, in any order that the lock and the sleeps allow.\<close>

datatype event =
    Asked token_env bool "string + json"
  | Slept rat
  | Attempted token_env "string + unit"

inductive manager_step :: "int \<Rightarrow> manager \<Rightarrow> event \<Rightarrow> manager \<Rightarrow> bool" for buffer where
  asked: "manager_token buffer te (mg_state m) = (r, st) \<Longrightarrow>
     manager_step buffer m (Asked te (needs_fetch buffer (te_now te) (mg_state m)) r) (m\<lparr>mg_state := st\<rparr>)"
| slept: "\<lbrakk>mg_refresher m = Loop_At t; t \<le> now\<rbrakk> \<Longrightarrow>
     manager_step buffer m (Slept now) (m\<lparr>mg_refresher := Asleep_Until (now + refresh_delay buffer now (mg_state m))\<rparr>)"
| attempted: "\<lbrakk>mg_refresher m = Asleep_Until t; t \<le> te_now te; refresh_attempt te (mg_state m) = (r, m1)\<rbrakk> \<Longrightarrow>
     manager_step buffer m (Attempted te r) m1"

inductive manager_runs :: "int \<Rightarrow> event list \<Rightarrow> manager \<Rightarrow> bool" for buffer where
  started: "start_manager buffer te = (r, m) \<Longrightarrow> manager_runs buffer [Asked te True r] m"
| goes_on: "\<lbrakk>manager_runs buffer es m; manager_step buffer m e m1\<rbrakk> \<Longrightarrow> manager_runs buffer (es @ [e]) m1"

inductive_cases manager_stepE: "manager_step buffer m e m1"

section \<open>Forwarding\<close>

record proxy_request =
  pq_method :: string
  pq_path :: string
  pq_headers :: "(string \<times> string) list"
  pq_input :: string

record upstream_request =
  uq_method :: string
  uq_url :: string
  uq_headers :: "(string \<times> string) list"
  uq_body :: "string option"

record proxy_response =
  ps_status :: nat
  ps_headers :: "(string \<times> string) list"
  ps_body :: string

datatype upstream_reply =
    Responded proxy_response
  | Error_Status proxy_response
  | Unreachable string

definition hop_by_hop :: "string list" where
  "hop_by_hop = [''connection'', ''keep-alive'', ''proxy-authenticate'', ''proxy-authorization'',
     ''te'', ''trailers'', ''transfer-encoding'', ''upgrade'']"

text \<open>\<^verbatim>\<open>self.headers.get(k)\<close>: the first header of the name, in any case.\<close>

definition header :: "(string \<times> string) list \<Rightarrow> string \<Rightarrow> string option" where
  "header hs k = map_of (map (\<lambda>(n, v). (py_lower n, v)) hs) (py_lower k)"

definition content_length :: "(string \<times> string) list \<Rightarrow> string + int" where
  "content_length hs = (case header hs ''Content-Length'' of None \<Rightarrow> Inr 0 | Some s \<Rightarrow> json_int (JStr s))"

definition read_body :: "int \<Rightarrow> string \<Rightarrow> string option" where
  "read_body n input = (if n = 0 then None else Some (if n < 0 then input else take (nat n) input))"

definition kept_headers :: "(string \<times> string) list \<Rightarrow> (string \<times> string) list" where
  "kept_headers hs = fold (\<lambda>(k, v). put k v)
     (filter (\<lambda>(k, v). py_lower k \<notin> set hop_by_hop \<and> py_lower k \<noteq> ''authorization'') hs) []"

definition own_headers :: "string \<Rightarrow> string option \<Rightarrow> (string \<times> string) list \<Rightarrow> (string \<times> string) list" where
  "own_headers tok body hs =
     (let h = put ''X-Iceberg-Access-Delegation'' ''false'' (put ''Authorization'' (''Bearer '' @ tok) (kept_headers hs)) in
      case body of Some b \<Rightarrow> if b \<noteq> [] \<and> map_of h ''Content-Length'' = None
          then put ''Content-Length'' (str_of_nat (length b)) h else h
      | None \<Rightarrow> h)"

text \<open>\<^verbatim>\<open>urllib.request.Request\<close> keeps its headers in a dict under their capitalised names.\<close>

definition request_headers :: "(string \<times> string) list \<Rightarrow> (string \<times> string) list" where
  "request_headers hs = fold (\<lambda>(k, v). put (py_capitalize k) v) hs []"

definition upstream_request_of :: "string \<Rightarrow> string \<Rightarrow> proxy_request \<Rightarrow> int \<Rightarrow> upstream_request" where
  "upstream_request_of polaris_url tok rq n = (let body = read_body n (pq_input rq) in
     \<lparr>uq_method = pq_method rq, uq_url = polaris_url @ pq_path rq,
      uq_headers = request_headers (own_headers tok body (pq_headers rq)), uq_body = body\<rparr>)"

definition relayed :: "proxy_response \<Rightarrow> proxy_response" where
  "relayed r = r\<lparr>ps_headers := filter (\<lambda>(k, v). py_lower k \<notin> set hop_by_hop) (ps_headers r)\<rparr>"

text \<open>An error outside the inner \<^verbatim>\<open>try\<close>, and an unreachable Polaris, leave the client without a response.\<close>

definition forward :: "int \<Rightarrow> string \<Rightarrow> (upstream_request \<Rightarrow> upstream_reply) \<Rightarrow> (json \<Rightarrow> string) \<Rightarrow> token_env \<Rightarrow> proxy_request \<Rightarrow> token_state \<Rightarrow>
    (string + proxy_response) \<times> token_state" where
  "forward buffer polaris_url send show_json te rq st = (case manager_token buffer te st of
     (Inl exc, st1) \<Rightarrow> (Inl exc, st1)
   | (Inr t, st1) \<Rightarrow> (case content_length (pq_headers rq) of
        Inl exc \<Rightarrow> (Inl exc, st1)
      | Inr n \<Rightarrow> (case send (upstream_request_of polaris_url (show_json t) rq n) of
           Responded r \<Rightarrow> (Inr (relayed r), st1)
         | Error_Status r \<Rightarrow> (Inr (relayed r), st1)
         | Unreachable exc \<Rightarrow> (Inl exc, st1))))"

end
