(* ===== verification/Token_Life.thy ===== *)
theory Token_Life
  imports Token_Proxy Iceberg_Live Py_Search
begin

text \<open>
  What the proxy of \<^verbatim>\<open>polaris_auth_proxy.py\<close> promises: the tokens it hands out, the pace of its background
  thread and the headers it lets through.
\<close>

section \<open>Tokens\<close>

text \<open>What a fetch grants: a token and the time to which it is good. A response is whole if it has both, or
  no token.\<close>

definition granted :: "token_env \<Rightarrow> (json \<times> rat) option" where
  "granted te = (case te_response te of Inl exc \<Rightarrow> None
     | Inr data \<Rightarrow> (case (item data ''access_token'', bind (json_get data ''expires_in'' (JNum 3600)) json_int) of
         (Inr t, Inr n) \<Rightarrow> Some (t, te_later te + of_int n) | _ \<Rightarrow> None))"

definition whole :: "token_env \<Rightarrow> bool" where
  "whole te = (case te_response te of Inl exc \<Rightarrow> True | Inr data \<Rightarrow> isl (item data ''access_token'') \<or> granted te \<noteq> None)"

lemma fetch_whole:
  assumes "whole te"
  shows "fetch te st = (case granted te of Some (t, u) \<Rightarrow> (Inr (), \<lparr>tk_token = t, tk_expires_at = u\<rparr>)
    | None \<Rightarrow> (fst (fetch te st), st)) \<and> (granted te = None \<longrightarrow> isl (fst (fetch te st)))"
proof (cases "te_response te")
  case (Inl exc)
  then show ?thesis by (simp add: fetch_def granted_def bind_def)
next
  case (Inr data)
  then show ?thesis
  proof (cases "item data ''access_token''")
    case (Inr t)
    then have "json_get data ''expires_in'' (JNum 3600) \<noteq> Inl exc" for exc by (cases data) auto
    then show ?thesis using assms \<open>te_response te = Inr data\<close> Inr
      by (cases "bind (json_get data ''expires_in'' (JNum 3600)) json_int") (auto simp: fetch_def granted_def whole_def bind_def)
  qed (simp add: fetch_def granted_def bind_def)
qed

fun env_of :: "event \<Rightarrow> token_env option" where
  "env_of (Asked te fetched r) = (if fetched then Some te else None)"
| "env_of (Slept t) = None"
| "env_of (Attempted te r) = Some te"

definition grant_of :: "event \<Rightarrow> (json \<times> rat) option" where
  "grant_of e = (case env_of e of None \<Rightarrow> None | Some te \<Rightarrow> granted te)"

definition all_whole :: "event list \<Rightarrow> bool" where
  "all_whole = list_all (\<lambda>e. case env_of e of None \<Rightarrow> True | Some te \<Rightarrow> whole te)"

text \<open>The token that is held was granted, with the life that is recorded.\<close>

definition token_granted :: "event list \<Rightarrow> token_state \<Rightarrow> bool" where
  "token_granted es st = (tk_token st = JNull \<or> Some (tk_token st, tk_expires_at st) \<in> grant_of ` set es)"

lemma token_granted_mono: "token_granted es st \<Longrightarrow> token_granted (es @ fs) st"
  by (auto simp: token_granted_def)

lemma fetch_granted:
  assumes "whole te" "fetch te st = (r, st1)" "env_of e = Some te" "token_granted es st"
  shows "token_granted (es @ [e]) st1"
  using assms fetch_whole[OF assms(1), of st] token_granted_mono[OF assms(4), of "[e]"]
  by (cases "granted te") (auto simp: token_granted_def grant_of_def)

lemma manager_token_granted:
  assumes "manager_token buffer te st = (r, st1)" "whole te \<or> \<not> needs_fetch buffer (te_now te) st" "token_granted es st"
  shows "token_granted (es @ [Asked te (needs_fetch buffer (te_now te) st) r]) st1"
proof (cases "needs_fetch buffer (te_now te) st")
  case True
  obtain q where "fetch te st = (q, st1)" using assms(1) True by (auto simp: manager_token_def split: prod.splits sum.splits)
  then show ?thesis using fetch_granted[of te st q st1 _ es] assms(2,3) True by simp
next
  case False
  then show ?thesis using assms(1) token_granted_mono[OF assms(3)] by (simp add: manager_token_def)
qed

lemma runs_granted: "manager_runs buffer es m \<Longrightarrow> all_whole es \<Longrightarrow> token_granted es (mg_state m)"
proof (induction rule: manager_runs.induct)
  case (started te r m)
  have "needs_fetch buffer (te_now te) no_token" by (simp add: needs_fetch_def no_token_def)
  moreover obtain st where "manager_token buffer te no_token = (r, st)" "mg_state m = st"
    using started(1) by (auto simp: start_manager_def split: prod.splits)
  moreover have "token_granted [] no_token" by (simp add: token_granted_def no_token_def)
  ultimately show ?case using manager_token_granted[of buffer te no_token r st "[]"] started(2) by (simp add: all_whole_def)
next
  case (goes_on es m e m1)
  then have IH: "token_granted es (mg_state m)" by (simp add: all_whole_def)
  from goes_on(2) show ?case
  proof (cases rule: manager_step.cases)
    case (asked te r st)
    then show ?thesis using manager_token_granted[OF asked(3) _ IH] goes_on.prems by (simp add: all_whole_def split: if_splits)
  next
    case (slept t now)
    then show ?thesis using token_granted_mono[OF IH] by simp
  next
    case (attempted t te r)
    then obtain st where "fetch te (mg_state m) = (r, st)" "mg_state m1 = st"
      by (auto simp: refresh_attempt_def split: prod.splits)
    then show ?thesis using fetch_granted[of te "mg_state m" r st e es] attempted goes_on.prems IH by (simp add: all_whole_def)
  qed
qed


text \<open>A first token for an hour, a request while it is fresh, and one in its last five minutes.\<close>

definition grant :: "rat \<Rightarrow> string \<Rightarrow> string + json" where
  "grant n t = Inr (JObj [(''access_token'', JStr t), (''expires_in'', JNum n)])"

definition at_time :: "rat \<Rightarrow> string + json \<Rightarrow> token_env" where
  "at_time now response = \<lparr>te_now = now, te_later = now + 1, te_response = response\<rparr>"

lemma demo_start: "start_manager 300 (at_time 0 (grant 3600 ''a'')) =
  (Inr (JStr ''a''), \<lparr>mg_state = \<lparr>tk_token = JStr ''a'', tk_expires_at = 3601\<rparr>, mg_refresher = Loop_At 1\<rparr>)"
  by code_simp


text \<open>
  a request in the last minutes of a token's life fails when Polaris does not answer, although the
  token that is held is still good.
\<close>

theorem failed_refresh_fails_request:
  assumes "te_now te < tk_expires_at st" "tk_expires_at st - of_int buffer \<le> te_now te" "te_response te = Inl exc"
  shows "forward buffer url send show_json te rq st = (Inl exc, st)"
  using assms by (simp add: forward_def manager_token_def needs_fetch_def fetch_def bind_def)

lemma failed_refresh_fails_request_witness:
  "forward 300 ''http://polaris'' (\<lambda>_. Unreachable []) (\<lambda>_. []) (at_time 3400 (Inl ''down''))
     \<lparr>pq_method = ''GET'', pq_path = ''/v1/config'', pq_headers = [], pq_input = []\<rparr> \<lparr>tk_token = JStr ''a'', tk_expires_at = 3601\<rparr> =
   (Inl ''down'', \<lparr>tk_token = JStr ''a'', tk_expires_at = 3601\<rparr>)"
  by (rule failed_refresh_fails_request) (simp_all add: at_time_def)

section \<open>The pace of the background thread\<close>

fun is_attempt :: "event \<Rightarrow> bool" where
  "is_attempt (Attempted te r) = True"
| "is_attempt _ = False"

text \<open>How long after an attempt the next one comes at the earliest.\<close>

fun pause_after :: "event \<Rightarrow> rat" where
  "pause_after (Attempted te r) = te_later te + (if isl r then 60 else 30)"
| "pause_after _ = 0"

definition rested :: "event list \<Rightarrow> refresher \<Rightarrow> bool" where
  "rested es rf = (filter is_attempt es \<noteq> [] \<longrightarrow> (case rf of
     No_Thread \<Rightarrow> False
   | Loop_At t \<Rightarrow> pause_after (last (filter is_attempt es)) \<le> t + 30
   | Asleep_Until t \<Rightarrow> pause_after (last (filter is_attempt es)) \<le> t))"

lemma rested_other: "\<not> is_attempt e \<Longrightarrow> rested (es @ [e]) rf = rested es rf"
proof -
  assume "\<not> is_attempt e"
  then have same: "filter is_attempt (es @ [e]) = filter is_attempt es" by simp
  show "rested (es @ [e]) rf = rested es rf" unfolding rested_def same ..
qed

lemma runs_rested: "manager_runs buffer es m \<Longrightarrow> rested es (mg_refresher m)"
proof (induction rule: manager_runs.induct)
  case (started te r m)
  then show ?case by (simp add: rested_def)
next
  case (goes_on es m e m1)
  from goes_on(2) show ?case
  proof (cases rule: manager_step.cases)
    case (slept t now)
    have "30 \<le> refresh_delay buffer now (mg_state m)" by (simp add: refresh_delay_def)
    then show ?thesis using goes_on.IH slept by (auto simp: rested_def)
  next
    case (attempted t te r)
    then show ?thesis by (auto simp: rested_def refresh_attempt_def split: prod.splits)
  qed (use goes_on.IH in \<open>simp add: rested_other\<close>)
qed

text \<open>
  the background thread never tries again sooner than thirty seconds after an attempt, and after one
  that failed not before a minute has passed, where its message announces thirty seconds.
\<close>

theorem background_attempts_are_spaced:
  assumes "manager_runs buffer es m" "manager_step buffer m (Attempted te r) m1" "filter is_attempt es \<noteq> []"
  shows "pause_after (last (filter is_attempt es)) \<le> te_now te"
proof -
  obtain t where "mg_refresher m = Asleep_Until t" "t \<le> te_now te" using assms(2) by (auto elim: manager_stepE)
  then show ?thesis using runs_rested[OF assms(1)] assms(3) by (auto simp: rested_def)
qed

lemma background_attempts_are_spaced_witness:
  "pause_after (last (filter is_attempt [Asked (at_time 0 (grant 3600 ''a'')) True (Inr (JStr ''a'')), Slept 1,
      Attempted (at_time 3301 (Inl ''down'')) (Inl ''down''), Slept 3332])) \<le> te_now (at_time 3362 (grant 3600 ''b''))"
proof (rule background_attempts_are_spaced)
  let ?st = "\<lparr>tk_token = JStr ''a'', tk_expires_at = 3601\<rparr>"
  have "manager_runs 300 [Asked (at_time 0 (grant 3600 ''a'')) True (Inr (JStr ''a''))] \<lparr>mg_state = ?st, mg_refresher = Loop_At 1\<rparr>"
    by (rule manager_runs.started[OF demo_start])
  moreover have "manager_step 300 \<lparr>mg_state = ?st, mg_refresher = Loop_At 1\<rparr> (Slept 1) \<lparr>mg_state = ?st, mg_refresher = Asleep_Until 3301\<rparr>"
    using manager_step.slept[of "\<lparr>mg_state = ?st, mg_refresher = Loop_At 1\<rparr>" 1 1 300] by (simp add: refresh_delay_def)
  moreover have "refresh_attempt (at_time 3301 (Inl ''down'')) ?st = (Inl ''down'', \<lparr>mg_state = ?st, mg_refresher = Loop_At 3332\<rparr>)"
    by code_simp
  then have "manager_step 300 \<lparr>mg_state = ?st, mg_refresher = Asleep_Until 3301\<rparr> (Attempted (at_time 3301 (Inl ''down'')) (Inl ''down''))
      \<lparr>mg_state = ?st, mg_refresher = Loop_At 3332\<rparr>"
    by (intro manager_step.attempted[of _ 3301]) (simp_all add: at_time_def)
  moreover have "manager_step 300 \<lparr>mg_state = ?st, mg_refresher = Loop_At 3332\<rparr> (Slept 3332) \<lparr>mg_state = ?st, mg_refresher = Asleep_Until 3362\<rparr>"
    using manager_step.slept[of "\<lparr>mg_state = ?st, mg_refresher = Loop_At 3332\<rparr>" 3332 3332 300] by (simp add: refresh_delay_def)
  ultimately have "manager_runs 300 ((([Asked (at_time 0 (grant 3600 ''a'')) True (Inr (JStr ''a''))] @ [Slept 1]) @
      [Attempted (at_time 3301 (Inl ''down'')) (Inl ''down'')]) @ [Slept 3332]) \<lparr>mg_state = ?st, mg_refresher = Asleep_Until 3362\<rparr>"
    by (intro manager_runs.goes_on)
  then show "manager_runs 300 [Asked (at_time 0 (grant 3600 ''a'')) True (Inr (JStr ''a'')), Slept 1,
      Attempted (at_time 3301 (Inl ''down'')) (Inl ''down''), Slept 3332] \<lparr>mg_state = ?st, mg_refresher = Asleep_Until 3362\<rparr>"
    by simp
  have "refresh_attempt (at_time 3362 (grant 3600 ''b'')) ?st =
      (Inr (), \<lparr>mg_state = \<lparr>tk_token = JStr ''b'', tk_expires_at = 6963\<rparr>, mg_refresher = Loop_At 3363\<rparr>)" by code_simp
  then show "manager_step 300 \<lparr>mg_state = ?st, mg_refresher = Asleep_Until 3362\<rparr> (Attempted (at_time 3362 (grant 3600 ''b'')) (Inr ()))
      \<lparr>mg_state = \<lparr>tk_token = JStr ''b'', tk_expires_at = 6963\<rparr>, mg_refresher = Loop_At 3363\<rparr>"
    by (intro manager_step.attempted[of _ 3362]) (simp_all add: at_time_def)
qed simp

section \<open>Headers\<close>

lemma put_mem: "(k, v) \<in> set (put k1 v1 d) \<Longrightarrow> (k, v) = (k1, v1) \<or> (k, v) \<in> set d"
  by (auto simp: put_def split: if_splits)

lemma fold_put_mem:
  "(k, v) \<in> set (fold (\<lambda>(n, v). put (f n) v) hs d) \<Longrightarrow> (k, v) \<in> set d \<or> (\<exists>n. (n, v) \<in> set hs \<and> k = f n)"
  by (induction hs arbitrary: d) (fastforce dest: put_mem split: prod.splits)+

lemma fold_put_map:
  "map_of (fold (\<lambda>(n, v). put (f n) v) hs d) k = (case find (\<lambda>(n, v). f n = k) (rev hs) of Some (n, v) \<Rightarrow> Some v | None \<Rightarrow> map_of d k)"
proof (induction hs rule: rev_induct)
  case (snoc h hs)
  then show ?case by (cases h) (auto simp: put_map)
qed simp

lemma find_SomeD: "find P xs = Some x \<Longrightarrow> x \<in> set xs \<and> P x"
  by (induction xs) (auto split: if_splits)

lemma lower_upper: "lower_char (upper_char c) = lower_char c"
proof (cases "97 \<le> (of_char c :: nat) \<and> (of_char c :: nat) \<le> 122")
  case True
  then have "(of_char c - 32) mod 256 = of_char c - (32 :: nat)" by (intro mod_less) presburger
  then have "(of_char (upper_char c) :: nat) = of_char c - 32" using True by (simp add: upper_char_def)
  then have "(of_char (lower_char (upper_char c)) :: nat) = of_char (lower_char c)" using True unfolding of_char_lower by auto
  then show ?thesis by (metis char_of_char)
next
  case False
  then show ?thesis by (simp only: upper_char_def if_False)
qed

lemma lower_capitalize: "py_lower (py_capitalize k) = py_lower k"
  by (cases k) (simp_all add: py_capitalize_def py_lower_def lower_upper)

lemma own_headers_mem:
  assumes "(n, v) \<in> set (own_headers tok body hs)"
  obtains "n = ''Authorization''" "v = ''Bearer '' @ tok" | "n = ''X-Iceberg-Access-Delegation''" | "n = ''Content-Length''"
  | "(n, v) \<in> set hs" "py_lower n \<notin> set hop_by_hop" "py_lower n \<noteq> ''authorization''"
proof -
  have "(n, v) \<in> set (kept_headers hs) \<Longrightarrow> (n, v) \<in> set hs \<and> py_lower n \<notin> set hop_by_hop \<and> py_lower n \<noteq> ''authorization''"
    unfolding kept_headers_def by (drule fold_put_mem[of _ _ "\<lambda>n. n"]) auto
  then show ?thesis using assms that
    by (auto simp: own_headers_def Let_def dest!: put_mem split: option.splits if_splits)
qed


text \<open>A client with a token of its own, in another spelling, and a header for one hop.\<close>

definition demo_proxy_request :: proxy_request where
  "demo_proxy_request = \<lparr>pq_method = ''GET'', pq_path = ''/v1/config'', pq_headers = [(''AUTHORIZATION'', ''Bearer stolen''),
     (''Connection'', ''close''), (''accept'', ''*'')], pq_input = []\<rparr>"


end
