(* ===== verification/Py_Double.thy ===== *)
theory Py_Double
  imports Complex_Main Py_Text
begin

text \<open>
  Python's floats as rational numbers: every arithmetic result is rounded to 53 significant bits, to nearest
  and ties to even, as IEEE 754 does for the doubles; and \<^verbatim>\<open>float(s)\<close> of a decimal numeral. The range of the
  exponent is not bounded, so there are no infinities and nothing underflows.
\<close>

section \<open>Rounding\<close>

definition half_even :: "rat \<Rightarrow> int" where
  "half_even y = (let n = \<lfloor>y\<rfloor>; d = y - of_int n in
     if d < 1 / 2 then n else if 1 / 2 < d then n + 1 else if even n then n else n + 1)"

text \<open>The exponent of the last of the 53 bits.\<close>

function num_bits :: "int \<Rightarrow> int" where
  "num_bits n = (if n \<le> 0 then 0 else num_bits (n div 2) + 1)"
  by pat_completeness auto
termination by (relation "measure nat") auto

declare num_bits.simps [simp del]

definition last_exp :: "rat \<Rightarrow> int" where
  "last_exp x = (case quotient_of \<bar>x\<bar> of (p, q) \<Rightarrow>
     let k = num_bits p - num_bits q - 53 in
     if \<bar>x\<bar> < 2 powi (k + 53) then k else k + 1)"

definition dbl :: "rat \<Rightarrow> rat" where
  "dbl x = (if x = 0 then 0 else of_int (half_even (x / 2 powi last_exp x)) * 2 powi last_exp x)"

text \<open>A number that 53 bits hold.\<close>

definition is_dbl :: "rat \<Rightarrow> bool" where
  "is_dbl d = (\<exists>m j. d = of_int m * 2 powi j \<and> \<bar>m\<bar> \<le> 2 ^ 53)"

section \<open>Decimal numerals\<close>

definition signed :: "string \<Rightarrow> bool \<times> string" where
  "signed s = (case s of [] \<Rightarrow> (False, []) | c # r \<Rightarrow>
     if c = CHR ''-'' then (True, r) else if c = CHR ''+'' then (False, r) else (False, s))"

definition digits_value :: "string \<Rightarrow> int" where
  "digits_value ds = foldl (\<lambda>n c. 10 * n + (of_char c - 48)) 0 ds"

definition exponent_part :: "string \<Rightarrow> int option" where
  "exponent_part s = (case s of [] \<Rightarrow> Some 0 | c # r \<Rightarrow>
     (case signed r of (negative, ds) \<Rightarrow>
        if (c = CHR ''e'' \<or> c = CHR ''E'') \<and> py_isdigit ds
        then Some (if negative then - digits_value ds else digits_value ds) else None))"

definition fraction_part :: "string \<Rightarrow> string \<times> string" where
  "fraction_part s = (case s of [] \<Rightarrow> ([], []) | c # r \<Rightarrow>
     if c = CHR ''.'' then (takeWhile is_digit r, dropWhile is_digit r) else ([], s))"

definition decimal :: "string \<Rightarrow> rat option" where
  "decimal s = (case signed s of (negative, s1) \<Rightarrow>
     let whole_part = takeWhile is_digit s1 in
     case fraction_part (dropWhile is_digit s1) of (places, s2) \<Rightarrow>
     if whole_part @ places = [] then None
     else (case exponent_part s2 of None \<Rightarrow> None
       | Some e \<Rightarrow> (let v = of_int (digits_value (whole_part @ places)) * 10 powi (e - int (length places)) in
           Some (if negative then - v else v))))"

definition py_float_of :: "string \<Rightarrow> string + rat" where
  "py_float_of s = (case decimal (py_strip s) of
     None \<Rightarrow> Inl (''could not convert string to float: '' @ CHR 0x27 # s @ [CHR 0x27])
   | Some x \<Rightarrow> Inr (dbl x))"

section \<open>Properties of the rounding\<close>

lemma half_even_error: "\<bar>of_int (half_even y) - y\<bar> \<le> 1 / 2"
proof -
  have "of_int \<lfloor>y\<rfloor> \<le> y" "y < of_int \<lfloor>y\<rfloor> + 1" by linarith+
  then show ?thesis by (auto simp: half_even_def Let_def abs_le_iff not_less)
qed

lemma half_even_int [simp]: "half_even (of_int n) = n"
  by (simp add: half_even_def)

lemma half_even_ge: "of_int n \<le> y \<Longrightarrow> n \<le> half_even y"
  using half_even_error[of y] by (simp only: abs_le_iff) linarith

lemma num_bits_bounds:
  "0 < n \<Longrightarrow> 2 powi (num_bits n - 1) \<le> (of_int n :: rat) \<and> (of_int n :: rat) < 2 powi num_bits n \<and> 0 < num_bits n"
proof (induction n rule: num_bits.induct)
  case (1 n)
  show ?case
  proof (cases "n = 1")
    case True then show ?thesis by (simp add: num_bits.simps)
  next
    case False
    define k where "k = num_bits (n div 2)"
    have IH: "2 powi (k - 1) \<le> (of_int (n div 2) :: rat)" "(of_int (n div 2) :: rat) < 2 powi k" "0 < k"
      using 1 False by (auto simp: k_def)
    have nb: "num_bits n = k + 1" using 1 by (subst num_bits.simps) (simp add: k_def)
    have "(2::rat) powi k = 2 ^ nat k" using IH(3) by (simp add: power_int_def)
    then have "of_int (n div 2) < (of_int (2 ^ nat k) :: rat)" using IH(2) by simp
    then have "n div 2 < 2 ^ nat k" by (simp only: of_int_less_iff)
    then have "n < 2 * 2 ^ nat k" by linarith
    then have "(of_int n :: rat) < of_int (2 * 2 ^ nat k)" by (simp only: of_int_less_iff)
    then have "(of_int n :: rat) < 2 powi (k + 1)" using IH(3) by (simp add: power_int_def nat_add_distrib)
    moreover have "2 * (n div 2) \<le> n" by simp
    then have "2 * (of_int (n div 2) :: rat) \<le> of_int n" by (metis of_int_le_iff of_int_mult of_int_numeral)
    moreover have "(2::rat) powi k = 2 * 2 powi (k - 1)" using power_int_add[of "2::rat" 1 "k - 1"] by simp
    ultimately show ?thesis using IH nb by simp
  qed
qed

lemma last_exp_bound:
  assumes "x \<noteq> 0"
  shows "2 powi (last_exp x + 52) \<le> \<bar>x\<bar>"
proof -
  obtain p q where pq: "quotient_of \<bar>x\<bar> = (p, q)" by fastforce
  have q: "0 < q" using quotient_of_denom_pos[OF pq] .
  have x: "\<bar>x\<bar> = of_int p / of_int q" using quotient_of_div[OF pq] .
  have "0 < \<bar>x\<bar>" using assms by simp
  then have p: "0 < p" using x q by (simp add: zero_less_divide_iff)
  define k where "k = num_bits p - num_bits q - 53"
  have pa: "2 powi (num_bits p - 1) \<le> (of_int p :: rat)" using num_bits_bounds[OF p] by simp
  have qb: "(of_int q :: rat) \<le> 2 powi num_bits q" using num_bits_bounds[OF q] by simp
  have "(2::rat) powi (k + 52) = 2 powi (num_bits p - 1) / 2 powi num_bits q"
    by (simp add: k_def power_int_diff[symmetric] algebra_simps)
  also have "\<dots> \<le> of_int p / of_int q"
    using pa qb q p by (intro frac_le) auto
  finally have low: "2 powi (k + 52) \<le> \<bar>x\<bar>" using x by simp
  have "last_exp x = (if \<bar>x\<bar> < 2 powi (k + 53) then k else k + 1)"
    by (simp only: last_exp_def pq prod.case Let_def k_def)
  then show ?thesis using low by (auto simp: not_less add.assoc split: if_splits)
qed

lemma dbl_error: "\<bar>dbl x - x\<bar> \<le> \<bar>x\<bar> / 2 ^ 53"
proof (cases "x = 0")
  case False
  let ?u = "2 powi last_exp x :: rat"
  have u: "0 < ?u" by simp
  have "dbl x - x = (of_int (half_even (x / ?u)) - x / ?u) * ?u" using False u by (simp add: dbl_def field_simps)
  then have "\<bar>dbl x - x\<bar> \<le> 1 / 2 * ?u"
    using half_even_error[of "x / ?u"] u by (simp add: abs_mult mult_right_mono del: times_divide_eq_left)
  moreover have "?u * 2 ^ 52 \<le> \<bar>x\<bar>" using last_exp_bound[OF False] by (simp add: power_int_add)
  ultimately show ?thesis by (simp add: field_simps)
qed (simp add: dbl_def)

text \<open>Rounding keeps the numbers that 53 bits hold, and does not cross them.\<close>

lemma scaled: "e \<le> j \<Longrightarrow> of_int m * 2 powi j = (of_int (m * 2 ^ nat (j - e)) * 2 powi e :: rat)"
  using power_int_add[of "2::rat" "j - e" e] by (simp add: power_int_def)

lemma dbl_exact:
  assumes "is_dbl d"
  shows "dbl d = d"
proof (cases "d = 0")
  case False
  let ?e = "last_exp d"
  obtain m j where d: "d = of_int m * 2 powi j" "\<bar>m\<bar> \<le> 2 ^ 53" using assms by (auto simp: is_dbl_def)
  have m: "\<bar>of_int m\<bar> \<le> (2 ^ 53 :: rat)" using d(2) by (metis of_int_abs of_int_le_iff of_int_numeral of_int_power)
  have low: "2 powi (?e + 52) \<le> \<bar>of_int m\<bar> * (2 powi j :: rat)"
    using last_exp_bound[OF False] d(1) by (simp add: abs_mult)
  also have "\<dots> \<le> 2 ^ 53 * 2 powi j" using m by (intro mult_right_mono) auto
  finally have "(2::rat) powi (?e + 52) \<le> 2 powi (j + 53)" by (simp add: power_int_add mult.commute)
  then have ej: "?e \<le> j + 1" using power_int_strict_increasing[of "j + 53" "?e + 52" "2::rat"] by (cases "?e \<le> j + 1") auto
  have "\<exists>n. d = of_int n * 2 powi ?e"
  proof (cases "?e \<le> j")
    case True then show ?thesis using scaled[OF True, of m] d(1) by blast
  next
    case False
    then have e: "?e = j + 1" using ej by simp
    have "(2 ^ 53 :: rat) \<le> \<bar>of_int m\<bar>" using low by (simp add: e power_int_add)
    then have "\<bar>of_int m\<bar> = (of_int (2 ^ 53) :: rat)" using m by simp
    then have "\<bar>m\<bar> = 2 ^ 53" by (metis of_int_abs of_int_eq_iff)
    then have "m = 2 ^ 53 \<or> m = - (2 ^ 53)" by linarith
    moreover have "2 powi ?e = (2 * 2 powi j :: rat)" by (subst e) (simp add: power_int_add)
    ultimately have "d = of_int (2 ^ 52) * 2 powi ?e \<or> d = of_int (- (2 ^ 52)) * 2 powi ?e"
      using d(1) by (elim disjE) simp_all
    then show ?thesis by blast
  qed
  then obtain n where n: "d = of_int n * 2 powi ?e" ..
  have "d / 2 powi ?e = of_int n" by (subst n) simp
  then show ?thesis using False n by (simp add: dbl_def)
qed (simp add: dbl_def)

lemma dbl_ge:
  assumes "is_dbl d" "0 < d" "d \<le> x"
  shows "d \<le> dbl x"
proof -
  let ?e = "last_exp x" let ?u = "2 powi last_exp x :: rat"
  have x: "x \<noteq> 0" "0 < x" using assms by auto
  have u: "0 < ?u" by simp
  have low: "2 ^ 52 * ?u \<le> x" using last_exp_bound[OF x(1)] x by (simp add: power_int_add mult.commute)
  have via: "of_int n * ?u \<le> dbl x" if "of_int n * ?u \<le> x" for n
  proof -
    have "n \<le> half_even (x / ?u)" using that u by (intro half_even_ge) (simp add: field_simps)
    then show ?thesis using x u by (simp add: dbl_def mult_right_mono)
  qed
  show ?thesis
  proof (cases "d \<le> 2 ^ 52 * ?u")
    case True then show ?thesis using via[of "2 ^ 52"] low by simp
  next
    case False
    obtain m j where d: "d = of_int m * 2 powi j" "\<bar>m\<bar> \<le> 2 ^ 53" using assms(1) by (auto simp: is_dbl_def)
    have "of_int m \<le> (of_int (2 ^ 53) :: rat)" using d(2) by (intro of_int_le_iff[THEN iffD2]) simp
    then have "d \<le> 2 ^ 53 * 2 powi j" using d(1) by (simp add: mult_right_mono)
    then have "(2::rat) powi (?e + 52) < 2 powi (j + 53)" using False by (simp add: power_int_add mult.commute)
    then have j: "?e \<le> j" using power_int_increasing[of "j + 53" "?e + 52" "2::rat"] by (cases "?e \<le> j") auto
    show ?thesis using via[of "m * 2 ^ nat (j - ?e)"] assms(3) d(1) scaled[OF j, of m] by (simp only:)
  qed
qed

lemma is_dbl_int: "\<bar>m\<bar> \<le> 2 ^ 53 \<Longrightarrow> is_dbl (of_int m)"
  unfolding is_dbl_def by (intro exI[of _ m] exI[of _ 0]) simp

lemma dbl_of_nat [simp]: "n \<le> 2 ^ 53 \<Longrightarrow> dbl (of_nat n) = of_nat n"
  using dbl_exact[OF is_dbl_int[of "int n"]] by simp

lemma dbl_zero [simp]: "dbl 0 = 0"
  by (simp add: dbl_def)

section \<open>Numerals of natural numbers\<close>

lemma digit_char:
  assumes "k < 10"
  shows "is_digit (''0123456789'' ! k)" "of_char (''0123456789'' ! k) = 48 + int k"
proof -
  have "k \<in> {0, 1, 2, 3, 4, 5, 6, 7, 8, 9}" using assms by auto
  then show "is_digit (''0123456789'' ! k)" "of_char (''0123456789'' ! k) = 48 + int k" by (auto simp: is_digit_def)
qed

lemma digits_str_of_nat:
  "str_of_nat n \<noteq> [] \<and> list_all is_digit (str_of_nat n) \<and> digits_value (str_of_nat n) = int n"
proof (induction n rule: str_of_nat.induct)
  case (1 n)
  show ?case
  proof (cases "n < 10")
    case True
    then show ?thesis using digit_char[OF True] by (subst (1 2 3) str_of_nat.simps) (simp add: digits_value_def)
  next
    case False
    have "n mod 10 < 10" by simp
    moreover have "10 * int (n div 10) + int (n mod 10) = int n"
      by (metis mult_div_mod_eq of_nat_add of_nat_mult of_nat_numeral)
    ultimately show ?thesis using 1 False digit_char[of "n mod 10"]
      by (subst (1 2 3) str_of_nat.simps) (simp add: digits_value_def)
  qed
qed

lemma digits_only:
  assumes "ds \<noteq> []" "list_all is_digit ds"
  shows "py_strip ds = ds" "signed ds = (False, ds)" "takeWhile is_digit ds = ds" "dropWhile is_digit ds = []"
proof -
  have not_space: "is_digit c \<Longrightarrow> \<not> py_space c" for c by (auto simp: is_digit_def py_space_def)
  obtain c r where c: "ds = c # r" "is_digit c" using assms by (cases ds) auto
  obtain r' c' where c': "ds = r' @ [c']" "is_digit c'" using assms by (cases ds rule: rev_cases) auto
  have "dropWhile py_space ds = ds" using c not_space by simp
  moreover have "dropWhile py_space (rev ds) = rev ds" using c' not_space by simp
  ultimately show "py_strip ds = ds" by (simp add: py_strip_def)
  show "signed ds = (False, ds)" using c by (auto simp: signed_def is_digit_def)
  show "takeWhile is_digit ds = ds" "dropWhile is_digit ds = []" using assms(2) by (auto simp: list_all_iff)
qed

lemma py_float_of_nat:
  assumes "n \<le> 2 ^ 53"
  shows "py_float_of (str_of_nat n) = Inr (of_nat n)"
proof -
  have "decimal (str_of_nat n) = Some (of_nat n)"
    using digits_str_of_nat[of n]
    by (simp add: decimal_def digits_only fraction_part_def exponent_part_def Let_def)
  then show ?thesis using digits_str_of_nat[of n] assms by (simp add: py_float_of_def digits_only)
qed

end
