(* ===== verification/Node_Monitor.thy ===== *)
theory Node_Monitor
  imports Py_Double
begin

text \<open>
  \<^verbatim>\<open>scripts/node-pressure-monitor.py\<close>: it polls a Kubernetes cluster, cordons every worker whose pods request
  too large a share of it and uncordons the others. The API server is a parameter, three calls on a state
  of its own; the monitor keeps no state between polls. Log lines keep their values, not their layout.
\<close>

section \<open>Quantities\<close>

definition parse_cpu_to_millicores :: "string \<Rightarrow> string + rat" where
  "parse_cpu_to_millicores v =
     (if endswith v ''m'' then py_float_of (butlast v)
      else (case py_float_of v of Inl e \<Rightarrow> Inl e | Inr x \<Rightarrow> Inr (dbl (x * 1000))))"

definition memory_units :: "(string \<times> int) list" where
  "memory_units =
     [(''Ki'', 1024), (''Mi'', 1024 ^ 2), (''Gi'', 1024 ^ 3), (''Ti'', 1024 ^ 4),
      (''K'', 1000), (''M'', 1000 ^ 2), (''G'', 1000 ^ 3), (''T'', 1000 ^ 4)]"

fun parse_in_units :: "(string \<times> int) list \<Rightarrow> string \<Rightarrow> string + rat" where
  "parse_in_units [] v = py_float_of v"
| "parse_in_units ((suffix, multiplier) # us) v =
     (if endswith v suffix
      then (case py_float_of (take (length v - length suffix) v) of
        Inl e \<Rightarrow> Inl e | Inr x \<Rightarrow> Inr (dbl (x * of_int multiplier)))
      else parse_in_units us v)"

definition parse_memory_to_bytes :: "string \<Rightarrow> string + rat" where
  "parse_memory_to_bytes v = parse_in_units memory_units v"

section \<open>The cluster\<close>

text \<open>
  What the code reads of a node and of a container; \<open>None\<close> is Python's \<^verbatim>\<open>None\<close>, and of a taint only the
  key matters. A pod is the list of its containers.
\<close>

type_synonym quantities = "(string \<times> string) list"

record node =
  nd_name :: string
  nd_labels :: "quantities option"
  nd_taints :: "string list option"
  nd_unschedulable :: "bool option"
  nd_allocatable :: "quantities option"

record resources =
  rs_requests :: "quantities option"

record container =
  ct_resources :: "resources option"

type_synonym pod = "container list"

datatype k8s_error = Api_Exception string | Config_Exception string | Value_Error string | Other_Exception string

record 's api =
  list_node :: "'s \<Rightarrow> (k8s_error + node list) \<times> 's"
  list_pods :: "string \<Rightarrow> 's \<Rightarrow> (k8s_error + pod list) \<times> 's"
  patch_node :: "string \<Rightarrow> bool \<Rightarrow> 's \<Rightarrow> (k8s_error + unit) \<times> 's"

definition or_empty :: "'a list option \<Rightarrow> 'a list" where
  "or_empty xs = (case xs of None \<Rightarrow> [] | Some ys \<Rightarrow> ys)"

definition is_worker :: "node \<Rightarrow> bool" where
  "is_worker n =
     (let ls = map fst (or_empty (nd_labels n)) in
      ''node-role.kubernetes.io/control-plane'' \<notin> set ls \<and>
      ''node-role.kubernetes.io/master'' \<notin> set ls \<and>
      list_all (\<lambda>k. k \<noteq> ''node-role.kubernetes.io/control-plane'' \<and> k \<noteq> ''node-role.kubernetes.io/master'')
        (or_empty (nd_taints n)))"

definition is_cordoned_by_us :: "node \<Rightarrow> bool" where
  "is_cordoned_by_us n = (nd_unschedulable n = Some True)"

definition allocatable_of :: "node \<Rightarrow> string + rat \<times> rat" where
  "allocatable_of n =
     (let q = (\<lambda>k. case map_of (or_empty (nd_allocatable n)) k of None \<Rightarrow> ''0'' | Some v \<Rightarrow> v) in
      case parse_cpu_to_millicores (q ''cpu'') of Inl e \<Rightarrow> Inl e | Inr cpu \<Rightarrow>
     (case parse_memory_to_bytes (q ''memory'') of Inl e \<Rightarrow> Inl e | Inr mem \<Rightarrow> Inr (cpu, mem)))"

definition get_node_usage :: "node \<Rightarrow> string + rat \<times> rat" where
  "get_node_usage n = allocatable_of n"

section \<open>Requests\<close>

definition add_request :: "(string \<Rightarrow> string + rat) \<Rightarrow> quantities \<Rightarrow> string \<Rightarrow> rat \<Rightarrow> string + rat" where
  "add_request parse req k so_far = (case map_of req k of
     None \<Rightarrow> Inr so_far
   | Some v \<Rightarrow> (case parse v of Inl e \<Rightarrow> Inl e | Inr x \<Rightarrow> Inr (dbl (so_far + x))))"

fun sum_requests :: "container list \<Rightarrow> rat \<times> rat \<Rightarrow> string + rat \<times> rat" where
  "sum_requests [] so_far = Inr so_far"
| "sum_requests (c # cs) (cpu, mem) =
     (case map_option rs_requests (ct_resources c) of
        Some (Some req) \<Rightarrow>
         (case add_request parse_cpu_to_millicores req ''cpu'' cpu of Inl e \<Rightarrow> Inl e | Inr cpu1 \<Rightarrow>
         (case add_request parse_memory_to_bytes req ''memory'' mem of Inl e \<Rightarrow> Inl e | Inr mem1 \<Rightarrow>
            sum_requests cs (cpu1, mem1)))
      | _ \<Rightarrow> sum_requests cs (cpu, mem))"

definition pod_selector :: "string \<Rightarrow> string" where
  "pod_selector name = ''spec.nodeName='' @ name @ '',status.phase!=Failed,status.phase!=Succeeded''"

definition value_error :: "string + 'a \<Rightarrow> k8s_error + 'a" where
  "value_error r = (case r of Inl msg \<Rightarrow> Inl (Value_Error msg) | Inr x \<Rightarrow> Inr x)"

definition get_requested_resources :: "'s api \<Rightarrow> string \<Rightarrow> 's \<Rightarrow> (k8s_error + rat \<times> rat) \<times> 's" where
  "get_requested_resources api name s = (case list_pods api (pod_selector name) s of
     (Inl e, s1) \<Rightarrow> (Inl e, s1)
   | (Inr pods, s1) \<Rightarrow> (value_error (sum_requests (concat pods) (0, 0)), s1))"

section \<open>Polling\<close>

datatype monitor_entry =
    Started rat rat int
  | In_Cluster
  | Local_Config
  | No_Workers
  | Reading string rat rat bool bool
  | Cordoned string
  | Uncordoned string
  | Patch_Failed string string
  | Poll_Api_Error string
  | Poll_Error k8s_error

type_synonym ('a, 's) run = "monitor_entry list \<times> (k8s_error + 'a) \<times> 's"

definition cordon_node :: "'s api \<Rightarrow> string \<Rightarrow> 's \<Rightarrow> (unit, 's) run" where
  "cordon_node api name s = (case patch_node api name True s of
     (Inl e, s1) \<Rightarrow> ([], Inl e, s1) | (Inr _, s1) \<Rightarrow> ([Cordoned name], Inr (), s1))"

definition uncordon_node :: "'s api \<Rightarrow> string \<Rightarrow> 's \<Rightarrow> (unit, 's) run" where
  "uncordon_node api name s = (case patch_node api name False s of
     (Inl e, s1) \<Rightarrow> ([], Inl e, s1) | (Inr _, s1) \<Rightarrow> ([Uncordoned name], Inr (), s1))"

definition share :: "rat \<Rightarrow> rat \<Rightarrow> rat" where
  "share req alloc = (if 0 < alloc then dbl (dbl (req / alloc) * 100) else 0)"

text \<open>The \<^verbatim>\<open>try\<close> around the two patches: only an \<^verbatim>\<open>ApiException\<close> is caught.\<close>

definition settle :: "'s api \<Rightarrow> string \<Rightarrow> bool \<Rightarrow> bool \<Rightarrow> 's \<Rightarrow> (unit, 's) run" where
  "settle api name over cordoned s =
     (case (if over \<and> \<not> cordoned then cordon_node api name s
            else if \<not> over \<and> cordoned then uncordon_node api name s
            else ([], Inr (), s)) of
        (out, Inl (Api_Exception exc), s1) \<Rightarrow> (out @ [Patch_Failed name exc], Inr (), s1)
      | r \<Rightarrow> r)"

definition poll_worker :: "'s api \<Rightarrow> rat \<Rightarrow> rat \<Rightarrow> node \<Rightarrow> 's \<Rightarrow> (unit, 's) run" where
  "poll_worker api cpu_threshold mem_threshold n s =
     (case value_error (allocatable_of n) of
        Inl e \<Rightarrow> ([], Inl e, s)
      | Inr (alloc_cpu, alloc_mem) \<Rightarrow>
     (case get_requested_resources api (nd_name n) s of
        (Inl e, s1) \<Rightarrow> ([], Inl e, s1)
      | (Inr (req_cpu, req_mem), s1) \<Rightarrow>
     (let cpu_pct = share req_cpu alloc_cpu; mem_pct = share req_mem alloc_mem;
          over = (cpu_threshold \<le> cpu_pct \<or> mem_threshold \<le> mem_pct);
          cordoned = is_cordoned_by_us n in
      case settle api (nd_name n) over cordoned s1 of
        (out, r, s2) \<Rightarrow> (Reading (nd_name n) cpu_pct mem_pct cordoned over # out, r, s2))))"

fun poll_workers :: "'s api \<Rightarrow> rat \<Rightarrow> rat \<Rightarrow> node list \<Rightarrow> 's \<Rightarrow> (unit, 's) run" where
  "poll_workers api cpu_threshold mem_threshold [] s = ([], Inr (), s)"
| "poll_workers api cpu_threshold mem_threshold (n # ns) s =
     (case poll_worker api cpu_threshold mem_threshold n s of
        (out, Inl e, s1) \<Rightarrow> (out, Inl e, s1)
      | (out, Inr _, s1) \<Rightarrow> (case poll_workers api cpu_threshold mem_threshold ns s1 of
          (out1, r, s2) \<Rightarrow> (out @ out1, r, s2)))"

definition poll :: "'s api \<Rightarrow> rat \<Rightarrow> rat \<Rightarrow> 's \<Rightarrow> (unit, 's) run" where
  "poll api cpu_threshold mem_threshold s = (case list_node api s of
     (Inl e, s1) \<Rightarrow> ([], Inl e, s1)
   | (Inr nodes, s1) \<Rightarrow>
      (let workers = filter is_worker nodes in
       if workers = [] then ([No_Workers], Inr (), s1)
       else poll_workers api cpu_threshold mem_threshold workers s1))"

section \<open>The main loop\<close>

definition init_k8s :: "k8s_error + unit \<Rightarrow> k8s_error + unit \<Rightarrow> monitor_entry list \<times> (k8s_error + unit)" where
  "init_k8s incluster kube_config = (case incluster of
     Inr _ \<Rightarrow> ([In_Cluster], Inr ())
   | Inl (Config_Exception _) \<Rightarrow> (case kube_config of Inl e \<Rightarrow> ([], Inl e) | Inr _ \<Rightarrow> ([Local_Config], Inr ()))
   | Inl e \<Rightarrow> ([], Inl e))"

definition poll_once :: "'s api \<Rightarrow> rat \<Rightarrow> rat \<Rightarrow> 's \<Rightarrow> monitor_entry list \<times> 's" where
  "poll_once api cpu_threshold mem_threshold s = (case poll api cpu_threshold mem_threshold s of
     (out, Inr _, s1) \<Rightarrow> (out, s1)
   | (out, Inl (Api_Exception exc), s1) \<Rightarrow> (out @ [Poll_Api_Error exc], s1)
   | (out, Inl exc, s1) \<Rightarrow> (out @ [Poll_Error exc], s1))"

text \<open>The first \<open>k\<close> rounds of the endless loop.\<close>

fun poll_rounds :: "'s api \<Rightarrow> rat \<Rightarrow> rat \<Rightarrow> nat \<Rightarrow> 's \<Rightarrow> monitor_entry list \<times> 's" where
  "poll_rounds api cpu_threshold mem_threshold 0 s = ([], s)"
| "poll_rounds api cpu_threshold mem_threshold (Suc k) s =
     (case poll_once api cpu_threshold mem_threshold s of
        (out, s1) \<Rightarrow> (case poll_rounds api cpu_threshold mem_threshold k s1 of (out1, s2) \<Rightarrow> (out @ out1, s2)))"

definition monitor_main ::
    "k8s_error + unit \<Rightarrow> k8s_error + unit \<Rightarrow> 's api \<Rightarrow> rat \<Rightarrow> rat \<Rightarrow> int \<Rightarrow> nat \<Rightarrow> 's \<Rightarrow> (unit, 's) run" where
  "monitor_main incluster kube_config api cpu_threshold mem_threshold interval k s =
     (let started = Started cpu_threshold mem_threshold interval in
      case init_k8s incluster kube_config of
        (out, Inl e) \<Rightarrow> (started # out, Inl e, s)
      | (out, Inr _) \<Rightarrow> (case poll_rounds api cpu_threshold mem_threshold k s of
          (out1, s1) \<Rightarrow> (started # out @ out1, Inr (), s1)))"

end
