(* ===== verification/Node_Cordon.thy ===== *)
theory Node_Cordon
  imports Node_Monitor
begin

text \<open>
  What the node monitor does to a cluster: which nodes it patches, what a poll leaves behind, how a quantity
  it cannot read stops it, and that rounding never moves the default threshold.
\<close>

section \<open>Patches\<close>

text \<open>The API server with a record of the patches it is sent.\<close>

definition recording :: "'s api \<Rightarrow> ('s \<times> (string \<times> bool) list) api" where
  "recording api = \<lparr>
     list_node = (\<lambda>(s, ps). case list_node api s of (r, s1) \<Rightarrow> (r, s1, ps)),
     list_pods = (\<lambda>q (s, ps). case list_pods api q s of (r, s1) \<Rightarrow> (r, s1, ps)),
     patch_node = (\<lambda>name b (s, ps). case patch_node api name b s of (r, s1) \<Rightarrow> (r, s1, ps @ [(name, b)]))\<rparr>"

definition allowed :: "node list \<Rightarrow> string \<times> bool \<Rightarrow> bool" where
  "allowed ns p = (\<exists>n\<in>set ns. is_worker n \<and> fst p = nd_name n \<and> snd p = (\<not> is_cordoned_by_us n))"

lemma recording_settle:
  assumes "settle (recording api) name over cordoned (s, ps) = (out, r, s1, ps1)"
  shows "ps1 = ps @ (if over = cordoned then [] else [(name, over)]) \<and> settle api name over cordoned s = (out, r, s1)"
  using assms
  by (cases over; cases cordoned)
    (auto simp: settle_def cordon_node_def uncordon_node_def recording_def split: prod.splits sum.splits k8s_error.splits)

lemma recording_requests:
  "get_requested_resources (recording api) name (s, ps) =
     (case get_requested_resources api name s of (r, s1) \<Rightarrow> (r, s1, ps))"
  by (auto simp: get_requested_resources_def recording_def split: prod.splits sum.splits)

definition patches_to :: "node \<Rightarrow> (string \<times> bool) list \<Rightarrow> bool" where
  "patches_to n qs = (qs = [] \<or> qs = [(nd_name n, \<not> is_cordoned_by_us n)])"

lemma recording_worker:
  assumes "poll_worker (recording api) ct mt n (s, ps) = (out, r, s1, ps1)"
  shows "\<exists>qs. ps1 = ps @ qs \<and> patches_to n qs \<and> poll_worker api ct mt n s = (out, r, s1)"
  using assms
  by (fastforce simp: poll_worker_def recording_requests patches_to_def Let_def
      split: prod.splits sum.splits if_splits dest!: recording_settle)

lemma recording_workers:
  assumes "poll_workers (recording api) ct mt ns (s, ps) = (out, r, s1, ps1)" "\<forall>n\<in>set ns. is_worker n"
  shows "\<exists>qs. ps1 = ps @ qs \<and> list_all (allowed ns) qs \<and> length qs \<le> length ns \<and>
    poll_workers api ct mt ns s = (out, r, s1)"
  using assms
proof (induction ns arbitrary: out r s ps)
  case (Cons n ns)
  obtain o1 r1 s2 ps2 where w: "poll_worker (recording api) ct mt n (s, ps) = (o1, r1, s2, ps2)"
    by (metis prod_cases4)
  obtain qs where qs: "ps2 = ps @ qs" "patches_to n qs" "poll_worker api ct mt n s = (o1, r1, s2)"
    using recording_worker[OF w] by blast
  have ok: "list_all (allowed (n # ns)) qs" "length qs \<le> 1"
    using qs(2) Cons.prems(2) by (auto simp: patches_to_def allowed_def)
  show ?case
  proof (cases r1)
    case (Inl e)
    then have "out = o1" "r = Inl e" "s1 = s2" "ps1 = ps2" using Cons.prems(1) w by simp_all
    then show ?thesis using qs Inl ok by auto
  next
    case (Inr u)
    obtain o2 where o2: "poll_workers (recording api) ct mt ns (s2, ps2) = (o2, r, s1, ps1)" "out = o1 @ o2"
      using Cons.prems(1) w Inr by (auto split: prod.splits)
    obtain qs2 where qs2: "ps1 = ps2 @ qs2" "list_all (allowed ns) qs2" "length qs2 \<le> length ns"
        "poll_workers api ct mt ns s2 = (o2, r, s1)"
      using Cons.IH[OF o2(1)] Cons.prems(2) by auto
    have "list_all (allowed (n # ns)) qs2" using qs2(2) by (auto simp: list_all_iff allowed_def)
    then show ?thesis using qs qs2 ok o2(2) Inr by (intro exI[of _ "qs @ qs2"]) auto
  qed
qed auto

lemma recording_poll:
  assumes "poll (recording api) ct mt (s, ps) = (out, r, s1, ps1)"
  shows "poll api ct mt s = (out, r, s1) \<and> (\<exists>qs. ps1 = ps @ qs \<and>
    (case list_node api s of
       (Inl e, _) \<Rightarrow> qs = []
     | (Inr ns, _) \<Rightarrow> length qs \<le> length (filter is_worker ns) \<and> list_all (allowed ns) qs))"
proof (cases "list_node api s")
  case (Pair ln s2)
  have rec: "list_node (recording api) (s, ps) = (ln, s2, ps)" using Pair by (simp add: recording_def)
  show ?thesis
  proof (cases ln)
    case (Inl e)
    then show ?thesis using assms Pair rec by (simp add: poll_def)
  next
    case (Inr ns)
    show ?thesis
    proof (cases "filter is_worker ns = []")
      case True
      then show ?thesis using assms Pair rec Inr by (simp add: poll_def Let_def)
    next
      case False
      then have "poll_workers (recording api) ct mt (filter is_worker ns) (s2, ps) = (out, r, s1, ps1)"
        using assms rec Inr by (simp add: poll_def Let_def)
      from recording_workers[OF this] obtain qs where "ps1 = ps @ qs" "list_all (allowed (filter is_worker ns)) qs"
          "length qs \<le> length (filter is_worker ns)"
          "poll_workers api ct mt (filter is_worker ns) s2 = (out, r, s1)" by auto
      moreover from this(2) have "list_all (allowed ns) qs" by (auto simp: list_all_iff allowed_def)
      ultimately show ?thesis using Pair Inr False by (auto simp: poll_def Let_def)
    qed
  qed
qed

text \<open>
  C19: a poll sends at most one patch per worker of the list it read, and each patch it sends is to a worker
  of that list and changes whether it can be scheduled: no control-plane node is ever patched, and no node
  to the value it already has. (\<open>recording\<close> changes nothing else: the outcome and the log are those of the
  server alone.)
\<close>

theorem only_workers_patched:
  assumes "poll (recording api) ct mt (s, ps) = (out, r, s1, ps1)"
  shows "poll api ct mt s = (out, r, s1) \<and> (\<exists>qs. ps1 = ps @ qs \<and>
    (case list_node api s of
       (Inl e, _) \<Rightarrow> qs = []
     | (Inr ns, _) \<Rightarrow> length qs \<le> length (filter is_worker ns) \<and> list_all (allowed ns) qs))"
  using assms by (rule recording_poll)

section \<open>A server that keeps the cluster\<close>

text \<open>
  What the Kubernetes API promises: a list is what the cluster holds, a patch that succeeds changes the one
  field of the one node. Any call may fail; a patch that failed may have been applied.
\<close>

definition mark :: "string \<Rightarrow> bool \<Rightarrow> node \<Rightarrow> node" where
  "mark name b n = (if nd_name n = name then n\<lparr>nd_unschedulable := Some b\<rparr> else n)"

definition serves :: "'s api \<Rightarrow> ('s \<Rightarrow> node list) \<Rightarrow> ('s \<Rightarrow> string \<Rightarrow> pod list) \<Rightarrow> bool" where
  "serves api nodes pods = (
     (\<forall>s r s1. list_node api s = (r, s1) \<longrightarrow> nodes s1 = nodes s \<and> pods s1 = pods s \<and>
        (r = Inr (nodes s) \<or> isl r)) \<and>
     (\<forall>q s r s1. list_pods api q s = (r, s1) \<longrightarrow> nodes s1 = nodes s \<and> pods s1 = pods s \<and>
        (r = Inr (pods s q) \<or> isl r)) \<and>
     (\<forall>name b s r s1. patch_node api name b s = (r, s1) \<longrightarrow> pods s1 = pods s \<and>
        (nodes s1 = map (mark name b) (nodes s) \<or> (isl r \<and> nodes s1 = nodes s))))"

lemma servesD:
  assumes "serves api nodes pods"
  shows "list_node api s = (r, s1) \<Longrightarrow> nodes s1 = nodes s \<and> pods s1 = pods s \<and> (r = Inr (nodes s) \<or> isl r)"
    and "list_pods api q s = (r1, s1) \<Longrightarrow> nodes s1 = nodes s \<and> pods s1 = pods s \<and> (r1 = Inr (pods s q) \<or> isl r1)"
    and "patch_node api name b s = (r2, s1) \<Longrightarrow> pods s1 = pods s \<and>
      (nodes s1 = map (mark name b) (nodes s) \<or> (isl r2 \<and> nodes s1 = nodes s))"
  using assms unfolding serves_def by blast+

text \<open>What the monitor computes for a node from the pods the server lists, and the decision it takes.\<close>

definition shares :: "(string \<Rightarrow> pod list) \<Rightarrow> node \<Rightarrow> string + rat \<times> rat" where
  "shares pods n =
     (case allocatable_of n of Inl e \<Rightarrow> Inl e | Inr (alloc_cpu, alloc_mem) \<Rightarrow>
     (case sum_requests (concat (pods (pod_selector (nd_name n)))) (0, 0) of Inl e \<Rightarrow> Inl e | Inr (req_cpu, req_mem) \<Rightarrow>
        Inr (share req_cpu alloc_cpu, share req_mem alloc_mem)))"

definition pressed :: "rat \<Rightarrow> rat \<Rightarrow> (string \<Rightarrow> pod list) \<Rightarrow> node \<Rightarrow> bool" where
  "pressed ct mt pods n = (case shares pods n of Inl _ \<Rightarrow> False | Inr (cpu, mem) \<Rightarrow> ct \<le> cpu \<or> mt \<le> mem)"

definition patch_failed :: "monitor_entry list \<Rightarrow> string \<Rightarrow> bool" where
  "patch_failed out name = (\<exists>exc\<in>set out. case exc of Patch_Failed name1 _ \<Rightarrow> name1 = name | _ \<Rightarrow> False)"

lemma patch_failed_simps [simp]:
  "patch_failed [] name = False"
  "patch_failed (x # xs) name = ((case x of Patch_Failed name1 _ \<Rightarrow> name1 = name | _ \<Rightarrow> False) \<or> patch_failed xs name)"
  "patch_failed (xs @ ys) name = (patch_failed xs name \<or> patch_failed ys name)"
  by (auto simp: patch_failed_def)

lemma settle_effect:
  assumes "serves api nodes pods" "settle api name over cordoned s = (out, r, s1)"
  shows "pods s1 = pods s"
    and "over = cordoned \<Longrightarrow> nodes s1 = nodes s \<and> out = [] \<and> r = Inr ()"
    and "over \<noteq> cordoned \<Longrightarrow> nodes s1 = map (mark name over) (nodes s) \<or>
      (nodes s1 = nodes s \<and> (isl r \<or> patch_failed out name))"
  using assms(2) servesD(3)[OF assms(1), of name over s]
  by (auto simp: settle_def cordon_node_def uncordon_node_def
      split: prod.splits sum.splits k8s_error.splits if_splits)

definition after_list :: "'s api \<Rightarrow> node \<Rightarrow> 's \<Rightarrow> 's" where
  "after_list api n s = snd (list_pods api (pod_selector (nd_name n)) s)"

lemma worker_cases:
  assumes "serves api nodes pods" "poll_worker api ct mt n s = (out, r, s1)"
  obtains (stopped) "isl r" "nodes s1 = nodes s" "pods s1 = pods s" "s1 \<in> {s, after_list api n s}"
  | (settled) s2 out1 line where "\<not> isl (shares (pods s) n)" "nodes s2 = nodes s" "pods s2 = pods s"
      "s2 = after_list api n s"
      "settle api (nd_name n) (pressed ct mt (pods s) n) (is_cordoned_by_us n) s2 = (out1, r, s1)"
      "out = line # out1" "\<forall>name. \<not> patch_failed [line] name"
proof (cases "allocatable_of n")
  case (Inl msg)
  then show thesis using assms(2) stopped by (auto simp: poll_worker_def value_error_def)
next
  case (Inr ac)
  obtain lr s2 where l: "list_pods api (pod_selector (nd_name n)) s = (lr, s2)" by fastforce
  note same = servesD(2)[OF assms(1) l]
  have s2: "after_list api n s = s2" using l by (simp add: after_list_def)
  show thesis
  proof (cases "isl lr \<or> isl (sum_requests (concat (pods s (pod_selector (nd_name n)))) (0, 0))")
    case True
    have "isl r \<and> s1 = s2"
    proof (cases lr)
      case (Inl e)
      then show ?thesis using assms(2) Inr l
        by (cases ac) (auto simp: poll_worker_def value_error_def get_requested_resources_def)
    next
      case lr: (Inr ps)
      then obtain msg where "sum_requests (concat ps) (0, 0) = Inl msg" using True same by (auto simp: isl_def)
      then show ?thesis using assms(2) Inr l lr
        by (cases ac) (auto simp: poll_worker_def value_error_def get_requested_resources_def)
    qed
    then show thesis using stopped same s2 by simp
  next
    case False
    then obtain req where req: "sum_requests (concat (pods s (pod_selector (nd_name n)))) (0, 0) = Inr req"
      by (metis sum.collapse(2))
    have lr: "lr = Inr (pods s (pod_selector (nd_name n)))" using same False by simp
    obtain alloc_cpu alloc_mem req_cpu req_mem where p: "ac = (alloc_cpu, alloc_mem)" "req = (req_cpu, req_mem)"
      by fastforce
    have sh: "shares (pods s) n = Inr (share req_cpu alloc_cpu, share req_mem alloc_mem)"
      using Inr req p by (simp add: shares_def)
    obtain out1 r1 s3 where st: "settle api (nd_name n) (pressed ct mt (pods s) n) (is_cordoned_by_us n) s2 = (out1, r1, s3)"
      by (metis prod_cases3)
    let ?line = "Reading (nd_name n) (share req_cpu alloc_cpu) (share req_mem alloc_mem) (is_cordoned_by_us n)
        (pressed ct mt (pods s) n)"
    have res: "out = ?line # out1" "r = r1" "s1 = s3"
      using assms(2) Inr l lr req p st sh
      by (simp_all add: poll_worker_def value_error_def get_requested_resources_def Let_def pressed_def)
    show thesis
    proof (rule settled)
      show "settle api (nd_name n) (pressed ct mt (pods s) n) (is_cordoned_by_us n) s2 = (out1, r, s1)"
        using st res by simp
      show "out = ?line # out1" by (rule res(1))
    qed (use same sh s2 in simp_all)
  qed
qed

lemma worker_effect:
  assumes "serves api nodes pods" "poll_worker api ct mt n s = (out, r, s1)"
  shows "pods s1 = pods s"
    and "nodes s1 = nodes s \<or> (\<exists>b. nodes s1 = map (mark (nd_name n) b) (nodes s))"
    and "isl (shares (pods s) n) \<Longrightarrow> isl r \<and> nodes s1 = nodes s"
    and "r = Inr () \<Longrightarrow> \<not> patch_failed out (nd_name n) \<Longrightarrow>
      nodes s1 = nodes s \<and> pressed ct mt (pods s) n = is_cordoned_by_us n \<or>
      nodes s1 = map (mark (nd_name n) (pressed ct mt (pods s) n)) (nodes s)"
proof -
  have "pods s1 = pods s \<and> (nodes s1 = nodes s \<or> (\<exists>b. nodes s1 = map (mark (nd_name n) b) (nodes s))) \<and>
    (isl (shares (pods s) n) \<longrightarrow> isl r \<and> nodes s1 = nodes s) \<and>
    (r = Inr () \<longrightarrow> \<not> patch_failed out (nd_name n) \<longrightarrow>
      nodes s1 = nodes s \<and> pressed ct mt (pods s) n = is_cordoned_by_us n \<or>
      nodes s1 = map (mark (nd_name n) (pressed ct mt (pods s) n)) (nodes s))"
  proof (cases rule: worker_cases[OF assms])
    case 1 then show ?thesis by auto
  next
    case (2 s2 out1 line)
    then have "patch_failed out (nd_name n) = patch_failed out1 (nd_name n)" by simp
    then show ?thesis using 2(1-3) settle_effect[OF assms(1) 2(5)]
      by (cases "pressed ct mt (pods s) n = is_cordoned_by_us n") auto
  qed
  then show "pods s1 = pods s"
    and "nodes s1 = nodes s \<or> (\<exists>b. nodes s1 = map (mark (nd_name n) b) (nodes s))"
    and "isl (shares (pods s) n) \<Longrightarrow> isl r \<and> nodes s1 = nodes s"
    and "r = Inr () \<Longrightarrow> \<not> patch_failed out (nd_name n) \<Longrightarrow>
      nodes s1 = nodes s \<and> pressed ct mt (pods s) n = is_cordoned_by_us n \<or>
      nodes s1 = map (mark (nd_name n) (pressed ct mt (pods s) n)) (nodes s)"
    by blast+
qed

lemma workers_effect:
  assumes "serves api nodes pods" "poll_workers api ct mt ns s = (out, r, s1)" "distinct (map nd_name ns)"
  shows "pods s1 = pods s \<and> (\<exists>f. nodes s1 = map f (nodes s) \<and>
    (\<forall>x. f x = x \<or> (nd_name x \<in> nd_name ` set ns \<and> (\<exists>b. f x = x\<lparr>nd_unschedulable := Some b\<rparr>))) \<and>
    (r = Inr () \<longrightarrow> (\<forall>n\<in>set ns. \<not> patch_failed out (nd_name n) \<longrightarrow>
       is_cordoned_by_us (f n) = pressed ct mt (pods s) n)))"
  using assms(2,3)
proof (induction ns arbitrary: out r s)
  case Nil
  then show ?case by (auto intro!: exI[of _ "\<lambda>x. x"])
next
  case (Cons n ns)
  obtain o1 r1 s2 where w: "poll_worker api ct mt n s = (o1, r1, s2)" by (metis prod_cases3)
  note eff = worker_effect[OF assms(1) w]
  obtain f where f: "nodes s2 = map f (nodes s)"
      "\<forall>x. f x = x \<or> (nd_name x = nd_name n \<and> (\<exists>b. f x = x\<lparr>nd_unschedulable := Some b\<rparr>))"
      "r1 = Inr () \<Longrightarrow> \<not> patch_failed o1 (nd_name n) \<Longrightarrow> is_cordoned_by_us (f n) = pressed ct mt (pods s) n"
  proof (cases "r1 = Inr () \<and> \<not> patch_failed o1 (nd_name n)")
    case True
    then consider "nodes s2 = nodes s" "pressed ct mt (pods s) n = is_cordoned_by_us n"
      | "nodes s2 = map (mark (nd_name n) (pressed ct mt (pods s) n)) (nodes s)" using eff(4) by blast
    then show thesis
    proof cases
      case 1 then show thesis by (intro that[of "\<lambda>x. x"]) auto
    next
      case 2 then show thesis
        by (intro that[of "mark (nd_name n) (pressed ct mt (pods s) n)"]) (auto simp: mark_def is_cordoned_by_us_def)
    qed
  next
    case False
    from eff(2) show thesis
    proof (elim disjE exE)
      assume "nodes s2 = nodes s" then show thesis using False by (intro that[of "\<lambda>x. x"]) auto
    next
      fix b assume "nodes s2 = map (mark (nd_name n) b) (nodes s)"
      then show thesis using False by (intro that[of "mark (nd_name n) b"]) (auto simp: mark_def)
    qed
  qed
  show ?case
  proof (cases r1)
    case (Inl e)
    then have "r = Inl e" "s1 = s2" using Cons.prems(1) w by simp_all
    then show ?thesis using f(1,2) eff(1) by (auto intro!: exI[of _ f])
  next
    case (Inr u)
    obtain o2 where o2: "poll_workers api ct mt ns s2 = (o2, r, s1)" "out = o1 @ o2"
      using Cons.prems(1) w Inr by (auto split: prod.splits)
    obtain g where g: "pods s1 = pods s" "nodes s1 = map g (nodes s2)"
        "\<forall>x. g x = x \<or> (nd_name x \<in> nd_name ` set ns \<and> (\<exists>b. g x = x\<lparr>nd_unschedulable := Some b\<rparr>))"
        "r = Inr () \<longrightarrow> (\<forall>n\<in>set ns. \<not> patch_failed o2 (nd_name n) \<longrightarrow>
           is_cordoned_by_us (g n) = pressed ct mt (pods s) n)"
      using Cons.IH[OF o2(1)] Cons.prems(2) eff(1) by auto
    have new: "nd_name n \<notin> nd_name ` set ns" using Cons.prems(2) by simp
    have "nodes s1 = map (\<lambda>x. g (f x)) (nodes s)" using g(2) f(1) by simp
    moreover have "g (f x) = x \<or> (nd_name x \<in> nd_name ` set (n # ns) \<and> (\<exists>b. g (f x) = x\<lparr>nd_unschedulable := Some b\<rparr>))" for x
    proof (cases "nd_name x = nd_name n")
      case True
      then have "nd_name (f x) \<notin> nd_name ` set ns" using f(2) new by (metis node.simps(1) node.surjective node.update_convs(4))
      then have "g (f x) = f x" using g(3) by blast
      then show ?thesis using f(2) True by auto
    next
      case False
      then have "f x = x" using f(2) by blast
      then show ?thesis using g(3) by auto
    qed
    moreover have "is_cordoned_by_us (g (f m)) = pressed ct mt (pods s) m"
      if "r = Inr ()" "m \<in> set (n # ns)" "\<not> patch_failed out (nd_name m)" for m
    proof (cases "m = n")
      case True
      have "nd_name (f n) = nd_name n" using f(2) by (metis node.simps(1) node.surjective node.update_convs(4))
      then have "g (f n) = f n" using g(3) new by metis
      then show ?thesis using f(3) Inr True that o2(2) by simp
    next
      case False
      then have m: "m \<in> set ns" using that(2) by simp
      then have "f m = m" using f(2) new by (metis imageI)
      then show ?thesis using g(4) that m o2(2) by simp
    qed
    ultimately show ?thesis using g(1) by (intro conjI exI[of _ "\<lambda>x. g (f x)"]) blast+
  qed
qed

lemma pressed_mark [simp]:
  "pressed ct mt pods (n\<lparr>nd_unschedulable := b\<rparr>) = pressed ct mt pods n"
  "shares pods (n\<lparr>nd_unschedulable := b\<rparr>) = shares pods n"
  "is_worker (n\<lparr>nd_unschedulable := b\<rparr>) = is_worker n"
  by (simp_all add: pressed_def shares_def allocatable_of_def is_worker_def cong: sum.case_cong)

definition settled_node :: "rat \<Rightarrow> rat \<Rightarrow> (string \<Rightarrow> pod list) \<Rightarrow> monitor_entry list \<Rightarrow> node \<Rightarrow> node \<Rightarrow> bool" where
  "settled_node ct mt pods out n n1 =
     (n1 = n\<lparr>nd_unschedulable := nd_unschedulable n1\<rparr> \<and>
      (if is_worker n then patch_failed out (nd_name n) \<or> is_cordoned_by_us n1 = pressed ct mt pods n
       else n1 = n))"

lemma poll_effect:
  assumes "serves api nodes pods" "distinct (map nd_name (nodes s))" "poll api ct mt s = (out, Inr (), s1)"
  shows "pods s1 = pods s \<and> list_all2 (settled_node ct mt (pods s) out) (nodes s) (nodes s1)"
proof -
  obtain ln s2 where l: "list_node api s = (ln, s2)" by fastforce
  note same = servesD(1)[OF assms(1) l]
  have ln: "ln = Inr (nodes s)" using same assms(3) l by (cases ln) (auto simp: poll_def)
  let ?ws = "filter is_worker (nodes s)"
  have "distinct (map nd_name ?ws)" using assms(2) by (simp add: distinct_map_filter)
  moreover have "poll_workers api ct mt ?ws s2 = (out, Inr (), s1) \<or> (?ws = [] \<and> s1 = s2)"
    using assms(3) l ln by (auto simp: poll_def Let_def split: if_splits)
  ultimately obtain f where f: "pods s1 = pods s2" "nodes s1 = map f (nodes s2)"
      "\<forall>x. f x = x \<or> (nd_name x \<in> nd_name ` set ?ws \<and> (\<exists>b. f x = x\<lparr>nd_unschedulable := Some b\<rparr>))"
      "\<forall>n\<in>set ?ws. \<not> patch_failed out (nd_name n) \<longrightarrow> is_cordoned_by_us (f n) = pressed ct mt (pods s2) n"
  proof (elim disjE)
    assume "poll_workers api ct mt ?ws s2 = (out, Inr (), s1)" "distinct (map nd_name ?ws)"
    from workers_effect[OF assms(1) this] show thesis using that by blast
  next
    assume "?ws = [] \<and> s1 = s2" then show thesis by (intro that[of "\<lambda>x. x"]) auto
  qed
  have "settled_node ct mt (pods s) out n (f n)" if n: "n \<in> set (nodes s)" for n
  proof -
    have "is_worker n" if "nd_name n \<in> nd_name ` set ?ws"
    proof -
      from that obtain w where "w \<in> set (nodes s)" "is_worker w" "nd_name w = nd_name n" by auto
      then show ?thesis using assms(2) n by (metis distinct_map inj_onD)
    qed
    moreover have "f n = n\<lparr>nd_unschedulable := nd_unschedulable (f n)\<rparr>" using f(3)[rule_format, of n] by auto
    ultimately show ?thesis using f(3,4) n same by (auto simp: settled_node_def)
  qed
  then show ?thesis using f(1,2) same by (auto simp: list_all2_map2 list_all2_same)
qed


section \<open>Quiet polls\<close>

lemma quiet_worker:
  assumes "serves api nodes pods" "poll_worker (recording api) ct mt n (s, ps) = (out, r, s1, ps1)"
    and "isl (shares (pods s) n) \<or> pressed ct mt (pods s) n = is_cordoned_by_us n"
  shows "ps1 = ps \<and> nodes s1 = nodes s \<and> pods s1 = pods s"
proof -
  have rec: "serves (recording api) (\<lambda>(s, _). nodes s) (\<lambda>(s, _). pods s)"
    using servesD[OF assms(1)] by (fastforce simp: serves_def recording_def split: prod.splits)
  have after: "snd (after_list (recording api) n (s, ps)) = ps"
    by (simp add: after_list_def recording_def split: prod.splits)
  show ?thesis
  proof (cases rule: worker_cases[OF rec assms(2)])
    case 1 then show ?thesis using after by (auto dest: arg_cong[of _ _ snd])
  next
    case (2 s2 out1 line)
    then have "settle (recording api) (nd_name n) (is_cordoned_by_us n) (is_cordoned_by_us n) s2 = (out1, r, s1, ps1)"
      using assms(3) by auto
    then have "s2 = (s1, ps1)" by (simp add: settle_def)
    then show ?thesis using 2 after by auto
  qed
qed

lemma quiet_workers:
  assumes "serves api nodes pods" "poll_workers (recording api) ct mt ns (s, ps) = (out, r, s1, ps1)"
    and "\<forall>n\<in>set ns. pressed ct mt (pods s) n = is_cordoned_by_us n"
  shows "ps1 = ps \<and> nodes s1 = nodes s \<and> pods s1 = pods s"
  using assms(2,3)
proof (induction ns arbitrary: out s ps)
  case (Cons n ns)
  obtain o1 r1 s2 ps2 where w: "poll_worker (recording api) ct mt n (s, ps) = (o1, r1, s2, ps2)"
    by (metis prod_cases4)
  have q: "ps2 = ps \<and> nodes s2 = nodes s \<and> pods s2 = pods s"
    using quiet_worker[OF assms(1) w] Cons.prems(2) by simp
  show ?case
  proof (cases r1)
    case (Inl e) then show ?thesis using Cons.prems(1) w q by simp
  next
    case (Inr u)
    then obtain o2 where "poll_workers (recording api) ct mt ns (s2, ps2) = (o2, r, s1, ps1)"
      using Cons.prems(1) w by (auto split: prod.splits)
    from Cons.IH[OF this] show ?thesis using q Cons.prems(2) by simp
  qed
qed simp

text \<open>
  the second of two polls patches nothing: after a poll that came to its end and had no patch fail, with the
  same pods in the cluster, the next one sends no patch at all, whatever its own calls answer.
\<close>

theorem second_poll_patches_nothing:
  assumes "serves api nodes pods" "distinct (map nd_name (nodes s))"
    and "poll api ct mt s = (out, Inr (), s1)" "\<forall>n\<in>set (nodes s). \<not> patch_failed out (nd_name n)"
    and "poll (recording api) ct mt (s1, ps) = (out1, r, s2, ps2)"
  shows "ps2 = ps \<and> nodes s2 = nodes s1"
proof -
  have eff: "pods s1 = pods s" "list_all2 (settled_node ct mt (pods s) out) (nodes s) (nodes s1)"
    using poll_effect[OF assms(1-3)] by auto
  have good: "pressed ct mt (pods s1) n1 = is_cordoned_by_us n1" if n1: "n1 \<in> set (nodes s1)" "is_worker n1" for n1
  proof -
    obtain n where n: "n \<in> set (nodes s)" "settled_node ct mt (pods s) out n n1"
      using eff(2) n1(1) by (metis in_set_conv_nth list_all2_conv_all_nth)
    then have "n1 = n\<lparr>nd_unschedulable := nd_unschedulable n1\<rparr>" by (simp add: settled_node_def)
    then have "is_worker n = is_worker n1" "pressed ct mt (pods s1) n1 = pressed ct mt (pods s) n"
      using eff(1) by (metis pressed_mark(3), metis pressed_mark(1))
    then show ?thesis using n n1(2) assms(4) by (auto simp: settled_node_def)
  qed
  obtain ln s3 where l: "list_node api s1 = (ln, s3)" by fastforce
  note same = servesD(1)[OF assms(1) l]
  have rec: "list_node (recording api) (s1, ps) = (ln, s3, ps)" using l by (simp add: recording_def)
  show ?thesis
  proof (cases ln)
    case (Inl e) then show ?thesis using assms(5) rec same by (simp add: poll_def)
  next
    case (Inr ns)
    then have ns: "ns = nodes s1" using same by simp
    show ?thesis
    proof (cases "filter is_worker ns = []")
      case True then show ?thesis using assms(5) rec same Inr by (simp add: poll_def Let_def)
    next
      case False
      then have "poll_workers (recording api) ct mt (filter is_worker ns) (s3, ps) = (out1, r, s2, ps2)"
        using assms(5) rec Inr by (simp add: poll_def Let_def)
      from quiet_workers[OF assms(1) this] show ?thesis using good same ns by auto
    qed
  qed
qed

section \<open>A quantity the monitor cannot read\<close>

definition touches_only :: "node list \<Rightarrow> (node \<Rightarrow> node) \<Rightarrow> bool" where
  "touches_only us f = (\<forall>x. nd_name (f x) = nd_name x \<and> (nd_name x \<notin> nd_name ` set us \<longrightarrow> f x = x))"

lemma blocked_workers:
  assumes "serves api nodes pods"
    and "poll_workers (recording api) ct mt (us @ n # vs) (s, ps) = (out, r, s1, ps1)" "isl (shares (pods s) n)"
  shows "isl r \<and> pods s1 = pods s \<and> (\<exists>f. nodes s1 = map f (nodes s) \<and> touches_only us f) \<and>
    (\<exists>qs. ps1 = ps @ qs \<and> fst ` set qs \<subseteq> nd_name ` set us)"
  using assms(2,3)
proof (induction us arbitrary: out s ps)
  case Nil
  obtain o1 r1 s2 ps2 where w: "poll_worker (recording api) ct mt n (s, ps) = (o1, r1, s2, ps2)"
    by (metis prod_cases4)
  then have "poll_worker api ct mt n s = (o1, r1, s2)" using recording_worker[OF w] by blast
  then have "isl r1" using worker_effect(3)[OF assms(1)] Nil.prems(2) by blast
  moreover have "ps2 = ps \<and> nodes s2 = nodes s \<and> pods s2 = pods s"
    using quiet_worker[OF assms(1) w] Nil.prems(2) by simp
  ultimately show ?case using Nil.prems(1) w
    by (auto simp: isl_def touches_only_def intro!: exI[of _ "\<lambda>x. x"])
next
  case (Cons u us)
  obtain o1 r1 s2 ps2 where w: "poll_worker (recording api) ct mt u (s, ps) = (o1, r1, s2, ps2)"
    by (metis prod_cases4)
  obtain qs where qs: "ps2 = ps @ qs" "patches_to u qs" "poll_worker api ct mt u s = (o1, r1, s2)"
    using recording_worker[OF w] by blast
  note eff = worker_effect[OF assms(1) qs(3)]
  obtain f where f: "nodes s2 = map f (nodes s)" "touches_only [u] f"
  proof (cases "nodes s2 = nodes s")
    case True then show thesis by (intro that[of "\<lambda>x. x"]) (auto simp: touches_only_def)
  next
    case False
    then obtain b where "nodes s2 = map (mark (nd_name u) b) (nodes s)" using eff(2) by blast
    then show thesis by (intro that[of "mark (nd_name u) b"]) (auto simp: touches_only_def mark_def)
  qed
  have to_u: "fst ` set qs \<subseteq> {nd_name u}" using qs(2) by (auto simp: patches_to_def)
  show ?case
  proof (cases r1)
    case (Inl e)
    then have "r = Inl e" "s1 = s2" "ps1 = ps2" using Cons.prems(1) w by simp_all
    moreover have "touches_only (u # us) f" using f(2) by (auto simp: touches_only_def)
    ultimately show ?thesis using qs(1) to_u f(1) eff(1) by auto
  next
    case (Inr x)
    then obtain o2 where "poll_workers (recording api) ct mt (us @ n # vs) (s2, ps2) = (o2, r, s1, ps1)"
      using Cons.prems(1) w by (auto split: prod.splits)
    from Cons.IH[OF this] obtain g qs2 where g: "isl r" "pods s1 = pods s2" "nodes s1 = map g (nodes s2)"
        "touches_only us g" "ps1 = ps2 @ qs2" "fst ` set qs2 \<subseteq> nd_name ` set us"
      using Cons.prems(2) eff(1) by auto
    have "touches_only (u # us) (\<lambda>x. g (f x))" using f(2) g(4) by (auto simp: touches_only_def)
    then have "\<exists>f. nodes s1 = map f (nodes s) \<and> touches_only (u # us) f"
      using f(1) g(3) by (intro exI[of _ "\<lambda>x. g (f x)"]) simp
    moreover have "ps1 = ps @ (qs @ qs2) \<and> fst ` set (qs @ qs2) \<subseteq> nd_name ` set (u # us)"
      using qs(1) g(5,6) to_u by auto
    ultimately show ?thesis using g(1,2) eff(1) by (intro conjI exI[of _ "qs @ qs2"]) auto
  qed
qed

lemma blocked_round:
  assumes "serves api nodes pods" "distinct (map nd_name (nodes s))" "nodes s = us @ n # vs"
    and "is_worker n" "isl (shares (pods s) n)" "poll_once (recording api) ct mt (s, ps) = (out, s1, ps1)"
  shows "pods s1 = pods s \<and> (\<exists>us1. nodes s1 = us1 @ n # vs \<and> map nd_name us1 = map nd_name us) \<and>
    (\<exists>qs. ps1 = ps @ qs \<and> fst ` set qs \<subseteq> nd_name ` set us)"
proof -
  obtain o1 r where p: "poll (recording api) ct mt (s, ps) = (o1, r, s1, ps1)"
    using assms(6) by (auto simp: poll_once_def split: prod.splits sum.splits k8s_error.splits)
  obtain ln s3 where l: "list_node api s = (ln, s3)" by fastforce
  note same = servesD(1)[OF assms(1) l]
  have rec: "list_node (recording api) (s, ps) = (ln, s3, ps)" using l by (simp add: recording_def)
  show ?thesis
  proof (cases ln)
    case (Inl e) then show ?thesis using p rec same assms(3) by (auto simp: poll_def)
  next
    case (Inr ns)
    then have ns: "ns = us @ n # vs" using same assms(3) by simp
    then have "poll_workers (recording api) ct mt (filter is_worker us @ n # filter is_worker vs) (s3, ps) = (o1, r, s1, ps1)"
      using p rec Inr assms(4) by (simp add: poll_def Let_def)
    from blocked_workers[OF assms(1) this] obtain f qs where f: "pods s1 = pods s3" "nodes s1 = map f (nodes s3)"
        "touches_only (filter is_worker us) f" "ps1 = ps @ qs" "fst ` set qs \<subseteq> nd_name ` set (filter is_worker us)"
      using assms(5) same by auto
    have "nd_name ` set us \<inter> nd_name ` set (n # vs) = {}" using assms(2,3) by auto
    then have "nd_name x \<notin> nd_name ` set (filter is_worker us)" if "x \<in> set (n # vs)" for x using that by auto
    then have "f x = x" if "x \<in> set (n # vs)" for x using that f(3) by (auto simp: touches_only_def)
    then have "map f (n # vs) = n # vs" by (intro map_idI) auto
    then have "nodes s1 = map f us @ n # vs" using f(2) same assms(3) by simp
    moreover have "map nd_name (map f us) = map nd_name us" using f(3) by (simp add: touches_only_def)
    ultimately show ?thesis using f(1,4,5) same by auto
  qed
qed

text \<open>
  C18: one quantity the monitor cannot read, of a worker or of a pod on it, ends every poll at that worker: in no
  number of rounds does the monitor patch that worker or any node listed after it, whatever their requests.
\<close>

theorem unreadable_quantity_blocks_the_rest:
  assumes "serves api nodes pods" "distinct (map nd_name (nodes s))" "nodes s = us @ n # vs"
    and "is_worker n" "isl (shares (pods s) n)" "poll_rounds (recording api) ct mt k (s, ps) = (out, s1, ps1)"
  shows "drop (length us) (nodes s1) = n # vs \<and>
    (\<exists>qs. ps1 = ps @ qs \<and> fst ` set qs \<inter> nd_name ` set (n # vs) = {})"
proof -
  have "(\<exists>us1. nodes s1 = us1 @ n # vs \<and> map nd_name us1 = map nd_name us) \<and>
      (\<exists>qs. ps1 = ps @ qs \<and> fst ` set qs \<subseteq> nd_name ` set us)"
    using assms(2-6)
  proof (induction k arbitrary: us s ps out)
    case (Suc k)
    obtain o1 s2 ps2 where o1: "poll_once (recording api) ct mt (s, ps) = (o1, s2, ps2)" by (metis prod_cases3)
    from blocked_round[OF assms(1) Suc.prems(1-4) o1] obtain us1 qs where r: "pods s2 = pods s"
        "nodes s2 = us1 @ n # vs" "map nd_name us1 = map nd_name us" "ps2 = ps @ qs"
        "fst ` set qs \<subseteq> nd_name ` set us" by blast
    obtain o2 where "poll_rounds (recording api) ct mt k (s2, ps2) = (o2, s1, ps1)"
      using Suc.prems(5) o1 by (auto split: prod.splits)
    from Suc.IH[OF _ r(2) Suc.prems(3) _ this] obtain us2 qs2 where
        "nodes s1 = us2 @ n # vs" "map nd_name us2 = map nd_name us1" "ps1 = ps2 @ qs2"
        "fst ` set qs2 \<subseteq> nd_name ` set us1"
      using r Suc.prems(1,2,4) by auto
    moreover have "nd_name ` set us1 = nd_name ` set us" using r(3) by (metis set_map)
    ultimately show ?case using r(3-5) by (auto intro!: exI[of _ "qs @ qs2"])
  qed auto
  then obtain us1 qs where u: "nodes s1 = us1 @ n # vs" "map nd_name us1 = map nd_name us" "ps1 = ps @ qs"
      "fst ` set qs \<subseteq> nd_name ` set us" by blast
  moreover have "length us1 = length us" using u(2) by (metis length_map)
  moreover have "nd_name ` set us \<inter> nd_name ` set (n # vs) = {}" using assms(2,3) by auto
  ultimately show ?thesis by (auto intro!: exI[of _ qs])
qed

section \<open>Quantities are read exactly\<close>

lemma ends_in_unit:
  "list_all is_digit ds \<Longrightarrow> endswith (ds @ [c]) [d] = (c = d)"
  "list_all is_digit ds \<Longrightarrow> endswith (ds @ [b, c]) [d] = (c = d)"
  "list_all is_digit ds \<Longrightarrow> endswith (ds @ [b, c]) [d, e] = (b = d \<and> c = e)"
  "list_all is_digit ds \<Longrightarrow> \<not> is_digit d \<Longrightarrow> \<not> endswith (ds @ [c]) [d, e]"
  "list_all is_digit ds \<Longrightarrow> \<not> is_digit d \<Longrightarrow> \<not> endswith ds [d]"
  "list_all is_digit ds \<Longrightarrow> \<not> is_digit d \<Longrightarrow> \<not> endswith ds [d, e]"
  by (auto simp: endswith_iff append_eq_append_conv2 Cons_eq_append_conv append_eq_Cons_conv)

lemma plain_number:
  "n \<le> 2 ^ 53 \<Longrightarrow> py_float_of (str_of_nat n) = Inr (of_nat n)"
  "list_all is_digit (str_of_nat n)"
  using py_float_of_nat digits_str_of_nat by auto

lemma scaled_exact:
  "int n * m \<le> 2 ^ 53 \<Longrightarrow> 0 < m \<Longrightarrow> n \<le> 2 ^ 53 \<and> dbl (of_nat n * of_int m) = of_int (int n * m)"
proof -
  assume a: "int n * m \<le> 2 ^ 53" "0 < m"
  then have "int n \<le> int n * m" by (simp add: mult_le_cancel_left1)
  then have "int n \<le> 2 ^ 53" using a(1) by linarith
  moreover have "dbl (of_int (int n * m)) = of_int (int n * m)" using a by (intro dbl_exact is_dbl_int) simp
  ultimately show ?thesis by simp
qed

lemma in_unit:
  assumes "(suffix, m) \<in> set memory_units" "int n * m \<le> 2 ^ 53"
  shows "parse_memory_to_bytes (str_of_nat n @ suffix) = Inr (of_int (int n * m))"
proof -
  have "0 < m" using assms(1) by (auto simp: memory_units_def)
  note exact = scaled_exact[OF assms(2) this]
  have "py_float_of (str_of_nat n) = Inr (of_nat n)" "dbl (of_nat n * of_int m) = of_int (int n * m)"
    using exact plain_number(1) by blast+
  moreover have "parse_memory_to_bytes (str_of_nat n @ suffix) =
      (case py_float_of (str_of_nat n) of Inl e \<Rightarrow> Inl e | Inr x \<Rightarrow> Inr (dbl (x * of_int m)))"
    using assms(1) plain_number(2)[of n]
    unfolding memory_units_def list.set insert_iff prod.inject empty_iff
    by (elim disjE conjE FalseE)
      (simp_all add: parse_memory_to_bytes_def memory_units_def ends_in_unit is_digit_def cong: sum.case_cong)
  ultimately show ?thesis by (simp only: sum.case)
qed

text \<open>A numeral followed by letters is not a number, unless an exponent follows an \<open>e\<close>.\<close>

lemma not_a_number:
  assumes "x = CHR ''e'' \<or> x = CHR ''E'' \<Longrightarrow> \<not> py_isdigit (snd (signed xs))" "\<not> is_digit x" "x \<noteq> CHR ''.''"
    and "\<not> py_space (last (x # xs))"
  shows "isl (py_float_of (str_of_nat n @ x # xs))"
proof -
  let ?ds = "str_of_nat n"
  have ds: "?ds \<noteq> []" "list_all is_digit ?ds" using digits_str_of_nat[of n] by auto
  obtain c r where c: "?ds = c # r" "is_digit c" using ds by (cases ?ds) auto
  have "dropWhile py_space (?ds @ x # xs) = ?ds @ x # xs"
    using c by (auto simp: is_digit_def py_space_def)
  moreover have "dropWhile py_space (rev (?ds @ x # xs)) = rev (?ds @ x # xs)"
    using assms(4) by (cases xs rule: rev_cases) auto
  ultimately have strip: "py_strip (?ds @ x # xs) = ?ds @ x # xs" by (simp add: py_strip_def)
  have sg: "signed (?ds @ x # xs) = (False, ?ds @ x # xs)" using c by (auto simp: signed_def is_digit_def)
  have tw: "takeWhile is_digit (?ds @ x # xs) = ?ds" "dropWhile is_digit (?ds @ x # xs) = x # xs"
    using ds(2) assms(2) by (simp_all add: takeWhile_append2 dropWhile_append2 list_all_iff)
  have "exponent_part (x # xs) = None"
    using assms(1) by (auto simp: exponent_part_def split: prod.splits)
  then have "decimal (?ds @ x # xs) = None"
    using ds(1) assms(3) by (simp add: decimal_def sg tw fraction_part_def)
  then show ?thesis by (simp add: py_float_of_def strip)
qed

lemma other_suffix:
  assumes "suffix \<in> {''k'', ''m'', ''P'', ''E'', ''Pi'', ''Ei''}"
  shows "isl (parse_memory_to_bytes (str_of_nat n @ suffix))"
proof -
  have "parse_memory_to_bytes (str_of_nat n @ suffix) = py_float_of (str_of_nat n @ suffix)"
    using assms plain_number(2)[of n] unfolding insert_iff empty_iff
    by (elim disjE FalseE)
      (simp_all add: parse_memory_to_bytes_def memory_units_def ends_in_unit is_digit_def)
  moreover have "isl (py_float_of (str_of_nat n @ suffix))"
    using assms unfolding insert_iff empty_iff
    by (elim disjE FalseE)
      (simp_all only:, (rule not_a_number; simp add: is_digit_def py_space_def signed_def py_isdigit_def)+)
  ultimately show ?thesis by simp
qed


section \<open>Rounding and the default threshold\<close>

lemma share_75:
  assumes "0 < a" "a \<le> 2 ^ 49"
  shows "75 \<le> share (of_nat r) (of_nat a) \<longleftrightarrow> 3 * a \<le> 4 * r"
proof -
  let ?q = "of_nat r / of_nat a :: rat"
  have a: "0 < (of_nat a :: rat)" "(of_nat a :: rat) \<le> 2 ^ 49"
    using assms by (simp, metis of_nat_le_iff of_nat_numeral of_nat_power)
  have q: "0 \<le> ?q" by simp
  show ?thesis
  proof
    assume "3 * a \<le> 4 * r"
    then have "of_nat (3 * a) \<le> (of_nat (4 * r) :: rat)" by (simp only: of_nat_le_iff)
    then have "3 * of_nat a \<le> (4 * of_nat r :: rat)" by simp
    then have "3 / 4 \<le> ?q" using a by (simp add: field_simps)
    moreover have "is_dbl (3 / 4)" unfolding is_dbl_def
      by (intro exI[of _ 3] exI[of _ "-2"]) (simp add: power_int_def power2_eq_square)
    ultimately have "3 / 4 \<le> dbl ?q" by (intro dbl_ge) auto
    then have "75 \<le> dbl ?q * 100" by simp
    moreover have "is_dbl 75" using is_dbl_int[of 75] by simp
    ultimately show "75 \<le> share (of_nat r) (of_nat a)" using a by (simp add: share_def dbl_ge)
  next
    assume *: "75 \<le> share (of_nat r) (of_nat a)"
    show "3 * a \<le> 4 * r"
    proof (rule ccontr)
      assume "\<not> 3 * a \<le> 4 * r"
      then have "4 * r + 1 \<le> 3 * a" by simp
      then have "of_nat (4 * r + 1) \<le> (of_nat (3 * a) :: rat)" by (simp only: of_nat_le_iff)
      then have "4 * of_nat r + 1 \<le> (3 * of_nat a :: rat)" by simp
      then have "?q \<le> 3 / 4 - 1 / (4 * of_nat a)" using a by (simp add: field_simps)
      moreover have "(1::rat) / 2 ^ 51 \<le> 1 / (4 * of_nat a)" using a by (intro divide_left_mono) auto
      ultimately have q2: "?q \<le> 3 / 4 - 1 / 2 ^ 51" by linarith
      have "\<bar>dbl ?q - ?q\<bar> \<le> ?q / 2 ^ 53" using dbl_error[of ?q] abs_of_nonneg[OF q] by simp
      then have "dbl ?q \<le> ?q + ?q / 2 ^ 53" "?q - ?q / 2 ^ 53 \<le> dbl ?q" by linarith+
      moreover have "0 \<le> ?q - ?q / 2 ^ 53" using q by (simp add: field_simps)
      ultimately have "dbl ?q \<le> ?q + ?q / 2 ^ 53" "0 \<le> dbl ?q" by linarith+
      then have y: "dbl ?q * 100 \<le> 75 - 325 / 2 ^ 53" "0 \<le> dbl ?q * 100" using q2 by simp_all
      define y where "y = dbl ?q * 100"
      have y1: "y \<le> 75 - 325 / 2 ^ 53" "0 \<le> y" using y by (simp_all only: y_def)
      then have "\<bar>dbl y - y\<bar> \<le> y / 2 ^ 53" using dbl_error[of y] by simp
      then have "dbl y \<le> y + y / 2 ^ 53" by linarith
      then have "dbl y < 75" using y1 by simp
      then show False using * a by (simp add: share_def y_def)
    qed
  qed
qed

text \<open>
  C24: with the default thresholds, rounding never changes the decision: for whole amounts, and at most
  \<open>2 ^ 49\<close> millicores or bytes to allocate, the monitor finds a worker under pressure exactly if the requests
  are three quarters of one of the two amounts or more.
\<close>

theorem default_threshold_decided_exactly:
  assumes "allocatable_of n = Inr (of_nat alloc_cpu, of_nat alloc_mem)"
    and "sum_requests (concat (pods (pod_selector (nd_name n)))) (0, 0) = Inr (of_nat req_cpu, of_nat req_mem)"
    and "0 < alloc_cpu" "alloc_cpu \<le> 2 ^ 49" "0 < alloc_mem" "alloc_mem \<le> 2 ^ 49"
  shows "pressed 75 75 pods n \<longleftrightarrow> 3 * alloc_cpu \<le> 4 * req_cpu \<or> 3 * alloc_mem \<le> 4 * req_mem"
  using assms by (simp add: pressed_def shares_def share_75)

text \<open>Other thresholds are not reached by a node that is exactly there.\<close>

lemma share_29: "share 29 100 < 29"
  by code_simp

section \<open>A cluster to run it on\<close>

record cluster =
  cl_nodes :: "node list"
  cl_pods :: "(string \<times> pod list) list"
  cl_unreachable :: "string list"

definition pods_in :: "cluster \<Rightarrow> string \<Rightarrow> pod list" where
  "pods_in c q = (case map_of (cl_pods c) q of None \<Rightarrow> [] | Some ps \<Rightarrow> ps)"

definition cluster_api :: "cluster api" where
  "cluster_api = \<lparr>
     list_node = (\<lambda>c. (Inr (cl_nodes c), c)),
     list_pods = (\<lambda>q c. (Inr (pods_in c q), c)),
     patch_node = (\<lambda>name b c. if name \<in> set (cl_unreachable c) then (Inl (Api_Exception ''timeout''), c)
       else (Inr (), c\<lparr>cl_nodes := map (mark name b) (cl_nodes c)\<rparr>))\<rparr>"

lemma cluster_serves: "serves cluster_api cl_nodes pods_in"
  by (auto simp: serves_def cluster_api_def pods_in_def fun_eq_iff split: if_splits)

definition demo_node :: "string \<Rightarrow> bool option \<Rightarrow> node" where
  "demo_node name cordoned = \<lparr>nd_name = name, nd_labels = Some [(''kubernetes.io/hostname'', name)], nd_taints = None,
     nd_unschedulable = cordoned, nd_allocatable = Some [(''cpu'', ''4''), (''memory'', ''8Gi'')]\<rparr>"

definition demo_master :: node where
  "demo_master = (demo_node ''m1'' None)\<lparr>nd_taints := Some [''node-role.kubernetes.io/control-plane'']\<rparr>"

definition demo_pod :: "string \<Rightarrow> string \<Rightarrow> pod" where
  "demo_pod cpu mem = [\<lparr>ct_resources = Some \<lparr>rs_requests = Some [(''cpu'', cpu), (''memory'', mem)]\<rparr>\<rparr>,
     \<lparr>ct_resources = None\<rparr>]"

definition demo_cluster :: "string \<Rightarrow> cluster" where
  "demo_cluster mem = \<lparr>
     cl_nodes = [demo_master, demo_node ''w1'' None, demo_node ''w2'' (Some True)],
     cl_pods = [(pod_selector ''w1'', [demo_pod ''2500m'' mem, demo_pod ''0.5'' ''512Mi''])],
     cl_unreachable = []\<rparr>"

definition demo_settled :: cluster where
  "demo_settled = (demo_cluster ''1Gi'')\<lparr>cl_nodes :=
     [demo_master, demo_node ''w1'' (Some True), demo_node ''w2'' (Some False)]\<rparr>"

definition demo_out :: "monitor_entry list" where
  "demo_out = [Reading ''w1'' 75 (75 / 4) False True, Cordoned ''w1'', Reading ''w2'' 0 0 True False, Uncordoned ''w2'']"

lemma demo_poll:
  "poll (recording cluster_api) 75 75 (demo_cluster ''1Gi'', []) =
     (demo_out, Inr (), demo_settled, [(''w1'', True), (''w2'', False)])"
  by code_simp

lemma demo_poll_plain: "poll cluster_api 75 75 (demo_cluster ''1Gi'') = (demo_out, Inr (), demo_settled)"
  using demo_poll by (auto dest: recording_poll)

lemma demo_listed:
  "list_node cluster_api (demo_cluster mem) = (Inr (cl_nodes (demo_cluster mem)), demo_cluster mem)"
  by (simp add: cluster_api_def)

theorem only_workers_patched_witness:
  "\<exists>qs. [(''w1'', True), (''w2'', False)] = [] @ qs \<and>
     length qs \<le> length (filter is_worker (cl_nodes (demo_cluster ''1Gi''))) \<and>
     list_all (allowed (cl_nodes (demo_cluster ''1Gi''))) qs"
  using only_workers_patched[OF demo_poll] by (simp add: demo_listed)


theorem second_poll_patches_nothing_witness:
  "snd (snd (snd (poll (recording cluster_api) 75 75 (demo_settled, [(''w1'', True), (''w2'', False)])))) =
     [(''w1'', True), (''w2'', False)]"
proof -
  obtain out r s ps where p:
    "poll (recording cluster_api) 75 75 (demo_settled, [(''w1'', True), (''w2'', False)]) = (out, r, s, ps)"
    by (metis prod_cases4)
  from second_poll_patches_nothing[OF cluster_serves _ demo_poll_plain _ p] show ?thesis
    by (simp add: p demo_cluster_def demo_master_def demo_node_def demo_out_def)
qed

theorem unreadable_quantity_blocks_the_rest_witness:
  "fst ` set (snd (snd (poll_rounds (recording cluster_api) 75 75 9 (demo_cluster ''64k'', [])))) \<inter> {''w1'', ''w2''} = {}"
proof -
  obtain out s ps where p: "poll_rounds (recording cluster_api) 75 75 9 (demo_cluster ''64k'', []) = (out, s, ps)"
    by (metis prod_cases3)
  have "isl (shares (pods_in (demo_cluster ''64k'')) (demo_node ''w1'' None))" "is_worker (demo_node ''w1'' None)"
    by code_simp+
  moreover have "distinct (map nd_name (cl_nodes (demo_cluster ''64k'')))"
    "cl_nodes (demo_cluster ''64k'') = [demo_master] @ demo_node ''w1'' None # [demo_node ''w2'' (Some True)]"
    by (simp_all add: demo_cluster_def demo_master_def demo_node_def)
  ultimately obtain qs where "ps = [] @ qs"
      "fst ` set qs \<inter> nd_name ` set (demo_node ''w1'' None # [demo_node ''w2'' (Some True)]) = {}"
    using unreadable_quantity_blocks_the_rest[OF cluster_serves _ _ _ _ p] by blast
  then show ?thesis unfolding p by (simp add: demo_node_def)
qed


theorem default_threshold_decided_exactly_witness:
  "pressed 75 75 (pods_in (demo_cluster ''1Gi'')) (demo_node ''w1'' None)"
proof -
  have "allocatable_of (demo_node ''w1'' None) = Inr (of_nat 4000, of_nat 8589934592)"
    "sum_requests (concat (pods_in (demo_cluster ''1Gi'') (pod_selector (nd_name (demo_node ''w1'' None))))) (0, 0) =
       Inr (of_nat 3000, of_nat 1610612736)"
    unfolding of_nat_numeral by code_simp+
  from default_threshold_decided_exactly[where n = "demo_node ''w1'' None" and pods = "pods_in (demo_cluster ''1Gi'')"
    and alloc_cpu = 4000 and alloc_mem = 8589934592 and req_cpu = 3000
    and req_mem = 1610612736, OF this] show ?thesis by simp
qed

end
