(* ===== verification/Customer_Refresh.thy ===== *)
theory Customer_Refresh
  imports Iceberg_Live
begin

text \<open>
  \<^verbatim>\<open>docker/databricks-notebooks/nb_customer_test_refresh.py\<close>: the one-cell notebook that reads the current snapshot
  of one Iceberg table, position deletes included, overwrites a Delta table with its rows and makes a view
  over it again. The object store, its readers and Spark are parameters; a data file is the list of its rows.
\<close>

section \<open>Helpers\<close>

record 'r reader =
  rd_rows :: "string \<Rightarrow> string + 'r list"
  rd_deletes :: "string \<Rightarrow> string + (string \<times> int) list"

definition customer_prefix :: string where
  "customer_prefix = ''iceberg/warehouse/lakehouse_db/customer_test''"

definition bucket_key :: "json \<Rightarrow> string + string" where
  "bucket_key path = (case path of
     JStr s \<Rightarrow> (let p = norm_path s; pfx = ''s3://'' @ bucket @ ''/'' in
       if startswith p pfx then Inr (drop (length pfx) p)
       else Inl (''ValueError: Path not in bucket '' @ bucket @ '': '' @ s))
   | _ \<Rightarrow> Inl ''AttributeError'')"

text \<open>A loop whose body may raise.\<close>

fun fold_e :: "('a \<Rightarrow> 'b \<Rightarrow> string + 'b) \<Rightarrow> 'a list \<Rightarrow> 'b \<Rightarrow> string + 'b" where
  "fold_e f [] acc = Inr acc"
| "fold_e f (x # xs) acc = bind (f x acc) (fold_e f xs)"

section \<open>The current snapshot\<close>

definition current_snapshot :: "store \<Rightarrow> string + json" where
  "current_snapshot s3 =
     (let meta_objs = s3_list_files s3 (customer_prefix @ ''/metadata'') ''.metadata.json'' in
      if meta_objs = [] then Inl ''RuntimeError: No .metadata.json''
      else bind (st_json s3 (so_key (newest meta_objs))) (\<lambda>meta.
        bind (json_get meta ''current-snapshot-id'' JNull) (\<lambda>snap_id.
          if snap_id = JNull then Inl ''RuntimeError: No current snapshot''
          else bind (bind (json_get meta ''snapshots'' (JArr [])) json_iter) (\<lambda>snaps.
            bind (find_snapshot snap_id snaps) (\<lambda>found. case found of
              None \<Rightarrow> Inl ''StopIteration''
            | Some current \<Rightarrow>
                bind (json_get current ''summary'' (JObj [])) (\<lambda>summary.
                bind (json_get summary ''total-records'' (JNum 0)) (\<lambda>total.
                bind (json_int total) (\<lambda>_.
                bind (json_get summary ''operation'' (JStr ''?'')) (\<lambda>_. Inr current)))))))))"

definition manifest_list :: "store \<Rightarrow> json \<Rightarrow> string + json list" where
  "manifest_list s3 current = bind (item current ''manifest-list'') (\<lambda>p. bind (bucket_key p) (st_avro s3))"

definition manifests_with :: "rat \<Rightarrow> json list \<Rightarrow> string + json list" where
  "manifests_with c rows = collect (\<lambda>r. bind (content_of r) (\<lambda>d. Inr (if d = JNum c then Some r else None))) rows"

definition manifest_entries :: "store \<Rightarrow> json \<Rightarrow> string + json list" where
  "manifest_entries s3 dm = bind (item dm ''manifest_path'') (\<lambda>p. bind (bucket_key p) (st_avro s3))"

definition entry_path :: "json \<Rightarrow> string + json" where
  "entry_path rec = bind (json_get rec ''data_file'' (JObj [])) (\<lambda>df. json_get df ''file_path'' (JStr []))"

section \<open>Position deletes\<close>

type_synonym positions = "(string \<times> int set) list"

definition positions_of :: "positions \<Rightarrow> string \<Rightarrow> int set" where
  "positions_of d nk = (case map_of d nk of None \<Rightarrow> {} | Some s \<Rightarrow> s)"

definition add_position :: "string \<times> int \<Rightarrow> positions \<Rightarrow> positions" where
  "add_position row d = (let nk = norm_path (fst row) in put nk (insert (snd row) (positions_of d nk)) d)"

definition delete_entry :: "'r reader \<Rightarrow> json \<Rightarrow> positions \<Rightarrow> string + positions" where
  "delete_entry rd rec d = bind (entry_path rec) (\<lambda>fp.
     if \<not> truthy fp then Inr d
     else bind (bucket_key fp) (\<lambda>k. bind (rd_deletes rd k) (\<lambda>rows. Inr (fold add_position rows d))))"

definition delete_index :: "store \<Rightarrow> 'r reader \<Rightarrow> json list \<Rightarrow> string + positions" where
  "delete_index s3 rd dms =
     fold_e (\<lambda>dm d. bind (manifest_entries s3 dm) (\<lambda>recs. fold_e (delete_entry rd) recs d)) dms []"

section \<open>Data files\<close>

text \<open>\<^verbatim>\<open>df.drop(index=sorted(dead))\<close> raises if a position is not one of the file's.\<close>

definition kept_rows :: "int set \<Rightarrow> 'r list \<Rightarrow> 'r list" where
  "kept_rows dead rows = map snd (filter (\<lambda>(i, _). int i \<notin> dead) (enumerate 0 rows))"

definition drop_rows :: "int set \<Rightarrow> 'r list \<Rightarrow> string + 'r list" where
  "drop_rows dead rows =
     (if dead = {} then Inr rows
      else if \<forall>i\<in>dead. 0 \<le> i \<and> i < int (length rows) then Inr (kept_rows dead rows)
      else Inl ''KeyError: not found in axis'')"

definition json_norm :: "json \<Rightarrow> string" where
  "json_norm p = (case p of JStr s \<Rightarrow> norm_path s | _ \<Rightarrow> [])"

definition data_entry :: "'r reader \<Rightarrow> positions \<Rightarrow> json \<Rightarrow> 'r list list \<Rightarrow> string + 'r list list" where
  "data_entry rd pos_deletes rec frames = bind (json_get rec ''status'' (JNum 1)) (\<lambda>status.
     if status = JNum 0 then Inr frames
     else bind (entry_path rec) (\<lambda>fp.
       if \<not> truthy fp then Inr frames
       else bind (bucket_key fp) (\<lambda>k. bind (rd_rows rd k) (\<lambda>rows.
         bind (drop_rows (positions_of pos_deletes (json_norm fp)) rows) (\<lambda>df. Inr (frames @ [df]))))))"

definition data_frames :: "store \<Rightarrow> 'r reader \<Rightarrow> positions \<Rightarrow> json list \<Rightarrow> string + 'r list list" where
  "data_frames s3 rd pos_deletes dms =
     fold_e (\<lambda>dm frames. bind (manifest_entries s3 dm) (\<lambda>recs. fold_e (data_entry rd pos_deletes) recs frames)) dms []"

definition snapshot_frames :: "store \<Rightarrow> 'r reader \<Rightarrow> json list \<Rightarrow> string + 'r list list" where
  "snapshot_frames s3 rd ml_records =
     bind (manifests_with 0 ml_records) (\<lambda>data_manifests.
     bind (manifests_with 1 ml_records) (\<lambda>delete_manifests.
     bind (delete_index s3 rd delete_manifests) (\<lambda>pos_deletes.
       data_frames s3 rd pos_deletes data_manifests)))"

definition final_rows :: "store \<Rightarrow> 'r reader \<Rightarrow> string + 'r list" where
  "final_rows s3 rd = bind (current_snapshot s3) (\<lambda>current. bind (manifest_list s3 current) (\<lambda>ml_records.
     bind (snapshot_frames s3 rd ml_records) (\<lambda>frames. Inr (concat frames))))"

section \<open>Writing\<close>

text \<open>
  What the workspace has of the table: the rows of the Delta table, if it exists, and whether its view does.
  The statements the notebook runs and the outcome of each.
\<close>

record 'r published =
  pb_rows :: "'r list option"
  pb_view :: bool

datatype spark_statement = Use_Catalog | Create_Schema | Create_Dataframe | Save_Table | Drop_View | Create_View

fun effect :: "'r list \<Rightarrow> spark_statement \<Rightarrow> 'r published \<Rightarrow> 'r published" where
  "effect final Save_Table pb = pb\<lparr>pb_rows := Some final\<rparr>"
| "effect final Drop_View pb = pb\<lparr>pb_view := False\<rparr>"
| "effect final Create_View pb = pb\<lparr>pb_view := True\<rparr>"
| "effect final _ pb = pb"

fun run_statements :: "(spark_statement \<Rightarrow> string + unit) \<Rightarrow> 'r list \<Rightarrow> spark_statement list \<Rightarrow> 'r published \<Rightarrow> (string + unit) \<times> 'r published" where
  "run_statements spark final [] pb = (Inr (), pb)"
| "run_statements spark final (c # cs) pb = (case spark c of
     Inl exc \<Rightarrow> (Inl exc, pb)
   | Inr _ \<Rightarrow> run_statements spark final cs (effect final c pb))"

definition statements :: "spark_statement list" where
  "statements = [Use_Catalog, Create_Schema, Create_Dataframe, Save_Table, Drop_View, Create_View]"

definition customer_refresh ::
    "store \<Rightarrow> 'r reader \<Rightarrow> (spark_statement \<Rightarrow> string + unit) \<Rightarrow> 'r published \<Rightarrow> (string + unit) \<times> 'r published" where
  "customer_refresh s3 rd spark pb = (case final_rows s3 rd of
     Inl exc \<Rightarrow> (Inl exc, pb)
   | Inr final \<Rightarrow> run_statements spark final statements pb)"

end
