(* ===== verification/Customer_Rows.thy ===== *)
theory Customer_Rows
  imports Customer_Refresh
begin

text \<open>
  Which rows the customer notebook publishes of a merge-on-read snapshot, and what a refresh that fails
  leaves of the table and the view.
\<close>

section \<open>Position deletes\<close>

text \<open>A manifest list entry, and the positions that the delete files of some entries name in a data file.\<close>

definition manifest_json :: "rat \<Rightarrow> string \<Rightarrow> json" where
  "manifest_json c path = JObj [(''manifest_path'', JStr path), (''content'', JNum c)]"

definition dead_in :: "(string \<Rightarrow> (string \<times> int) list) \<Rightarrow> manifest_entry list \<Rightarrow> string \<Rightarrow> int set" where
  "dead_in deletes es p = {pos. \<exists>e\<in>set es. \<exists>q. (q, pos) \<in> set (deletes (snd e)) \<and> norm_path q = norm_path p}"

text \<open>A path in the bucket, and the reader's answers for it.\<close>

definition located :: "string \<Rightarrow> string" where
  "located p = (case bucket_key (JStr p) of Inr k \<Rightarrow> k | Inl _ \<Rightarrow> [])"

definition in_bucket :: "string \<Rightarrow> bool" where
  "in_bucket p = (bucket_key (JStr p) = Inr (located p))"

lemma in_bucket_nonempty: "in_bucket p \<Longrightarrow> p \<noteq> []"
  by (auto simp: in_bucket_def bucket_key_def norm_path_def bucket_def startswith_def Let_def)

lemma entry_path_json: "entry_path (entry_json e) = Inr (JStr (snd e))"
  by (simp add: entry_path_def entry_json_def bind_def)

lemma positions_add: "positions_of (add_position row d) p =
    (if p = norm_path (fst row) then insert (snd row) (positions_of d p) else positions_of d p)"
  by (simp add: positions_of_def add_position_def Let_def put_map)

lemma positions_fold: "positions_of (fold add_position rows d) p =
    positions_of d p \<union> {pos. \<exists>q. (q, pos) \<in> set rows \<and> norm_path q = p}"
proof (induction rows arbitrary: d)
  case (Cons row rows)
  show ?case
    unfolding fold_simps(2) Cons.IH[of "add_position row d"] positions_add by (cases row) auto
qed simp

lemma delete_entries:
  assumes "\<forall>e\<in>set es. in_bucket (snd e) \<and> rd_deletes rd (located (snd e)) = Inr (deletes (snd e))"
  shows "\<exists>d1. fold_e (delete_entry rd) (map entry_json es) d = Inr d1 \<and>
    (\<forall>p. positions_of d1 (norm_path p) = positions_of d (norm_path p) \<union> dead_in deletes es p)"
  using assms
proof (induction es arbitrary: d)
  case Nil then show ?case by (simp add: dead_in_def)
next
  case (Cons e es)
  have e: "in_bucket (snd e)" "rd_deletes rd (located (snd e)) = Inr (deletes (snd e))" using Cons.prems by auto
  let ?d = "fold add_position (deletes (snd e)) d"
  have "delete_entry rd (entry_json e) d = Inr ?d"
    using e in_bucket_nonempty[OF e(1)] by (simp add: delete_entry_def entry_path_json bind_def in_bucket_def)
  moreover obtain d1 where "fold_e (delete_entry rd) (map entry_json es) ?d = Inr d1"
      "\<forall>p. positions_of d1 (norm_path p) = positions_of ?d (norm_path p) \<union> dead_in deletes es p"
    using Cons.IH[of ?d] Cons.prems by auto
  ultimately show ?case by (auto simp: bind_def positions_fold dead_in_def)
qed

section \<open>The manifests\<close>

text \<open>The store has the entries of a manifest where the manifest list says.\<close>

definition stores :: "store \<Rightarrow> string \<times> manifest_entry list \<Rightarrow> bool" where
  "stores s3 m = (in_bucket (fst m) \<and> st_avro s3 (located (fst m)) = Inr (map entry_json (snd m)))"

lemma entries_stored: "stores s3 m \<Longrightarrow> manifest_entries s3 (manifest_json c (fst m)) = Inr (map entry_json (snd m))"
  by (simp add: stores_def manifest_entries_def manifest_json_def bind_def in_bucket_def)

lemma fold_e_append: "fold_e f (xs @ ys) acc = bind (fold_e f xs acc) (fold_e f ys)"
  by (induction xs arbitrary: acc) (auto simp: bind_def split: sum.splits)

lemma fold_manifests:
  assumes "\<forall>m\<in>set ms. stores s3 m"
  shows "fold_e (\<lambda>dm acc. bind (manifest_entries s3 dm) (\<lambda>recs. fold_e f recs acc)) (map (manifest_json c \<circ> fst) ms) acc =
    fold_e f (map entry_json (concat (map snd ms))) acc"
  using assms by (induction ms arbitrary: acc) (auto simp: entries_stored bind_def fold_e_append split: sum.splits)

lemma manifests_split:
  "c \<noteq> c1 \<Longrightarrow> manifests_with c (map (manifest_json c) ms @ map (manifest_json c1) ns) = Inr (map (manifest_json c) ms)"
  "c \<noteq> c1 \<Longrightarrow> manifests_with c (map (manifest_json c1) ms @ map (manifest_json c) ns) = Inr (map (manifest_json c) ns)"
proof -
  have none: "c \<noteq> c1 \<Longrightarrow> manifests_with c (map (manifest_json c1) xs) = Inr []" for xs
    by (induction xs) (simp_all add: manifests_with_def manifest_json_def content_of_def bind_def)
  have all: "manifests_with c (map (manifest_json c) xs) = Inr (map (manifest_json c) xs)" for xs
    by (induction xs) (simp_all add: manifests_with_def manifest_json_def content_of_def bind_def)
  have "manifests_with c (xs @ ys) = (case manifests_with c xs of Inl e \<Rightarrow> Inl e
      | Inr as \<Rightarrow> (case manifests_with c ys of Inl e \<Rightarrow> Inl e | Inr bs \<Rightarrow> Inr (as @ bs)))" for xs ys
    by (induction xs) (auto simp: manifests_with_def split: sum.splits option.splits)
  then show "c \<noteq> c1 \<Longrightarrow> manifests_with c (map (manifest_json c) ms @ map (manifest_json c1) ns) = Inr (map (manifest_json c) ms)"
    and "c \<noteq> c1 \<Longrightarrow> manifests_with c (map (manifest_json c1) ms @ map (manifest_json c) ns) = Inr (map (manifest_json c) ns)"
    using none all by simp_all
qed

section \<open>The rows\<close>

lemma kept_rows_none: "kept_rows {} rows = rows"
  by (simp add: kept_rows_def split_def)

definition readable_rows :: "'r reader \<Rightarrow> (string \<Rightarrow> 'r list) \<Rightarrow> int set \<Rightarrow> manifest_entry \<Rightarrow> bool" where
  "readable_rows rd rows dead e = (in_bucket (snd e) \<and> rd_rows rd (located (snd e)) = Inr (rows (snd e)) \<and>
     (\<forall>i\<in>dead. 0 \<le> i \<and> i < int (length (rows (snd e)))))"

lemma data_entries:
  assumes "\<forall>e\<in>set es. fst e \<noteq> Existing \<longrightarrow> readable_rows rd rows (positions_of d (norm_path (snd e))) e"
  shows "fold_e (data_entry rd d) (map entry_json es) frames =
    Inr (frames @ map (\<lambda>e. kept_rows (positions_of d (norm_path (snd e))) (rows (snd e))) (filter (\<lambda>e. fst e \<noteq> Existing) es))"
  using assms
proof (induction es arbitrary: frames)
  case (Cons e es)
  show ?case
  proof (cases "fst e = Existing")
    case True
    then have "data_entry rd d (entry_json e) frames = Inr frames"
      by (simp add: data_entry_def entry_json_def bind_def)
    then show ?thesis using Cons True by (simp add: bind_def)
  next
    case False
    then have r: "readable_rows rd rows (positions_of d (norm_path (snd e))) e" using Cons.prems by simp
    then have "drop_rows (positions_of d (norm_path (snd e))) (rows (snd e)) =
        Inr (kept_rows (positions_of d (norm_path (snd e))) (rows (snd e)))"
      by (auto simp: drop_rows_def readable_rows_def kept_rows_none)
    moreover have "json_get (entry_json e) ''status'' (JNum 1) = Inr (JNum (status_code (fst e)))"
      by (simp add: entry_json_def)
    moreover have "status_code (fst e) \<noteq> 0" using False by (cases "fst e") auto
    ultimately have "data_entry rd d (entry_json e) frames =
        Inr (frames @ [kept_rows (positions_of d (norm_path (snd e))) (rows (snd e))])"
      using r in_bucket_nonempty[of "snd e"]
      by (simp add: data_entry_def entry_path_json bind_def readable_rows_def in_bucket_def json_norm_def)
    then show ?thesis using Cons False by (simp add: bind_def)
  qed
qed simp

text \<open>
  C17: of a snapshot with data and delete manifests the notebook publishes, in the order of the entries, the rows
  of every data file whose entry is not \<open>Existing\<close>, less the rows at the positions that the delete files name for
  that file. So the rows of the files that an append carried over are missing, and those of files a later
  snapshot deleted are back.
\<close>

theorem published_rows:
  assumes "\<forall>m\<in>set data. stores s3 m" "\<forall>m\<in>set dels. stores s3 m"
    and "\<forall>e\<in>set (concat (map snd dels)). in_bucket (snd e) \<and> rd_deletes rd (located (snd e)) = Inr (deletes (snd e))"
    and "\<forall>e\<in>set (concat (map snd data)). fst e \<noteq> Existing \<longrightarrow>
      readable_rows rd rows (dead_in deletes (concat (map snd dels)) (snd e)) e"
  shows "snapshot_frames s3 rd (map (manifest_json 0 \<circ> fst) data @ map (manifest_json 1 \<circ> fst) dels) =
    Inr (map (\<lambda>e. kept_rows (dead_in deletes (concat (map snd dels)) (snd e)) (rows (snd e)))
      (filter (\<lambda>e. fst e \<noteq> Existing) (concat (map snd data))))"
proof -
  obtain d where d: "fold_e (delete_entry rd) (map entry_json (concat (map snd dels))) [] = Inr d"
      "\<And>p. positions_of d (norm_path p) = dead_in deletes (concat (map snd dels)) p"
    using delete_entries[OF assms(3), of "[]"] by (auto simp: positions_of_def)
  have "delete_index s3 rd (map (manifest_json 1 \<circ> fst) dels) = Inr d"
    using fold_manifests[OF assms(2), of "delete_entry rd" 1 "[]"] d(1) by (simp add: delete_index_def)
  moreover have "data_frames s3 rd d (map (manifest_json 0 \<circ> fst) data) =
      Inr (map (\<lambda>e. kept_rows (dead_in deletes (concat (map snd dels)) (snd e)) (rows (snd e)))
        (filter (\<lambda>e. fst e \<noteq> Existing) (concat (map snd data))))"
    using fold_manifests[OF assms(1), of "data_entry rd d" 0 "[]"] data_entries[of "concat (map snd data)" rd rows d "[]"] assms(4)
    by (simp add: data_frames_def d(2))
  moreover have "map (manifest_json c \<circ> fst) ms = map (manifest_json c) (map fst ms)" for c and ms :: "(string \<times> manifest_entry list) list"
    by simp
  ultimately show ?thesis
    using manifests_split(1)[of 0 1 "map fst data" "map fst dels"] manifests_split(2)[of 1 0 "map fst data" "map fst dels"]
    by (simp add: snapshot_frames_def bind_def del: map_map)
qed

section \<open>A refresh that fails\<close>

text \<open>
  whatever fails, the table has either the rows it had or all the rows of the snapshot; a refresh that
  succeeds leaves the snapshot and a view, one that could not read the snapshot leaves both as they were; and
  the view is lost in exactly one way, when it was dropped and making it again failed, over a table that is
  already new.
\<close>

theorem refresh_is_all_or_nothing:
  assumes "customer_refresh s3 rd spark pb = (r, pb1)"
  shows "(case final_rows s3 rd of
      Inl exc \<Rightarrow> r = Inl exc \<and> pb1 = pb
    | Inr final \<Rightarrow>
       (r = Inr () \<longrightarrow> pb1 = \<lparr>pb_rows = Some final, pb_view = True\<rparr>) \<and>
       pb_rows pb1 \<in> {pb_rows pb, Some final} \<and>
       (pb_view pb1 \<longleftrightarrow> pb_view pb \<or> r = Inr ()) \<or>
       (isl r \<and> isl (spark Create_View) \<and> pb1 = \<lparr>pb_rows = Some final, pb_view = False\<rparr>))"
proof (cases "final_rows s3 rd")
  case (Inl exc)
  then show ?thesis using assms by (simp add: customer_refresh_def)
next
  case (Inr final)
  then show ?thesis using assms
    by (cases pb) (auto simp: customer_refresh_def statements_def split: sum.splits, metis sum.disc(1))
qed

section \<open>A table to run it on\<close>

definition demo_root :: string where
  "demo_root = ''s3a://stardata-databricks/''"

definition demo_path :: "string \<Rightarrow> string" where
  "demo_path name = demo_root @ name"

definition demo_data :: "(string \<times> manifest_entry list) list" where
  "demo_data = [(demo_path ''m1'', [(Existing, demo_path ''a''), (Deleted, demo_path ''b''), (Added, demo_path ''c'')])]"

definition demo_dels :: "(string \<times> manifest_entry list) list" where
  "demo_dels = [(demo_path ''m2'', [(Added, demo_path ''d'')])]"

definition demo_store :: store where
  "demo_store = \<lparr>st_dirs = (\<lambda>_. []), st_objects = (\<lambda>_. []), st_json = (\<lambda>_. Inl ''not found''),
     st_avro = (\<lambda>k. if k = ''m1'' then Inr (map entry_json (concat (map snd demo_data)))
       else if k = ''m2'' then Inr (map entry_json (concat (map snd demo_dels))) else Inl ''not found'')\<rparr>"

definition demo_file_rows :: "string \<Rightarrow> nat list" where
  "demo_file_rows p = (if p = demo_path ''a'' then [1, 2] else if p = demo_path ''b'' then [3] else [4, 5, 6])"

definition demo_deletes :: "string \<Rightarrow> (string \<times> int) list" where
  "demo_deletes p = [(''s3://stardata-databricks/c'', 1), (demo_path ''c'', 2)]"

definition demo_reader :: "nat reader" where
  "demo_reader = \<lparr>rd_rows = (\<lambda>k. Inr (demo_file_rows (demo_path k))), rd_deletes = (\<lambda>k. Inr (demo_deletes (demo_path k)))\<rparr>"

lemma demo_located:
  "located (demo_path ''m1'') = ''m1''" "in_bucket (demo_path ''m1'')"
  "located (demo_path ''m2'') = ''m2''" "in_bucket (demo_path ''m2'')"
  "located (demo_path ''b'') = ''b''" "in_bucket (demo_path ''b'')"
  "located (demo_path ''c'') = ''c''" "in_bucket (demo_path ''c'')"
  "located (demo_path ''d'') = ''d''" "in_bucket (demo_path ''d'')"
  by code_simp+

lemma demo_dead:
  "dead_in demo_deletes (concat (map snd demo_dels)) (demo_path ''b'') = {}"
  "dead_in demo_deletes (concat (map snd demo_dels)) (demo_path ''c'') = {1, 2}"
proof -
  have "norm_path ''s3://stardata-databricks/c'' = ''s3://stardata-databricks/c''"
    "norm_path (demo_path ''c'') = ''s3://stardata-databricks/c''"
    "norm_path (demo_path ''b'') = ''s3://stardata-databricks/b''" by code_simp+
  then show "dead_in demo_deletes (concat (map snd demo_dels)) (demo_path ''b'') = {}"
    "dead_in demo_deletes (concat (map snd demo_dels)) (demo_path ''c'') = {1, 2}"
    by (auto simp: dead_in_def demo_dels_def demo_deletes_def)
qed

theorem published_rows_witness:
  "snapshot_frames demo_store demo_reader
     (map (manifest_json 0 \<circ> fst) demo_data @ map (manifest_json 1 \<circ> fst) demo_dels) = Inr [[3], [4]]"
proof -
  have st: "\<forall>m\<in>set demo_data. stores demo_store m" "\<forall>m\<in>set demo_dels. stores demo_store m"
    by (simp_all add: stores_def demo_store_def demo_located demo_data_def demo_dels_def)
  have del: "\<forall>e\<in>set (concat (map snd demo_dels)). in_bucket (snd e) \<and>
      rd_deletes demo_reader (located (snd e)) = Inr (demo_deletes (snd e))"
    by (simp add: demo_dels_def demo_located demo_reader_def)
  have dist: "demo_path ''b'' \<noteq> demo_path ''a''" "demo_path ''c'' \<noteq> demo_path ''a''" "demo_path ''c'' \<noteq> demo_path ''b''"
    by (simp_all add: demo_path_def)
  have dat: "\<forall>e\<in>set (concat (map snd demo_data)). fst e \<noteq> Existing \<longrightarrow>
      readable_rows demo_reader demo_file_rows (dead_in demo_deletes (concat (map snd demo_dels)) (snd e)) e"
    by (simp add: demo_data_def demo_dead readable_rows_def demo_located demo_reader_def demo_file_rows_def dist)
  from published_rows[OF st del dat] show ?thesis
    by (simp add: demo_data_def demo_dead demo_file_rows_def dist kept_rows_def enumerate_eq_zip upt_rec)
qed

theorem refresh_is_all_or_nothing_witness:
  "\<exists>exc. customer_refresh demo_store demo_reader (\<lambda>_. Inr ()) \<lparr>pb_rows = Some [9], pb_view = True\<rparr> =
     (Inl exc, \<lparr>pb_rows = Some [9], pb_view = True\<rparr>)"
proof -
  obtain r pb1 where p: "customer_refresh demo_store demo_reader (\<lambda>_. Inr ()) \<lparr>pb_rows = Some [9], pb_view = True\<rparr> = (r, pb1)"
    by fastforce
  have "final_rows demo_store demo_reader = Inl ''RuntimeError: No .metadata.json''" by code_simp
  then show ?thesis using refresh_is_all_or_nothing[OF p] p by simp
qed

end
