(* ===== verification/Notebook_Catalog.thy ===== *)
theory Notebook_Catalog
  imports Iceberg_Reader
begin

text \<open>
  \<^verbatim>\<open>docker/databricks-notebooks/nb_pyiceberg_catalog.py\<close>: the notebook that registers every Iceberg table under the
  warehouse in a throw-away PyIceberg catalog, copies one of them to a Delta table, and shows how to append,
  delete and update rows. The file system, the catalog and Spark are parameters; a row maps columns to values.
\<close>

section \<open>Listings\<close>

text \<open>A listed file has a name and perhaps a time of modification.\<close>

record listed =
  ls_name :: string
  ls_modified :: "int option"

record file_system =
  fs_ls :: "string \<Rightarrow> string + string list"
  fs_detail :: "string \<Rightarrow> string + listed list"

text \<open>
  Sorting by \<^verbatim>\<open>f.get("LastModified", 0)\<close>, newest first: a time cannot be compared with the \<open>0\<close> of a
  file that has none.
\<close>

definition sort_newest :: "listed list \<Rightarrow> string + listed list" where
  "sort_newest fs =
     (if list_all (\<lambda>f. ls_modified f = None) fs then Inr fs
      else if list_all (\<lambda>f. ls_modified f \<noteq> None) fs then Inr (sort_key (\<lambda>f. - the (ls_modified f)) fs)
      else Inl ''TypeError'')"

definition metadata_files :: "listed list \<Rightarrow> listed list" where
  "metadata_files fs = filter (\<lambda>f. endswith (ls_name f) ''.metadata.json'') fs"

definition warehouse_bare :: string where
  "warehouse_bare = ''stardata-databricks/iceberg/warehouse''"

section \<open>The catalog\<close>

type_synonym table_id = "string \<times> string"

record 'c ice_catalog =
  cg_create_namespace :: "string \<Rightarrow> 'c \<Rightarrow> (string + unit) \<times> 'c"
  cg_drop_table :: "table_id \<Rightarrow> 'c \<Rightarrow> (string + unit) \<times> 'c"
  cg_register_table :: "table_id \<Rightarrow> string \<Rightarrow> 'c \<Rightarrow> (string + unit) \<times> 'c"

text \<open>\<^verbatim>\<open>try: ... except Exception: pass\<close>\<close>

definition ignoring :: "('c \<Rightarrow> (string + unit) \<times> 'c) \<Rightarrow> 'c \<Rightarrow> 'c" where
  "ignoring f c = snd (f c)"

definition replace_table :: "'c ice_catalog \<Rightarrow> table_id \<Rightarrow> string \<Rightarrow> 'c \<Rightarrow> (string + unit) \<times> 'c" where
  "replace_table cat i loc c = cg_register_table cat i loc (ignoring (cg_drop_table cat i) c)"

section \<open>Discovery\<close>

record discovery =
  dc_registered :: "(string \<times> string) list"
  dc_skipped :: "string list"
  dc_errors :: "(string \<times> string) list"

definition discover_folder ::
    "file_system \<Rightarrow> 'c ice_catalog \<Rightarrow> string \<Rightarrow> string \<Rightarrow> discovery \<times> 'c \<Rightarrow> string + discovery \<times> 'c" where
  "discover_folder fs cat db tbl_path dc =
     (let tbl = last_part (rstrip_slash tbl_path); key = db @ ''.'' @ tbl;
          skip = Inr ((fst dc)\<lparr>dc_skipped := dc_skipped (fst dc) @ [key]\<rparr>, snd dc) in
      case fs_detail fs (rstrip_slash tbl_path @ ''/metadata'') of
        Inl _ \<Rightarrow> skip
      | Inr files \<Rightarrow>
         (if metadata_files files = [] then skip
          else (case sort_newest (metadata_files files) of
            Inl exc \<Rightarrow> Inl exc
          | Inr sorted_files \<Rightarrow>
             (let name = ls_name (hd sorted_files) in
              case replace_table cat (db, tbl) (''s3://'' @ name) (snd dc) of
                (Inr _, c1) \<Rightarrow> Inr ((fst dc)\<lparr>dc_registered := dc_registered (fst dc) @ [(key, last_part name)]\<rparr>, c1)
              | (Inl exc, c1) \<Rightarrow> Inr ((fst dc)\<lparr>dc_errors := dc_errors (fst dc) @ [(key, exc)]\<rparr>, c1)))))"

fun discover_folders ::
    "file_system \<Rightarrow> 'c ice_catalog \<Rightarrow> string \<Rightarrow> string list \<Rightarrow> discovery \<times> 'c \<Rightarrow> string + discovery \<times> 'c" where
  "discover_folders fs cat db [] dc = Inr dc"
| "discover_folders fs cat db (p # ps) dc = bind (discover_folder fs cat db p dc) (discover_folders fs cat db ps)"

definition discover_database ::
    "file_system \<Rightarrow> 'c ice_catalog \<Rightarrow> string \<Rightarrow> discovery \<times> 'c \<Rightarrow> string + discovery \<times> 'c" where
  "discover_database fs cat db_path dc =
     (let db = last_part (rstrip_slash db_path) in
      if db = [] then Inr dc
      else let c1 = ignoring (cg_create_namespace cat db) (snd dc) in
        case fs_ls fs db_path of Inl _ \<Rightarrow> Inr (fst dc, c1)
        | Inr tbl_dirs \<Rightarrow> discover_folders fs cat db tbl_dirs (fst dc, c1))"

fun discover_databases ::
    "file_system \<Rightarrow> 'c ice_catalog \<Rightarrow> string list \<Rightarrow> discovery \<times> 'c \<Rightarrow> string + discovery \<times> 'c" where
  "discover_databases fs cat [] dc = Inr dc"
| "discover_databases fs cat (p # ps) dc = bind (discover_database fs cat p dc) (discover_databases fs cat ps)"

definition nothing_found :: discovery where
  "nothing_found = \<lparr>dc_registered = [], dc_skipped = [], dc_errors = []\<rparr>"

definition discover_warehouse :: "file_system \<Rightarrow> 'c ice_catalog \<Rightarrow> 'c \<Rightarrow> string + discovery \<times> 'c" where
  "discover_warehouse fs cat c = (case fs_ls fs warehouse_bare of
     Inl exc \<Rightarrow> Inl (''RuntimeError: Cannot list S3 warehouse: '' @ exc)
   | Inr db_dirs \<Rightarrow> discover_databases fs cat db_dirs (nothing_found, c))"

text \<open>The summary splits a key again, at its first dot, to load the table.\<close>

definition split_key :: "string \<Rightarrow> string \<times> string" where
  "split_key key = (takeWhile (\<lambda>c. c \<noteq> CHR ''.'') key, tl (dropWhile (\<lambda>c. c \<noteq> CHR ''.'') key))"

definition summary_tables :: "discovery \<Rightarrow> (string \<times> table_id) list" where
  "summary_tables dc = map (\<lambda>(key, _). (key, split_key key)) (dc_registered dc)"

section \<open>The refresh cell\<close>

text \<open>Rows are read only of a table that has a snapshot; the Delta table then has them, and the view is made.\<close>

record 'r delta =
  dt_rows :: "'r list option"
  dt_view :: bool

record ('c, 'r) spark_engine =
  en_load :: "table_id \<Rightarrow> 'c \<Rightarrow> string + 'r list option"
  en_save :: "'r list \<Rightarrow> string + unit"
  en_view :: "string + unit"

definition persist_id :: table_id where
  "persist_id = (''lakehouse_db'', ''customer_test'')"

definition latest_metadata :: "file_system \<Rightarrow> table_id \<Rightarrow> string + string" where
  "latest_metadata fs i =
     (let prefix = warehouse_bare @ ''/'' @ fst i @ ''/'' @ snd i @ ''/metadata'' in
      case fs_detail fs prefix of
        Inl exc \<Rightarrow> Inl (''RuntimeError: Cannot list S3 path '' @ prefix @ '': '' @ exc)
      | Inr files \<Rightarrow> (case sort_newest (metadata_files files) of
          Inl exc \<Rightarrow> Inl (''RuntimeError: Cannot list S3 path '' @ prefix @ '': '' @ exc)
        | Inr sorted_files \<Rightarrow>
           (if sorted_files = [] then Inl (''RuntimeError: No metadata.json found at '' @ prefix)
            else Inr (''s3://'' @ ls_name (hd sorted_files)))))"

definition save_and_view :: "('c, 'r) spark_engine \<Rightarrow> 'r list \<Rightarrow> 'r delta \<Rightarrow> (string + unit) \<times> 'r delta" where
  "save_and_view en rows dt = (case en_save en rows of
     Inl exc \<Rightarrow> (Inl exc, dt)
   | Inr _ \<Rightarrow> (case en_view en of
       Inl exc \<Rightarrow> (Inl exc, dt\<lparr>dt_rows := Some rows\<rparr>)
     | Inr _ \<Rightarrow> (Inr (), \<lparr>dt_rows = Some rows, dt_view = True\<rparr>)))"

definition copy_table ::
    "string + string \<Rightarrow> 'c ice_catalog \<Rightarrow> ('c, 'r) spark_engine \<Rightarrow> 'c \<Rightarrow> 'r delta \<Rightarrow> (string + unit) \<times> 'c \<times> 'r delta" where
  "copy_table found cat en c dt = (case found of
     Inl exc \<Rightarrow> (Inl exc, c, dt)
   | Inr loc \<Rightarrow>
      (case replace_table cat persist_id loc (ignoring (cg_create_namespace cat (fst persist_id)) c) of
        (Inl exc, c1) \<Rightarrow> (Inl exc, c1, dt)
      | (Inr _, c1) \<Rightarrow> (case en_load en persist_id c1 of
          Inl exc \<Rightarrow> (Inl exc, c1, dt)
        | Inr None \<Rightarrow> (Inr (), c1, dt)
        | Inr (Some rows) \<Rightarrow> (case save_and_view en rows dt of (r, dt1) \<Rightarrow> (r, c1, dt1)))))"

definition refresh_cell ::
    "file_system \<Rightarrow> 'c ice_catalog \<Rightarrow> ('c, 'r) spark_engine \<Rightarrow> 'c \<Rightarrow> 'r delta \<Rightarrow> (string + unit) \<times> 'c \<times> 'r delta" where
  "refresh_cell fs cat en c dt = copy_table (latest_metadata fs persist_id) cat en c dt"

text \<open>Cell 7b is the same, but catches nothing while it looks for the metadata.\<close>

definition persist_metadata :: "file_system \<Rightarrow> table_id \<Rightarrow> string + string" where
  "persist_metadata fs i =
     (let prefix = warehouse_bare @ ''/'' @ fst i @ ''/'' @ snd i @ ''/metadata'' in
      case fs_detail fs prefix of
        Inl exc \<Rightarrow> Inl exc
      | Inr files \<Rightarrow> (case sort_newest (metadata_files files) of
          Inl exc \<Rightarrow> Inl exc
        | Inr sorted_files \<Rightarrow>
           (if sorted_files = [] then Inl (''RuntimeError: No metadata.json at '' @ prefix)
            else Inr (''s3://'' @ ls_name (hd sorted_files)))))"

definition persist_cell ::
    "file_system \<Rightarrow> 'c ice_catalog \<Rightarrow> ('c, 'r) spark_engine \<Rightarrow> 'c \<Rightarrow> 'r delta \<Rightarrow> (string + unit) \<times> 'c \<times> 'r delta" where
  "persist_cell fs cat en c dt = copy_table (persist_metadata fs persist_id) cat en c dt"

section \<open>History, append, delete, update\<close>

text \<open>The snapshots that a table's history names; one that has expired is left out.\<close>

fun history_rows :: "(int \<Rightarrow> 's option) \<Rightarrow> int list \<Rightarrow> 's list" where
  "history_rows by_id [] = []"
| "history_rows by_id (i # ids) = (case by_id i of None \<Rightarrow> history_rows by_id ids | Some s \<Rightarrow> s # history_rows by_id ids)"

type_synonym 'v row = "string \<Rightarrow> 'v option"

record 'v iceberg_table =
  ib_columns :: "string list"
  ib_rows :: "'v row list"

definition append_rows :: "'v row list \<Rightarrow> 'v iceberg_table \<Rightarrow> 'v iceberg_table" where
  "append_rows new t = t\<lparr>ib_rows := ib_rows t @ new\<rparr>"

text \<open>\<^verbatim>\<open>pc.not_equal\<close> of a null is null, and a filter keeps only the rows where it is true.\<close>

definition not_equal :: "'v option \<Rightarrow> 'v \<Rightarrow> bool option" where
  "not_equal x v = map_option (\<lambda>w. w \<noteq> v) x"

definition simulated_delete :: "string \<Rightarrow> 'v \<Rightarrow> 'v iceberg_table \<Rightarrow> string + 'v iceberg_table" where
  "simulated_delete col v t =
     (if col \<notin> set (ib_columns t) then Inl ''KeyError''
      else Inr (t\<lparr>ib_rows := filter (\<lambda>r. not_equal (r col) v = Some True) (ib_rows t)\<rparr>))"

text \<open>
  Assigning to a column the frame does not have adds the column, and the conversion back keeps the
  columns of the table's schema.
\<close>

definition to_schema :: "string list \<Rightarrow> 'v row \<Rightarrow> 'v row" where
  "to_schema cols r = (\<lambda>k. if k \<in> set cols then r k else None)"

definition simulated_update :: "string \<Rightarrow> 'v \<Rightarrow> string \<Rightarrow> 'v \<Rightarrow> 'v iceberg_table \<Rightarrow> string + 'v iceberg_table" where
  "simulated_update col v set_col set_v t =
     (if col \<notin> set (ib_columns t) then Inl ''KeyError''
      else Inr (t\<lparr>ib_rows := map (\<lambda>r. to_schema (ib_columns t) (if r col = Some v then r(set_col \<mapsto> set_v) else r))
        (ib_rows t)\<rparr>))"

end
