(* ===== verification/Notebook_Tables.thy ===== *)
theory Notebook_Tables
  imports Notebook_Catalog
begin

text \<open>
  What the catalog notebook registers, and how its deletes and updates differ from the statements they stand for.
\<close>

section \<open>Discovery\<close>

text \<open>
  What PyIceberg promises of a catalog: its tables are a map, a name that is taken cannot be registered, one
  that is not cannot be dropped, and namespaces do not matter for tables.
\<close>

definition keeps_tables :: "'c ice_catalog \<Rightarrow> ('c \<Rightarrow> table_id \<Rightarrow> string option) \<Rightarrow> bool" where
  "keeps_tables cat tables = (
     (\<forall>ns c. tables (snd (cg_create_namespace cat ns c)) = tables c) \<and>
     (\<forall>i c. tables (snd (cg_drop_table cat i c)) = (tables c)(i := None)) \<and>
     (\<forall>i loc c r c1. tables c i = None \<longrightarrow> cg_register_table cat i loc c = (r, c1) \<longrightarrow>
        r = Inr () \<and> tables c1 = (tables c)(i \<mapsto> loc)))"

lemma keeps_tablesD:
  assumes "keeps_tables cat tables"
  shows "tables (ignoring (cg_create_namespace cat ns) c) = tables c"
    and "replace_table cat i loc c = (r, c1) \<Longrightarrow> r = Inr () \<and> tables c1 = (tables c)(i \<mapsto> loc)"
proof -
  show "tables (ignoring (cg_create_namespace cat ns) c) = tables c"
    using assms by (simp add: keeps_tables_def ignoring_def)
  assume r: "replace_table cat i loc c = (r, c1)"
  let ?c = "snd (cg_drop_table cat i c)"
  have "tables ?c = (tables c)(i := None)" using assms unfolding keeps_tables_def by blast
  moreover have "cg_register_table cat i loc ?c = (r, c1)" using r by (simp add: replace_table_def ignoring_def)
  ultimately show "r = Inr () \<and> tables c1 = (tables c)(i \<mapsto> loc)"
    using assms unfolding keeps_tables_def by (metis fun_upd_same fun_upd_upd)
qed

text \<open>The folders the notebook looks into, and the newest metadata file of each.\<close>

type_synonym folder = "string \<times> string"

definition folders_of :: "file_system \<Rightarrow> string \<Rightarrow> folder list" where
  "folders_of fs db_path =
     (if last_part (rstrip_slash db_path) = [] then []
      else case fs_ls fs db_path of Inl _ \<Rightarrow> []
        | Inr ps \<Rightarrow> map (\<lambda>p. (last_part (rstrip_slash db_path), p)) ps)"

definition folders :: "file_system \<Rightarrow> folder list" where
  "folders fs = (case fs_ls fs warehouse_bare of Inl _ \<Rightarrow> [] | Inr dbs \<Rightarrow> concat (map (folders_of fs) dbs))"

definition newest_in :: "file_system \<Rightarrow> folder \<Rightarrow> string option" where
  "newest_in fs f = (case fs_detail fs (rstrip_slash (snd f) @ ''/metadata'') of
     Inl _ \<Rightarrow> None
   | Inr files \<Rightarrow> (if metadata_files files = [] then None
       else (case sort_newest (metadata_files files) of Inl _ \<Rightarrow> None | Inr sorted_files \<Rightarrow> Some (ls_name (hd sorted_files)))))"

definition folder_id :: "folder \<Rightarrow> table_id" where
  "folder_id f = (fst f, last_part (rstrip_slash (snd f)))"

definition folder_key :: "folder \<Rightarrow> string" where
  "folder_key f = fst (folder_id f) @ ''.'' @ snd (folder_id f)"

definition registered_in :: "file_system \<Rightarrow> folder list \<Rightarrow> (string \<times> string) list" where
  "registered_in fs = List.map_filter (\<lambda>f. map_option (\<lambda>n. (folder_key f, last_part n)) (newest_in fs f))"

definition skipped_in :: "file_system \<Rightarrow> folder list \<Rightarrow> string list" where
  "skipped_in fs xs = map folder_key (filter (\<lambda>f. newest_in fs f = None) xs)"

definition located_in :: "file_system \<Rightarrow> folder \<Rightarrow> (table_id \<Rightarrow> string option) \<Rightarrow> table_id \<Rightarrow> string option" where
  "located_in fs f t = (case newest_in fs f of None \<Rightarrow> t | Some n \<Rightarrow> t(folder_id f \<mapsto> ''s3://'' @ n))"

definition discovered ::
    "file_system \<Rightarrow> folder list \<Rightarrow> ('c \<Rightarrow> table_id \<Rightarrow> string option) \<Rightarrow> discovery \<times> 'c \<Rightarrow> discovery \<times> 'c \<Rightarrow> bool" where
  "discovered fs xs tables dc dc1 = (
     dc_registered (fst dc1) = dc_registered (fst dc) @ registered_in fs xs \<and>
     dc_skipped (fst dc1) = dc_skipped (fst dc) @ skipped_in fs xs \<and>
     dc_errors (fst dc1) = dc_errors (fst dc) \<and>
     tables (snd dc1) = fold (located_in fs) xs (tables (snd dc)))"

lemma discovered_Nil: "discovered fs [] tables dc dc"
  by (simp add: discovered_def registered_in_def skipped_in_def map_filter_simps)

lemma discovered_append:
  "\<lbrakk>discovered fs xs tables dc dc1; discovered fs ys tables dc1 dc2\<rbrakk> \<Longrightarrow> discovered fs (xs @ ys) tables dc dc2"
  by (simp add: discovered_def registered_in_def skipped_in_def map_filter_def)

lemma folder_discovered:
  assumes "keeps_tables cat tables" "discover_folder fs cat db p dc = Inr dc1"
  shows "discovered fs [(db, p)] tables dc dc1"
proof (cases "newest_in fs (db, p)")
  case None
  then have "dc1 = ((fst dc)\<lparr>dc_skipped := dc_skipped (fst dc) @ [folder_key (db, p)]\<rparr>, snd dc)"
    using assms(2)
    by (auto simp: discover_folder_def newest_in_def Let_def folder_key_def folder_id_def split: sum.splits if_splits)
  then show ?thesis using None
    by (simp add: discovered_def registered_in_def skipped_in_def located_in_def map_filter_simps)
next
  case (Some n)
  obtain r c1 where rc: "replace_table cat (folder_id (db, p)) (''s3://'' @ n) (snd dc) = (r, c1)" by fastforce
  have reg: "r = Inr ()" "tables c1 = (tables (snd dc))(folder_id (db, p) \<mapsto> ''s3://'' @ n)"
    using keeps_tablesD(2)[OF assms(1) rc] by auto
  have "dc1 = ((fst dc)\<lparr>dc_registered := dc_registered (fst dc) @ [(folder_key (db, p), last_part n)]\<rparr>, c1)"
    using assms(2) Some rc reg(1)
    by (auto simp: discover_folder_def newest_in_def Let_def folder_key_def folder_id_def split: sum.splits if_splits)
  then show ?thesis using Some reg(2)
    by (simp add: discovered_def registered_in_def skipped_in_def located_in_def map_filter_simps)
qed

lemma folders_discovered:
  assumes "keeps_tables cat tables"
  shows "discover_folders fs cat db ps dc = Inr dc1 \<Longrightarrow> discovered fs (map (Pair db) ps) tables dc dc1"
proof (induction ps arbitrary: dc)
  case (Cons p ps)
  then obtain dc2 where "discover_folder fs cat db p dc = Inr dc2" "discover_folders fs cat db ps dc2 = Inr dc1"
    by (auto simp: bind_def split: sum.splits)
  then show ?case
    using discovered_append[OF folder_discovered[OF assms] Cons.IH] by fastforce
qed (simp add: discovered_Nil)

lemma database_discovered:
  assumes "keeps_tables cat tables" "discover_database fs cat db_path dc = Inr dc1"
  shows "discovered fs (folders_of fs db_path) tables dc dc1"
proof -
  let ?db = "last_part (rstrip_slash db_path)"
  let ?dc = "(fst dc, ignoring (cg_create_namespace cat ?db) (snd dc))"
  have same: "discovered fs xs tables dc dc2 = discovered fs xs tables ?dc dc2" for xs dc2
    by (simp add: discovered_def keeps_tablesD(1)[OF assms(1)])
  show ?thesis
  proof (cases "?db = []")
    case True
    then show ?thesis using assms(2) by (simp add: discover_database_def folders_of_def discovered_Nil)
  next
    case False
    show ?thesis
    proof (cases "fs_ls fs db_path")
      case (Inl e)
      then have "dc1 = ?dc" using assms(2) False by (simp add: discover_database_def Let_def)
      then show ?thesis using Inl same[of "[]"] by (simp add: folders_of_def discovered_Nil)
    next
      case (Inr ps)
      then have "discover_folders fs cat ?db ps ?dc = Inr dc1" using assms(2) False
        by (simp add: discover_database_def Let_def)
      then show ?thesis using folders_discovered[OF assms(1)] same Inr False by (simp add: folders_of_def)
    qed
  qed
qed

lemma databases_discovered:
  assumes "keeps_tables cat tables"
  shows "discover_databases fs cat dbs dc = Inr dc1 \<Longrightarrow> discovered fs (concat (map (folders_of fs) dbs)) tables dc dc1"
proof (induction dbs arbitrary: dc)
  case (Cons d dbs)
  then obtain dc2 where "discover_database fs cat d dc = Inr dc2" "discover_databases fs cat dbs dc2 = Inr dc1"
    by (auto simp: bind_def split: sum.splits)
  then show ?case
    using discovered_append[OF database_discovered[OF assms] Cons.IH] by fastforce
qed (simp add: discovered_Nil)

lemma sort_newest_maximal:
  assumes "sort_newest fs = Inr sorted_files" "fs \<noteq> []"
  shows "hd sorted_files \<in> set fs \<and> (\<forall>g\<in>set fs. case (ls_modified g, ls_modified (hd sorted_files)) of
    (Some a, Some b) \<Rightarrow> a \<le> b | (a, b) \<Rightarrow> a = None \<and> b = None)"
proof (cases "list_all (\<lambda>f. ls_modified f = None) fs")
  case True
  then have "sorted_files = fs" using assms(1) by (simp add: sort_newest_def)
  then show ?thesis using True assms(2) by (auto simp: list_all_iff hd_in_set)
next
  case False
  let ?k = "\<lambda>f. - the (ls_modified f)"
  have all: "list_all (\<lambda>f. ls_modified f \<noteq> None) fs" and s: "sorted_files = sort_key ?k fs"
    using assms(1) False by (auto simp: sort_newest_def split: if_splits)
  have set: "set sorted_files = set fs" using s by simp
  then have ne: "sorted_files \<noteq> []" using assms(2) by auto
  obtain x xs where x: "sorted_files = x # xs" using ne by (cases sorted_files) auto
  have "sorted (map ?k sorted_files)" using s by simp
  then have le: "the (ls_modified g) \<le> the (ls_modified x)" if "g \<in> set fs" for g using x set that by auto
  have xin: "x \<in> set fs" using x set by auto
  have "ls_modified g \<noteq> None" if "g \<in> set fs" for g using all that by (auto simp: list_all_iff)
  then have "case (ls_modified g, ls_modified x) of (Some a, Some b) \<Rightarrow> a \<le> b | (a, b) \<Rightarrow> a = None \<and> b = None"
    if "g \<in> set fs" for g using that xin le[OF that] by (cases "ls_modified g"; cases "ls_modified x") fastforce+
  then show ?thesis using x xin by simp
qed


section \<open>Deletes and updates\<close>

text \<open>The statements the two cells stand for; a comparison with a null selects nothing.\<close>

definition delete_where :: "string \<Rightarrow> 'v \<Rightarrow> 'v iceberg_table \<Rightarrow> 'v iceberg_table" where
  "delete_where col v t = t\<lparr>ib_rows := filter (\<lambda>r. r col \<noteq> Some v) (ib_rows t)\<rparr>"

definition update_where :: "string \<Rightarrow> 'v \<Rightarrow> string \<Rightarrow> 'v \<Rightarrow> 'v iceberg_table \<Rightarrow> 'v iceberg_table" where
  "update_where col v set_col set_v t =
     t\<lparr>ib_rows := map (\<lambda>r. if r col = Some v then r(set_col \<mapsto> set_v) else r) (ib_rows t)\<rparr>"

definition rows_typed :: "'v iceberg_table \<Rightarrow> bool" where
  "rows_typed t = (\<forall>r\<in>set (ib_rows t). dom r \<subseteq> set (ib_columns t))"

text \<open>
  the simulated \<open>DELETE\<close> deletes what the statement would exactly if no row has a null in the column: it
  also deletes every row that has one.
\<close>

theorem delete_drops_null_rows:
  assumes "simulated_delete col v t = Inr t1"
  shows "(t1 = delete_where col v t \<longleftrightarrow> (\<forall>r\<in>set (ib_rows t). r col \<noteq> None)) \<and>
    set (ib_rows t1) = set (ib_rows (delete_where col v t)) - {r. r col = None}"
proof -
  let ?kept = "filter (\<lambda>r. r col \<noteq> None \<and> r col \<noteq> Some v) (ib_rows t)"
  have "filter (\<lambda>r. not_equal (r col) v = Some True) (ib_rows t) = ?kept"
    by (intro filter_cong) (auto simp: not_equal_def)
  then have t1: "t1 = t\<lparr>ib_rows := ?kept\<rparr>"
    using assms by (simp add: simulated_delete_def split: if_splits)
  have upd: "t\<lparr>ib_rows := xs\<rparr> = t\<lparr>ib_rows := ys\<rparr> \<longleftrightarrow> xs = ys" for xs ys by (cases t) simp
  have "t1 = delete_where col v t \<longleftrightarrow> ?kept = filter (\<lambda>r. r col \<noteq> Some v) (ib_rows t)"
    unfolding t1 delete_where_def by (rule upd)
  also have "\<dots> \<longleftrightarrow> (\<forall>r\<in>set (ib_rows t). r col \<noteq> None)"
  proof
    assume eq: "filter (\<lambda>r. r col \<noteq> None \<and> r col \<noteq> Some v) (ib_rows t) = filter (\<lambda>r. r col \<noteq> Some v) (ib_rows t)"
    show "\<forall>r\<in>set (ib_rows t). r col \<noteq> None"
    proof
      fix r assume r: "r \<in> set (ib_rows t)"
      show "r col \<noteq> None"
      proof
        assume null: "r col = None"
        then have "r \<in> set (filter (\<lambda>r. r col \<noteq> Some v) (ib_rows t))" using r by simp
        then show False unfolding eq[symmetric] using null by simp
      qed
    qed
  next
    assume "\<forall>r\<in>set (ib_rows t). r col \<noteq> None"
    then show "filter (\<lambda>r. r col \<noteq> None \<and> r col \<noteq> Some v) (ib_rows t) = filter (\<lambda>r. r col \<noteq> Some v) (ib_rows t)"
      by (intro filter_cong) auto
  qed
  finally show ?thesis using t1 by (auto simp: delete_where_def)
qed

text \<open>
  the simulated \<open>UPDATE\<close> updates what the statement would if the table has the column that is set; if it
  does not, it rewrites the table with the rows it had, and the new value is lost without an error.
\<close>

theorem update_of_missing_column_is_lost:
  assumes "rows_typed t" "simulated_update col v set_col set_v t = Inr t1"
  shows "t1 = (if set_col \<in> set (ib_columns t) then update_where col v set_col set_v t else t)"
proof -
  have keep: "to_schema (ib_columns t) (if r col = Some v then r(set_col \<mapsto> set_v) else r) =
      (if set_col \<in> set (ib_columns t) then (if r col = Some v then r(set_col \<mapsto> set_v) else r) else r)"
    if "r \<in> set (ib_rows t)" for r
  proof -
    have out: "k \<notin> set (ib_columns t) \<Longrightarrow> r k = None" for k
      using assms(1) that by (auto simp: rows_typed_def)
    show ?thesis using out by (auto simp: to_schema_def fun_eq_iff)
  qed
  have "t1 = t\<lparr>ib_rows := map (\<lambda>r. to_schema (ib_columns t) (if r col = Some v then r(set_col \<mapsto> set_v) else r)) (ib_rows t)\<rparr>"
    using assms(2) by (simp add: simulated_update_def split: if_splits)
  then show ?thesis using keep by (auto simp: update_where_def cong: map_cong)
qed

section \<open>A warehouse to run it on\<close>

definition map_catalog :: "(table_id \<Rightarrow> string option) ice_catalog" where
  "map_catalog = \<lparr>
     cg_create_namespace = (\<lambda>ns c. (Inr (), c)),
     cg_drop_table = (\<lambda>i c. (if c i = None then Inl ''NoSuchTableError'' else Inr (), c(i := None))),
     cg_register_table = (\<lambda>i loc c. if c i = None then (Inr (), c(i \<mapsto> loc)) else (Inl ''TableAlreadyExistsError'', c))\<rparr>"

lemma map_catalog_keeps: "keeps_tables map_catalog (\<lambda>c. c)"
  by (auto simp: keeps_tables_def map_catalog_def split: if_splits)

definition demo_folder :: string where
  "demo_folder = warehouse_bare @ ''/db''"

definition demo_fs :: file_system where
  "demo_fs = \<lparr>
     fs_ls = (\<lambda>p. if p = warehouse_bare then Inr [demo_folder]
       else if p = demo_folder then Inr [demo_folder @ ''/t/'', demo_folder @ ''/tmp''] else Inl ''no such path''),
     fs_detail = (\<lambda>p. if p = demo_folder @ ''/t/metadata''
       then Inr [\<lparr>ls_name = ''b/2.metadata.json'', ls_modified = Some 20\<rparr>, \<lparr>ls_name = ''b/3.metadata.json'', ls_modified = Some 30\<rparr>,
         \<lparr>ls_name = ''b/snap.avro'', ls_modified = Some 40\<rparr>]
       else Inl ''no such path'')\<rparr>"


definition demo_table :: "nat iceberg_table" where
  "demo_table = \<lparr>ib_columns = [''id'', ''tier''], ib_rows = [[''id'' \<mapsto> 1, ''tier'' \<mapsto> 2], [''tier'' \<mapsto> 3], [''id'' \<mapsto> 4]]\<rparr>"

theorem delete_drops_null_rows_witness:
  "\<exists>t1. simulated_delete ''id'' 1 demo_table = Inr t1 \<and> t1 \<noteq> delete_where ''id'' 1 demo_table \<and>
     set (ib_rows t1) = {[''id'' \<mapsto> 4]}"
proof -
  obtain t1 where t1: "simulated_delete ''id'' 1 demo_table = Inr t1"
    by (simp add: simulated_delete_def demo_table_def)
  have "set (ib_rows (delete_where ''id'' 1 demo_table)) - {r. r ''id'' = None} = {[''id'' \<mapsto> 4]}"
    by (auto simp: delete_where_def demo_table_def)
  moreover have "\<not> (\<forall>r\<in>set (ib_rows demo_table). r ''id'' \<noteq> None)" by (simp add: demo_table_def)
  ultimately show ?thesis using delete_drops_null_rows[OF t1] t1 by simp
qed

theorem update_of_missing_column_is_lost_witness:
  "simulated_update ''id'' 1 ''customer_tier'' 9 demo_table = Inr demo_table \<and>
   simulated_update ''id'' 1 ''tier'' 9 demo_table = Inr (update_where ''id'' 1 ''tier'' 9 demo_table)"
proof -
  have typed: "rows_typed demo_table" by (simp add: rows_typed_def demo_table_def)
  obtain t1 t2 where t: "simulated_update ''id'' 1 ''customer_tier'' 9 demo_table = Inr t1"
      "simulated_update ''id'' 1 ''tier'' 9 demo_table = Inr t2"
    by (simp add: simulated_update_def demo_table_def)
  have "''customer_tier'' \<notin> set (ib_columns demo_table)" "''tier'' \<in> set (ib_columns demo_table)"
    by (simp_all add: demo_table_def)
  then show ?thesis
    using update_of_missing_column_is_lost[OF typed t(1)] update_of_missing_column_is_lost[OF typed t(2)] t by simp
qed

end
