(* ===== verification/Mcp_Server.thy ===== *)
theory Mcp_Server
  imports Ddl_Extract
begin

text \<open>
  \<^verbatim>\<open>docker/mcp-grafana/server.py\<close> and \<^verbatim>\<open>docker/mcp-prometheus/server.py\<close>: two HTTP servers that offer the
  queries of a monitoring system as tools over JSON-RPC. The handlers are the same in both files; the tools
  and their descriptions are not. The system behind is a parameter, and so are Python's \<^verbatim>\<open>str\<close> and
  \<^verbatim>\<open>json.dumps\<close> of a value.
\<close>

section \<open>JSON-RPC\<close>

type_synonym tool = "json \<Rightarrow> string + json"

record server =
  sv_name :: string
  sv_tools :: "(string \<times> tool) list"
  sv_defs :: "json list"

record codec =
  cc_str :: "json \<Rightarrow> string"
  cc_dumps :: "json \<Rightarrow> string"

text \<open>An f-string shows a string as it is.\<close>

definition fstr :: "codec \<Rightarrow> json \<Rightarrow> string" where
  "fstr cc j = (case j of JStr s \<Rightarrow> s | _ \<Rightarrow> cc_str cc j)"

definition json_response :: "json \<Rightarrow> string \<times> json \<Rightarrow> json" where
  "json_response req_id payload = JObj [(''jsonrpc'', JStr ''2.0''), (''id'', req_id), payload]"

definition rpc_error :: "int \<Rightarrow> string \<Rightarrow> string \<times> json" where
  "rpc_error code msg = (''error'', JObj [(''code'', JNum (of_int code)), (''message'', JStr msg)])"

definition handle_initialize :: "server \<Rightarrow> json \<Rightarrow> string + json" where
  "handle_initialize sv data = bind (json_get data ''id'' JNull) (\<lambda>req_id. Inr (json_response req_id
     (''result'', JObj [(''protocolVersion'', JStr ''2024-11-05''),
        (''capabilities'', JObj [(''tools'', JObj [])]),
        (''serverInfo'', JObj [(''name'', JStr (sv_name sv)), (''version'', JStr ''1.0.0'')])])))"

definition handle_tools_list :: "server \<Rightarrow> json \<Rightarrow> string + json" where
  "handle_tools_list sv data = bind (json_get data ''id'' JNull) (\<lambda>req_id. Inr (json_response req_id
     (''result'', JObj [(''tools'', JArr (sv_defs sv))])))"

text \<open>\<^verbatim>\<open>name not in TOOLS\<close> raises for a list or an object, which cannot be hashed.\<close>

definition find_tool :: "server \<Rightarrow> json \<Rightarrow> string + tool option" where
  "find_tool sv name = (case name of
     JStr s \<Rightarrow> Inr (map_of (sv_tools sv) s)
   | JArr _ \<Rightarrow> Inl ''TypeError'' | JObj _ \<Rightarrow> Inl ''TypeError''
   | _ \<Rightarrow> Inr None)"

definition handle_tools_call :: "codec \<Rightarrow> server \<Rightarrow> json \<Rightarrow> string + json" where
  "handle_tools_call cc sv data =
     bind (json_get data ''id'' JNull) (\<lambda>req_id.
     bind (json_get data ''params'' (JObj [])) (\<lambda>params.
     bind (json_get params ''name'' (JStr [])) (\<lambda>name.
     bind (json_get params ''arguments'' (JObj [])) (\<lambda>args.
     bind (find_tool sv name) (\<lambda>found. Inr (json_response req_id (case found of
         None \<Rightarrow> rpc_error (- 32601) (''Tool not found: '' @ fstr cc name)
       | Some f \<Rightarrow> (case f args of
           Inl exc \<Rightarrow> rpc_error (- 32000) exc
         | Inr result \<Rightarrow> (''result'', JObj [(''content'',
             JArr [JObj [(''type'', JStr ''text''), (''text'', JStr (cc_dumps cc result))]])])))))))))"

definition handle_jsonrpc :: "codec \<Rightarrow> server \<Rightarrow> string + json \<Rightarrow> string + json" where
  "handle_jsonrpc cc sv body = bind body (\<lambda>data. bind (json_get data ''method'' (JStr [])) (\<lambda>rpc_method.
     if rpc_method = JStr ''initialize'' then handle_initialize sv data
     else if rpc_method = JStr ''tools/list'' then handle_tools_list sv data
     else if rpc_method = JStr ''tools/call'' then handle_tools_call cc sv data
     else bind (json_get data ''id'' JNull) (\<lambda>req_id. Inr (json_response req_id
       (rpc_error (- 32601) (''Method not found: '' @ fstr cc rpc_method))))))"

section \<open>The backends\<close>

record web_api =
  wb_get :: "string \<Rightarrow> (string \<times> json) list \<Rightarrow> string + json"
  wb_post :: "string \<Rightarrow> json \<Rightarrow> string + json"

text \<open>A tool that wraps what a query answers under one key, and a missing parameter.\<close>

definition wrapped :: "string \<Rightarrow> string + json \<Rightarrow> string + json" where
  "wrapped k r = bind r (\<lambda>data. Inr (JObj [(k, data)]))"

definition missing :: "string \<Rightarrow> string + json" where
  "missing what = Inr (JObj [(''error'', JStr (''Missing required parameter'' @ what))])"

definition given_param :: "string \<Rightarrow> json \<Rightarrow> (string \<times> json) list" where
  "given_param k v = (if truthy v then [(k, v)] else [])"

section \<open>Grafana\<close>

definition tool_list_dashboards :: "web_api \<Rightarrow> tool" where
  "tool_list_dashboards gf params =
     wrapped ''dashboards'' (wb_get gf ''/api/search'' [(''type'', JStr ''dash-db''), (''limit'', JNum 200)])"

definition tool_get_dashboard :: "codec \<Rightarrow> web_api \<Rightarrow> tool" where
  "tool_get_dashboard cc gf params = bind (json_get params ''uid'' (JStr [])) (\<lambda>uid.
     if \<not> truthy uid then missing '': uid'' else wb_get gf (''/api/dashboards/uid/'' @ fstr cc uid) [])"

definition tool_search_dashboards :: "web_api \<Rightarrow> tool" where
  "tool_search_dashboards gf params =
     bind (json_get params ''query'' (JStr [])) (\<lambda>query. bind (json_get params ''tag'' (JStr [])) (\<lambda>tag.
       wrapped ''results'' (wb_get gf ''/api/search''
         ([(''type'', JStr ''dash-db''), (''limit'', JNum 100)] @ given_param ''query'' query @ given_param ''tag'' tag))))"

definition tool_list_datasources :: "web_api \<Rightarrow> tool" where
  "tool_list_datasources gf params = wrapped ''datasources'' (wb_get gf ''/api/datasources'' [])"

definition tool_query_datasource :: "web_api \<Rightarrow> tool" where
  "tool_query_datasource gf params =
     bind (json_get params ''datasource_uid'' (JStr [])) (\<lambda>ds_uid.
     bind (json_get params ''expr'' (JStr [])) (\<lambda>expr.
     bind (json_get params ''start'' (JStr ''now-1h'')) (\<lambda>start.
     bind (json_get params ''end'' (JStr ''now'')) (\<lambda>until.
     bind (json_get params ''step'' (JStr ''60s'')) (\<lambda>step.
       if \<not> truthy ds_uid \<or> \<not> truthy expr then missing ''s: datasource_uid, expr''
       else wb_post gf ''/api/ds/query'' (JObj
         [(''queries'', JArr [JObj [(''refId'', JStr ''A''), (''datasource'', JObj [(''uid'', ds_uid)]),
            (''expr'', expr), (''range'', JBool True)]]),
          (''from'', start), (''to'', until)]))))))"

definition tool_list_alerts :: "web_api \<Rightarrow> tool" where
  "tool_list_alerts gf params = wrapped ''alert_rules'' (wb_get gf ''/api/v1/provisioning/alert-rules'' [])"

definition tool_get_alert_state :: "web_api \<Rightarrow> tool" where
  "tool_get_alert_state gf params = wrapped ''alert_rules'' (wb_get gf ''/api/v1/provisioning/alert-rules'' [])"

definition tool_list_folders :: "web_api \<Rightarrow> tool" where
  "tool_list_folders gf params = wrapped ''folders'' (wb_get gf ''/api/folders'' [])"

definition tool_get_org_stats :: "web_api \<Rightarrow> tool" where
  "tool_get_org_stats gf params = wb_get gf ''/api/admin/stats'' []"

definition tool_list_users :: "web_api \<Rightarrow> tool" where
  "tool_list_users gf params = wrapped ''users'' (wb_get gf ''/api/users'' [])"

definition grafana_tools :: "codec \<Rightarrow> web_api \<Rightarrow> (string \<times> tool) list" where
  "grafana_tools cc gf =
     [(''list_dashboards'', tool_list_dashboards gf), (''get_dashboard'', tool_get_dashboard cc gf),
      (''search_dashboards'', tool_search_dashboards gf), (''list_datasources'', tool_list_datasources gf),
      (''query_datasource'', tool_query_datasource gf), (''list_alerts'', tool_list_alerts gf),
      (''get_alert_state'', tool_get_alert_state gf), (''list_folders'', tool_list_folders gf),
      (''get_org_stats'', tool_get_org_stats gf), (''list_users'', tool_list_users gf)]"

text \<open>Descriptions: the name, the text, the properties with their texts, and the required ones.\<close>

definition tool_def :: "string \<Rightarrow> string \<Rightarrow> (string \<times> string) list \<Rightarrow> string list \<Rightarrow> json" where
  "tool_def name desc props required = JObj [(''name'', JStr name), (''description'', JStr desc),
     (''inputSchema'', JObj ([(''type'', JStr ''object''),
        (''properties'', JObj (map (\<lambda>(p, d). (p, JObj [(''type'', JStr ''string''), (''description'', JStr d)])) props))] @
        (if required = [] then [] else [(''required'', JArr (map JStr required))])))]"

definition grafana_defs :: "json list" where
  "grafana_defs =
     [tool_def ''list_dashboards'' ''List all dashboards in Grafana'' [] [],
      tool_def ''get_dashboard'' ''Get a specific Grafana dashboard by its UID'' [(''uid'', ''Dashboard UID'')] [''uid''],
      tool_def ''search_dashboards'' ''Search Grafana dashboards by name or tag''
        [(''query'', ''Search string''), (''tag'', ''Filter by tag'')] [],
      tool_def ''list_datasources'' ''List all configured datasources in Grafana'' [] [],
      tool_def ''query_datasource'' ''Run a query against a Grafana datasource (PromQL, etc.)''
        [(''datasource_uid'', ''Datasource UID''), (''expr'', ''Query expression (PromQL, etc.)''),
         (''start'', ''Start time (default: now-1h)''), (''end'', ''End time (default: now)''),
         (''step'', ''Resolution step (default: 60s)'')] [''datasource_uid'', ''expr''],
      tool_def ''list_alerts'' ''List all Grafana alert rules'' [] [],
      tool_def ''get_alert_state'' ''Get the current firing state of Grafana alert rules'' [] [],
      tool_def ''list_folders'' ''List all Grafana dashboard folders'' [] [],
      tool_def ''get_org_stats'' ''Get Grafana organisation statistics (dashboard count, users, etc.)'' [] [],
      tool_def ''list_users'' ''List all Grafana users'' [] []]"

definition grafana :: "codec \<Rightarrow> web_api \<Rightarrow> server" where
  "grafana cc gf = \<lparr>sv_name = ''mcp-grafana'', sv_tools = grafana_tools cc gf, sv_defs = grafana_defs\<rparr>"

section \<open>Prometheus\<close>

text \<open>Prometheus itself, and the alert manager; \<open>now\<close> is the clock in whole seconds.\<close>

definition tool_query_instant :: "web_api \<Rightarrow> tool" where
  "tool_query_instant pm params =
     bind (json_get params ''query'' (JStr [])) (\<lambda>query. bind (json_get params ''time'' JNull) (\<lambda>ts.
       if \<not> truthy query then missing '': query''
       else wb_get pm ''/api/v1/query'' ([(''query'', query)] @ given_param ''time'' ts)))"

definition tool_query_range :: "int \<Rightarrow> web_api \<Rightarrow> tool" where
  "tool_query_range now pm params =
     bind (json_get params ''query'' (JStr [])) (\<lambda>query. bind (json_get params ''start'' JNull) (\<lambda>start.
     bind (json_get params ''end'' JNull) (\<lambda>until. bind (json_get params ''step'' (JStr ''60s'')) (\<lambda>step.
       if \<not> truthy query then missing '': query''
       else wb_get pm ''/api/v1/query_range''
         [(''query'', query), (''start'', json_or start (JStr (str_of_int (now - 3600)))),
          (''end'', json_or until (JStr (str_of_int now))), (''step'', step)]))))"

definition tool_list_metrics :: "web_api \<Rightarrow> tool" where
  "tool_list_metrics pm params = bind (json_get params ''match'' (JStr [])) (\<lambda>m.
     wb_get pm ''/api/v1/label/__name__/values'' (given_param ''match[]'' m))"

definition tool_get_alerts :: "web_api \<Rightarrow> tool" where
  "tool_get_alerts am params = wrapped ''alerts'' (wb_get am ''/api/v2/alerts'' [])"

definition tool_get_targets :: "web_api \<Rightarrow> tool" where
  "tool_get_targets pm params = wb_get pm ''/api/v1/targets'' []"

definition tool_get_rules :: "web_api \<Rightarrow> tool" where
  "tool_get_rules pm params = wb_get pm ''/api/v1/rules'' []"

definition tool_query_label_values :: "codec \<Rightarrow> web_api \<Rightarrow> tool" where
  "tool_query_label_values cc pm params = bind (json_get params ''label'' (JStr [])) (\<lambda>label.
     if \<not> truthy label then missing '': label''
     else wb_get pm (''/api/v1/label/'' @ fstr cc label @ ''/values'') [])"

definition prometheus_tools :: "codec \<Rightarrow> int \<Rightarrow> web_api \<Rightarrow> web_api \<Rightarrow> (string \<times> tool) list" where
  "prometheus_tools cc now pm am =
     [(''query_instant'', tool_query_instant pm), (''query_range'', tool_query_range now pm),
      (''list_metrics'', tool_list_metrics pm), (''get_alerts'', tool_get_alerts am),
      (''get_targets'', tool_get_targets pm), (''get_rules'', tool_get_rules pm),
      (''query_label_values'', tool_query_label_values cc pm)]"

definition prometheus_defs :: "json list" where
  "prometheus_defs =
     [tool_def ''query_instant'' ''Run a PromQL instant query against Prometheus''
        [(''query'', ''PromQL expression''), (''time'', ''Unix timestamp or RFC3339 (optional, defaults to now)'')] [''query''],
      tool_def ''query_range'' ''Run a PromQL range query over a time window''
        [(''query'', ''PromQL expression''), (''start'', ''Start time (Unix or RFC3339, default: now-1h)''),
         (''end'', ''End time (Unix or RFC3339, default: now)''),
         (''step'', ''Resolution step, e.g. '' @ CHR 0x27 # ''60s'' @ CHR 0x27 # '' (default: 60s)'')] [''query''],
      tool_def ''list_metrics'' ''List all available metric names in Prometheus''
        [(''match'', ''Optional metric selector filter'')] [],
      tool_def ''get_alerts'' ''Retrieve all currently firing alerts from Alertmanager'' [] [],
      tool_def ''get_targets'' ''List all Prometheus scrape targets and their UP/DOWN health status'' [] [],
      tool_def ''get_rules'' ''List all alerting and recording rules configured in Prometheus'' [] [],
      tool_def ''query_label_values'' ''Get all distinct values for a specific Prometheus label''
        [(''label'', ''Label name, e.g. '' @ CHR 0x27 # ''namespace'' @ CHR 0x27 # '', '' @ CHR 0x27 # ''job'' @
          CHR 0x27 # '', '' @ CHR 0x27 # ''instance'' @ [CHR 0x27])] [''label'']]"

definition prometheus :: "codec \<Rightarrow> int \<Rightarrow> web_api \<Rightarrow> web_api \<Rightarrow> server" where
  "prometheus cc now pm am = \<lparr>sv_name = ''mcp-prometheus'', sv_tools = prometheus_tools cc now pm am,
     sv_defs = prometheus_defs\<rparr>"

definition grafana_jsonrpc :: "codec \<Rightarrow> web_api \<Rightarrow> string + json \<Rightarrow> string + json" where
  "grafana_jsonrpc cc gf body = handle_jsonrpc cc (grafana cc gf) body"

definition prometheus_jsonrpc :: "codec \<Rightarrow> int \<Rightarrow> web_api \<Rightarrow> web_api \<Rightarrow> string + json \<Rightarrow> string + json" where
  "prometheus_jsonrpc cc now pm am body = handle_jsonrpc cc (prometheus cc now pm am) body"

end
