(* ===== verification/Mcp_Protocol.thy ===== *)
theory Mcp_Protocol
  imports Mcp_Server
begin

text \<open>
  What a client of the two MCP servers can rely on: which requests are answered and how, that the tools are
  what their descriptions say, and where they are not.
\<close>

section \<open>Answers\<close>

definition is_object :: "json \<Rightarrow> bool" where
  "is_object j = (case j of JObj _ \<Rightarrow> True | _ \<Rightarrow> False)"

definition lookup_or :: "json \<Rightarrow> string \<Rightarrow> json \<Rightarrow> json" where
  "lookup_or j k d = (case json_get j k d of Inl _ \<Rightarrow> d | Inr v \<Rightarrow> v)"

lemma json_get_object: "json_get j k d = (if is_object j then Inr (lookup_or j k d) else Inl ''AttributeError'')"
  by (cases j) (simp_all add: is_object_def lookup_or_def)

definition hashable :: "json \<Rightarrow> bool" where
  "hashable j = (case j of JArr _ \<Rightarrow> False | JObj _ \<Rightarrow> False | _ \<Rightarrow> True)"

definition well_formed :: "json \<Rightarrow> bool" where
  "well_formed data = (is_object data \<and>
     (lookup_or data ''method'' (JStr []) = JStr ''tools/call'' \<longrightarrow>
       is_object (lookup_or data ''params'' (JObj [])) \<and>
       hashable (lookup_or (lookup_or data ''params'' (JObj [])) ''name'' (JStr []))))"

definition answers_to :: "json \<Rightarrow> json \<Rightarrow> bool" where
  "answers_to data reply = (\<exists>k v. reply = json_response (lookup_or data ''id'' JNull) (k, v) \<and> k \<in> {''result'', ''error''})"

lemma find_tool_hashable: "isl (find_tool sv name) = (\<not> hashable name)"
  by (cases name) (simp_all add: find_tool_def hashable_def)

lemma tools_call_answer:
  assumes "is_object data"
  shows "(case handle_tools_call cc sv data of
    Inl _ \<Rightarrow> \<not> (is_object (lookup_or data ''params'' (JObj [])) \<and>
      hashable (lookup_or (lookup_or data ''params'' (JObj [])) ''name'' (JStr [])))
  | Inr reply \<Rightarrow> is_object (lookup_or data ''params'' (JObj [])) \<and>
      hashable (lookup_or (lookup_or data ''params'' (JObj [])) ''name'' (JStr [])) \<and> answers_to data reply)"
proof -
  let ?params = "lookup_or data ''params'' (JObj [])"
  let ?name = "lookup_or ?params ''name'' (JStr [])"
  show ?thesis
  proof (cases "is_object ?params")
    case False
    then show ?thesis using assms by (simp add: handle_tools_call_def json_get_object bind_def)
  next
    case obj: True
    show ?thesis
    proof (cases "find_tool sv ?name")
      case (Inl e)
      then have "\<not> hashable ?name" using find_tool_hashable[of sv ?name] by simp
      then show ?thesis using assms obj Inl by (simp add: handle_tools_call_def json_get_object bind_def)
    next
      case (Inr found)
      then have "hashable ?name" using find_tool_hashable[of sv ?name] by simp
      then show ?thesis using assms obj Inr
        by (auto simp: handle_tools_call_def json_get_object bind_def answers_to_def rpc_error_def
            split: option.splits sum.splits)
    qed
  qed
qed

text \<open>
  C31: a server answers a request exactly if it is an object and, when it calls a tool, its parameters are an object
  and the name of the tool can be looked up; the answer then has the request's id and either a result or
  an error, also when the tool raised an exception. Every other request ends in an exception of the handler.
\<close>

theorem well_formed_requests_are_answered:
  "(case handle_jsonrpc cc sv (Inr data) of
      Inl _ \<Rightarrow> \<not> well_formed data
    | Inr reply \<Rightarrow> well_formed data \<and> answers_to data reply)"
proof (cases "is_object data")
  case False
  then show ?thesis by (simp add: handle_jsonrpc_def json_get_object well_formed_def bind_def)
next
  case True
  let ?called = "lookup_or data ''method'' (JStr [])"
  consider (call) "?called = JStr ''tools/call''" | (other) "?called \<noteq> JStr ''tools/call''" by blast
  then show ?thesis
  proof cases
    case call
    then have "handle_jsonrpc cc sv (Inr data) = handle_tools_call cc sv data"
      using True by (simp add: handle_jsonrpc_def json_get_object bind_def)
    then show ?thesis using tools_call_answer[OF True, of cc sv] call True
      by (simp add: well_formed_def split: sum.splits)
  next
    case other
    then show ?thesis using True
      by (auto simp: handle_jsonrpc_def json_get_object bind_def well_formed_def answers_to_def
          handle_initialize_def handle_tools_list_def rpc_error_def)
  qed
qed

section \<open>Descriptions\<close>

definition def_name :: "json \<Rightarrow> json" where
  "def_name d = lookup_or d ''name'' JNull"

definition def_required :: "json \<Rightarrow> json list" where
  "def_required d = (case lookup_or (lookup_or d ''inputSchema'' JNull) ''required'' (JArr []) of JArr ps \<Rightarrow> ps | _ \<Rightarrow> [])"

text \<open>
  The descriptions are of the tools, in their order, and a tool called without one of the parameters its
  description requires answers with an error message.
\<close>

definition described :: "server \<Rightarrow> bool" where
  "described sv = (map def_name (sv_defs sv) = map (JStr \<circ> fst) (sv_tools sv) \<and> distinct (map fst (sv_tools sv)) \<and>
     (\<forall>d\<in>set (sv_defs sv). \<forall>p f kvs. JStr p \<in> set (def_required d) \<longrightarrow> find_tool sv (def_name d) = Inr (Some f) \<longrightarrow>
        \<not> truthy (lookup_or (JObj kvs) p (JStr [])) \<longrightarrow> (\<exists>msg. f (JObj kvs) = Inr (JObj [(''error'', JStr msg)]))))"

lemma def_simps [simp]:
  "def_name (tool_def name desc props required) = JStr name"
  "def_required (tool_def name desc props required) = map JStr required"
  by (simp_all add: def_name_def def_required_def tool_def_def lookup_or_def)

text \<open>
  both servers describe exactly the tools they have, whatever stands behind them, and a tool that lacks a
  parameter its description calls required says so and sends no query.
\<close>

theorem tools_are_as_described:
  "described (grafana cc gf) \<and> described (prometheus cc now pm am)"
proof
  show "described (grafana cc gf)"
    by (auto simp: described_def grafana_def grafana_defs_def grafana_tools_def find_tool_def
        tool_get_dashboard_def tool_query_datasource_def json_get_object is_object_def bind_def missing_def)
  show "described (prometheus cc now pm am)"
    by (auto simp: described_def prometheus_def prometheus_defs_def prometheus_tools_def find_tool_def
        tool_query_instant_def tool_query_range_def tool_query_label_values_def json_get_object is_object_def
        bind_def missing_def)
qed

section \<open>Parameters without effect\<close>

text \<open>
  The \<open>step\<close> that \<open>query_datasource\<close> describes never reaches Grafana, and \<open>get_alert_state\<close> answers what
  \<open>list_alerts\<close> does, with the rules and not their state.
\<close>

lemma step_and_state_are_not_asked_for:
  "tool_query_datasource gf (JObj ((''step'', v) # kvs)) = tool_query_datasource gf (JObj kvs) \<and>
   tool_get_alert_state gf params = tool_list_alerts gf params"
  by (simp add: tool_query_datasource_def tool_get_alert_state_def tool_list_alerts_def bind_def)

end
