(* ===== verification/Mcp_Kafka.thy ===== *)
theory Mcp_Kafka
  imports Py_Strings "HOL-Library.Char_ord" "HOL-Library.List_Lexorder"
begin

text \<open>
  \<^verbatim>\<open>docker/mcp-kafka/server.py\<close> and \<^verbatim>\<open>docker/mcp-sqlmesh/server.py\<close>: tools over a Kafka cluster and over the
  SQLMesh command line. The Kafka client, the decoding of bytes and the running of a command are
  parameters; a tool answers with a value or with \<open>success: False\<close> and an error.
\<close>

section \<open>Kafka: the connection and the topics\<close>

record kafka_config =
  kf_bootstrap :: string
  kf_security :: string
  kf_mechanism :: string
  kf_user :: string
  kf_pass :: string

definition admin_conf :: "kafka_config \<Rightarrow> (string \<times> string) list" where
  "admin_conf kf =
     [(''bootstrap.servers'', kf_bootstrap kf), (''security.protocol'', kf_security kf),
      (''sasl.mechanism'', kf_mechanism kf), (''sasl.username'', kf_user kf), (''sasl.password'', kf_pass kf),
      (''socket.timeout.ms'', ''10000'')]"

record topic =
  tp_name :: string
  tp_partitions :: nat
  tp_error :: "string option"

definition kafka_list_topics :: "string + topic list \<Rightarrow> string + topic list" where
  "kafka_list_topics metadata = (case metadata of
     Inl exc \<Rightarrow> Inl exc
   | Inr topics \<Rightarrow> Inr (sort_key tp_name (filter (\<lambda>t. \<not> startswith (tp_name t) ''__'') topics)))"

text \<open>Creating and deleting wait for the one future, which raises if the cluster refused.\<close>

definition kafka_create_topic :: "(string \<Rightarrow> nat \<Rightarrow> nat \<Rightarrow> string + unit) \<Rightarrow> string \<Rightarrow> nat \<Rightarrow> nat \<Rightarrow> string + string" where
  "kafka_create_topic create name partitions replication =
     (case create name partitions replication of Inl exc \<Rightarrow> Inl exc | Inr _ \<Rightarrow> Inr name)"

definition kafka_delete_topic :: "(string \<Rightarrow> string + unit) \<Rightarrow> string \<Rightarrow> string + string" where
  "kafka_delete_topic delete name = (case delete name of Inl exc \<Rightarrow> Inl exc | Inr _ \<Rightarrow> Inr name)"

section \<open>Kafka: producing and consuming\<close>

text \<open>
  The delivery callback runs inside \<^verbatim>\<open>flush\<close>, with an error or a partition and an offset, unless ten
  seconds pass first: then it does not run.
\<close>

datatype delivery = Delivery_Error string | Delivered int int | Not_Yet

record produced =
  pd_success :: bool
  pd_delivered :: "(int \<times> int) list"
  pd_errors :: "string list"

definition kafka_produce :: "(string \<Rightarrow> string \<Rightarrow> string option \<Rightarrow> string + delivery) \<Rightarrow> string \<Rightarrow> string \<Rightarrow> string \<Rightarrow> string + produced" where
  "kafka_produce send name message key =
     (case send name message (if key = [] then None else Some key) of
        Inl exc \<Rightarrow> Inl exc
      | Inr d \<Rightarrow>
         (let errors = (case d of Delivery_Error err \<Rightarrow> [err] | _ \<Rightarrow> []);
              delivered = (case d of Delivered p off \<Rightarrow> [(p, off)] | _ \<Rightarrow> []) in
          Inr \<lparr>pd_success = (errors = []), pd_delivered = delivered, pd_errors = errors\<rparr>))"

record kafka_message =
  ms_partition :: int
  ms_offset :: int
  ms_key :: "string option"
  ms_value :: "string option"
  ms_timestamp :: int

datatype kafka_poll = Poll_Empty | Poll_Failed string | Poll_Message kafka_message

text \<open>Bytes that are empty or absent become \<^verbatim>\<open>None\<close>, others are decoded, which may raise.\<close>

definition decode_bytes :: "(string \<Rightarrow> string + string) \<Rightarrow> string option \<Rightarrow> string + string option" where
  "decode_bytes decode b = (case b of None \<Rightarrow> Inr None
     | Some s \<Rightarrow> if s = [] then Inr None else (case decode s of Inl exc \<Rightarrow> Inl exc | Inr t \<Rightarrow> Inr (Some t)))"

definition decode_message :: "(string \<Rightarrow> string + string) \<Rightarrow> kafka_message \<Rightarrow> string + kafka_message" where
  "decode_message decode m = (case decode_bytes decode (ms_key m) of Inl exc \<Rightarrow> Inl exc | Inr k \<Rightarrow>
     (case decode_bytes decode (ms_value m) of Inl exc \<Rightarrow> Inl exc | Inr v \<Rightarrow> Inr (m\<lparr>ms_key := k, ms_value := v\<rparr>)))"

text \<open>The loop, for as many messages as are still wanted; \<open>i\<close> counts the polls.\<close>

fun kafka_consume_loop :: "(string \<Rightarrow> string + string) \<Rightarrow> (nat \<Rightarrow> kafka_poll) \<Rightarrow> nat \<Rightarrow> nat \<Rightarrow> string + kafka_message list" where
  "kafka_consume_loop decode poll 0 i = Inr []"
| "kafka_consume_loop decode poll (Suc n) i = (case poll i of
     Poll_Message m \<Rightarrow> (case decode_message decode m of
         Inl exc \<Rightarrow> Inl exc
       | Inr d \<Rightarrow> (case kafka_consume_loop decode poll n (Suc i) of Inl exc \<Rightarrow> Inl exc | Inr ds \<Rightarrow> Inr (d # ds)))
   | _ \<Rightarrow> Inr [])"

text \<open>The consumer is closed at the end of the loop, and not when a message cannot be decoded.\<close>

definition kafka_consume :: "(string \<Rightarrow> string + string) \<Rightarrow> (nat \<Rightarrow> kafka_poll) \<Rightarrow> int \<Rightarrow> (string + kafka_message list) \<times> bool" where
  "kafka_consume decode poll max_messages =
     (let r = kafka_consume_loop decode poll (nat max_messages) 0 in (r, \<not> isl r))"

record kafka_group =
  kg_id :: string
  kg_state :: string

definition kafka_list_consumer_groups :: "string + kafka_group list \<Rightarrow> string + (string \<times> string) list" where
  "kafka_list_consumer_groups groups = (case groups of
     Inl exc \<Rightarrow> Inl exc | Inr gs \<Rightarrow> Inr (map (\<lambda>g. (kg_id g, kg_state g)) gs))"

definition kafka_cluster_metadata ::
    "string + (int \<times> string \<times> int) list \<times> int \<Rightarrow> string + (int \<times> string \<times> int) list \<times> int" where
  "kafka_cluster_metadata meta = (case meta of Inl exc \<Rightarrow> Inl exc | Inr (brokers, controller) \<Rightarrow> Inr (brokers, controller))"

section \<open>SQLMesh\<close>

datatype command_outcome =
    Completed int string string
  | Command_Timeout
  | Command_Raised string

record sqlmesh_reply =
  sq_success :: bool
  sq_stdout :: "string option"
  sq_stderr :: "string option"
  sq_returncode :: "int option"
  sq_error :: "string option"

definition sqlmesh_failed :: "string \<Rightarrow> sqlmesh_reply" where
  "sqlmesh_failed exc = \<lparr>sq_success = False, sq_stdout = None, sq_stderr = None, sq_returncode = None, sq_error = Some exc\<rparr>"

definition run_sqlmesh :: "string \<Rightarrow> (string list \<Rightarrow> command_outcome) \<Rightarrow> string list \<Rightarrow> sqlmesh_reply" where
  "run_sqlmesh config run args = (case run ([''sqlmesh'', ''--config'', config] @ args) of
     Completed code out err \<Rightarrow> \<lparr>sq_success = (code = 0), sq_stdout = Some out, sq_stderr = Some err,
       sq_returncode = Some code, sq_error = None\<rparr>
   | Command_Timeout \<Rightarrow> sqlmesh_failed ''Command timed out after 120s''
   | Command_Raised exc \<Rightarrow> sqlmesh_failed exc)"

definition option_args :: "string \<Rightarrow> string \<Rightarrow> string list" where
  "option_args flag v = (if v = [] then [] else [flag, v])"

definition sqlmesh_plan_args :: "string \<Rightarrow> string \<Rightarrow> string \<Rightarrow> bool \<Rightarrow> string list" where
  "sqlmesh_plan_args environment start until auto_apply =
     [''plan'', environment] @ option_args ''--start'' start @ option_args ''--end'' until @
     (if auto_apply then [''--auto-apply''] else [])"

definition sqlmesh_run_args :: "string \<Rightarrow> string list" where
  "sqlmesh_run_args environment = [''run'', environment]"

definition sqlmesh_audit_args :: "string \<Rightarrow> string list" where
  "sqlmesh_audit_args model = [''audit''] @ option_args ''--model'' model"

definition sqlmesh_test_args :: "string \<Rightarrow> string list" where
  "sqlmesh_test_args model = [''test''] @ (if model = [] then [] else [model])"

definition sqlmesh_diff_args :: "string \<Rightarrow> string list" where
  "sqlmesh_diff_args environment = [''diff'', environment]"

text \<open>The query goes through a temporary file, which is removed whatever the command does.\<close>

definition sqlmesh_fetchdf ::
    "string \<Rightarrow> (string list \<Rightarrow> (string \<times> string) list \<Rightarrow> command_outcome) \<Rightarrow> string \<Rightarrow> string \<Rightarrow> (string \<times> string) list \<Rightarrow>
      sqlmesh_reply \<times> (string \<times> string) list" where
  "sqlmesh_fetchdf config run tmpfile sql files =
     (let files1 = (tmpfile, sql) # files;
          result = run_sqlmesh config (\<lambda>cmd. run cmd files1) [''fetchdf'', tmpfile] in
      (result, filter (\<lambda>(f, _). f \<noteq> tmpfile) files1))"

section \<open>What the Kafka tools report\<close>

text \<open>The messages that the first \<open>n\<close> polls from \<open>i\<close> on bring before one that is empty or failed.\<close>

definition brings :: "kafka_poll \<Rightarrow> kafka_message option" where
  "brings p = (case p of Poll_Message m \<Rightarrow> Some m | _ \<Rightarrow> None)"

definition before_gap :: "(nat \<Rightarrow> kafka_poll) \<Rightarrow> nat \<Rightarrow> nat \<Rightarrow> kafka_message list" where
  "before_gap poll i n = List.map_filter brings (takeWhile (\<lambda>p. brings p \<noteq> None) (map poll [i..<i + n]))"

lemma before_gap_step:
  "before_gap poll i 0 = []"
  "before_gap poll i (Suc n) = (case brings (poll i) of None \<Rightarrow> [] | Some m \<Rightarrow> m # before_gap poll (Suc i) n)"
  by (simp_all add: before_gap_def map_filter_simps upt_conv_Cons del: upt_Suc split: option.split)

lemma kafka_consume_messages:
  "case kafka_consume_loop decode poll n i of
     Inl exc \<Rightarrow> \<exists>m\<in>set (before_gap poll i n). decode_message decode m = Inl exc
   | Inr ds \<Rightarrow> list_all2 (\<lambda>m d. decode_message decode m = Inr d) (before_gap poll i n) ds"
proof (induction n arbitrary: i)
  case (Suc n)
  show ?case using Suc.IH[of "Suc i"]
    by (auto simp: before_gap_step brings_def split: kafka_poll.splits sum.splits)
qed (simp add: before_gap_step)

lemma before_gap_length: "length (before_gap poll i n) \<le> n"
  by (induction n arbitrary: i) (auto simp: before_gap_step split: option.split)

text \<open>
  the tool returns, decoded and in order, exactly the messages its polls brought before the first that was
  empty or failed, and at most as many as were asked for; it fails exactly when one of them cannot be
  decoded, and then the consumer is left open.
\<close>

theorem consume_returns_messages_before_gap:
  "case kafka_consume decode poll max_messages of
     (Inl exc, closed) \<Rightarrow> \<not> closed \<and> (\<exists>m\<in>set (before_gap poll 0 (nat max_messages)). decode_message decode m = Inl exc)
   | (Inr ds, closed) \<Rightarrow> closed \<and> length ds \<le> nat max_messages \<and>
       list_all2 (\<lambda>m d. decode_message decode m = Inr d) (before_gap poll 0 (nat max_messages)) ds"
  using kafka_consume_messages[where decode = decode and poll = poll and n = "nat max_messages" and i = 0] before_gap_length[of poll 0 "nat max_messages"]
  by (auto simp: kafka_consume_def Let_def dest: list_all2_lengthD split: sum.splits)

text \<open>
  a message of which nothing was heard when the ten seconds were over is reported as a success, with no
  delivery and no error; only then does a success have no delivery.
\<close>

theorem unconfirmed_message_is_a_success:
  "(\<exists>r. kafka_produce send name msg key = Inr r \<and> pd_success r \<and> pd_delivered r = []) \<longleftrightarrow>
     send name msg (if key = [] then None else Some key) = Inr Not_Yet"
  by (auto simp: kafka_produce_def Let_def split: sum.splits delivery.splits)

end
