(* ===== verification/Spec2Isabelle.thy ===== *)
theory Spec2Isabelle
  imports Catalog_Api Ddl_Report Rename_Facts E2e_Verdict Stress_Oracle Graph_Node Graph_Cache Graph_Uncached Duckdb_Server Iceberg_Live Graph_Watermark Token_Life Node_Cordon Customer_Rows Notebook_Tables Mcp_Protocol Mcp_Kafka
begin

text \<open>
  A verification library for the Python programs of this repository that carry logic of their own:
  the Star Knowledge Catalog, a FastAPI service that tags the columns of a Stardata (StarRocks)
  lakehouse and masks them by role (\<^verbatim>\<open>star-knowledge-catalog/catalog\<close>); the two tools that carry schema
  changes into the Iceberg tables of the CDC pipeline (\<^verbatim>\<open>scripts/ddl_extract.py\<close>, which reads them, and
  \<^verbatim>\<open>scripts/ddl_apply.py\<close>, which applies them); the graph services over DuckDB and Memgraph
  (\<^verbatim>\<open>docker/duckdb\<close>); the three drivers that test the pipeline end to end (\<^verbatim>\<open>scripts/ddl_e2e_test.py\<close> and its
  siblings); the Databricks notebooks that read Iceberg tables (\<^verbatim>\<open>docker/databricks-notebooks\<close>);
  the proxy that authenticates to Polaris, the monitor that cordons Kubernetes nodes, and the MCP servers.

  THE CATALOG

  The service keeps its tables in PostgreSQL, caches in process and in Redis, and issues
  statements to Stardata. The state of a running catalog is the record \<open>world\<close>: the tables
  (\<open>catalog\<close>), the in-process cache, and the log of the statements sent to Stardata, each with
  whether it was accepted. A handler maps a request and a \<open>world\<close> to an answer or an error and a new \<open>world\<close>. Everything the service
  learns from outside (the metadata and refusals of Stardata, the RBAC control plane, md5) is
  a field of the record \<open>ext\<close>, and the JWT library is the record \<open>jwt_lib\<close>; no property depends on
  what they answer except by a hypothesis that says so.

  \<^item> \<open>Catalog_Prelude\<close>, \<open>Py_Strings\<close>, \<open>Py_Float\<close>: results of fallible operations, dictionaries as
    association lists, Python strings, and IEEE doubles for the scores. A score is a natural
    number of units of 2 to the -56, the grid of every double from 2 to the -4 up to 2, with rounding to
    nearest even written out.
  \<^item> \<open>Row_Store\<close>, \<open>Catalog_Schema\<close>: tables with their id sequences, the rows of \<^verbatim>\<open>models.py\<close>, the
    request bodies and validators of \<^verbatim>\<open>schemas.py\<close>, the settings of \<^verbatim>\<open>config.py\<close>. \<open>schema_ok\<close> is the
    conjunction of the unique, foreign key, not-null and check constraints.
  \<^item> \<open>Ttl_Cache\<close>: \<^verbatim>\<open>database.py\<close>, the TTL-LRU cache and its two-level use. The cache meets the locale
    \<open>local_store\<close>. The Redis SCAN loop may never see cursor 0 again: it is a partial function to
    \<open>option\<close>, and a handler only needs that a failing Redis is logged and passed over.
  \<^item> \<open>Stardata_Service\<close>: statements, \<open>ext\<close>, the privileges a log of statements leaves (\<open>has_priv\<close>
    folds over the log), and \<open>commit\<close>, the commit or rollback of \<^verbatim>\<open>db_session\<close>.
  \<^item> \<open>Classifier\<close>: \<^verbatim>\<open>engine/classifier.py\<close>. Stage 1 in closed form, the arbitration of stage 2 as a
    decision table, soundness of every match, and what the ranking leaves out.
  \<^item> \<open>Masking_Engine\<close>: \<^verbatim>\<open>engine/masking.py\<close>, \<^verbatim>\<open>engine/rbac_client.py\<close>, \<^verbatim>\<open>routers/masking.py\<close>. Policy
    resolution against its specification, the text of the view, the lockdown of the base table
    and the atomicity of applying a view.
  \<^item> \<open>Query_Planner\<close>: base table or masked view for a user, and the SQL returned.
  \<^item> \<open>Role_Exceptions\<close>, \<open>Governance_Switch\<close>, \<open>Column_Tags\<close>, \<open>Catalog_Crud\<close>: the routers. Each
    handler has a lemma that lists its outcomes; the switch refines a map from databases to
    booleans (locale \<open>circuit_breaker\<close>), and the four CRUD routers meet one contract (locale
    \<open>named_resource\<close>, interpreted four times).
  \<^item> \<open>Access_Scopes\<close>: \<^verbatim>\<open>middleware/auth.py\<close> and the token exchange of \<^verbatim>\<open>routers/auth.py\<close>.
  \<^item> \<open>Catalog_Api\<close>: one constructor of \<open>request\<close> per route, \<open>api_step\<close> (scope check, validation,
    handler, the handler of unexpected exceptions) and the states \<open>reachable\<close> by it, over which the
    constraints are an invariant and the scopes bound what changes.
  \<^item> \<open>Demo_State\<close>: a small catalog and services on which the witnesses evaluate.

  THE DDL EXECUTOR

  The executor stops the streaming deployments of a source, alters the Iceberg tables with
  spark-sql in some running pod, verifies, restores the replicas and can replay Kafka. It has
  no state of its own but what subprocesses answer; a run extends a trace of commands with their
  results, and the record \<open>env\<close> answers each command from the trace before it.

  \<^item> \<open>Ddl_Apply\<close>: the operations as functions from \<open>run_state\<close> (trace and clock) to a value or a
    raised exception and a new \<open>run_state\<close>; \<open>apply_ddl\<close> is the six-step cycle and \<open>check_args\<close> the
    validation in \<^verbatim>\<open>main\<close>. The polling loops are total because every round sleeps \<open>poll_secs\<close> and no command moves
    the clock back; no fuel is needed.
  \<^item> \<open>Ddl_Trace\<close>: which commands an operation issues (\<open>emits\<close>, and the locale \<open>entry_class\<close> for the
    operations that only read), the replica count last set, and assertions on the trace.
  \<^item> \<open>Ddl_Cycle\<close>: the statements run on stopped deployments only; when the cycle returns the
    replicas are back; a dry run reads only; success means every statement was applied; a
    spark-sql timeout leaves the deployments stopped; and a rename to a name that contains the old one is
    never verified.
  \<^item> \<open>Ddl_Cli\<close>: the command line from the words of the shell to the exit status, with the rules of
    \<^verbatim>\<open>argparse\<close> for the options the program has. Unconfirmed runs only read. The last section composes the two tools: what
    \<^verbatim>\<open>ddl_extract.py\<close> prints, \<^verbatim>\<open>ddl_apply.py\<close> accepts as a request for the change that was read.

  THE DDL EXTRACTOR

  \<^item> \<open>Py_Text\<close>, \<open>Py_Regex\<close>, \<open>Py_Search\<close>: the part of Python's \<^verbatim>\<open>re\<close> that the programs use, as a data type of
    expressions and a backtracking matcher with its order of preference; \<open>rx_match\<close> is the declarative
    meaning it is proved against, and \<open>rx_first\<close> says which match is found first.
  \<^item> \<open>Ddl_Extract\<close>: the type maps, the expressions, both parsers, the commands and the consumer. The
    consumer's loop is a partial function to \<open>option\<close>, where \<open>None\<close> is a loop that never ends.
  \<^item> \<open>Ddl_Parse\<close>: parsing inverts printing, and what the expressions misread. \<open>Ddl_Types\<close>: all changes read are well
    formed. \<open>Ddl_Consume\<close>: the loop against a specification over the sequence of polls, when it
    returns, how much, and when it never does.
  \<^item> \<open>Py_Argparse\<close>, \<open>Py_Textwrap\<close>: the option parser both tools use, and \<^verbatim>\<open>textwrap.wrap\<close> with what it keeps.
    \<open>Ddl_Report\<close>: the report line by line, the credentials and the run from the command line to the exit; a printed
    command that is broken over lines does nothing, and every run ends.

  THE GRAPH SERVICES

  \<^item> \<open>Graph_Cypher\<close>: the translator of \<^verbatim>\<open>stargraph_sql_proxy.py\<close>, with \<open>Graph_Translate\<close> (its pieces) and \<open>Graph_Node\<close>
    (node queries).
  \<^item> \<open>Graph_Pipeline\<close>: its handlers over \<open>services\<close>, which answers for DuckDB's server and Memgraph, and
    \<open>graph_world\<close>, which holds Memgraph's state and the calls made. \<open>Graph_Cache\<close>: the scope of a query, eviction, what a cache hit
    depends on, and the catalog tree.
  \<^item> \<open>Graph_Uncached\<close>: the pipeline of the older copy under \<^verbatim>\<open>manifests/duckdb\<close>, which loads, reads and deletes in
    one request; on a cache miss both give the same graph.
  \<^item> \<open>Duckdb_Server\<close>: the one connection of \<^verbatim>\<open>duckdb_server.py\<close> and when it is replaced.
  \<^item> \<open>Graph_Loader\<close>: \<^verbatim>\<open>stargraph_iceberg_engine.py\<close>, the batches, the watermarks and the four loaders over \<open>load_world\<close>,
    which holds the watermark files and the batches written. \<open>Graph_Watermark\<close>: over incremental runs no row of a
    node table is lost (locale \<open>node_target\<close>, interpreted for the three node loaders), and how edges are.

  THE NOTEBOOKS

  \<^item> \<open>Iceberg_Reader\<close>: \<^verbatim>\<open>nb_multi_table_auto_reader.py\<close>, from discovery to the refreshed tables, over an object
    store that answers listings and reads. \<open>Iceberg_Live\<close>: which files count as live, against the
    status codes of the Iceberg format, and what the survey makes of each table.
  \<^item> \<open>Customer_Refresh\<close>: \<^verbatim>\<open>nb_customer_test_refresh.py\<close>, from the metadata through manifests and position deletes to the
    Delta table and its view. \<open>Customer_Rows\<close>: the rows published, and what a failed refresh leaves.
  \<^item> \<open>Notebook_Catalog\<close>: \<^verbatim>\<open>nb_pyiceberg_catalog.py\<close>, discovery, the copies to Delta, append, delete and update over a
    catalog that is a parameter. \<open>Notebook_Tables\<close>: what is registered, and where the simulated statements
    differ from those of SQL.

  THE OPERATIONAL PROGRAMS

  \<^item> \<open>Token_Proxy\<close>: \<^verbatim>\<open>polaris_auth_proxy.py\<close>. The token manager is the step relation \<open>manager_step\<close> over clock readings
    and answers of Polaris; \<open>forward\<close> is one request through the proxy. \<open>Token_Life\<close>: the tokens handed out,
    the spacing of refreshes, and the headers forwarded.
  \<^item> \<open>Py_Double\<close>, \<open>Node_Monitor\<close>: \<^verbatim>\<open>node-pressure-monitor.py\<close> on doubles as rational numbers rounded to 53 bits. The loop that
    never ends is \<open>poll_rounds\<close>, its first rounds for any number of them. \<open>Node_Cordon\<close>: what is patched, what a poll
    leaves, how an unreadable quantity blocks the rest, and that the default threshold is decided exactly.
  \<^item> \<open>Mcp_Server\<close>, \<open>Mcp_Kafka\<close>: the JSON-RPC handlers and tools of \<^verbatim>\<open>mcp-grafana\<close> and \<^verbatim>\<open>mcp-prometheus\<close>, and the tools of
    \<^verbatim>\<open>mcp-kafka\<close> and \<^verbatim>\<open>mcp-sqlmesh\<close>. \<open>Mcp_Protocol\<close>: which requests are answered, and that the descriptions are true.

  THE TEST DRIVERS

  A driver changes a column in the three sources, writes rows and then asks Iceberg what has arrived. All it does is a
  subprocess, so a step maps a \<open>test_session\<close> (the trace of commands with their results, the clock, the checks recorded, the flags of Spark
  kept) to a value or a raised exception and a new session; the record \<open>host\<close> answers a command from the trace
  before it. \<open>chain\<close>, \<open>rescue\<close> and \<open>attempted\<close> are sequence and the two forms of \<^verbatim>\<open>try\<close> the drivers use.

  \<^item> \<open>Test_Shell\<close>: commands, steps and the helpers the drivers share, and the locale \<open>session_order\<close> for a relation every step keeps,
    interpreted for time that passes and for traces and checks that only grow. \<open>Test_Polling\<close>: the polling loop, which ends because each
    round sleeps. \<open>Test_Facts\<close>: blocks of keys, the locale \<open>timed_order\<close> for steps with one outcome, and what a poll has seen.
  \<^item> \<open>Rename_Test\<close>, \<open>Rename_Main\<close>: \<^verbatim>\<open>ddl_rename_test.py\<close>. \<open>Rename_Facts\<close>: its keys are all different, and renamings that all fail pass.
  \<^item> \<open>E2e_Test\<close>: \<^verbatim>\<open>ddl_e2e_test.py\<close>. \<open>E2e_Facts\<close>: the exact account of the cycles, and that rows never written are not missed. \<open>E2e_Verdict\<close>: what
    exit status 0 shows, and a run that has it.
  \<^item> \<open>Stress_Test\<close>: \<^verbatim>\<open>ddl_stress_test.py\<close>. \<open>Stress_Facts\<close>: the counters, and what the verdict leaves out. \<open>Stress_Oracle\<close>: the
    drops counted in Oracle are never sent, and what the shell makes of the statements.

  ORDER OF WORK AND WHAT IS LEFT OUT

  Each component was modelled in the order data, operations, outcomes, properties. Texts that
  only go to a log or a terminal are left out, as are timestamps no operation reads, the
  creation of connections, CORS, the health probe and the DDL of the catalog's own tables.
  Concurrent requests are not modelled: a step of \<open>api_step\<close> is one request, with its
  transactions in the order the handler commits them. Characters are the 256 of HOL; non-ASCII
  punctuation in messages stands as its UTF-8 bytes, and case folding and digits are those of ASCII. The programs that \<^verbatim>\<open>ddl_apply.py\<close> sends into a pod, the S3
  checkpoint and the OpenBao secrets are answered by the environment.

  Not modelled: of the older copies under \<^verbatim>\<open>manifests/duckdb\<close>, all but the uncached pipeline, since
  \<^verbatim>\<open>stargraph_iceberg_engine.py\<close> is the same text as its original, \<^verbatim>\<open>duckdb_server.py\<close> differs in the set-up of the connection
  and the translator of \<^verbatim>\<open>stargraph_sql_proxy.py\<close> is the one modelled; the set-up of a DuckDB connection; the notebook cells that
  call Spark or show frames without a decision of their own; and the load generators and verification scripts (\<^verbatim>\<open>scripts/perf_*\<close>, \<^verbatim>\<open>scripts/tmp_*\<close>,
  \<^verbatim>\<open>check_kafka.py\<close>, \<^verbatim>\<open>decode_kafka.py\<close>), which run fixed statements against live services and print what comes back. In the test drivers the connection
  strings are parameters of a run (how they are built from the secrets is modelled), and a program sent into a pod is a command with
  the values it carries; its answer comes from \<open>host\<close>.
\<close>

end
